(* ===== verification/Prelude.thy ===== *)
theory Prelude
  imports Main "HOL-Library.Word"
begin

text \<open>
  Shared material of the development: the type names of the code's machine types, error
  results with their bind, C buffers (byte lists read with \<open>peek\<close> and written with \<open>poke\<close>),
  memory obtained from the allocator, and the generic list lemmas the components use.
  Collections: \<open>buf_simps\<close> (reads and writes of buffers), \<open>bind_simps\<close> (error results).
\<close>

unbundle bit_operations_syntax

named_theorems buf_simps
named_theorems bind_simps

type_synonym byte = "8 word"
type_synonym uint16 = "16 word"
type_synonym uint32 = "32 word"
type_synonym uint64 = "64 word"

section \<open>Error results\<close>

text \<open>\<open>Inl\<close> is an early exit of the code (with its reason), \<open>Inr\<close> the normal continuation.\<close>

fun bindE :: "'e + 'a \<Rightarrow> ('a \<Rightarrow> 'e + 'b) \<Rightarrow> 'e + 'b" where
  "bindE (Inl e) f = Inl e"
| "bindE (Inr a) f = f a"

lemma bindE_Inr_iff [bind_simps]:
  "bindE m f = Inr b \<longleftrightarrow> (\<exists>a. m = Inr a \<and> f a = Inr b)"
  by (cases m) auto

lemma bindE_Inl_iff:
  "bindE m f = Inl e \<longleftrightarrow> m = Inl e \<or> (\<exists>a. m = Inr a \<and> f a = Inl e)"
  by (cases m) auto

lemma bindE_assoc: "bindE (bindE m f) g = bindE m (\<lambda>a. bindE (f a) g)"
  by (cases m) auto

definition guardE :: "'e \<Rightarrow> bool \<Rightarrow> 'e + unit" where
  "guardE e b = (if b then Inr () else Inl e)"

lemma guardE_simps [simp]:
  "guardE e True = Inr ()" "guardE e False = Inl e"
  by (simp_all add: guardE_def)

lemma guardE_Inr_iff [bind_simps]: "guardE e b = Inr u \<longleftrightarrow> b"
  by (simp add: guardE_def)

section \<open>Buffers\<close>

text \<open>A read of \<open>n\<close> bytes at offset \<open>off\<close>, and a store of \<open>bs\<close> at \<open>off\<close>, of a buffer they fit in.\<close>

definition peek :: "nat \<Rightarrow> nat \<Rightarrow> 'a list \<Rightarrow> 'a list" where
  "peek off n buf = take n (drop off buf)"

definition poke :: "nat \<Rightarrow> 'a list \<Rightarrow> 'a list \<Rightarrow> 'a list" where
  "poke off bs buf = take off buf @ bs @ drop (off + length bs) buf"

lemma length_peek [buf_simps, simp]:
  "off + n \<le> length buf \<Longrightarrow> length (peek off n buf) = n"
  by (simp add: peek_def)

lemma length_poke [buf_simps, simp]:
  "off + length bs \<le> length buf \<Longrightarrow> length (poke off bs buf) = length buf"
  by (simp add: poke_def)

lemma peek_poke_same [buf_simps]:
  assumes "off + length bs \<le> length buf"
  shows "peek off (length bs) (poke off bs buf) = bs"
  using assms by (simp add: peek_def poke_def)

lemma peek_poke_before [buf_simps]:
  assumes "a + n \<le> off" and "off + length bs \<le> length buf"
  shows "peek a n (poke off bs buf) = peek a n buf"
proof -
  have "drop a (take off buf) = take (off - a) (drop a buf)"
    by (simp add: drop_take)
  with assms show ?thesis
    by (simp add: peek_def poke_def)
qed

lemma peek_poke_after [buf_simps]:
  assumes "off + length bs \<le> a" and "off + length bs \<le> length buf"
  shows "peek a n (poke off bs buf) = peek a n buf"
proof -
  have "drop a (take off buf @ bs @ drop (off + length bs) buf)
      = drop (a - off - length bs) (drop (off + length bs) buf)"
    using assms by (simp add: min_def)
  also have "\<dots> = drop a buf"
    using assms by simp
  finally show ?thesis
    by (simp add: peek_def poke_def)
qed

lemma peek_take: "a + n \<le> m \<Longrightarrow> peek a n (take m buf) = peek a n buf"
  by (simp add: peek_def drop_take)

lemma peek_append1 [buf_simps]: "a + n \<le> length xs \<Longrightarrow> peek a n (xs @ ys) = peek a n xs"
  by (simp add: peek_def)

lemma peek_append2: "length xs \<le> a \<Longrightarrow> peek a n (xs @ ys) = peek (a - length xs) n ys"
  by (simp add: peek_def)

lemma peek_peek: "a + n \<le> m \<Longrightarrow> peek a n (peek off m buf) = peek (off + a) n buf"
  by (simp add: peek_def drop_take add.commute min_def)

lemma peek_0: "peek a 0 buf = []"
  by (simp add: peek_def)

lemma peek_Suc: "peek (Suc off) n buf = tl (peek off (Suc n) buf)"
  by (simp add: peek_def drop_Suc tl_take tl_drop)

lemma peek_all: "length buf = n \<Longrightarrow> peek 0 n buf = buf"
  by (simp add: peek_def)

lemma peek_split: "peek a (m + n) buf = peek a m buf @ peek (a + m) n buf"
  by (simp add: peek_def take_add add.commute)

text \<open>A table of \<open>m\<close> fields of \<open>w\<close> bytes, read field by field.\<close>

lemma peek_table:
  "(\<forall>k < m. peek (a + w * k) w buf = f k) \<Longrightarrow> peek a (w * m) buf = concat (map f [0..<m])"
proof (induction m)
  case 0
  then show ?case by (simp add: peek_0)
next
  case (Suc m)
  have "w * Suc m = w * m + w" by simp
  with Suc show ?case by (simp only: peek_split) simp
qed

section \<open>Memory from the allocator\<close>

text \<open>
  Fresh memory holds arbitrary bytes: \<open>junk i\<close> is the byte found at offset \<open>i\<close>. \<open>reallocf\<close>
  keeps what fits of the old contents.
\<close>

definition malloc_bytes :: "(nat \<Rightarrow> 'a) \<Rightarrow> nat \<Rightarrow> 'a list" where
  "malloc_bytes junk n = map junk [0..<n]"

definition reallocf :: "(nat \<Rightarrow> 'a) \<Rightarrow> 'a list \<Rightarrow> nat \<Rightarrow> 'a list" where
  "reallocf junk buf n = take n buf @ map junk [length buf..<n]"

lemma length_malloc_bytes [buf_simps, simp]: "length (malloc_bytes junk n) = n"
  by (simp add: malloc_bytes_def)

lemma length_reallocf [buf_simps, simp]: "length (reallocf junk buf n) = n"
  by (simp add: reallocf_def)

lemma peek_reallocf [buf_simps]:
  "a + k \<le> length buf \<Longrightarrow> a + k \<le> n \<Longrightarrow> peek a k (reallocf junk buf n) = peek a k buf"
  by (cases "n \<le> length buf") (simp_all add: reallocf_def peek_append1 peek_take)

section \<open>Lists\<close>

definition sum_len :: "'a list list \<Rightarrow> nat" where
  "sum_len xss = sum_list (map length xss)"

lemma sum_len_simps [simp]:
  "sum_len [] = 0" "sum_len (xs # xss) = length xs + sum_len xss"
  "sum_len (xss @ yss) = sum_len xss + sum_len yss"
  by (simp_all add: sum_len_def)

lemma sum_len_take_le: "sum_len (take k xss) \<le> sum_len xss"
proof -
  have "sum_len xss = sum_len (take k xss @ drop k xss)" by simp
  then show ?thesis by (simp only: sum_len_simps)
qed

lemma sum_len_take_Suc:
  "k < length xss \<Longrightarrow> sum_len (take (Suc k) xss) = sum_len (take k xss) + length (xss ! k)"
  by (simp add: take_Suc_conv_app_nth)

lemma sum_len_take_nth_le:
  "k < length xss \<Longrightarrow> sum_len (take k xss) + length (xss ! k) \<le> sum_len xss"
  using sum_len_take_le [of "Suc k" xss] by (simp add: sum_len_take_Suc)

lemma length_concat_sum_len: "length (concat xss) = sum_len xss"
  by (induction xss) auto

text \<open>The segments of a concatenation, at their offsets.\<close>

lemma peek_concat_nth:
  "k < length xss \<Longrightarrow> peek (sum_len (take k xss)) (length (xss ! k)) (concat xss @ ys) = xss ! k"
proof (induction xss arbitrary: k)
  case Nil
  then show ?case by simp
next
  case (Cons xs xss)
  then show ?case
    by (cases k) (simp_all add: peek_append1 peek_all peek_append2)
qed

end
