(* ===== verification/ByteCodec.thy ===== *)
theory ByteCodec
  imports Prelude
begin

text \<open>
  Integers in memory and on disk: little- and big-endian fields of a fixed width, as the
  code stores them with \<open>OSSwapHostTo{Big,Little}Int{16,32,64}\<close> / \<open>Endian*\<close> through a pointer
  into a buffer. The interface \<open>byte_codec\<close> states what a field encoding promises; its
  client lemmas (read after store, read past another store) are proved once and
  interpreted for the six encodings the code uses.
\<close>

section \<open>Endian encodings\<close>

fun le_bytes :: "nat \<Rightarrow> nat \<Rightarrow> byte list" where
  "le_bytes 0 n = []"
| "le_bytes (Suc k) n = word_of_nat n # le_bytes k (n div 256)"

fun le_val :: "byte list \<Rightarrow> nat" where
  "le_val [] = 0"
| "le_val (b # bs) = unat b + 256 * le_val bs"

definition be_bytes :: "nat \<Rightarrow> nat \<Rightarrow> byte list" where
  "be_bytes k n = rev (le_bytes k n)"

definition be_val :: "byte list \<Rightarrow> nat" where
  "be_val bs = le_val (rev bs)"

lemma length_le_bytes [simp]: "length (le_bytes k n) = k"
  by (induction k arbitrary: n) auto

lemma length_be_bytes [simp]: "length (be_bytes k n) = k"
  by (simp add: be_bytes_def)

lemma unat_word_of_nat_byte: "unat (word_of_nat n :: byte) = n mod 256"
  by (simp add: unat_of_nat)

lemma le_val_le_bytes: "le_val (le_bytes k n) = n mod 256 ^ k"
proof (induction k arbitrary: n)
  case 0
  then show ?case by simp
next
  case (Suc k)
  have "n mod 256 ^ Suc k = 256 * (n div 256 mod 256 ^ k) + n mod 256"
    by (simp add: mod_mult2_eq)
  with Suc show ?case
    by (simp add: unat_word_of_nat_byte)
qed

lemma be_val_be_bytes: "be_val (be_bytes k n) = n mod 256 ^ k"
  by (simp add: be_val_def be_bytes_def le_val_le_bytes)

lemma le_val_bound: "le_val bs < 256 ^ length bs"
proof (induction bs)
  case Nil
  then show ?case by simp
next
  case (Cons b bs)
  have "unat b < 256" using unsigned_less [of b] by simp
  moreover have "256 * (le_val bs + 1) \<le> 256 * 256 ^ length bs"
    using Cons.IH by (intro mult_le_mono2) simp
  ultimately show ?case by simp
qed

section \<open>The interface of a field encoding\<close>

locale byte_codec =
  fixes enc :: "'a \<Rightarrow> byte list"
    and dec :: "byte list \<Rightarrow> 'a"
    and width :: nat
    and fits :: "'a \<Rightarrow> bool"
  assumes enc_width: "length (enc x) = width"
    and dec_enc: "fits x \<Longrightarrow> dec (enc x) = x"
begin

lemma read_stored:
  assumes "off + width \<le> length buf" and "fits x"
  shows "dec (peek off width (poke off (enc x) buf)) = x"
  using assms peek_poke_same [of off "enc x" buf] by (simp add: enc_width dec_enc)

lemma stored_width:
  "off + width \<le> length buf \<Longrightarrow> length (poke off (enc x) buf) = length buf"
  by (simp add: enc_width)

lemma read_frame:
  assumes "off + width \<le> length buf" and "a + n \<le> off \<or> off + width \<le> a"
  shows "peek a n (poke off (enc x) buf) = peek a n buf"
  using assms by (auto simp: enc_width peek_poke_before peek_poke_after)

end

interpretation le32: byte_codec "le_bytes 4" le_val 4 "\<lambda>n. n < 2 ^ 32"
  by unfold_locales (simp_all add: le_val_le_bytes)

interpretation le64: byte_codec "le_bytes 8" le_val 8 "\<lambda>n. n < 2 ^ 64"
  by unfold_locales (simp_all add: le_val_le_bytes)

interpretation be16: byte_codec "be_bytes 2" be_val 2 "\<lambda>n. n < 2 ^ 16"
  by unfold_locales (simp_all add: be_val_be_bytes)

interpretation be32: byte_codec "be_bytes 4" be_val 4 "\<lambda>n. n < 2 ^ 32"
  by unfold_locales (simp_all add: be_val_be_bytes)

interpretation be64: byte_codec "be_bytes 8" be_val 8 "\<lambda>n. n < 2 ^ 64"
  by unfold_locales (simp_all add: be_val_be_bytes)

end
