(* ===== verification/FsTypes.thy ===== *)
theory FsTypes
  imports Complex_Main ByteCodec
begin

text \<open>
  The data shared by the tools: \<open>struct folder_info\<close> and the compression types
  (src/fsctool.h), the fields of \<open>struct stat\<close> the code reads, and the mode and flag bits of
  the BSD headers. \<open>long long\<close> counters are \<open>int\<close>; a \<open>double\<close> is a \<open>real\<close>; a C string is a
  \<open>string\<close> without its terminator; a NULL-able pointer to a list is an \<open>option\<close>.
\<close>

section \<open>Compression types and settings\<close>

datatype compression_type = NONE | ZLIB | LZVN | LZFSE | ZFS

record filetype_info =
  filetype :: string
  extensions :: "string list"
  extensionssize :: nat
  ft_uncompressed_size :: int
  ft_uncompressed_size_rounded :: int
  ft_compressed_size :: int
  ft_compressed_size_rounded :: int
  ft_compattr_size :: int
  ft_total_size :: int
  ft_num_compressed :: int
  ft_num_files :: int
  ft_num_hard_link_files :: int

record folder_info =
  uncompressed_size :: int
  uncompressed_size_rounded :: int
  compressed_size :: int
  compressed_size_rounded :: int
  compattr_size :: int
  total_size :: int
  num_compressed :: int
  num_files :: int
  num_hard_link_files :: int
  num_folders :: int
  num_hard_link_folders :: int
  maxSize :: int
  data_compressed_size :: int
  print_info :: int
  compressiontype :: compression_type
  compressionlevel :: int
  minSavings :: real
  print_files :: bool
  compress_files :: bool
  allowLargeBlocks :: bool
  check_files :: bool
  check_hard_links :: bool
  follow_sym_links :: bool
  filetypes :: "filetype_info list"
  filetypessize :: nat
  filetypeslist :: "string list option"
  invert_filetypelist :: bool
  backup_file :: bool
  onAPFS :: bool
  z_compression :: string

section \<open>File status\<close>

record stat =
  st_mode :: uint16
  st_size :: int
  st_blocks :: int
  st_blksize :: int
  st_flags :: uint32
  st_ino :: nat
  st_nlink :: nat
  st_atimespec :: "int \<times> int"
  st_mtimespec :: "int \<times> int"

definition S_IFMT :: uint16 where "S_IFMT = 0xF000"
definition S_IFREG :: uint16 where "S_IFREG = 0x8000"
definition S_IFDIR :: uint16 where "S_IFDIR = 0x4000"
definition S_IFLNK :: uint16 where "S_IFLNK = 0xA000"
definition S_IWUSR :: uint16 where "S_IWUSR = 0x80"
definition S_IRUSR :: uint16 where "S_IRUSR = 0x100"
definition UF_COMPRESSED :: uint32 where "UF_COMPRESSED = 0x20"
definition S_BLKSIZE :: int where "S_BLKSIZE = 512"

definition S_ISREG :: "uint16 \<Rightarrow> bool" where "S_ISREG m \<longleftrightarrow> m AND S_IFMT = S_IFREG"
definition S_ISDIR :: "uint16 \<Rightarrow> bool" where "S_ISDIR m \<longleftrightarrow> m AND S_IFMT = S_IFDIR"
definition S_ISLNK :: "uint16 \<Rightarrow> bool" where "S_ISLNK m \<longleftrightarrow> m AND S_IFMT = S_IFLNK"

lemmas stat_bits = S_IFMT_def S_IFREG_def S_IFDIR_def S_IFLNK_def S_IWUSR_def S_IRUSR_def
  UF_COMPRESSED_def S_ISREG_def S_ISDIR_def S_ISLNK_def

text \<open>The times a tool restores: seconds and microseconds, from the nanoseconds of \<open>stat\<close>.\<close>

definition usec_times :: "stat \<Rightarrow> (int \<times> int) \<times> (int \<times> int)" where
  "usec_times st =
     ((fst (st_atimespec st), snd (st_atimespec st) div 1000),
      (fst (st_mtimespec st), snd (st_mtimespec st) div 1000))"

end
