(* ===== verification/Decmpfs.thy ===== *)
theory Decmpfs
  imports FsTypes
begin

text \<open>
  The decmpfs on-disk format as src/afsctool.h, src/private/decmpfs.h and src/afsctool.c use
  it: the numeric compression types, the disk header of the \<open>com.apple.decmpfs\<close> attribute,
  the block count of a file and the size guard of \<open>compressFile\<close>, and the closed-form layout
  of a ZLIB resource fork and of an LZVN/LZFSE chunk table, which the compression loops and
  the decompressor are later related to.
\<close>

section \<open>Constants and names\<close>

definition CMP_ZLIB_XATTR :: nat where "CMP_ZLIB_XATTR = 3"
definition CMP_ZLIB_RESOURCE_FORK :: nat where "CMP_ZLIB_RESOURCE_FORK = 4"
definition CMP_LZVN_XATTR :: nat where "CMP_LZVN_XATTR = 7"
definition CMP_LZVN_RESOURCE_FORK :: nat where "CMP_LZVN_RESOURCE_FORK = 8"
definition CMP_LZFSE_XATTR :: nat where "CMP_LZFSE_XATTR = 11"
definition CMP_LZFSE_RESOURCE_FORK :: nat where "CMP_LZFSE_RESOURCE_FORK = 12"
definition CMP_MAX_SUPPORTED_SIZE :: nat where "CMP_MAX_SUPPORTED_SIZE = 2 ^ 31 - 1"
definition MAX_DECMPFS_XATTR_SIZE :: nat where "MAX_DECMPFS_XATTR_SIZE = 3802"
definition DECMPFS_MAGIC :: nat where "DECMPFS_MAGIC = 0x636d7066"
definition compblksize :: nat where "compblksize = 0x10000"

lemmas cmp_codes = CMP_ZLIB_XATTR_def CMP_ZLIB_RESOURCE_FORK_def CMP_LZVN_XATTR_def
  CMP_LZVN_RESOURCE_FORK_def CMP_LZFSE_XATTR_def CMP_LZFSE_RESOURCE_FORK_def

definition DECMPFS_XATTR_NAME :: string where "DECMPFS_XATTR_NAME = ''com.apple.decmpfs''"
definition XATTR_RESOURCEFORK_NAME :: string where
  "XATTR_RESOURCEFORK_NAME = ''com.apple.ResourceFork''"

lemma xattr_names_differ [simp]:
  "DECMPFS_XATTR_NAME \<noteq> XATTR_RESOURCEFORK_NAME"
  "XATTR_RESOURCEFORK_NAME \<noteq> DECMPFS_XATTR_NAME"
  by (simp_all add: DECMPFS_XATTR_NAME_def XATTR_RESOURCEFORK_NAME_def)

definition compressionTypeName :: "nat \<Rightarrow> string" where
  "compressionTypeName type =
     (if type = CMP_ZLIB_XATTR then ''ZLIB in decmpfs xattr (3)''
      else if type = CMP_ZLIB_RESOURCE_FORK then ''ZLIB in resource fork (4)''
      else if type = CMP_LZVN_XATTR then ''LZVN in decmpfs xattr (7)''
      else if type = CMP_LZVN_RESOURCE_FORK then ''LZVN in resource fork (8)''
      else if type = CMP_LZFSE_XATTR then ''LZFSE in decmpfs xattr (11)''
      else if type = CMP_LZFSE_RESOURCE_FORK then ''LZFSE in resource fork (12)''
      else [])"

text \<open>The pair of codes \<open>compressFile\<close> picks in its switch over the compression type.\<close>

record compressionType =
  xattr_code :: nat
  resourceFork_code :: nat

fun compression_codes :: "compression_type \<Rightarrow> compressionType option" where
  "compression_codes ZLIB =
     Some \<lparr>xattr_code = CMP_ZLIB_XATTR, resourceFork_code = CMP_ZLIB_RESOURCE_FORK\<rparr>"
| "compression_codes LZVN =
     Some \<lparr>xattr_code = CMP_LZVN_XATTR, resourceFork_code = CMP_LZVN_RESOURCE_FORK\<rparr>"
| "compression_codes LZFSE =
     Some \<lparr>xattr_code = CMP_LZFSE_XATTR, resourceFork_code = CMP_LZFSE_RESOURCE_FORK\<rparr>"
| "compression_codes _ = None"

section \<open>The disk header\<close>

record decmpfs_disk_header =
  compression_magic :: nat
  compression_type :: nat
  header_uncompressed_size :: nat

definition sizeof_disk_header :: nat where "sizeof_disk_header = 16"

definition disk_header_bytes :: "decmpfs_disk_header \<Rightarrow> byte list" where
  "disk_header_bytes h =
     le_bytes 4 (compression_magic h) @ le_bytes 4 (compression_type h)
     @ le_bytes 8 (header_uncompressed_size h)"

definition read_disk_header :: "byte list \<Rightarrow> decmpfs_disk_header" where
  "read_disk_header buf =
     \<lparr>compression_magic = le_val (peek 0 4 buf),
      compression_type = le_val (peek 4 4 buf),
      header_uncompressed_size = le_val (peek 8 8 buf)\<rparr>"

lemma length_disk_header_bytes [simp]: "length (disk_header_bytes h) = sizeof_disk_header"
  by (simp add: disk_header_bytes_def sizeof_disk_header_def)

lemma read_disk_header_bytes:
  assumes "compression_magic h < 2 ^ 32" "compression_type h < 2 ^ 32"
    "header_uncompressed_size h < 2 ^ 64"
  shows "read_disk_header (disk_header_bytes h @ rest) = h"
  using assms
  by (simp add: read_disk_header_def disk_header_bytes_def peek_def le_val_le_bytes)

section \<open>Block count and size guard\<close>

text \<open>
  \<open>numBlocks\<close> is an \<open>unsigned int\<close>: the quotient is cut to 32 bits, and so is the product
  in the guard, which is then added to the 64-bit file size.
\<close>

definition numBlocks_of :: "nat \<Rightarrow> nat" where
  "numBlocks_of filesize = (filesize + compblksize - 1) div compblksize mod 2 ^ 32"

definition size_supported :: "nat \<Rightarrow> bool" where
  "size_supported filesize \<longleftrightarrow>
     filesize + 0x13A + (numBlocks_of filesize * 9 mod 2 ^ 32) \<le> CMP_MAX_SUPPORTED_SIZE"

definition uses_mmap :: "nat \<Rightarrow> bool" where
  "uses_mmap filesize \<longleftrightarrow> 64 * 1024 * 1024 \<le> filesize"

definition chunk_count :: "nat \<Rightarrow> nat" where
  "chunk_count n = (n + compblksize - 1) div compblksize"

lemma size_supported_exact:
  assumes "size_supported filesize"
  shows "numBlocks_of filesize = chunk_count filesize"
    and "filesize + 0x13A + 9 * chunk_count filesize \<le> CMP_MAX_SUPPORTED_SIZE"
proof -
  from assms have small: "filesize < 2 ^ 31"
    by (simp add: size_supported_def CMP_MAX_SUPPORTED_SIZE_def)
  then have c: "chunk_count filesize < 2 ^ 16"
    by (simp add: chunk_count_def compblksize_def)
  then show eq: "numBlocks_of filesize = chunk_count filesize"
    by (simp add: numBlocks_of_def chunk_count_def)
  from assms c show "filesize + 0x13A + 9 * chunk_count filesize \<le> CMP_MAX_SUPPORTED_SIZE"
    by (simp add: size_supported_def eq algebra_simps)
qed

section \<open>Chunks of a file\<close>

text \<open>The 64K chunk at \<open>pos\<close>: \<open>bytesAfterCursor\<close> bytes from the cursor.\<close>

definition bytesAfterCursor :: "nat \<Rightarrow> nat \<Rightarrow> nat" where
  "bytesAfterCursor filesize pos =
     (if filesize - pos > compblksize then compblksize else filesize - pos)"

definition chunk_at :: "byte list \<Rightarrow> nat \<Rightarrow> byte list" where
  "chunk_at inBuf pos = peek pos (bytesAfterCursor (length inBuf) pos) inBuf"

definition file_chunks :: "byte list \<Rightarrow> byte list list" where
  "file_chunks inBuf =
     map (\<lambda>k. chunk_at inBuf (k * compblksize)) [0..<chunk_count (length inBuf)]"

lemma compblksize_pos [simp]: "0 < compblksize"
  by (simp add: compblksize_def)

lemma bytesAfterCursor_le: "bytesAfterCursor n pos \<le> compblksize"
  by (simp add: bytesAfterCursor_def)

lemma length_chunk_at [simp]:
  "pos \<le> length inBuf \<Longrightarrow> length (chunk_at inBuf pos) = bytesAfterCursor (length inBuf) pos"
  unfolding chunk_at_def by (rule length_peek) (auto simp: bytesAfterCursor_def)

lemma chunk_at_eq: "chunk_at inBuf pos = take compblksize (drop pos inBuf)"
  by (auto simp: chunk_at_def peek_def bytesAfterCursor_def)

lemma pos_lt_iff_chunk: "k * compblksize < n \<longleftrightarrow> k < chunk_count n"
proof -
  have "k < (n + compblksize - 1) div compblksize \<longleftrightarrow> Suc k * compblksize \<le> n + compblksize - 1"
    by (simp only: Suc_le_eq [symmetric] less_eq_div_iff_mult_less_eq [OF compblksize_pos])
  also have "\<dots> \<longleftrightarrow> k * compblksize < n"
    by (auto simp: compblksize_def)
  finally show ?thesis
    by (simp add: chunk_count_def)
qed

end
