(* ===== verification/Compress.thy ===== *)
theory Compress
  imports Decmpfs
begin

text \<open>
  The chunking loop of \<open>compressFile\<close> (src/afsctool.c): the three compressors, the growing
  output buffer, the "larger than raw" marker block, the choice of the attribute or the
  resource fork, the ZLIB block table and the LZ chunk table, and the completion of the ZLIB
  resource fork. The compressors are parameters (zlib and the lzfse library); \<open>heap\<close> says which
  allocations succeed and what fresh memory holds. Every error exit of the loop is a value of
  \<open>cerror\<close>; \<open>HeapOverflow\<close> is a store outside its allocation (undefined behaviour in C) and
  \<open>NoReturn\<close> a loop that never ends.
\<close>

section \<open>Parameters and results\<close>

datatype cerror = CompressFailed | ReallocFailed | LargeChunk | BufferOverrun
  | HeapOverflow | NoReturn

text \<open>
  \<open>compress2 cap src level\<close> is the compressed data, \<open>None\<close> where zlib does not return \<open>Z_OK\<close>;
  an LZ encoder returns the empty list where it returns 0.
\<close>

record codecs =
  compress2 :: "nat \<Rightarrow> byte list \<Rightarrow> int \<Rightarrow> byte list option"
  compressBound :: "nat \<Rightarrow> nat"
  lzvn_encode_buffer :: "nat \<Rightarrow> byte list \<Rightarrow> byte list"
  lzvn_encode_scratch_size :: nat
  lzfse_encode_buffer :: "nat \<Rightarrow> byte list \<Rightarrow> byte list"
  lzfse_encode_scratch_size :: nat

record heap =
  junk :: "nat \<Rightarrow> byte"
  realloc_ok :: "nat \<Rightarrow> bool"

text \<open>The output buffer of the loop; \<open>currBlock\<close> is kept as an offset into \<open>outBuf\<close>.\<close>

record cstate =
  outBuf :: "byte list"
  outBufSize :: nat
  currBlock :: nat
  currBlockOffset :: nat

datatype chunk_result = StoreInXattr "byte list" | NextChunk cstate

section \<open>Compressing one chunk\<close>

definition lz_EstimatedCompressedSize :: "nat \<Rightarrow> nat" where
  "lz_EstimatedCompressedSize scratch = max scratch compblksize"

text \<open>
  The LZFSE case calls the encoder until it returns a size: on 0 the capacity for the next
  call is the returned size shifted left, and the block buffer is reallocated to it.
\<close>

partial_function (option) lzfse_encode ::
    "codecs \<Rightarrow> heap \<Rightarrow> nat \<Rightarrow> byte list \<Rightarrow> (cerror + byte list) option" where
  "lzfse_encode cdc hp cap src =
     (if lzfse_encode_buffer cdc cap src = []
      then (if realloc_ok hp (2 * length (lzfse_encode_buffer cdc cap src))
            then lzfse_encode cdc hp (2 * length (lzfse_encode_buffer cdc cap src)) src
            else Some (Inl ReallocFailed))
      else Some (Inr (lzfse_encode_buffer cdc cap src)))"

fun encode_chunk ::
    "codecs \<Rightarrow> heap \<Rightarrow> folder_info \<Rightarrow> compression_type \<Rightarrow> byte list \<Rightarrow> cerror + byte list" where
  "encode_chunk cdc hp fi ZLIB chunk =
     (case compress2 cdc (compressBound cdc compblksize) chunk (compressionlevel fi) of
        None \<Rightarrow> Inl CompressFailed | Some out \<Rightarrow> Inr out)"
| "encode_chunk cdc hp fi LZVN chunk =
     (let out = lzvn_encode_buffer cdc
                  (lz_EstimatedCompressedSize (lzvn_encode_scratch_size cdc)) chunk
      in if length out \<le> 0 then Inl CompressFailed else Inr out)"
| "encode_chunk cdc hp fi LZFSE chunk =
     (case lzfse_encode cdc hp
             (lz_EstimatedCompressedSize (lzfse_encode_scratch_size cdc)) chunk of
        None \<Rightarrow> Inl NoReturn | Some r \<Rightarrow> r)"
| "encode_chunk cdc hp fi _ chunk = Inr []"

fun supportsLargeBlocks :: "compression_type \<Rightarrow> bool" where
  "supportsLargeBlocks ZLIB = True"
| "supportsLargeBlocks _ = False"

text \<open>
  A compressed chunk larger than the chunk is replaced by a marker byte and the raw bytes,
  written over the block buffer of \<open>compressBound\<close> bytes; a full chunk needs \<open>-L\<close> for it.
\<close>

definition large_block ::
    "codecs \<Rightarrow> folder_info \<Rightarrow> compression_type \<Rightarrow> byte list \<Rightarrow> byte list \<Rightarrow> cerror + byte list"
where
  "large_block cdc fi comptype chunk out =
     (if supportsLargeBlocks comptype \<and> length out > length chunk then
        (if \<not> allowLargeBlocks fi \<and> length chunk = compblksize then Inl LargeChunk
         else if length chunk + 1 > compressBound cdc compblksize then Inl HeapOverflow
         else Inr (0xFF # chunk))
      else Inr out)"

definition chunk_block ::
    "codecs \<Rightarrow> heap \<Rightarrow> folder_info \<Rightarrow> compression_type \<Rightarrow> byte list \<Rightarrow> cerror + byte list" where
  "chunk_block cdc hp fi comptype chunk =
     bindE (encode_chunk cdc hp fi comptype chunk) (large_block cdc fi comptype chunk)"

section \<open>The output buffer\<close>

text \<open>The LZ chunk table at the start of \<open>outBuf\<close>: 4-byte host-order offsets.\<close>

definition chunkTable :: "byte list \<Rightarrow> nat \<Rightarrow> nat" where
  "chunkTable buf k = le_val (peek (4 * k) 4 buf)"

definition set_chunkTable :: "nat \<Rightarrow> nat \<Rightarrow> byte list \<Rightarrow> byte list" where
  "set_chunkTable k v buf = poke (4 * k) (le_bytes 4 v) buf"

fun note_next_offset ::
    "compression_type \<Rightarrow> nat \<Rightarrow> nat \<Rightarrow> nat \<Rightarrow> cstate \<Rightarrow> cstate" where
  "note_next_offset ZLIB numBlocks blockNr cmpedsize st = st"
| "note_next_offset _ numBlocks blockNr cmpedsize st =
     (if blockNr < numBlocks then
        st\<lparr>outBuf := set_chunkTable (blockNr + 1)
                        (chunkTable (outBuf st) blockNr + cmpedsize) (outBuf st)\<rparr>
      else st)"

fun realloc_slack :: "compression_type \<Rightarrow> nat" where
  "realloc_slack ZLIB = 1"
| "realloc_slack _ = 0"

text \<open>The block goes at \<open>currBlockOffset\<close>, which starts at the initial \<open>outBufSize\<close>.\<close>

definition grow_outBuf ::
    "heap \<Rightarrow> compression_type \<Rightarrow> nat \<Rightarrow> cstate \<Rightarrow> cerror + cstate" where
  "grow_outBuf hp comptype cmpedsize st =
     (let off = (if currBlockOffset st = 0 then outBufSize st else currBlockOffset st);
          obs = outBufSize st + cmpedsize;
          asz = obs + realloc_slack comptype
      in if realloc_ok hp asz
         then Inr \<lparr>outBuf = reallocf (junk hp) (outBuf st) asz, outBufSize = obs,
                   currBlock = off, currBlockOffset = off\<rparr>
         else Inl ReallocFailed)"

definition zlib_blockStart :: nat where "zlib_blockStart = 0x104"

fun set_block_entry :: "compression_type \<Rightarrow> nat \<Rightarrow> nat \<Rightarrow> nat \<Rightarrow> byte list \<Rightarrow> byte list" where
  "set_block_entry ZLIB idx cur cmpedsize buf =
     poke (zlib_blockStart + idx * 8 + 0x8) (le_bytes 4 cmpedsize)
       (poke (zlib_blockStart + idx * 8 + 0x4) (le_bytes 4 (cur - zlib_blockStart)) buf)"
| "set_block_entry _ idx cur cmpedsize buf = buf"

text \<open>
  Placing the block: in the attribute when it fits there and the file has a single block,
  else behind the previous block, where \<open>currBlockLen\<close> is the size of the output buffer.
\<close>

definition place_block ::
    "compression_type \<Rightarrow> nat \<Rightarrow> nat \<Rightarrow> byte list \<Rightarrow> cstate \<Rightarrow> cerror + chunk_result" where
  "place_block comptype numBlocks pos blk st =
     (if length blk + sizeof_disk_header \<le> MAX_DECMPFS_XATTR_SIZE \<and> numBlocks \<le> 1
      then Inr (StoreInXattr blk)
      else if currBlockOffset st + length blk \<le> outBufSize st
      then Inr (NextChunk
             (st\<lparr>outBuf := set_block_entry comptype (pos div compblksize) (currBlock st)
                             (length blk) (poke (currBlock st) blk (outBuf st)),
                 currBlock := currBlock st + length blk,
                 currBlockOffset := currBlockOffset st + length blk\<rparr>))
      else Inl BufferOverrun)"

section \<open>The chunking loop\<close>

definition chunk_step ::
    "codecs \<Rightarrow> heap \<Rightarrow> folder_info \<Rightarrow> compression_type \<Rightarrow> byte list \<Rightarrow> nat \<Rightarrow> nat \<Rightarrow> nat \<Rightarrow> cstate
     \<Rightarrow> cerror + chunk_result" where
  "chunk_step cdc hp fi comptype inBuf numBlocks pos blockNr st =
     bindE (encode_chunk cdc hp fi comptype (chunk_at inBuf pos)) (\<lambda>out.
     bindE (grow_outBuf hp comptype (length out)
              (note_next_offset comptype numBlocks blockNr (length out) st)) (\<lambda>st1.
     bindE (large_block cdc fi comptype (chunk_at inBuf pos) out) (\<lambda>blk.
     place_block comptype numBlocks pos blk st1)))"

function chunk_loop ::
    "codecs \<Rightarrow> heap \<Rightarrow> folder_info \<Rightarrow> compression_type \<Rightarrow> byte list \<Rightarrow> nat \<Rightarrow> nat \<Rightarrow> nat \<Rightarrow> cstate
     \<Rightarrow> cerror + chunk_result" where
  "chunk_loop cdc hp fi comptype inBuf numBlocks pos blockNr st =
     (if pos < length inBuf then
        (case chunk_step cdc hp fi comptype inBuf numBlocks pos blockNr st of
           Inl e \<Rightarrow> Inl e
         | Inr (StoreInXattr blk) \<Rightarrow> Inr (StoreInXattr blk)
         | Inr (NextChunk st') \<Rightarrow>
             chunk_loop cdc hp fi comptype inBuf numBlocks (pos + compblksize) (Suc blockNr) st')
      else Inr (NextChunk st))"
  by pat_completeness auto
termination
  by (relation "measure (\<lambda>(cdc, hp, fi, comptype, inBuf, numBlocks, pos, blockNr, st).
        length inBuf - pos)") (auto simp: compblksize_def)

declare chunk_loop.simps [simp del]

text \<open>
  The state the loop starts from. ZLIB: a fork header of 0x104 bytes (the offset of the data,
  the four bytes 0x32 and 0xF0 zero bytes; the other fields come last) and the block table.
  LZVN and LZFSE: a zeroed table of \<open>numBlocks + 1\<close> offsets with the first one set.
\<close>

fun chunk_init :: "heap \<Rightarrow> compression_type \<Rightarrow> nat \<Rightarrow> cstate" where
  "chunk_init hp ZLIB numBlocks =
     (let obs = zlib_blockStart + 4 + numBlocks * 8;
          buf = poke zlib_blockStart (le_bytes 4 numBlocks)
                 (poke 16 (replicate 0xF0 0)
                   (poke 12 (be_bytes 4 0x32)
                     (poke 0 (be_bytes 4 0x100) (malloc_bytes (junk hp) obs))))
      in \<lparr>outBuf = buf, outBufSize = obs,
          currBlock = zlib_blockStart + 4 + numBlocks * 8, currBlockOffset = 0\<rparr>)"
| "chunk_init hp _ numBlocks =
     (let tbl = (numBlocks + 1) * 4
      in \<lparr>outBuf = set_chunkTable 0 tbl (replicate tbl 0), outBufSize = tbl,
          currBlock = 0, currBlockOffset = 0\<rparr>)"

section \<open>Completing the ZLIB resource fork\<close>

definition zlib_trailer :: "byte list" where
  "zlib_trailer =
     replicate 24 0 @ be_bytes 2 0x1C @ be_bytes 2 0x32 @ le_bytes 2 0
     @ be_bytes 4 DECMPFS_MAGIC @ be_bytes 4 0xA @ le_bytes 8 0xFFFF0100 @ le_bytes 4 0"

text \<open>The bytes handed to \<open>setxattr\<close> for the resource fork.\<close>

definition zlib_finish :: "heap \<Rightarrow> cstate \<Rightarrow> cerror + cstate" where
  "zlib_finish hp st =
     (let cbo = currBlock st;
          obs = outBufSize st + (cbo + 50)
      in if realloc_ok hp (obs + 1) then
           Inr (st\<lparr>outBuf :=
             poke cbo zlib_trailer
               (poke (zlib_blockStart - 4) (be_bytes 4 (cbo - 0x104))
                 (poke 8 (be_bytes 4 (cbo - 0x100))
                   (poke 4 (be_bytes 4 cbo)
                     (reallocf (junk hp) (outBuf st) (obs + 1))))),
             outBufSize := obs, currBlockOffset := cbo\<rparr>)
         else Inl ReallocFailed)"

fun fork_bytes :: "compression_type \<Rightarrow> cstate \<Rightarrow> byte list" where
  "fork_bytes ZLIB st = take (currBlock st + 50) (outBuf st)"
| "fork_bytes _ st = take (outBufSize st) (outBuf st)"

end
