(* ===== verification/ZlibFork.thy ===== *)
theory ZlibFork
  imports Compress
begin

text \<open>
  The ZLIB resource fork that the chunking loop builds. \<open>zlib_fork n blks\<close> is its layout in
  closed form (header, block table, blocks, trailer); the invariant of the loop relates the
  growing buffer to it, and the loop with \<open>zlib_finish\<close> is proved to produce exactly it,
  whatever fresh memory holds.
\<close>

section \<open>The layout\<close>

definition zlib_base :: "nat \<Rightarrow> nat" where "zlib_base n = 0x108 + 8 * n"

definition block_entry :: "nat \<Rightarrow> byte list list \<Rightarrow> nat \<Rightarrow> byte list" where
  "block_entry n blks k =
     le_bytes 4 (4 + 8 * n + sum_len (take k blks)) @ le_bytes 4 (length (blks ! k))"

definition zlib_fork :: "nat \<Rightarrow> byte list list \<Rightarrow> byte list" where
  "zlib_fork n blks =
     (let e = zlib_base n + sum_len blks
      in be_bytes 4 0x100 @ be_bytes 4 e @ be_bytes 4 (e - 0x100) @ be_bytes 4 0x32
         @ replicate 0xF0 0 @ be_bytes 4 (e - 0x104) @ le_bytes 4 n
         @ concat (map (block_entry n blks) [0..<n]) @ concat blks @ zlib_trailer)"

lemma length_block_entry [simp]: "length (block_entry n blks k) = 8"
  by (simp add: block_entry_def)

lemma length_zlib_trailer [simp]: "length zlib_trailer = 50"
  by (simp add: zlib_trailer_def)

lemma length_block_table [simp]: "length (concat (map (block_entry n blks) [0..<m])) = 8 * m"
  by (induction m) (simp_all add: length_concat_sum_len)

lemma length_zlib_fork: "length (zlib_fork n blks) = zlib_base n + sum_len blks + 50"
  by (simp add: zlib_fork_def Let_def zlib_base_def length_concat_sum_len [of blks])

section \<open>The invariant of the loop\<close>

text \<open>What the buffer holds once the blocks \<open>blks\<close> are in place.\<close>

definition zlib_prefix :: "nat \<Rightarrow> byte list list \<Rightarrow> byte list \<Rightarrow> bool" where
  "zlib_prefix n blks buf \<longleftrightarrow>
     peek 0 4 buf = be_bytes 4 0x100 \<and> peek 12 4 buf = be_bytes 4 0x32
     \<and> peek 16 0xF0 buf = replicate 0xF0 0 \<and> peek 0x104 4 buf = le_bytes 4 n
     \<and> (\<forall>k < length blks. peek (0x108 + 8 * k) 8 buf = block_entry n blks k)
     \<and> peek (zlib_base n) (sum_len blks) buf = concat blks"

definition zlib_invar :: "nat \<Rightarrow> byte list list \<Rightarrow> cstate \<Rightarrow> bool" where
  "zlib_invar n blks st \<longleftrightarrow>
     zlib_base n + sum_len blks \<le> outBufSize st \<and> outBufSize st \<le> length (outBuf st)
     \<and> (blks = [] \<longrightarrow> currBlockOffset st = 0 \<and> outBufSize st = zlib_base n)
     \<and> (blks \<noteq> [] \<longrightarrow> currBlockOffset st = zlib_base n + sum_len blks)
     \<and> currBlock st = zlib_base n + sum_len blks
     \<and> length blks \<le> n \<and> zlib_prefix n blks (outBuf st)"

lemma block_entry_snoc:
  "k < length blks \<Longrightarrow> block_entry n (blks @ [blk]) k = block_entry n blks k"
  by (simp add: block_entry_def nth_append)

lemma block_entry_last:
  "block_entry n (blks @ [blk]) (length blks)
   = le_bytes 4 (4 + 8 * n + sum_len blks) @ le_bytes 4 (length blk)"
  by (simp add: block_entry_def)

lemma zlib_prefix_reallocf:
  assumes "zlib_prefix n blks buf" and "length blks \<le> n"
    and "zlib_base n + sum_len blks \<le> length buf" and "zlib_base n + sum_len blks \<le> m"
  shows "zlib_prefix n blks (reallocf j buf m)"
proof -
  have "peek a k (reallocf j buf m) = peek a k buf" if "a + k \<le> zlib_base n + sum_len blks" for a k
    using that assms(3,4) by (intro peek_reallocf) simp_all
  then show ?thesis
    using assms(1,2) by (auto simp: zlib_prefix_def zlib_base_def)
qed

text \<open>Storing the next block and its two table fields extends the prefix by the block.\<close>

lemma zlib_prefix_store:
  assumes pre: "zlib_prefix n blks buf" and len: "length blks < n"
    and fit: "zlib_base n + sum_len blks + length blk \<le> length buf"
  shows "zlib_prefix n (blks @ [blk])
    (set_block_entry ZLIB (length blks) (zlib_base n + sum_len blks) (length blk)
       (poke (zlib_base n + sum_len blks) blk buf))"
proof -
  let ?e = "zlib_base n + sum_len blks" and ?blks' = "blks @ [blk]"
  let ?a = "0x108 + 8 * length blks" and ?b = "0x10C + 8 * length blks"
  let ?o = "le_bytes 4 (4 + 8 * n + sum_len blks)" and ?s = "le_bytes 4 (length blk)"
  let ?buf1 = "poke ?e blk buf" and ?k = "length blks"
  let ?buf2 = "poke ?a ?o ?buf1" and ?buf3 = "poke ?b ?s (poke ?a ?o ?buf1)"
  have set: "set_block_entry ZLIB ?k ?e (length blk) ?buf1 = ?buf3"
    by (simp add: zlib_blockStart_def zlib_base_def algebra_simps)
  have base: "?b + 4 \<le> zlib_base n" using len by (simp add: zlib_base_def)
  have l1: "length ?buf1 = length buf" using fit by simp
  have l2: "length ?buf2 = length buf" using base fit by (simp add: l1)
  have frame: "peek x m ?buf3 = peek x m ?buf1"
    if "x + m \<le> 0x108 + 8 * ?k \<or> 0x110 + 8 * ?k \<le> x" for x m
  proof -
    have "peek x m ?buf3 = peek x m ?buf2"
      using that base fit by (intro le32.read_frame) (auto simp: l2)
    also have "\<dots> = peek x m ?buf1"
      using that base fit by (intro le32.read_frame) (auto simp: l1)
    finally show ?thesis .
  qed
  have frame0: "peek x m ?buf1 = peek x m buf" if "x + m \<le> ?e" for x m
    using that fit by (intro peek_poke_before) simp_all
  have blk: "peek ?e (length blk) ?buf1 = blk"
    using fit by (rule peek_poke_same)
  have entry: "peek (0x108 + 8 * ?k) 8 ?buf3
      = le_bytes 4 (4 + 8 * n + sum_len blks) @ le_bytes 4 (length blk)"
  proof -
    have "peek (0x108 + 8 * ?k) 4 ?buf3 = peek ?a 4 ?buf2"
      using base fit
      by (intro le32.read_frame) (simp_all add: l2)
    also have "\<dots> = ?o"
      using peek_poke_same [of ?a ?o ?buf1] base fit by (simp add: l1)
    moreover have "peek (0x10C + 8 * ?k) 4 ?buf3 = ?s"
      using peek_poke_same [of ?b ?s ?buf2] base fit by (simp add: l2)
    ultimately show ?thesis
      using peek_split [of "0x108 + 8 * ?k" 4 4 ?buf3]
      by (simp add: zlib_base_def zlib_blockStart_def)
  qed
  have data: "peek (zlib_base n) (sum_len blks + length blk) ?buf3 = concat blks @ blk"
    using pre base
    by (simp add: frame frame0 peek_split blk zlib_prefix_def)
  have tab: "peek (0x108 + 8 * k) 8 ?buf3 = block_entry n ?blks' k" if "k < Suc ?k" for k
  proof (cases "k = ?k")
    case True
    then show ?thesis using entry by (simp add: block_entry_last)
  next
    case False
    with that have k: "k < ?k" by simp
    then have "peek (0x108 + 8 * k) 8 ?buf3 = peek (0x108 + 8 * k) 8 ?buf1"
      by (intro frame) simp
    also have "\<dots> = peek (0x108 + 8 * k) 8 buf"
      using k len by (intro frame0) (simp add: zlib_base_def)
    finally have "peek (0x108 + 8 * k) 8 ?buf3 = peek (0x108 + 8 * k) 8 buf" .
    with k pre show ?thesis by (simp add: zlib_prefix_def block_entry_snoc)
  qed
  have hdr: "peek x m ?buf3 = peek x m buf" if "x + m \<le> 0x108" for x m
  proof -
    have "peek x m ?buf3 = peek x m ?buf1" using that by (intro frame) simp
    also have "\<dots> = peek x m buf" using that by (intro frame0) (simp add: zlib_base_def)
    finally show ?thesis .
  qed
  show ?thesis
    unfolding set zlib_prefix_def using pre data tab
    by (simp add: hdr zlib_prefix_def)
qed

section \<open>The loop keeps the invariant\<close>

lemma zlib_invar_init: "zlib_invar n [] (chunk_init hp ZLIB n)"
proof -
  let ?m = "malloc_bytes (junk hp) (zlib_blockStart + 4 + n * 8)"
  let ?b1 = "poke 0 (be_bytes 4 0x100) ?m"
  let ?b2 = "poke 12 (be_bytes 4 0x32) ?b1"
  let ?b3 = "poke 16 (replicate 0xF0 0) ?b2"
  let ?b4 = "poke zlib_blockStart (le_bytes 4 n) ?b3"
  have l: "length ?m = 0x108 + 8 * n" "length ?b1 = 0x108 + 8 * n" "length ?b2 = 0x108 + 8 * n"
    "length ?b3 = 0x108 + 8 * n" "length ?b4 = 0x108 + 8 * n"
    by (simp_all add: zlib_blockStart_def)
  have "peek 0 4 ?b4 = be_bytes 4 0x100"
    using peek_poke_same [of 0 "be_bytes 4 0x100" ?m] l
    by (simp add: peek_poke_before zlib_blockStart_def)
  moreover have "peek 12 4 ?b4 = be_bytes 4 0x32"
    using peek_poke_same [of 12 "be_bytes 4 0x32" ?b1] l
    by (simp add: peek_poke_before zlib_blockStart_def)
  moreover have "peek 16 0xF0 ?b4 = replicate 0xF0 0"
    using peek_poke_same [of 16 "replicate 0xF0 0" ?b2] l
    by (simp add: peek_poke_before zlib_blockStart_def)
  moreover have "peek 0x104 4 ?b4 = le_bytes 4 n"
    using peek_poke_same [of zlib_blockStart "le_bytes 4 n" ?b3] l
    by (simp add: zlib_blockStart_def)
  moreover have "chunk_init hp ZLIB n =
      \<lparr>outBuf = ?b4, outBufSize = 0x108 + 8 * n, currBlock = 0x108 + 8 * n, currBlockOffset = 0\<rparr>"
    by (simp add: zlib_blockStart_def Let_def)
  ultimately show ?thesis
    using l by (simp add: zlib_invar_def zlib_prefix_def zlib_base_def peek_0 del: chunk_init.simps)
qed

lemma large_block_length:
  "large_block cdc fi comptype chunk out = Inr blk \<Longrightarrow> length blk \<le> length out"
  by (auto simp: large_block_def split: if_splits)

lemma zlib_grow:
  assumes inv: "zlib_invar n blks st" and grow: "grow_outBuf hp ZLIB m st = Inr st1"
  shows "outBuf st1 = reallocf (junk hp) (outBuf st) (outBufSize st1 + 1)"
    and "outBufSize st1 = outBufSize st + m"
    and "currBlock st1 = zlib_base n + sum_len blks"
    and "currBlockOffset st1 = zlib_base n + sum_len blks"
    and "zlib_base n + sum_len blks + m \<le> outBufSize st1"
proof -
  let ?e = "zlib_base n + sum_len blks"
  have off: "(if currBlockOffset st = 0 then outBufSize st else currBlockOffset st) = ?e"
    using inv by (cases "blks = []") (simp_all add: zlib_invar_def zlib_base_def)
  show "outBuf st1 = reallocf (junk hp) (outBuf st) (outBufSize st1 + 1)"
    and "outBufSize st1 = outBufSize st + m" "currBlock st1 = ?e" "currBlockOffset st1 = ?e"
    using grow unfolding grow_outBuf_def Let_def off by (auto split: if_splits)
  then show "?e + m \<le> outBufSize st1"
    using inv by (simp add: zlib_invar_def)
qed

lemma zlib_invar_step:
  assumes inv: "zlib_invar n blks st" and len: "length blks < n"
    and step: "chunk_step cdc hp fi ZLIB inBuf n (length blks * compblksize) nr st
               = Inr (NextChunk st')"
  obtains blk where "chunk_block cdc hp fi ZLIB (chunk_at inBuf (length blks * compblksize)) = Inr blk"
    and "zlib_invar n (blks @ [blk]) st'"
proof -
  let ?chunk = "chunk_at inBuf (length blks * compblksize)"
  from step obtain out st1 blk where out: "encode_chunk cdc hp fi ZLIB ?chunk = Inr out"
    and st1: "grow_outBuf hp ZLIB (length out) st = Inr st1"
    and blk: "large_block cdc fi ZLIB ?chunk out = Inr blk"
    and place: "place_block ZLIB n (length blks * compblksize) blk st1 = Inr (NextChunk st')"
    by (auto simp: chunk_step_def bind_simps)
  let ?e = "zlib_base n + sum_len blks"
  note st1' = zlib_grow [OF inv st1]
  have fit: "?e + length blk \<le> outBufSize st1"
    using large_block_length [OF blk] st1'(5) by simp
  have pre1: "zlib_prefix n blks (outBuf st1)"
    unfolding st1'(1) using inv len fit
    by (intro zlib_prefix_reallocf) (simp_all add: zlib_invar_def)
  have lst1: "length (outBuf st1) = outBufSize st1 + 1"
    by (simp add: st1'(1))
  from pre1 len fit lst1 have pre2: "zlib_prefix n (blks @ [blk])
      (set_block_entry ZLIB (length blks) ?e (length blk) (poke ?e blk (outBuf st1)))"
    by (intro zlib_prefix_store) simp_all
  have lbuf: "length (set_block_entry ZLIB (length blks) ?e (length blk)
      (poke ?e blk (outBuf st1))) = outBufSize st1 + 1"
    using len fit lst1 by (simp add: zlib_blockStart_def zlib_base_def)
  from place st1' have st': "st' = st1\<lparr>outBuf := set_block_entry ZLIB (length blks) ?e (length blk)
        (poke ?e blk (outBuf st1)), currBlock := ?e + length blk,
        currBlockOffset := ?e + length blk\<rparr>"
    by (auto simp: place_block_def split: if_splits simp del: set_block_entry.simps)
  have "zlib_invar n (blks @ [blk]) st'"
    using pre2 lbuf fit len
    by (simp add: st' zlib_invar_def add.assoc del: set_block_entry.simps)
  moreover have "chunk_block cdc hp fi ZLIB ?chunk = Inr blk"
    using out blk by (simp add: chunk_block_def)
  ultimately show thesis by (rule that[rotated])
qed


text \<open>A step that fails does so for one of three reasons; no store leaves the buffer.\<close>

lemma zlib_step_error:
  assumes inv: "zlib_invar n blks st" and cap: "compblksize < compressBound cdc compblksize"
    and pos: "pos \<le> length inBuf"
    and step: "chunk_step cdc hp fi ZLIB inBuf n pos nr st = Inl e"
  shows "e = CompressFailed \<and> compress2 cdc (compressBound cdc compblksize)
           (chunk_at inBuf pos) (compressionlevel fi) = None
    \<or> e = ReallocFailed \<and> (\<exists>n. \<not> realloc_ok hp n)
    \<or> e = LargeChunk \<and> \<not> allowLargeBlocks fi"
proof -
  have room: "length (chunk_at inBuf pos) + 1 \<le> compressBound cdc compblksize"
    using cap pos bytesAfterCursor_le [of "length inBuf" pos] by simp
  have place: "place_block ZLIB n pos blk st1 \<noteq> Inl e"
    if "grow_outBuf hp ZLIB (length out) st = Inr st1"
      "large_block cdc fi ZLIB (chunk_at inBuf pos) out = Inr blk" for out st1 blk
    using zlib_grow [OF inv that(1)] large_block_length [OF that(2)] by (simp add: place_block_def)
  from step consider
      "encode_chunk cdc hp fi ZLIB (chunk_at inBuf pos) = Inl e"
    | m where "grow_outBuf hp ZLIB m st = Inl e"
    | out where "large_block cdc fi ZLIB (chunk_at inBuf pos) out = Inl e"
    using place unfolding chunk_step_def note_next_offset.simps bindE_Inl_iff by blast
  then show ?thesis
  proof cases
    case 1
    then show ?thesis by (auto split: option.splits)
  next
    case 2
    then show ?thesis by (auto simp: grow_outBuf_def Let_def split: if_splits)
  next
    case 3
    with room show ?thesis by (auto simp: large_block_def split: if_splits)
  qed
qed

text \<open>The whole loop: every chunk has its block, in order, and the invariant holds at the end.\<close>

lemma zlib_loop_invar:
  assumes "zlib_invar (chunk_count (length inBuf)) blks st"
    and "chunk_loop cdc hp fi ZLIB inBuf (chunk_count (length inBuf))
           (length blks * compblksize) (length blks) st = Inr (NextChunk st')"
    and "\<forall>k < length blks. chunk_block cdc hp fi ZLIB (chunk_at inBuf (k * compblksize)) = Inr (blks ! k)"
  shows "\<exists>blks'. zlib_invar (chunk_count (length inBuf)) blks' st'
    \<and> length blks' = chunk_count (length inBuf)
    \<and> (\<forall>k < chunk_count (length inBuf).
         chunk_block cdc hp fi ZLIB (chunk_at inBuf (k * compblksize)) = Inr (blks' ! k))"
  using assms
proof (induction "chunk_count (length inBuf) - length blks" arbitrary: blks st)
  case 0
  then have len: "length blks = chunk_count (length inBuf)" by (simp add: zlib_invar_def)
  then have "\<not> length blks * compblksize < length inBuf" by (simp add: pos_lt_iff_chunk)
  with "0.prems"(2) have "st' = st" by (simp add: chunk_loop.simps)
  with "0.prems" len show ?case by auto
next
  case (Suc d)
  let ?n = "chunk_count (length inBuf)" and ?pos = "length blks * compblksize"
  from Suc.hyps(2) have len: "length blks < ?n" by simp
  then have "?pos < length inBuf" by (simp add: pos_lt_iff_chunk)
  with Suc.prems(2) obtain st1 where
    step: "chunk_step cdc hp fi ZLIB inBuf ?n ?pos (length blks) st = Inr (NextChunk st1)"
    and rest: "chunk_loop cdc hp fi ZLIB inBuf ?n (?pos + compblksize) (Suc (length blks)) st1
               = Inr (NextChunk st')"
    by (subst (asm) chunk_loop.simps) (auto split: sum.splits chunk_result.splits)
  from Suc.prems(1) len step obtain blk where
    blk: "chunk_block cdc hp fi ZLIB (chunk_at inBuf ?pos) = Inr blk"
    and inv: "zlib_invar ?n (blks @ [blk]) st1"
    by (rule zlib_invar_step)
  have all: "\<forall>k < length (blks @ [blk]).
      chunk_block cdc hp fi ZLIB (chunk_at inBuf (k * compblksize)) = Inr ((blks @ [blk]) ! k)"
    using Suc.prems(3) blk by (simp add: nth_append less_Suc_eq)
  show ?case
    using Suc.hyps(1) [of "blks @ [blk]" st1] Suc.hyps(2) inv rest all
    by (simp add: add.commute)
qed

text \<open>The attribute is only ever used for the first chunk of a one-block file.\<close>

lemma place_block_xattr:
  "place_block comptype n pos blk st = Inr (StoreInXattr b) \<longleftrightarrow>
     b = blk \<and> length blk + sizeof_disk_header \<le> MAX_DECMPFS_XATTR_SIZE \<and> n \<le> 1"
  by (auto simp: place_block_def)

lemma chunk_step_xattr:
  assumes "chunk_step cdc hp fi comptype inBuf n pos nr st = Inr (StoreInXattr blk)"
  shows "chunk_block cdc hp fi comptype (chunk_at inBuf pos) = Inr blk"
    and "length blk + sizeof_disk_header \<le> MAX_DECMPFS_XATTR_SIZE" and "n \<le> 1"
  using assms by (auto simp: chunk_step_def chunk_block_def bind_simps place_block_xattr)

lemma chunk_loop_xattr:
  assumes "chunk_loop cdc hp fi comptype inBuf (chunk_count (length inBuf)) 0 0 st
           = Inr (StoreInXattr blk)"
  shows "0 < length inBuf" and "length inBuf \<le> compblksize"
    and "chunk_block cdc hp fi comptype inBuf = Inr blk"
    and "length blk + sizeof_disk_header \<le> MAX_DECMPFS_XATTR_SIZE"
proof -
  let ?n = "chunk_count (length inBuf)"
  show ne: "0 < length inBuf"
    using assms by (subst (asm) chunk_loop.simps) (auto split: if_splits)
  have one: "?n \<le> 1 \<longleftrightarrow> \<not> compblksize < length inBuf"
    using pos_lt_iff_chunk [of 1 "length inBuf"] by auto
  from assms ne consider
      "chunk_step cdc hp fi comptype inBuf ?n 0 0 st = Inr (StoreInXattr blk)"
    | st1 where "chunk_step cdc hp fi comptype inBuf ?n 0 0 st = Inr (NextChunk st1)"
        "chunk_loop cdc hp fi comptype inBuf ?n compblksize (Suc 0) st1 = Inr (StoreInXattr blk)"
    by (subst (asm) chunk_loop.simps) (auto split: sum.splits chunk_result.splits)
  then have first: "chunk_step cdc hp fi comptype inBuf ?n 0 0 st = Inr (StoreInXattr blk)"
  proof cases
    case (2 st1)
    have "P" if "chunk_loop cdc hp fi comptype inBuf m pos nr s = Inr (StoreInXattr blk)"
      and "1 < m" for m pos nr s P
      using that
      by (induction cdc hp fi comptype inBuf m pos nr s rule: chunk_loop.induct)
        (subst (asm) (2) chunk_loop.simps,
         auto split: if_splits sum.splits chunk_result.splits dest: chunk_step_xattr(3))
    moreover from 2(2) have "compblksize < length inBuf"
      by (subst (asm) chunk_loop.simps) (auto split: if_splits)
    then have "1 < ?n" using one by simp
    ultimately show ?thesis using 2(2) by blast
  qed simp
  then show len: "length inBuf \<le> compblksize" and "length blk + sizeof_disk_header \<le> MAX_DECMPFS_XATTR_SIZE"
    using chunk_step_xattr(2,3) one by (auto simp: not_less)
  from len have "chunk_at inBuf 0 = inBuf" by (simp add: chunk_at_eq)
  then show "chunk_block cdc hp fi comptype inBuf = Inr blk"
    using chunk_step_xattr(1) [OF first] by simp
qed

section \<open>The completed fork is the layout\<close>

lemma zlib_finish_fork:
  assumes inv: "zlib_invar n blks st" and len: "length blks = n"
    and fin: "zlib_finish hp st = Inr st'"
  shows "fork_bytes ZLIB st' = zlib_fork n blks"
proof -
  define e where "e = zlib_base n + sum_len blks"
  define R where "R = reallocf (junk hp) (outBuf st) (outBufSize st + (e + 50) + 1)"
  let ?R1 = "poke 4 (be_bytes 4 e) R"
  let ?R2 = "poke 8 (be_bytes 4 (e - 0x100)) ?R1"
  let ?R3 = "poke 0x100 (be_bytes 4 (e - 0x104)) ?R2"
  let ?R4 = "poke e zlib_trailer ?R3"
  have e108: "0x108 + 8 * n \<le> e" by (simp add: e_def zlib_base_def)
  have cb: "currBlock st = e" using inv by (simp add: zlib_invar_def e_def)
  then have st': "outBuf st' = ?R4" "currBlock st' = e"
    using fin by (auto simp: R_def zlib_finish_def zlib_blockStart_def Let_def split: if_splits)
  have l: "e + 50 \<le> length R" "length ?R1 = length R" "length ?R2 = length R"
    "length ?R3 = length R" "length ?R4 = length R"
    using e108 by (simp_all add: R_def)
  have frame: "peek x m ?R4 = peek x m R"
    if "x + m \<le> 4 \<or> 12 \<le> x \<and> x + m \<le> 0x100 \<or> 0x104 \<le> x \<and> x + m \<le> e" for x m
  proof -
    have "peek x m ?R4 = peek x m ?R3"
      using that l e108 by (intro peek_poke_before) auto
    also have "\<dots> = peek x m ?R2"
      using that l e108 by (intro be32.read_frame) auto
    also have "\<dots> = peek x m ?R1"
      using that l e108 by (intro be32.read_frame) auto
    also have "\<dots> = peek x m R"
      using that l e108 by (intro be32.read_frame) auto
    finally show ?thesis .
  qed
  have pre: "zlib_prefix n blks R"
    unfolding R_def using inv
    by (intro zlib_prefix_reallocf) (simp_all add: zlib_invar_def e_def)
  have f4: "peek 4 4 ?R4 = be_bytes 4 e"
  proof -
    have "peek 4 4 ?R4 = peek 4 4 ?R1"
      using l e108 by (simp add: peek_poke_before be32.read_frame)
    then show ?thesis using peek_poke_same [of 4 "be_bytes 4 e" R] l by simp
  qed
  have f8: "peek 8 4 ?R4 = be_bytes 4 (e - 0x100)"
  proof -
    have "peek 8 4 ?R4 = peek 8 4 ?R2"
      using l e108 by (simp add: peek_poke_before be32.read_frame)
    then show ?thesis using peek_poke_same [of 8 "be_bytes 4 (e - 0x100)" ?R1] l e108 by simp
  qed
  have f100: "peek 0x100 4 ?R4 = be_bytes 4 (e - 0x104)"
  proof -
    have "peek 0x100 4 ?R4 = peek 0x100 4 ?R3"
      using l e108 by (simp add: peek_poke_before)
    then show ?thesis using peek_poke_same [of "0x100" "be_bytes 4 (e - 0x104)" ?R2] l e108 by simp
  qed
  have ftr: "peek e 50 ?R4 = zlib_trailer"
    using peek_poke_same [of e zlib_trailer ?R3] l by simp
  have ftab: "peek 0x108 (8 * n) ?R4 = concat (map (block_entry n blks) [0..<n])"
  proof (rule peek_table, intro allI impI)
    fix k assume "k < n"
    then have "peek (0x108 + 8 * k) 8 ?R4 = peek (0x108 + 8 * k) 8 R"
      using e108 by (intro frame) simp
    with \<open>k < n\<close> pre len show "peek (0x108 + 8 * k) 8 ?R4 = block_entry n blks k"
      by (simp add: zlib_prefix_def)
  qed
  have fdat: "peek (0x108 + 8 * n) (sum_len blks) ?R4 = concat blks"
  proof -
    have "peek (0x108 + 8 * n) (sum_len blks) ?R4 = peek (0x108 + 8 * n) (sum_len blks) R"
      by (rule frame) (simp add: e_def zlib_base_def)
    then show ?thesis using pre by (simp add: zlib_prefix_def zlib_base_def)
  qed
  have h: "peek 0 4 ?R4 = be_bytes 4 0x100" "peek 12 4 ?R4 = be_bytes 4 0x32"
    "peek 16 0xF0 ?R4 = replicate 0xF0 0" "peek 0x104 4 ?R4 = le_bytes 4 n"
    using pre e108 by (simp_all add: frame zlib_prefix_def)
  have "264 + 8 * n + sum_len blks = e"
    by (simp add: e_def zlib_base_def)
  then have ftr': "peek (264 + 8 * n + sum_len blks) 50 ?R4 = zlib_trailer"
    by (simp only: ftr)
  have "fork_bytes ZLIB st' = peek 0 (e + 50) ?R4"
    by (simp add: st' peek_def)
  also have "e + 50 = 4 + (4 + (4 + (4 + (0xF0 + (4 + (4 + (8 * n + (sum_len blks + 50))))))))"
    by (simp add: e_def zlib_base_def)
  also have "peek 0 (4 + (4 + (4 + (4 + (0xF0 + (4 + (4 + (8 * n + (sum_len blks + 50))))))))) ?R4
      = zlib_fork n blks"
    unfolding peek_split
    using f4 f8 f100 ftr' ftab fdat h
    by (simp add: zlib_fork_def Let_def e_def [symmetric])
  finally show ?thesis .
qed

end
