(* ===== verification/Decompress.thy ===== *)
theory Decompress
  imports Decmpfs
begin

text \<open>
  The userland ZLIB decompression of \<open>decompressFile\<close> (src/afsctool.c): decoding a resource
  fork block by block, and decoding the data of the \<open>com.apple.decmpfs\<close> attribute. Integer
  widths are the code's: \<open>u32\<close> cuts an \<open>unsigned int\<close>, \<open>u64\<close> an \<open>unsigned long\<close>. A read or
  write outside its buffer is the value \<open>OutOfBounds\<close>; \<open>IncompleteFreed\<close> is the exit that frees
  the two input buffers before the common exit frees them again.
\<close>

definition u32 :: "int \<Rightarrow> int" where "u32 x = x mod 2 ^ 32"
definition u64 :: "int \<Rightarrow> int" where "u64 x = x mod 2 ^ 64"

datatype zerror = Z_BUF_ERROR | Z_DATA_ERROR | Z_MEM_ERROR | Z_OTHER_ERROR

datatype derror = RFMissing | IncompleteFreed | Incomplete | WrongFileSize
  | BlockTooLarge | BlockCorrupt | OutOfMemory | UncompressError | BlockTooSmall
  | NoDataInXattr | UnsupportedType | UnknownType | OutOfBounds

fun uncompress_error :: "zerror \<Rightarrow> derror" where
  "uncompress_error Z_BUF_ERROR = BlockTooLarge"
| "uncompress_error Z_DATA_ERROR = BlockCorrupt"
| "uncompress_error Z_MEM_ERROR = OutOfMemory"
| "uncompress_error Z_OTHER_ERROR = UncompressError"

text \<open>\<open>uncompress cap src\<close>: at most \<open>cap\<close> bytes, or zlib's error.\<close>

type_synonym uncompressor = "nat \<Rightarrow> byte list \<Rightarrow> zerror + byte list"

section \<open>One block of a resource fork\<close>

text \<open>The \<open>UInt32\<close> fields of the block table, relative to \<open>blockStart\<close>.\<close>

definition block_offset :: "byte list \<Rightarrow> nat \<Rightarrow> nat \<Rightarrow> nat" where
  "block_offset inBuf blockStart k = le_val (peek (blockStart + 0x4 + k * 8) 4 inBuf)"

definition block_size :: "byte list \<Rightarrow> nat \<Rightarrow> nat \<Rightarrow> nat" where
  "block_size inBuf blockStart k = le_val (peek (blockStart + 0x8 + k * 8) 4 inBuf)"

text \<open>\<open>(filesize - (currBlock * compblksize) < compblksize) ? ... : compblksize\<close>\<close>

definition remaining_size :: "nat \<Rightarrow> nat \<Rightarrow> int" where
  "remaining_size filesize currBlock =
     (let left = int filesize - u32 (int (currBlock * compblksize))
      in if left < int compblksize then left else int compblksize)"

definition decode_block ::
    "uncompressor \<Rightarrow> byte list \<Rightarrow> nat \<Rightarrow> nat \<Rightarrow> nat \<Rightarrow> nat \<Rightarrow> byte list \<Rightarrow> derror + byte list" where
  "decode_block unc inBuf filesize blockStart numBlocks currBlock outBuf =
     (if blockStart + 0xC + currBlock * 8 > length inBuf then Inl OutOfBounds else
      let inRFLen = length inBuf;
          off = blockStart + block_offset inBuf blockStart currBlock;
          sz = block_size inBuf blockStart currBlock;
          dst = nat (u32 (int (compblksize * currBlock)));
          want = remaining_size filesize currBlock;
          usize = nat (u64 (if currBlock + 1 \<noteq> numBlocks then int compblksize else want))
      in
      if off + sz > inRFLen then Inl Incomplete
      else if u64 (int dst + int usize) > int filesize then Inl WrongFileSize
      else if off \<ge> inRFLen then Inl OutOfBounds
      else if inBuf ! off = 0xFF then
        (let rawsize = nat (u32 (int sz - 1)) in
         if off + 1 + rawsize > inRFLen \<or> dst + rawsize > length outBuf then Inl OutOfBounds
         else if int rawsize \<noteq> u64 want then Inl BlockTooSmall
         else Inr (poke dst (peek (off + 1) rawsize inBuf) outBuf))
      else if dst + usize > length outBuf then Inl OutOfBounds
      else
        (case unc usize (peek off sz inBuf) of
           Inl e \<Rightarrow> Inl (uncompress_error e)
         | Inr out \<Rightarrow>
             if int (length out) \<noteq> u64 want then Inl BlockTooSmall
             else Inr (poke dst out outBuf)))"

function decode_blocks ::
    "uncompressor \<Rightarrow> byte list \<Rightarrow> nat \<Rightarrow> nat \<Rightarrow> nat \<Rightarrow> nat \<Rightarrow> byte list \<Rightarrow> derror + byte list" where
  "decode_blocks unc inBuf filesize blockStart numBlocks currBlock outBuf =
     (if currBlock < numBlocks then
        bindE (decode_block unc inBuf filesize blockStart numBlocks currBlock outBuf)
          (decode_blocks unc inBuf filesize blockStart numBlocks (currBlock + 1))
      else Inr outBuf)"
  by pat_completeness auto
termination
  by (relation "measure (\<lambda>(unc, inBuf, filesize, blockStart, numBlocks, currBlock, outBuf).
        numBlocks - currBlock)") auto

declare decode_blocks.simps [simp del]

section \<open>A whole resource fork, an attribute\<close>

definition decode_resource_fork ::
    "uncompressor \<Rightarrow> byte list \<Rightarrow> nat \<Rightarrow> byte list \<Rightarrow> derror + byte list" where
  "decode_resource_fork unc inBuf filesize outBuf =
     (let inRFLen = int (length inBuf);
          hdr = int (be_val (peek 0 4 inBuf))
      in
      if inRFLen < 0x13A \<or> inRFLen < u32 (hdr + 0x4) then Inl IncompleteFreed
      else
        let blockStart = nat (hdr + 0x4) in
        if blockStart + 4 > length inBuf then Inl OutOfBounds
        else
          let numBlocks = le_val (peek blockStart 4 inBuf) in
          if inRFLen < u32 (hdr + 0x3A + u32 (int numBlocks * 8)) then Inl Incomplete
          else if u32 (int compblksize * u32 (int numBlocks - 1)) + int (filesize mod compblksize)
                  > int filesize then Inl WrongFileSize
          else decode_blocks unc inBuf filesize blockStart numBlocks 0 outBuf)"

definition decode_xattr ::
    "uncompressor \<Rightarrow> byte list \<Rightarrow> nat \<Rightarrow> byte list \<Rightarrow> derror + byte list" where
  "decode_xattr unc indecmpfsBuf filesize outBuf =
     (let indecmpfsLen = length indecmpfsBuf; dataStart = sizeof_disk_header in
      if indecmpfsLen = dataStart then Inl NoDataInXattr
      else if indecmpfsBuf ! dataStart = 0xFF then
        (let rawsize = indecmpfsLen - (dataStart + 1) in
         if rawsize > length outBuf then Inl OutOfBounds
         else if rawsize \<noteq> filesize then Inl BlockTooSmall
         else Inr (poke 0 (peek (dataStart + 1) rawsize indecmpfsBuf) outBuf))
      else
        (case unc filesize (drop dataStart indecmpfsBuf) of
           Inl e \<Rightarrow> Inl (uncompress_error e)
         | Inr out \<Rightarrow>
             if length out \<noteq> filesize then Inl BlockTooSmall else Inr (poke 0 out outBuf)))"

end
