(* ===== verification/ZlibRoundtrip.thy ===== *)
theory ZlibRoundtrip
  imports ZlibFork Decompress
begin

text \<open>
  What the ZLIB compressor writes, the ZLIB decompressor reads back: the fields of
  \<open>zlib_fork\<close> as the decompressor reads them, the contract of zlib as a named hypothesis, the
  bound on the fork that the size guard gives, and the decompression of the fork and of the
  attribute.
\<close>

section \<open>Reading the layout\<close>

lemma sum_len_take_block_table:
  "k \<le> n \<Longrightarrow> sum_len (take k (map (block_entry n blks) [0..<n])) = 8 * k"
  by (simp add: sum_len_def take_map comp_def sum_list_triv take_upt)

lemma zlib_fork_header: "peek 0 4 (zlib_fork n blks) = be_bytes 4 0x100"
  by (simp add: zlib_fork_def Let_def peek_append1 peek_all)

lemma zlib_fork_split:
  "\<exists>A. length A = 0x104 \<and> zlib_fork n blks =
     A @ le_bytes 4 n @ concat (map (block_entry n blks) [0..<n]) @ concat blks @ zlib_trailer"
proof -
  let ?e = "zlib_base n + sum_len blks"
  let ?A = "be_bytes 4 0x100 @ be_bytes 4 ?e @ be_bytes 4 (?e - 0x100) @ be_bytes 4 0x32
         @ replicate 0xF0 0 @ be_bytes 4 (?e - 0x104)"
  have "length ?A = 0x104" by simp
  then show ?thesis
    by (intro exI [of _ ?A]) (simp add: zlib_fork_def Let_def)
qed

lemma zlib_fork_count: "peek 0x104 4 (zlib_fork n blks) = le_bytes 4 n"
proof -
  obtain A where "length A = 0x104" "zlib_fork n blks =
     A @ le_bytes 4 n @ concat (map (block_entry n blks) [0..<n]) @ concat blks @ zlib_trailer"
    using zlib_fork_split by blast
  then show ?thesis by (simp add: peek_append1 peek_append2 peek_all)
qed

lemma zlib_fork_entry:
  assumes "k < n"
  shows "peek (0x108 + 8 * k) 8 (zlib_fork n blks) = block_entry n blks k"
proof -
  obtain A where A: "length A = 0x104" "zlib_fork n blks =
     A @ le_bytes 4 n @ concat (map (block_entry n blks) [0..<n]) @ concat blks @ zlib_trailer"
    using zlib_fork_split by blast
  have "peek (0x108 + 8 * k) 8 (zlib_fork n blks) =
      peek (8 * k) 8 (concat (map (block_entry n blks) [0..<n]) @ concat blks @ zlib_trailer)"
    by (simp add: A peek_append2)
  then show ?thesis
    using peek_concat_nth [of k "map (block_entry n blks) [0..<n]" "concat blks @ zlib_trailer"] assms
    by (simp add: sum_len_take_block_table)
qed

lemma zlib_fork_block:
  assumes "k < length blks"
  shows "peek (zlib_base n + sum_len (take k blks)) (length (blks ! k)) (zlib_fork n blks) = blks ! k"
proof -
  obtain A where A: "length A = 0x104" "zlib_fork n blks =
     A @ le_bytes 4 n @ concat (map (block_entry n blks) [0..<n]) @ concat blks @ zlib_trailer"
    using zlib_fork_split by blast
  then have "peek (zlib_base n + sum_len (take k blks)) (length (blks ! k)) (zlib_fork n blks)
      = peek (sum_len (take k blks)) (length (blks ! k)) (concat blks @ zlib_trailer)"
    by (simp add: peek_append2 zlib_base_def)
  then show ?thesis using assms by (simp only: peek_concat_nth)
qed

section \<open>The contract of zlib\<close>

text \<open>
  zlib's documentation: \<open>compress2\<close> fills at most the capacity it is given and writes a
  stream, which begins with a CMF byte (compression method 8 in the low nibble, so never
  0xFF); \<open>uncompress\<close> restores the data whenever the destination is large enough.
\<close>

definition zlib_contract :: "codecs \<Rightarrow> uncompressor \<Rightarrow> bool" where
  "zlib_contract cdc unc \<longleftrightarrow>
     (\<forall>cap src level out. compress2 cdc cap src level = Some out \<longrightarrow>
        length out \<le> cap \<and> out \<noteq> [] \<and> hd out AND 0x0F = 8
        \<and> (\<forall>c \<ge> length src. unc c out = Inr src))"

text \<open>A block decodes to its chunk: either the marker and the raw bytes, or a zlib stream.\<close>

definition block_of_chunk :: "uncompressor \<Rightarrow> byte list \<Rightarrow> byte list \<Rightarrow> bool" where
  "block_of_chunk unc chunk blk \<longleftrightarrow>
     blk = 0xFF # chunk \<or>
     (blk \<noteq> [] \<and> hd blk \<noteq> 0xFF \<and> length blk \<le> length chunk
      \<and> (\<forall>c \<ge> length chunk. unc c blk = Inr chunk))"

lemma chunk_block_decodes:
  assumes "zlib_contract cdc unc" and "chunk_block cdc hp fi ZLIB chunk = Inr blk"
  shows "block_of_chunk unc chunk blk"
proof -
  from assms(2) obtain out where
    out: "compress2 cdc (compressBound cdc compblksize) chunk (compressionlevel fi) = Some out"
    and blk: "large_block cdc fi ZLIB chunk out = Inr blk"
    by (auto simp: chunk_block_def bind_simps split: option.splits)
  from out assms(1) have "out \<noteq> []" "hd out AND 0x0F = 8" "\<forall>c \<ge> length chunk. unc c out = Inr chunk"
    unfolding zlib_contract_def by blast+
  moreover from this(2) have "hd out \<noteq> 0xFF" by (intro notI) simp
  ultimately show ?thesis
    using blk by (auto simp: block_of_chunk_def large_block_def split: if_splits)
qed

lemma block_of_chunk_length: "block_of_chunk unc chunk blk \<Longrightarrow> length blk \<le> length chunk + 1"
  by (auto simp: block_of_chunk_def)

lemma block_of_chunk_ne: "block_of_chunk unc chunk blk \<Longrightarrow> blk \<noteq> []"
  by (auto simp: block_of_chunk_def)

section \<open>The size of the fork\<close>

lemma sum_len_blocks_le:
  assumes "length blks \<le> chunk_count (length inBuf)"
    and "\<forall>k < length blks. length (blks ! k) \<le> length (chunk_at inBuf (k * compblksize)) + 1"
  shows "sum_len blks \<le> min (length blks * compblksize) (length inBuf) + length blks"
  using assms
proof (induction blks rule: rev_induct)
  case Nil
  then show ?case by simp
next
  case (snoc blk blks)
  let ?pos = "length blks * compblksize"
  have "sum_len blks \<le> min ?pos (length inBuf) + length blks"
    using snoc by (simp add: nth_append less_Suc_eq)
  moreover have "?pos < length inBuf"
    using snoc.prems(1) by (simp add: pos_lt_iff_chunk)
  moreover have "length blk \<le> bytesAfterCursor (length inBuf) ?pos + 1"
    using snoc.prems(2) \<open>?pos < length inBuf\<close> by (auto simp: nth_append dest: spec [of _ "length blks"])
  ultimately show ?case
    by (simp add: bytesAfterCursor_def split: if_splits)
qed

definition good_blocks :: "uncompressor \<Rightarrow> byte list \<Rightarrow> byte list list \<Rightarrow> bool" where
  "good_blocks unc inBuf blks \<longleftrightarrow>
     length blks = chunk_count (length inBuf)
     \<and> (\<forall>k < length blks. block_of_chunk unc (chunk_at inBuf (k * compblksize)) (blks ! k))"

lemma good_blocks_size:
  assumes "good_blocks unc inBuf blks"
  shows "sum_len blks \<le> length inBuf + chunk_count (length inBuf)"
proof -
  have "sum_len blks \<le> min (length blks * compblksize) (length inBuf) + length blks"
    using assms by (intro sum_len_blocks_le allI impI block_of_chunk_length)
      (auto simp: good_blocks_def)
  with assms show ?thesis by (simp add: good_blocks_def)
qed

lemma good_blocks_fork_size:
  assumes "good_blocks unc inBuf blks" and "size_supported (length inBuf)"
  shows "length (zlib_fork (chunk_count (length inBuf)) blks) \<le> CMP_MAX_SUPPORTED_SIZE"
  using good_blocks_size [OF assms(1)] size_supported_exact(2) [OF assms(2)]
  by (simp add: length_zlib_fork zlib_base_def)

section \<open>Decompressing the fork\<close>

lemma zlib_fork_block_offset:
  assumes "k < n" "4 + 8 * n + sum_len blks < 2 ^ 32"
  shows "block_offset (zlib_fork n blks) 0x104 k = 4 + 8 * n + sum_len (take k blks)"
proof -
  have "peek (0x104 + 0x4 + k * 8) 4 (zlib_fork n blks)
      = peek 0 4 (peek (0x108 + 8 * k) 8 (zlib_fork n blks))"
    by (simp add: peek_peek mult.commute)
  then show ?thesis
    using assms sum_len_take_le [of k blks]
    by (simp add: block_offset_def zlib_fork_entry block_entry_def peek_append1 peek_all
        le_val_le_bytes)
qed

lemma zlib_fork_block_size:
  assumes "k < n" "length blks = n" "sum_len blks < 2 ^ 32"
  shows "block_size (zlib_fork n blks) 0x104 k = length (blks ! k)"
proof -
  have "peek (0x104 + 0x8 + k * 8) 4 (zlib_fork n blks)
      = peek 4 4 (peek (0x108 + 8 * k) 8 (zlib_fork n blks))"
    by (simp add: peek_peek mult.commute)
  moreover have "length (blks ! k) < 2 ^ 32"
    using sum_len_take_nth_le [of k blks] assms by simp
  ultimately show ?thesis
    using assms(1)
    by (simp add: block_size_def zlib_fork_entry block_entry_def peek_append2 peek_all
        le_val_le_bytes)
qed

lemma u32_small: "0 \<le> x \<Longrightarrow> x < 2 ^ 32 \<Longrightarrow> u32 x = x"
  by (simp add: u32_def)

lemma u64_small: "0 \<le> x \<Longrightarrow> x < 2 ^ 64 \<Longrightarrow> u64 x = x"
  by (simp add: u64_def)

lemma remaining_size_chunk:
  assumes "k * compblksize < length inBuf" "length inBuf < 2 ^ 31"
  shows "remaining_size (length inBuf) k = int (length (chunk_at inBuf (k * compblksize)))"
proof -
  have "u32 (int (k * compblksize)) = int (k * compblksize)"
  proof (rule u32_small)
    show "int (k * compblksize) < 2 ^ 32" using assms by (simp del: of_nat_mult)
  qed simp
  moreover have "int (length inBuf) - int (k * compblksize) = int (length inBuf - k * compblksize)"
    using assms(1) by (simp only: of_nat_diff less_imp_le)
  ultimately show ?thesis
    using assms(1) by (auto simp: remaining_size_def bytesAfterCursor_def Let_def simp del: of_nat_mult)
qed

lemma last_chunk_full:
  assumes "k + 1 < chunk_count (length inBuf)"
  shows "length (chunk_at inBuf (k * compblksize)) = compblksize"
proof -
  have "(k + 1) * compblksize < length inBuf" using assms by (simp only: pos_lt_iff_chunk)
  then have "k * compblksize \<le> length inBuf" "compblksize < length inBuf - k * compblksize"
    by (simp_all add: algebra_simps)
  then show ?thesis by (simp add: bytesAfterCursor_def)
qed

text \<open>One block of the fork restores its chunk at its place in the output.\<close>

lemma decode_block_fork:
  assumes good: "good_blocks unc inBuf blks" and size: "size_supported (length inBuf)"
    and n: "n = chunk_count (length inBuf)" and k: "k < n" and out: "length obuf = length inBuf"
  shows "decode_block unc (zlib_fork n blks) (length inBuf) 0x104 n k obuf
         = Inr (poke (k * compblksize) (chunk_at inBuf (k * compblksize)) obuf)"
proof -
  define F where "F = zlib_fork n blks"
  define chunk where "chunk = chunk_at inBuf (k * compblksize)"
  define off where "off = zlib_base n + sum_len (take k blks)"
  have len: "length blks = n" using good n by (simp add: good_blocks_def)
  have blk: "block_of_chunk unc chunk (blks ! k)"
    using good k n len by (auto simp: good_blocks_def chunk_def)
  have pos: "k * compblksize < length inBuf" using k n by (simp add: pos_lt_iff_chunk)
  have small: "length inBuf < 2 ^ 31" and fsz: "length F < 2 ^ 31"
    using size_supported_exact(2) [OF size] good_blocks_fork_size [OF good size]
    by (simp_all add: CMP_MAX_SUPPORTED_SIZE_def F_def n)
  have lF: "length F = zlib_base n + sum_len blks + 50"
    by (simp add: F_def length_zlib_fork)
  have fit: "off + length (blks ! k) + 50 \<le> length F"
    using sum_len_take_nth_le [of k blks] k len by (simp add: lF off_def)
  have sum32: "4 + 8 * n + sum_len blks < 2 ^ 32"
    using fsz lF by (simp add: zlib_base_def)
  have bo: "0x104 + block_offset F 0x104 k = off"
    using zlib_fork_block_offset [OF k sum32] by (simp add: F_def off_def zlib_base_def)
  have bs: "block_size F 0x104 k = length (blks ! k)"
    using sum32 by (auto simp: F_def intro!: zlib_fork_block_size k len)
  have data: "peek off (length (blks ! k)) F = blks ! k"
    using k len by (simp add: F_def off_def zlib_fork_block)
  have clen: "length chunk \<le> compblksize" "k * compblksize + length chunk \<le> length inBuf" "chunk \<noteq> []"
    using pos by (auto simp: chunk_def chunk_at_eq)
  have rem: "remaining_size (length inBuf) k = int (length chunk)"
    using pos small by (simp add: remaining_size_chunk chunk_def)
  have wantc: "(if k + 1 \<noteq> n then int compblksize else int (length chunk)) = int (length chunk)"
    using k n last_chunk_full [of k inBuf] by (auto simp: chunk_def)
  have u1: "nat (u32 (int (compblksize * k))) = k * compblksize"
  proof -
    have "int (compblksize * k) < 2 ^ 32"
      using pos small by (simp add: mult.commute del: of_nat_mult)
    then show ?thesis by (simp add: u32_small mult.commute del: of_nat_mult)
  qed
  have c64: "u64 (int (length chunk)) = int (length chunk)"
    using clen small by (intro u64_small) simp_all
  have s64: "u64 (int (k * compblksize) + int (length chunk)) = int (k * compblksize) + int (length chunk)"
  proof (rule u64_small)
    show "int (k * compblksize) + int (length chunk) < 2 ^ 64"
      using clen small by (simp flip: of_nat_add of_nat_mult)
  qed simp
  have room: "0x104 + 0xC + k * 8 \<le> length F"
    using k by (simp add: lF zlib_base_def)
  have hd: "F ! off = hd (blks ! k)"
  proof -
    have "hd (peek off (length (blks ! k)) F) = F ! off"
      using fit block_of_chunk_ne [OF blk] by (simp add: peek_def hd_take hd_drop_conv_nth)
    then show ?thesis by (simp add: data)
  qed
  have b1: "length (blks ! k) = Suc (length chunk)" "peek (Suc off) (length chunk) F = chunk"
    if "blks ! k = 0xFF # chunk"
    using data that by (simp_all add: peek_Suc)
  have inside: "\<not> int (length inBuf) < int (k * compblksize) + int (length chunk)"
    using clen(2) by (simp add: not_less flip: of_nat_add of_nat_mult)
  show ?thesis
  proof (cases "blks ! k = 0xFF # chunk")
    case True
    then show ?thesis
      unfolding decode_block_def Let_def F_def [symmetric] bo bs rem u1 wantc c64
      using room fit s64 inside clen out b1 hd small
      by (simp add: c64 chunk_def [symmetric] u32_small nat_add_distrib)
  next
    case False
    then have "hd (blks ! k) \<noteq> 0xFF" "unc (length chunk) (blks ! k) = Inr chunk"
      using blk by (auto simp: block_of_chunk_def)
    then show ?thesis
      unfolding decode_block_def Let_def F_def [symmetric] bo bs rem u1 wantc c64
      using room fit s64 inside clen out hd data
      by (simp add: c64 chunk_def [symmetric])
  qed
qed

text \<open>The blocks decoded from block \<open>k\<close> on complete the output.\<close>

lemma take_poke_chunk:
  assumes "pos \<le> length inBuf" and "length obuf = length inBuf" and "take pos obuf = take pos inBuf"
  shows "take (pos + compblksize) (poke pos (chunk_at inBuf pos) obuf) = take (pos + compblksize) inBuf"
proof -
  have "poke pos (chunk_at inBuf pos) obuf
      = take pos inBuf @ take compblksize (drop pos inBuf) @ drop (pos + bytesAfterCursor (length inBuf) pos) obuf"
    using assms by (simp add: poke_def chunk_at_eq [symmetric])
  also have "take (pos + compblksize) \<dots> = take pos inBuf @ take compblksize (drop pos inBuf)"
    using assms by (auto simp: bytesAfterCursor_def)
  finally show ?thesis by (simp add: take_add)
qed

lemma decode_blocks_fork:
  assumes "good_blocks unc inBuf blks" and "size_supported (length inBuf)"
    and "n = chunk_count (length inBuf)" and "k \<le> n" and "length obuf = length inBuf"
    and "take (k * compblksize) obuf = take (k * compblksize) inBuf"
  shows "decode_blocks unc (zlib_fork n blks) (length inBuf) 0x104 n k obuf = Inr inBuf"
  using assms(4-)
proof (induction "n - k" arbitrary: k obuf)
  case 0
  then have "\<not> k * compblksize < length inBuf" by (simp add: pos_lt_iff_chunk assms(3))
  with 0 show ?case by (simp add: decode_blocks.simps)
next
  case (Suc d)
  let ?obuf = "poke (k * compblksize) (chunk_at inBuf (k * compblksize)) obuf"
  from Suc.hyps(2) have k: "k < n" by simp
  then have pos: "k * compblksize < length inBuf" by (simp add: pos_lt_iff_chunk assms(3))
  have step: "decode_block unc (zlib_fork n blks) (length inBuf) 0x104 n k obuf = Inr ?obuf"
    using assms(1-3) k Suc.prems(2) by (rule decode_block_fork)
  have "length ?obuf = length inBuf"
    using pos Suc.prems(2) by (subst length_poke) (auto simp: bytesAfterCursor_def)
  moreover have "take (Suc k * compblksize) ?obuf = take (Suc k * compblksize) inBuf"
    using take_poke_chunk [of "k * compblksize" inBuf obuf] pos Suc.prems by (simp add: add.commute)
  ultimately have "decode_blocks unc (zlib_fork n blks) (length inBuf) 0x104 n (Suc k) ?obuf = Inr inBuf"
    using Suc.hyps k by simp
  with k step show ?case by (simp add: decode_blocks.simps)
qed

lemma decode_zlib_fork:
  assumes good: "good_blocks unc inBuf blks" and size: "size_supported (length inBuf)"
    and ne: "inBuf \<noteq> []" and obuf: "length obuf = length inBuf"
  shows "decode_resource_fork unc (zlib_fork (chunk_count (length inBuf)) blks) (length inBuf) obuf
         = Inr inBuf"
proof -
  define n where "n = chunk_count (length inBuf)"
  define F where "F = zlib_fork n blks"
  have n16: "n < 2 ^ 16" and n: "0 < n"
    using size_supported_exact(2) [OF size] ne pos_lt_iff_chunk [of 0 "length inBuf"]
    by (simp_all add: CMP_MAX_SUPPORTED_SIZE_def n_def chunk_count_def compblksize_def)
  have lF: "length F = zlib_base n + sum_len blks + 50" by (simp add: F_def length_zlib_fork)
  have hdr: "be_val (peek 0 4 F) = 0x100" "le_val (peek 0x104 4 F) = n"
    using n16 by (simp_all add: F_def zlib_fork_header zlib_fork_count be_val_be_bytes le_val_le_bytes)
  have "int compblksize * (int n - 1) + int (length inBuf mod compblksize) \<le> int (length inBuf)"
  proof -
    have "(n - 1) * compblksize \<le> length inBuf"
      using n pos_lt_iff_chunk [of "n - 1" "length inBuf"] by (simp add: n_def)
    then have "n - 1 \<le> length inBuf div compblksize"
      by (simp add: less_eq_div_iff_mult_less_eq)
    then have "compblksize * (n - 1) + length inBuf mod compblksize \<le> length inBuf"
      by (metis add_le_mono1 mult_div_mod_eq mult_le_mono2)
    then have "int (compblksize * (n - 1) + length inBuf mod compblksize) \<le> int (length inBuf)"
      by (simp only: of_nat_le_iff)
    with n show ?thesis by (simp add: of_nat_diff)
  qed
  moreover have "u32 (int compblksize * (int n - 1)) \<le> int compblksize * (int n - 1)"
    using n by (simp add: u32_def zmod_le_nonneg_dividend)
  ultimately have last: "u32 (int compblksize * (int n - 1)) + int (length inBuf mod compblksize)
      \<le> int (length inBuf)"
    by simp
  have "decode_blocks unc F (length inBuf) 0x104 n 0 obuf = Inr inBuf"
    unfolding F_def using good size n_def _ obuf by (rule decode_blocks_fork) simp_all
  then show ?thesis
    using n n16 last unfolding decode_resource_fork_def Let_def F_def [symmetric] n_def [symmetric]
    by (simp add: hdr lF zlib_base_def u32_small)
qed

text \<open>The attribute of a one-block file.\<close>

lemma decode_zlib_xattr:
  assumes blk: "block_of_chunk unc inBuf blk" and hdr: "length hdr = sizeof_disk_header"
    and obuf: "length obuf = length inBuf"
  shows "decode_xattr unc (hdr @ blk) (length inBuf) obuf = Inr inBuf"
  using blk hdr obuf
  by (auto simp: decode_xattr_def block_of_chunk_def Let_def nth_append peek_def poke_def
      hd_conv_nth)

section \<open>From the loop to the fork and back\<close>

lemma zlib_loop_blocks:
  assumes "chunk_loop cdc hp fi ZLIB inBuf (chunk_count (length inBuf)) 0 0
             (chunk_init hp ZLIB (chunk_count (length inBuf))) = Inr (NextChunk st)"
    and "zlib_finish hp st = Inr st'"
  obtains blks where "fork_bytes ZLIB st' = zlib_fork (chunk_count (length inBuf)) blks"
    and "map (chunk_block cdc hp fi ZLIB) (file_chunks inBuf) = map Inr blks"
proof -
  obtain blks where inv: "zlib_invar (chunk_count (length inBuf)) blks st"
    and len: "length blks = chunk_count (length inBuf)"
    and blk: "\<forall>k < chunk_count (length inBuf).
         chunk_block cdc hp fi ZLIB (chunk_at inBuf (k * compblksize)) = Inr (blks ! k)"
    using zlib_loop_invar [where blks = "[]" and inBuf = inBuf and cdc = cdc and fi = fi
        and hp = hp and st' = st, OF zlib_invar_init] assms(1) by auto
  have "map (chunk_block cdc hp fi ZLIB) (file_chunks inBuf) = map Inr blks"
    using len blk by (intro nth_equalityI) (simp_all add: file_chunks_def)
  with inv len assms(2) show thesis by (intro that zlib_finish_fork)
qed

lemma zlib_blocks_good:
  assumes "zlib_contract cdc unc"
    and "map (chunk_block cdc hp fi ZLIB) (file_chunks inBuf) = map Inr blks"
  shows "good_blocks unc inBuf blks"
proof -
  have len: "length blks = chunk_count (length inBuf)"
    using arg_cong [OF assms(2), of length] by (simp add: file_chunks_def)
  have "chunk_block cdc hp fi ZLIB (chunk_at inBuf (k * compblksize)) = Inr (blks ! k)"
    if "k < length blks" for k
    using arg_cong [OF assms(2), of "\<lambda>l. l ! k"] that len by (simp add: file_chunks_def)
  then have "block_of_chunk unc (chunk_at inBuf (k * compblksize)) (blks ! k)" if "k < length blks" for k
    using that assms(1) by (intro chunk_block_decodes)
  with len show ?thesis by (simp add: good_blocks_def)
qed

section \<open>The loop does not fail\<close>

lemma zlib_loop_error:
  assumes "zlib_invar (chunk_count (length inBuf)) blks st"
    and "compblksize < compressBound cdc compblksize"
    and "chunk_loop cdc hp fi ZLIB inBuf (chunk_count (length inBuf))
           (length blks * compblksize) (length blks) st = Inl e"
  shows "e = CompressFailed \<and> (\<exists>chunk. length chunk \<le> compblksize \<and>
           compress2 cdc (compressBound cdc compblksize) chunk (compressionlevel fi) = None)
    \<or> e = ReallocFailed \<and> (\<exists>n. \<not> realloc_ok hp n)
    \<or> e = LargeChunk \<and> \<not> allowLargeBlocks fi"
  using assms(1,3)
proof (induction "chunk_count (length inBuf) - length blks" arbitrary: blks st)
  case 0
  then have len: "length blks = chunk_count (length inBuf)" by (simp add: zlib_invar_def)
  then have "\<not> length blks * compblksize < length inBuf" by (simp add: pos_lt_iff_chunk)
  with "0.prems"(2) show ?case by (simp add: chunk_loop.simps)
next
  case (Suc d)
  let ?n = "chunk_count (length inBuf)" and ?pos = "length blks * compblksize"
  from Suc.hyps(2) have len: "length blks < ?n" by simp
  then have pos: "?pos < length inBuf" by (simp add: pos_lt_iff_chunk)
  with Suc.prems(2) consider
      "chunk_step cdc hp fi ZLIB inBuf ?n ?pos (length blks) st = Inl e"
    | st1 where "chunk_step cdc hp fi ZLIB inBuf ?n ?pos (length blks) st = Inr (NextChunk st1)"
      "chunk_loop cdc hp fi ZLIB inBuf ?n (?pos + compblksize) (Suc (length blks)) st1 = Inl e"
    by (subst (asm) chunk_loop.simps) (auto split: sum.splits chunk_result.splits)
  then show ?case
  proof cases
    case 1
    then have "e = CompressFailed \<and> compress2 cdc (compressBound cdc compblksize)
           (chunk_at inBuf ?pos) (compressionlevel fi) = None
        \<or> e = ReallocFailed \<and> (\<exists>n. \<not> realloc_ok hp n)
        \<or> e = LargeChunk \<and> \<not> allowLargeBlocks fi"
      using pos by (intro zlib_step_error [OF Suc.prems(1) assms(2)]) simp_all
    moreover have "length (chunk_at inBuf ?pos) \<le> compblksize"
      using pos by (simp add: bytesAfterCursor_le)
    ultimately show ?thesis by blast
  next
    case (2 st1)
    obtain blk where "zlib_invar ?n (blks @ [blk]) st1"
      using zlib_invar_step [OF Suc.prems(1) len 2(1)] by blast
    then show ?thesis
      using Suc.hyps(1) [of "blks @ [blk]" st1] Suc.hyps(2) 2(2) by (simp add: add.commute)
  qed
qed

end
