(* ===== verification/LzFork.thy ===== *)
theory LzFork
  imports Compress
begin

text \<open>
  The LZVN and LZFSE resource fork: \<open>lz_fork n blks\<close> is its layout in closed form (the chunk
  table of \<open>n + 1\<close> offsets, then the blocks). The invariant of the loop relates the buffer to
  it, the loop is proved to produce exactly it, and the table is related to the blocks it
  delimits. The retry loop of the LZFSE case ends the theory.
\<close>

section \<open>The layout\<close>

definition lz_type :: "compression_type \<Rightarrow> bool" where
  "lz_type c \<longleftrightarrow> c = LZVN \<or> c = LZFSE"

definition lz_offset :: "nat \<Rightarrow> byte list list \<Rightarrow> nat \<Rightarrow> nat" where
  "lz_offset n blks k = 4 * (n + 1) + sum_len (take k blks)"

definition lz_fork :: "nat \<Rightarrow> byte list list \<Rightarrow> byte list" where
  "lz_fork n blks = concat (map (\<lambda>k. le_bytes 4 (lz_offset n blks k)) [0..<n + 1]) @ concat blks"

lemma lz_offset_0 [simp]: "lz_offset n blks 0 = 4 * (n + 1)"
  by (simp add: lz_offset_def)

lemma lz_offset_all: "length blks \<le> k \<Longrightarrow> lz_offset n blks k = 4 * (n + 1) + sum_len blks"
  by (simp add: lz_offset_def)

lemma lz_offset_Suc:
  "k < length blks \<Longrightarrow> lz_offset n blks (Suc k) = lz_offset n blks k + length (blks ! k)"
  by (simp add: lz_offset_def sum_len_take_Suc)

lemma lz_offset_snoc: "k \<le> length blks \<Longrightarrow> lz_offset n (blks @ [blk]) k = lz_offset n blks k"
  by (simp add: lz_offset_def)

text \<open>A field stores its value modulo its width.\<close>

lemma le_bytes_mod: "le_bytes k (n mod 256 ^ k) = le_bytes k n"
proof (induction k arbitrary: n)
  case 0
  then show ?case by simp
next
  case (Suc k)
  have "(n mod 256 ^ Suc k) mod 256 = n mod 256"
    by (simp add: mod_mod_cancel)
  then have "unat (word_of_nat (n mod 256 ^ Suc k) :: byte) = unat (word_of_nat n :: byte)"
    by (simp only: unat_word_of_nat_byte)
  then have "(word_of_nat (n mod 256 ^ Suc k) :: byte) = word_of_nat n"
    by (simp only: word_unat_eq_iff)
  moreover have "n mod 256 ^ Suc k div 256 = n div 256 mod 256 ^ k"
    by (simp add: mod_mult2_eq)
  ultimately show ?case using Suc [of "n div 256"] by simp
qed

lemma le_bytes_add_mod: "le_bytes 4 (n mod 2 ^ 32 + m) = le_bytes 4 (n + m)"
  using le_bytes_mod [of 4 "n + m"] le_bytes_mod [of 4 "n mod 2 ^ 32 + m"] by (simp add: mod_add_left_eq)

section \<open>The invariant of the loop\<close>

definition lz_invar :: "nat \<Rightarrow> byte list list \<Rightarrow> cstate \<Rightarrow> bool" where
  "lz_invar n blks st \<longleftrightarrow>
     length (outBuf st) = outBufSize st
     \<and> outBufSize st = 4 * (n + 1) + sum_len blks
     \<and> length blks \<le> n
     \<and> (\<forall>k \<le> length blks. peek (4 * k) 4 (outBuf st) = le_bytes 4 (lz_offset n blks k))
     \<and> drop (4 * (n + 1)) (outBuf st) = concat blks
     \<and> (blks = [] \<longrightarrow> currBlockOffset st = 0)
     \<and> (blks \<noteq> [] \<longrightarrow> currBlockOffset st = 4 * (n + 1) + sum_len blks)"

lemma lz_invar_init:
  assumes "lz_type c"
  shows "lz_invar n [] (chunk_init hp c n)"
proof -
  have "chunk_init hp c n = \<lparr>outBuf = set_chunkTable 0 ((n + 1) * 4) (replicate ((n + 1) * 4) 0),
      outBufSize = (n + 1) * 4, currBlock = 0, currBlockOffset = 0\<rparr>"
    using assms by (auto simp: lz_type_def Let_def)
  then show ?thesis
    using peek_poke_same [of 0 "le_bytes 4 (4 * (n + 1))" "replicate (4 * (n + 1)) (0 :: byte)"]
    by (simp add: lz_invar_def set_chunkTable_def mult.commute)
qed

lemma drop_poke_before:
  "off + length bs \<le> a \<Longrightarrow> a \<le> length buf \<Longrightarrow> drop a (poke off bs buf) = drop a buf"
  by (simp add: poke_def)

lemma reallocf_grow: "length buf \<le> n \<Longrightarrow> reallocf j buf n = buf @ map j [length buf..<n]"
  by (simp add: reallocf_def)

lemma poke_append_at_end:
  "length ys = length bs \<Longrightarrow> poke (length xs) bs (xs @ ys) = xs @ bs"
  by (simp add: poke_def)

text \<open>One step: the next table entry is noted, and the block lands behind the others.\<close>

lemma lz_step_buffer:
  assumes lz: "lz_type c" and inv: "lz_invar n blks st" and len: "length blks < n"
    and st1: "grow_outBuf hp c (length blk)
                (note_next_offset c n (length blks) (length blk) st) = Inr st1"
    and place: "place_block c n pos blk st1 = Inr (NextChunk st')"
  shows "outBuf st' = set_chunkTable (Suc (length blks))
            (chunkTable (outBuf st) (length blks) + length blk) (outBuf st) @ blk"
    and "outBufSize st' = outBufSize st + length blk"
    and "currBlockOffset st' = outBufSize st + length blk"
proof -
  let ?tab = "set_chunkTable (Suc (length blks))
            (chunkTable (outBuf st) (length blks) + length blk) (outBuf st)"
  have room: "4 * Suc (length blks) + 4 \<le> length (outBuf st)"
    using inv len by (simp add: lz_invar_def)
  then have ltab: "length ?tab = outBufSize st"
    using inv by (simp add: set_chunkTable_def lz_invar_def)
  have nt: "note_next_offset c n (length blks) (length blk) st = st\<lparr>outBuf := ?tab\<rparr>"
    using lz len by (auto simp: lz_type_def)
  have off: "0 < currBlockOffset st \<Longrightarrow> currBlockOffset st = outBufSize st"
    using inv by (cases "blks = []") (simp_all add: lz_invar_def)
  have slack: "realloc_slack c = 0" using lz by (auto simp: lz_type_def)
  have s1: "outBuf st1 = ?tab @ map (junk hp) [outBufSize st..<outBufSize st + length blk]"
    "outBufSize st1 = outBufSize st + length blk" "currBlock st1 = outBufSize st"
    "currBlockOffset st1 = outBufSize st"
    using st1 unfolding grow_outBuf_def nt slack
    by (auto simp: Let_def reallocf_grow ltab intro: off split: if_splits)
  have ent: "set_block_entry c i cur m buf = buf" for i cur m buf
    using lz by (auto simp: lz_type_def)
  have "poke (currBlock st1) blk (outBuf st1) = ?tab @ blk"
    unfolding s1 ltab [symmetric] by (rule poke_append_at_end) simp
  with place s1 show "outBuf st' = ?tab @ blk" "outBufSize st' = outBufSize st + length blk"
    "currBlockOffset st' = outBufSize st + length blk"
    by (auto simp: place_block_def ent split: if_splits)
qed

lemma lz_invar_buffer:
  assumes inv: "lz_invar n blks st" and len: "length blks < n"
    and buf: "outBuf st' = set_chunkTable (Suc (length blks))
            (chunkTable (outBuf st) (length blks) + length blk) (outBuf st) @ blk"
    and size: "outBufSize st' = outBufSize st + length blk"
    and off: "currBlockOffset st' = outBufSize st + length blk"
  shows "lz_invar n (blks @ [blk]) st'"
proof -
  define v where "v = chunkTable (outBuf st) (length blks) + length blk"
  let ?i = "Suc (length blks)"
  let ?tab = "poke (4 * ?i) (le_bytes 4 v) (outBuf st)"
  have buf': "outBuf st' = ?tab @ blk" by (simp add: buf v_def set_chunkTable_def)
  have room: "4 * ?i + 4 \<le> length (outBuf st)" using inv len by (simp add: lz_invar_def)
  then have ltab: "length ?tab = outBufSize st" using inv by (simp add: lz_invar_def)
  have v: "le_bytes 4 v = le_bytes 4 (lz_offset n (blks @ [blk]) ?i)"
  proof -
    have "chunkTable (outBuf st) (length blks) = lz_offset n blks (length blks) mod 2 ^ 32"
      using inv by (simp add: chunkTable_def lz_invar_def le_val_le_bytes)
    then show ?thesis
      unfolding v_def by (simp add: lz_offset_Suc lz_offset_snoc nth_append le_bytes_add_mod [simplified])
  qed
  have entry: "peek (4 * k) 4 (outBuf st') = le_bytes 4 (lz_offset n (blks @ [blk]) k)"
    if k: "k \<le> ?i" for k
  proof -
    have "peek (4 * k) 4 (outBuf st') = peek (4 * k) 4 ?tab"
      unfolding buf' using k room ltab inv by (intro peek_append1) (simp add: lz_invar_def)
    also have "\<dots> = le_bytes 4 (lz_offset n (blks @ [blk]) k)"
    proof (cases "k = ?i")
      case True
      then show ?thesis using peek_poke_same [of "4 * ?i" "le_bytes 4 v" "outBuf st"] room v by simp
    next
      case False
      with k inv room show ?thesis by (simp add: peek_poke_before lz_invar_def lz_offset_snoc)
    qed
    finally show ?thesis .
  qed
  have "drop (4 * (n + 1)) (outBuf st') = drop (4 * (n + 1)) (outBuf st) @ blk"
    unfolding buf' using inv len ltab room
    by (simp add: drop_poke_before lz_invar_def)
  then show ?thesis
    using inv len entry ltab size off
    by (auto simp: lz_invar_def buf' less_Suc_eq_le)
qed

text \<open>The blocks of the LZ compressors are the encoder's output, never empty.\<close>

lemma lz_chunk_block:
  assumes "lz_type c"
  shows "chunk_block cdc hp fi c chunk = encode_chunk cdc hp fi c chunk"
proof -
  have "large_block cdc fi c chunk out = Inr out" for out
    using assms by (auto simp: large_block_def lz_type_def)
  then show ?thesis
    by (cases "encode_chunk cdc hp fi c chunk") (simp_all add: chunk_block_def)
qed

lemma lz_invar_step:
  assumes lz: "lz_type c" and inv: "lz_invar n blks st" and len: "length blks < n"
    and step: "chunk_step cdc hp fi c inBuf n pos (length blks) st = Inr (NextChunk st')"
  obtains blk where "chunk_block cdc hp fi c (chunk_at inBuf pos) = Inr blk"
    and "lz_invar n (blks @ [blk]) st'"
proof -
  have lb: "large_block cdc fi c chunk out = Inr out" for chunk out
    using lz by (auto simp: large_block_def lz_type_def)
  from step obtain blk st1 where
    blk: "encode_chunk cdc hp fi c (chunk_at inBuf pos) = Inr blk"
    and st1: "grow_outBuf hp c (length blk)
                (note_next_offset c n (length blks) (length blk) st) = Inr st1"
    and place: "place_block c n pos blk st1 = Inr (NextChunk st')"
    unfolding chunk_step_def by (auto simp: bind_simps lb)
  have "lz_invar n (blks @ [blk]) st'"
    using inv len lz_step_buffer [OF lz inv len st1 place] by (rule lz_invar_buffer)
  with blk lz show thesis by (intro that) (simp add: lz_chunk_block)
qed

lemma lz_loop_invar:
  assumes "lz_type c" and "lz_invar (chunk_count (length inBuf)) blks st"
    and "chunk_loop cdc hp fi c inBuf (chunk_count (length inBuf))
           (length blks * compblksize) (length blks) st = Inr (NextChunk st')"
    and "\<forall>k < length blks. chunk_block cdc hp fi c (chunk_at inBuf (k * compblksize)) = Inr (blks ! k)"
  shows "\<exists>blks'. lz_invar (chunk_count (length inBuf)) blks' st'
    \<and> length blks' = chunk_count (length inBuf)
    \<and> (\<forall>k < chunk_count (length inBuf).
         chunk_block cdc hp fi c (chunk_at inBuf (k * compblksize)) = Inr (blks' ! k))"
  using assms(2-)
proof (induction "chunk_count (length inBuf) - length blks" arbitrary: blks st)
  case 0
  then have len: "length blks = chunk_count (length inBuf)" by (simp add: lz_invar_def)
  then have "\<not> length blks * compblksize < length inBuf" by (simp add: pos_lt_iff_chunk)
  with "0.prems"(2) have "st' = st" by (simp add: chunk_loop.simps)
  with "0.prems" len show ?case by auto
next
  case (Suc d)
  let ?n = "chunk_count (length inBuf)" and ?pos = "length blks * compblksize"
  from Suc.hyps(2) have len: "length blks < ?n" by simp
  then have "?pos < length inBuf" by (simp add: pos_lt_iff_chunk)
  with Suc.prems(2) obtain st1 where
    step: "chunk_step cdc hp fi c inBuf ?n ?pos (length blks) st = Inr (NextChunk st1)"
    and rest: "chunk_loop cdc hp fi c inBuf ?n (?pos + compblksize) (Suc (length blks)) st1
               = Inr (NextChunk st')"
    by (subst (asm) chunk_loop.simps) (auto split: sum.splits chunk_result.splits)
  obtain blk where
    blk: "chunk_block cdc hp fi c (chunk_at inBuf ?pos) = Inr blk"
    and inv: "lz_invar ?n (blks @ [blk]) st1"
    using assms(1) Suc.prems(1) len step by (rule lz_invar_step)
  have all: "\<forall>k < length (blks @ [blk]).
      chunk_block cdc hp fi c (chunk_at inBuf (k * compblksize)) = Inr ((blks @ [blk]) ! k)"
    using Suc.prems(3) blk by (simp add: nth_append less_Suc_eq)
  show ?case
    using Suc.hyps(1) [of "blks @ [blk]" st1] Suc.hyps(2) inv rest all
    by (simp add: add.commute)
qed

section \<open>The finished buffer is the layout\<close>

lemma lz_invar_fork:
  assumes inv: "lz_invar n blks st" and len: "length blks = n" and lz: "lz_type c"
  shows "fork_bytes c st = lz_fork n blks"
proof -
  have "outBuf st = take (4 * (n + 1)) (outBuf st) @ drop (4 * (n + 1)) (outBuf st)" by simp
  also have "take (4 * (n + 1)) (outBuf st) = peek 0 (4 * (n + 1)) (outBuf st)"
    by (simp add: peek_def)
  also have "\<dots> = concat (map (\<lambda>k. le_bytes 4 (lz_offset n blks k)) [0..<n + 1])"
    by (rule peek_table) (use inv len in \<open>simp add: lz_invar_def\<close>)
  finally have "outBuf st = lz_fork n blks"
    using inv by (simp add: lz_fork_def lz_invar_def)
  moreover have "fork_bytes c st = outBuf st"
    using inv lz by (auto simp: lz_type_def lz_invar_def)
  ultimately show ?thesis by simp
qed

lemma lz_loop_blocks:
  assumes "lz_type c" and "chunk_loop cdc hp fi c inBuf (chunk_count (length inBuf)) 0 0
             (chunk_init hp c (chunk_count (length inBuf))) = Inr (NextChunk st)"
  obtains blks where "fork_bytes c st = lz_fork (chunk_count (length inBuf)) blks"
    and "map (chunk_block cdc hp fi c) (file_chunks inBuf) = map Inr blks"
proof -
  obtain blks where inv: "lz_invar (chunk_count (length inBuf)) blks st"
    and len: "length blks = chunk_count (length inBuf)"
    and blk: "\<forall>k < chunk_count (length inBuf).
         chunk_block cdc hp fi c (chunk_at inBuf (k * compblksize)) = Inr (blks ! k)"
    using lz_loop_invar [where blks = "[]" and inBuf = inBuf and cdc = cdc and fi = fi
        and hp = hp and st' = st, OF assms(1) lz_invar_init [OF assms(1)]] assms(2) by auto
  have "map (chunk_block cdc hp fi c) (file_chunks inBuf) = map Inr blks"
    using len blk by (intro nth_equalityI) (simp_all add: file_chunks_def)
  with inv len assms(1) show thesis by (intro that lz_invar_fork)
qed

section \<open>Reading the table\<close>

lemma lz_fork_table:
  assumes "k \<le> n" and "length (lz_fork n blks) < 2 ^ 32"
  shows "chunkTable (lz_fork n blks) k = lz_offset n blks k"
proof -
  let ?tab = "map (\<lambda>k. le_bytes 4 (lz_offset n blks k)) [0..<n + 1]"
  have tabl: "sum_len (take k ?tab) = 4 * k" if "k \<le> n + 1" for k
    using that by (simp add: sum_len_def take_map comp_def sum_list_triv take_upt del: upt_Suc)
  have lt: "length (concat ?tab) = 4 * (n + 1)"
    using tabl [of "n + 1"] by (simp add: length_concat_sum_len del: upt_Suc)
  have "peek (4 * k) 4 (lz_fork n blks) = le_bytes 4 (lz_offset n blks k)"
    using peek_concat_nth [of k ?tab "concat blks"] assms(1) tabl [of k]
    by (simp add: lz_fork_def nth_append del: upt_Suc)
  moreover have "lz_offset n blks k \<le> length (lz_fork n blks)"
    using sum_len_take_le [of k blks] lt
    by (simp add: lz_fork_def lz_offset_def length_concat_sum_len [of blks])
  ultimately show ?thesis
    using assms(2) by (simp add: chunkTable_def le_val_le_bytes)
qed

lemma lz_fork_length: "length (lz_fork n blks) = 4 * (n + 1) + sum_len blks"
proof -
  have "sum_len (map (\<lambda>k. le_bytes 4 (lz_offset n blks k)) [0..<m]) = 4 * m" for m
    by (induction m) simp_all
  then show ?thesis
    by (simp add: lz_fork_def length_concat_sum_len del: upt_Suc)
qed

lemma lz_fork_block:
  assumes "k < length blks"
  shows "peek (lz_offset n blks k) (length (blks ! k)) (lz_fork n blks) = blks ! k"
proof -
  have "length (lz_fork n []) = 4 * (n + 1)" by (simp add: lz_fork_length)
  then have "length (concat (map (\<lambda>k. le_bytes 4 (lz_offset n blks k)) [0..<n + 1])) = 4 * (n + 1)"
    using lz_fork_length [of n blks] by (simp add: lz_fork_def length_concat_sum_len [of blks] del: upt_Suc)
  then show ?thesis
    using peek_concat_nth [OF assms, of "[]"]
    by (simp add: lz_fork_def lz_offset_def peek_append2 del: upt_Suc)
qed

section \<open>The retry loop of LZFSE\<close>

text \<open>The retry loop of LZFSE: a call that returns did not need a retry.\<close>

lemma lzfse_encode_returns:
  assumes "lzfse_encode cdc hp cap src = Some r"
  shows "lzfse_encode_buffer cdc 0 src = [] \<longrightarrow> realloc_ok hp 0 \<longrightarrow> lzfse_encode_buffer cdc cap src \<noteq> []"
  using _ assms
proof (rule lzfse_encode.raw_induct)
  fix f :: "codecs \<Rightarrow> heap \<Rightarrow> nat \<Rightarrow> byte list \<Rightarrow> (cerror + byte list) option"
  fix cdc hp cap src y
  assume IH: "\<And>cdc hp cap src y. f cdc hp cap src = Some y \<Longrightarrow>
      lzfse_encode_buffer cdc 0 src = [] \<longrightarrow> realloc_ok hp 0 \<longrightarrow> lzfse_encode_buffer cdc cap src \<noteq> []"
    and body: "(if lzfse_encode_buffer cdc cap src = []
      then if realloc_ok hp (2 * length (lzfse_encode_buffer cdc cap src))
           then f cdc hp (2 * length (lzfse_encode_buffer cdc cap src)) src
           else Some (Inl ReallocFailed)
      else Some (Inr (lzfse_encode_buffer cdc cap src))) = Some y"
  from body IH [of cdc hp 0 src y]
  show "lzfse_encode_buffer cdc 0 src = [] \<longrightarrow> realloc_ok hp 0 \<longrightarrow> lzfse_encode_buffer cdc cap src \<noteq> []"
    by (auto split: if_splits)
qed

end
