(* ===== verification/Samples.thy ===== *)
theory Samples
  imports ZlibRoundtrip LzFork
begin

text \<open>
  Concrete parameters at which the hypotheses of the properties are evaluated: a ZLIB codec
  that stores its input behind a CMF byte (and meets \<open>zlib_contract\<close>), LZ encoders that store
  it behind a marker byte, an allocator that never fails, and settings of the tool.
\<close>

definition sample_codecs :: codecs where
  "sample_codecs =
     \<lparr>compress2 = (\<lambda>cap src level. if length src < cap then Some (0x78 # src) else None),
      compressBound = (\<lambda>n. n + 13),
      lzvn_encode_buffer = (\<lambda>cap src. if length src < cap then 0x06 # src else []),
      lzvn_encode_scratch_size = 80000,
      lzfse_encode_buffer = (\<lambda>cap src. if length src < cap then 0x62 # src else []),
      lzfse_encode_scratch_size = 80000\<rparr>"

definition sample_uncompress :: uncompressor where
  "sample_uncompress cap src =
     (case src of [] \<Rightarrow> Inl Z_DATA_ERROR
      | b # bs \<Rightarrow> if b \<noteq> 0x78 then Inl Z_DATA_ERROR
          else if length bs \<le> cap then Inr bs else Inl Z_BUF_ERROR)"

definition sample_heap :: heap where
  "sample_heap = \<lparr>junk = (\<lambda>_. 0xAA), realloc_ok = (\<lambda>_. True)\<rparr>"

definition sample_info :: folder_info where
  "sample_info =
     \<lparr>uncompressed_size = 0, uncompressed_size_rounded = 0, compressed_size = 0,
      compressed_size_rounded = 0, compattr_size = 0, total_size = 0, num_compressed = 0,
      num_files = 0, num_hard_link_files = 0, num_folders = 0, num_hard_link_folders = 0,
      maxSize = 0, data_compressed_size = 0, print_info = 0, compressiontype = ZLIB,
      compressionlevel = 5, minSavings = 0, print_files = False, compress_files = True,
      allowLargeBlocks = True, check_files = True, check_hard_links = True,
      follow_sym_links = False, filetypes = [], filetypessize = 0, filetypeslist = None,
      invert_filetypelist = False, backup_file = False, onAPFS = False, z_compression = []\<rparr>"

lemma sample_contract: "zlib_contract sample_codecs sample_uncompress"
  by (auto simp: zlib_contract_def sample_codecs_def sample_uncompress_def split: if_splits)

lemma sample_bound: "compblksize < compressBound sample_codecs compblksize"
  by (simp add: sample_codecs_def)

lemma sample_realloc [simp]: "realloc_ok sample_heap n"
  by (simp add: sample_heap_def)

lemma sample_compress2:
  "length chunk \<le> compblksize \<Longrightarrow>
     compress2 sample_codecs (compressBound sample_codecs compblksize) chunk l = Some (0x78 # chunk)"
  by (simp add: sample_codecs_def)

text \<open>The samples never fail, so the loop returns; a block too big for the attribute goes to the fork.\<close>

lemma sample_chunk_loop_returns:
  "\<exists>r. chunk_loop sample_codecs sample_heap sample_info ZLIB inBuf (chunk_count (length inBuf)) 0 0
     (chunk_init sample_heap ZLIB (chunk_count (length inBuf))) = Inr r"
proof (rule ccontr)
  assume "\<not> ?thesis"
  then obtain e where e: "chunk_loop sample_codecs sample_heap sample_info ZLIB inBuf
      (chunk_count (length inBuf)) (length ([] :: byte list list) * compblksize)
      (length ([] :: byte list list)) (chunk_init sample_heap ZLIB (chunk_count (length inBuf))) = Inl e"
    by (metis list.size(3) mult_0 sum.exhaust)
  have "allowLargeBlocks sample_info" by (simp add: sample_info_def)
  with zlib_loop_error [OF zlib_invar_init sample_bound e] show False
    by (auto simp: sample_compress2)
qed

lemma sample_chunk_loop_fork:
  assumes "MAX_DECMPFS_XATTR_SIZE < length inBuf + sizeof_disk_header + 1"
  obtains st where "chunk_loop sample_codecs sample_heap sample_info ZLIB inBuf
      (chunk_count (length inBuf)) 0 0 (chunk_init sample_heap ZLIB (chunk_count (length inBuf)))
      = Inr (NextChunk st)"
proof -
  obtain r where r: "chunk_loop sample_codecs sample_heap sample_info ZLIB inBuf
      (chunk_count (length inBuf)) 0 0 (chunk_init sample_heap ZLIB (chunk_count (length inBuf))) = Inr r"
    using sample_chunk_loop_returns by blast
  show thesis
  proof (cases r)
    case (NextChunk st)
    with r show ?thesis by (intro that) simp
  next
    case (StoreInXattr blk)
    note x = chunk_loop_xattr [OF r [unfolded StoreInXattr]]
    have len: "length inBuf \<le> compblksize" "length blk + sizeof_disk_header \<le> MAX_DECMPFS_XATTR_SIZE"
      by (rule x)+
    have "length inBuf + 1 \<le> compressBound sample_codecs compblksize" "allowLargeBlocks sample_info"
      using len(1) by (simp_all add: sample_codecs_def sample_info_def)
    then have "blk = 0xFF # inBuf"
      using x(3) len(1) by (simp add: chunk_block_def sample_compress2 large_block_def)
    with len assms show ?thesis by simp
  qed
qed

lemma sample_finish: obtains st' where "zlib_finish sample_heap st = Inr st'"
  by (simp add: zlib_finish_def Let_def)

lemma sample_file_supported: "size_supported (length (replicate 4000 (b :: byte)))"
  by (simp add: size_supported_def numBlocks_of_def compblksize_def CMP_MAX_SUPPORTED_SIZE_def)

lemma sample_lz_loop:
  obtains st where "chunk_loop sample_codecs sample_heap sample_info LZVN (replicate 4000 7) 1 0 0
      (chunk_init sample_heap LZVN 1) = Inr (NextChunk st)" and "outBufSize st = 4009"
proof -
  let ?inBuf = "replicate 4000 (7 :: byte)" and ?st = "chunk_init sample_heap LZVN 1"
  have "encode_chunk sample_codecs sample_heap sample_info LZVN (chunk_at ?inBuf 0) = Inr (0x06 # ?inBuf)"
    by (simp add: chunk_at_eq compblksize_def sample_codecs_def lz_EstimatedCompressedSize_def Let_def)
  moreover have "large_block sample_codecs sample_info LZVN chunk out = Inr out" for chunk out
    by (simp add: large_block_def)
  ultimately obtain st where st: "chunk_step sample_codecs sample_heap sample_info LZVN ?inBuf 1 0 0 ?st
      = Inr (NextChunk st)" "outBufSize st = 4009"
    by (simp add: chunk_step_def grow_outBuf_def Let_def place_block_def sizeof_disk_header_def
        MAX_DECMPFS_XATTR_SIZE_def del: encode_chunk.simps)
  then have "chunk_loop sample_codecs sample_heap sample_info LZVN ?inBuf 1 0 0 ?st
      = chunk_loop sample_codecs sample_heap sample_info LZVN ?inBuf 1 compblksize 1 st"
    by (subst chunk_loop.simps) (simp del: chunk_init.simps)
  also have "\<dots> = Inr (NextChunk st)"
    by (subst chunk_loop.simps) (simp add: compblksize_def)
  finally show thesis using st(2) by (rule that)
qed

end
