(* ===== verification/CodecProperties.thy ===== *)
theory CodecProperties
  imports Samples
begin

text \<open>
  The properties of the block codecs: the layout of the resource forks that \<open>compressFile\<close>
  writes, the ZLIB round trip through \<open>decompressFile\<close>, the exactness of the size guard, the
  error exits of the chunking loop, and the retry loop of LZFSE.
\<close>

text \<open>C1: the ZLIB resource fork that the chunking loop and its completion build is read back by
  the decompressor as the file's data, byte for byte, for every file the size guard admits.\<close>

theorem zlib_fork_roundtrip:
  assumes "zlib_contract cdc unc" and "size_supported (length inBuf)" and "inBuf \<noteq> []"
    and "chunk_loop cdc hp fi ZLIB inBuf (numBlocks_of (length inBuf)) 0 0
           (chunk_init hp ZLIB (numBlocks_of (length inBuf))) = Inr (NextChunk st)"
    and "zlib_finish hp st = Inr st'"
    and "length obuf = length inBuf"
  shows "decode_resource_fork unc (fork_bytes ZLIB st') (length inBuf) obuf = Inr inBuf"
proof -
  note loop = assms(4) [unfolded size_supported_exact(1) [OF assms(2)]]
  obtain blks where "fork_bytes ZLIB st' = zlib_fork (chunk_count (length inBuf)) blks"
    and "map (chunk_block cdc hp fi ZLIB) (file_chunks inBuf) = map Inr blks"
    using loop assms(5) by (rule zlib_loop_blocks)
  with assms show ?thesis
    by (simp add: decode_zlib_fork zlib_blocks_good)
qed

theorem zlib_fork_roundtrip_witness:
  "\<exists>st st'. chunk_loop sample_codecs sample_heap sample_info ZLIB (replicate 4000 7)
       (numBlocks_of 4000) 0 0 (chunk_init sample_heap ZLIB (numBlocks_of 4000)) = Inr (NextChunk st)
     \<and> zlib_finish sample_heap st = Inr st'
     \<and> decode_resource_fork sample_uncompress (fork_bytes ZLIB st') 4000 (replicate 4000 0)
       = Inr (replicate 4000 7)"
proof -
  let ?inBuf = "replicate 4000 (7 :: byte)"
  have sup: "size_supported (length ?inBuf)" by (rule sample_file_supported)
  have "MAX_DECMPFS_XATTR_SIZE < length ?inBuf + sizeof_disk_header + 1"
    by (simp add: MAX_DECMPFS_XATTR_SIZE_def)
  then obtain st where st: "chunk_loop sample_codecs sample_heap sample_info ZLIB ?inBuf
      (numBlocks_of (length ?inBuf)) 0 0 (chunk_init sample_heap ZLIB (numBlocks_of (length ?inBuf)))
      = Inr (NextChunk st)"
    using sample_chunk_loop_fork unfolding size_supported_exact(1) [OF sup] by blast
  obtain st' where st': "zlib_finish sample_heap st = Inr st'" by (rule sample_finish)
  have "?inBuf \<noteq> []" by simp
  from zlib_fork_roundtrip [OF sample_contract sup this st st', of "replicate 4000 0"] st st'
  show ?thesis by auto
qed

text \<open>C2: a block that goes to the attribute is read back from the attribute as the file's data.\<close>

theorem zlib_xattr_roundtrip:
  assumes "zlib_contract cdc unc" and "size_supported (length inBuf)"
    and "chunk_loop cdc hp fi ZLIB inBuf (numBlocks_of (length inBuf)) 0 0
           (chunk_init hp ZLIB (numBlocks_of (length inBuf))) = Inr (StoreInXattr blk)"
    and "length obuf = length inBuf"
  shows "decode_xattr unc (disk_header_bytes h @ blk) (length inBuf) obuf = Inr inBuf
    \<and> length (disk_header_bytes h @ blk) \<le> MAX_DECMPFS_XATTR_SIZE"
proof -
  note x = chunk_loop_xattr [OF assms(3) [unfolded size_supported_exact(1) [OF assms(2)]]]
  have "block_of_chunk unc inBuf blk"
    using assms(1) x(3) by (rule chunk_block_decodes)
  with assms(4) x(4) show ?thesis
    by (simp add: decode_zlib_xattr)
qed

theorem zlib_xattr_roundtrip_witness:
  "\<exists>blk. chunk_loop sample_codecs sample_heap sample_info ZLIB [1, 2, 3] (numBlocks_of 3) 0 0
       (chunk_init sample_heap ZLIB (numBlocks_of 3)) = Inr (StoreInXattr blk)
     \<and> decode_xattr sample_uncompress
         (disk_header_bytes \<lparr>compression_magic = DECMPFS_MAGIC, compression_type = 3,
            header_uncompressed_size = 3\<rparr> @ blk) 3 [0, 0, 0] = Inr [1, 2, 3]"
proof -
  let ?inBuf = "[1, 2, 3] :: byte list"
  let ?h = "\<lparr>compression_magic = DECMPFS_MAGIC, compression_type = 3, header_uncompressed_size = 3\<rparr>"
  have len: "length ?inBuf = 3" "length [0, 0, 0 :: byte] = length ?inBuf" by simp_all
  have sup: "size_supported (length ?inBuf)"
    by (simp add: size_supported_def numBlocks_of_def compblksize_def CMP_MAX_SUPPORTED_SIZE_def)
  have loop: "chunk_loop sample_codecs sample_heap sample_info ZLIB ?inBuf (numBlocks_of (length ?inBuf))
       0 0 (chunk_init sample_heap ZLIB (numBlocks_of (length ?inBuf))) = Inr (StoreInXattr [0xFF, 1, 2, 3])"
    by (simp add: chunk_loop.simps chunk_step_def sample_compress2 chunk_at_eq grow_outBuf_def
        Let_def large_block_def place_block_def sample_info_def numBlocks_of_def sizeof_disk_header_def
        MAX_DECMPFS_XATTR_SIZE_def compblksize_def sample_codecs_def del: chunk_init.simps)
  note zlib_xattr_roundtrip [OF sample_contract sup loop len(2), of ?h]
  with loop show ?thesis unfolding len(1) by blast
qed

text \<open>C3: the chunking loop of ZLIB ends with a result or with one of three errors, each with its
  cause: zlib refused a chunk, an allocation failed, or a full chunk grew without \<open>-L\<close>. It never
  reports a buffer overrun and never stores outside the block buffer.\<close>

theorem zlib_loop_errors:
  assumes "compblksize < compressBound cdc compblksize" and "size_supported (length inBuf)"
    and "chunk_loop cdc hp fi ZLIB inBuf (numBlocks_of (length inBuf)) 0 0
           (chunk_init hp ZLIB (numBlocks_of (length inBuf))) = Inl e"
  shows "e = CompressFailed \<and> (\<exists>chunk. length chunk \<le> compblksize \<and>
           compress2 cdc (compressBound cdc compblksize) chunk (compressionlevel fi) = None)
    \<or> e = ReallocFailed \<and> (\<exists>n. \<not> realloc_ok hp n)
    \<or> e = LargeChunk \<and> \<not> allowLargeBlocks fi"
proof -
  note loop = assms(3) [unfolded size_supported_exact(1) [OF assms(2)]]
  show ?thesis
    by (rule zlib_loop_error [where blks = "[]" and inBuf = inBuf, OF zlib_invar_init assms(1)])
      (use loop in simp)
qed

definition starved_heap :: heap where
  "starved_heap = \<lparr>junk = (\<lambda>_. 0), realloc_ok = (\<lambda>n. n < 100)\<rparr>"

theorem zlib_loop_errors_witness:
  "chunk_loop sample_codecs starved_heap sample_info ZLIB [1, 2, 3] (numBlocks_of 3) 0 0
     (chunk_init starved_heap ZLIB (numBlocks_of 3)) = Inl ReallocFailed
   \<and> (\<exists>n. \<not> realloc_ok starved_heap n)"
proof -
  let ?inBuf = "[1, 2, 3] :: byte list"
  have len: "length ?inBuf = 3" by simp
  have sup: "size_supported (length ?inBuf)"
    by (simp add: size_supported_def numBlocks_of_def compblksize_def CMP_MAX_SUPPORTED_SIZE_def)
  have loop: "chunk_loop sample_codecs starved_heap sample_info ZLIB ?inBuf (numBlocks_of (length ?inBuf))
       0 0 (chunk_init starved_heap ZLIB (numBlocks_of (length ?inBuf))) = Inl ReallocFailed"
    by (simp add: chunk_loop.simps chunk_step_def sample_compress2 chunk_at_eq grow_outBuf_def
        Let_def numBlocks_of_def compblksize_def starved_heap_def zlib_blockStart_def sample_codecs_def)
  from zlib_loop_errors [OF sample_bound sup loop] loop show ?thesis
    unfolding len by simp
qed

text \<open>C4: the size guard of \<open>compressFile\<close> is exact: whatever the compressor returns, the resource
  fork of an admitted file stays below the supported size, so every offset and length stored in
  its 32-bit fields is the true one.\<close>

theorem zlib_fork_bounded:
  assumes "zlib_contract cdc unc" and "size_supported (length inBuf)"
    and "chunk_loop cdc hp fi ZLIB inBuf (numBlocks_of (length inBuf)) 0 0
           (chunk_init hp ZLIB (numBlocks_of (length inBuf))) = Inr (NextChunk st)"
    and "zlib_finish hp st = Inr st'"
  shows "length (fork_bytes ZLIB st') \<le> length inBuf + 0x13A + 9 * numBlocks_of (length inBuf)
    \<and> length (fork_bytes ZLIB st') \<le> CMP_MAX_SUPPORTED_SIZE"
proof -
  note eq = size_supported_exact [OF assms(2)]
  note loop = assms(3) [unfolded eq(1)]
  obtain blks where f: "fork_bytes ZLIB st' = zlib_fork (chunk_count (length inBuf)) blks"
    and b: "map (chunk_block cdc hp fi ZLIB) (file_chunks inBuf) = map Inr blks"
    using loop assms(4) by (rule zlib_loop_blocks)
  have good: "good_blocks unc inBuf blks" using assms(1) b by (rule zlib_blocks_good)
  from good_blocks_size [OF good] good_blocks_fork_size [OF good assms(2)] show ?thesis
    unfolding f by (simp add: length_zlib_fork zlib_base_def eq(1))
qed

theorem zlib_fork_bounded_witness:
  "\<exists>st st'. chunk_loop sample_codecs sample_heap sample_info ZLIB (replicate 4000 7)
       (numBlocks_of 4000) 0 0 (chunk_init sample_heap ZLIB (numBlocks_of 4000)) = Inr (NextChunk st)
     \<and> zlib_finish sample_heap st = Inr st' \<and> length (fork_bytes ZLIB st') \<le> 4323"
proof -
  let ?inBuf = "replicate 4000 (7 :: byte)"
  have sup: "size_supported (length ?inBuf)" by (rule sample_file_supported)
  have "MAX_DECMPFS_XATTR_SIZE < length ?inBuf + sizeof_disk_header + 1"
    by (simp add: MAX_DECMPFS_XATTR_SIZE_def)
  then obtain st where st: "chunk_loop sample_codecs sample_heap sample_info ZLIB ?inBuf
      (numBlocks_of (length ?inBuf)) 0 0 (chunk_init sample_heap ZLIB (numBlocks_of (length ?inBuf)))
      = Inr (NextChunk st)"
    using sample_chunk_loop_fork unfolding size_supported_exact(1) [OF sup] by blast
  obtain st' where st': "zlib_finish sample_heap st = Inr st'" by (rule sample_finish)
  have "numBlocks_of (length ?inBuf) = 1" by (simp add: numBlocks_of_def compblksize_def)
  with zlib_fork_bounded [OF sample_contract sup st st'] st st' show ?thesis by auto
qed

text \<open>An LZVN or LZFSE resource fork is a table of offsets that delimit the compressed chunks:
  entry \<open>k\<close> is where chunk \<open>k\<close>'s output starts and entry \<open>k + 1\<close> where it ends, the first entry is
  the size of the table and the last one the size of the fork.\<close>

theorem lz_fork_delimits_chunks:
  assumes "comptype = LZVN \<or> comptype = LZFSE" and "size_supported (length inBuf)"
    and "chunk_loop cdc hp fi comptype inBuf (numBlocks_of (length inBuf)) 0 0
           (chunk_init hp comptype (numBlocks_of (length inBuf))) = Inr (NextChunk st)"
    and "length (fork_bytes comptype st) < 2 ^ 32"
  shows "let F = fork_bytes comptype st; n = numBlocks_of (length inBuf) in
      chunkTable F 0 = 4 * (n + 1) \<and> chunkTable F n = length F
      \<and> (\<forall>k < n. chunkTable F k \<le> chunkTable F (k + 1)
           \<and> chunk_block cdc hp fi comptype (chunk_at inBuf (k * compblksize))
             = Inr (peek (chunkTable F k) (chunkTable F (k + 1) - chunkTable F k) F))"
proof -
  define n where "n = chunk_count (length inBuf)"
  have n: "numBlocks_of (length inBuf) = n"
    using size_supported_exact(1) [OF assms(2)] by (simp add: n_def)
  have lz: "lz_type comptype" using assms(1) by (simp add: lz_type_def)
  obtain blks where F: "fork_bytes comptype st = lz_fork n blks"
    and blks: "map (chunk_block cdc hp fi comptype) (file_chunks inBuf) = map Inr blks"
    using lz assms(3) [unfolded n n_def] unfolding n_def by (rule lz_loop_blocks)
  have len: "length blks = n"
    using arg_cong [OF blks, of length] by (simp add: file_chunks_def n_def)
  have tab: "chunkTable (lz_fork n blks) k = lz_offset n blks k" if "k \<le> n" for k
    using that assms(4) F by (simp add: lz_fork_table)
  have "chunk_block cdc hp fi comptype (chunk_at inBuf (k * compblksize)) = Inr (blks ! k)"
    if "k < n" for k
    using arg_cong [OF blks, of "\<lambda>l. l ! k"] that len by (simp add: file_chunks_def n_def)
  then show ?thesis
    using len by (simp add: Let_def F n tab lz_offset_Suc lz_fork_block lz_fork_length lz_offset_all)
qed

theorem lz_fork_delimits_chunks_witness:
  "\<exists>st. chunk_loop sample_codecs sample_heap sample_info LZVN (replicate 4000 7) (numBlocks_of 4000) 0 0
       (chunk_init sample_heap LZVN (numBlocks_of 4000)) = Inr (NextChunk st)
     \<and> chunkTable (fork_bytes LZVN st) 0 = 8
     \<and> chunkTable (fork_bytes LZVN st) 1 = length (fork_bytes LZVN st)"
proof -
  let ?inBuf = "replicate 4000 (7 :: byte)"
  have sup: "size_supported (length ?inBuf)" by (rule sample_file_supported)
  have n: "numBlocks_of (length ?inBuf) = 1" by (simp add: numBlocks_of_def compblksize_def)
  obtain st where st: "chunk_loop sample_codecs sample_heap sample_info LZVN ?inBuf
      (numBlocks_of (length ?inBuf)) 0 0 (chunk_init sample_heap LZVN (numBlocks_of (length ?inBuf)))
      = Inr (NextChunk st)" and "outBufSize st = 4009"
    unfolding n by (rule sample_lz_loop)
  then have "length (fork_bytes LZVN st) < 2 ^ 32" by simp
  from lz_fork_delimits_chunks [OF _ sup st this] st n show ?thesis by (auto simp: Let_def)
qed

text \<open>C6: the retry loop of the LZFSE case does not grow its buffer. Once the encoder returns 0, the
  capacity of every later call is 0 (the returned size, shifted), so an encoder that needs room
  makes \<open>compressFile\<close> loop for ever instead of retrying with a larger buffer.\<close>

theorem lzfse_retry_never_returns:
  assumes "lzfse_encode_buffer cdc 0 chunk = []" and "realloc_ok hp 0"
    and "lzfse_encode_buffer cdc
           (lz_EstimatedCompressedSize (lzfse_encode_scratch_size cdc)) chunk = []"
  shows "encode_chunk cdc hp fi LZFSE chunk = Inl NoReturn"
  using lzfse_encode_returns [of cdc hp _ chunk] assms by (auto split: option.splits)

definition needy_codecs :: codecs where
  "needy_codecs = sample_codecs
     \<lparr>lzfse_encode_buffer := (\<lambda>cap src. if 100000 \<le> cap then 0x62 # src else [])\<rparr>"

theorem lzfse_retry_never_returns_witness:
  "encode_chunk needy_codecs sample_heap sample_info LZFSE [1, 2, 3] = Inl NoReturn
   \<and> lzfse_encode_buffer needy_codecs 160000 [1, 2, 3] = [0x62, 1, 2, 3]"
proof -
  have "lzfse_encode_buffer needy_codecs
      (lz_EstimatedCompressedSize (lzfse_encode_scratch_size needy_codecs)) [1, 2, 3] = []"
    by (simp add: needy_codecs_def sample_codecs_def lz_EstimatedCompressedSize_def compblksize_def)
  moreover have "lzfse_encode_buffer needy_codecs 0 [1, 2, 3] = []"
    by (simp add: needy_codecs_def)
  ultimately show ?thesis
    using lzfse_retry_never_returns [of needy_codecs "[1, 2, 3]" sample_heap sample_info]
    by (simp add: needy_codecs_def)
qed

end
