(* ===== verification/CStrings.thy ===== *)
theory CStrings
  imports Prelude
begin

text \<open>
  The C string functions the code uses, on strings without their terminator: comparison
  by unsigned byte, case-insensitive comparison in the C locale, the search for the last
  occurrence of a character, and \<open>lbasename\<close> (src/afsctool.c). The results of the comparisons
  carry the sign only, which is all the code looks at.
\<close>

definition byte_of :: "char \<Rightarrow> nat" where "byte_of c = of_char c"

lemma byte_of_inject [simp]: "byte_of a = byte_of b \<longleftrightarrow> a = b"
  by (simp add: byte_of_def)

text \<open>The bytes of a string, and back.\<close>

definition name_bytes :: "string \<Rightarrow> byte list" where
  "name_bytes n = map (\<lambda>c. word_of_nat (byte_of c)) n"

definition bytes_name :: "byte list \<Rightarrow> string" where
  "bytes_name bs = map (\<lambda>b. char_of (unat b)) bs"

lemma bytes_name_bytes [simp]: "bytes_name (name_bytes n) = n"
proof -
  have "byte_of c < 256" for c by (simp add: byte_of_def)
  then have "char_of (unat (word_of_nat (byte_of c) :: byte)) = c" for c
    by (simp add: unat_of_nat byte_of_def)
  then show ?thesis by (simp add: bytes_name_def name_bytes_def comp_def)
qed

lemma length_name_bytes [simp]: "length (name_bytes n) = length n"
  by (simp add: name_bytes_def)

fun strcmp :: "string \<Rightarrow> string \<Rightarrow> int" where
  "strcmp [] [] = 0"
| "strcmp [] (b # t) = -1"
| "strcmp (a # s) [] = 1"
| "strcmp (a # s) (b # t) =
     (if byte_of a < byte_of b then -1 else if byte_of b < byte_of a then 1 else strcmp s t)"

definition to_lower :: "char \<Rightarrow> char" where
  "to_lower c = (if 65 \<le> byte_of c \<and> byte_of c \<le> 90 then char_of (byte_of c + 32) else c)"

definition strcasecmp :: "string \<Rightarrow> string \<Rightarrow> int" where
  "strcasecmp s t = strcmp (map to_lower s) (map to_lower t)"

definition strncasecmp_eq :: "string \<Rightarrow> string \<Rightarrow> nat \<Rightarrow> bool" where
  "strncasecmp_eq s t n \<longleftrightarrow> map to_lower (take n s) = map to_lower (take n t)"

lemma strcmp_refl [simp]: "strcmp s s = 0"
  by (induction s) auto

lemma strcmp_eq_0: "strcmp s t = 0 \<longleftrightarrow> s = t"
  by (induction s t rule: strcmp.induct) auto

lemma strcmp_flip: "strcmp t s = - strcmp s t"
  by (induction s t rule: strcmp.induct) auto

lemma strcmp_le:
  "strcmp [] u \<le> 0" "\<not> strcmp (a # s) [] \<le> 0"
  "strcmp (a # s) (b # t) \<le> 0 \<longleftrightarrow> byte_of a < byte_of b \<or> a = b \<and> strcmp s t \<le> 0"
  by (cases u) (auto simp: not_less_iff_gr_or_eq)

lemma strcmp_trans: "strcmp s t \<le> 0 \<Longrightarrow> strcmp t u \<le> 0 \<Longrightarrow> strcmp s u \<le> 0"
proof (induction t arbitrary: s u)
  case Nil
  then show ?case by (cases s) (simp_all only: strcmp_le)
next
  case (Cons b t)
  show ?case
  proof (cases s)
    case (Cons a s')
    moreover obtain c u' where "u = c # u'"
      using Cons.prems(2) by (cases u) (simp_all only: strcmp_le)
    ultimately show ?thesis
      using Cons.prems Cons.IH [of s' u'] by (auto simp only: strcmp_le)
  qed (simp only: strcmp_le)
qed

lemma to_lower_idem [simp]: "to_lower (to_lower c) = to_lower c"
proof -
  have "byte_of (char_of n) = n mod 256" for n :: nat
    by (simp add: byte_of_def)
  then show ?thesis by (simp add: to_lower_def)
qed

lemma strcasecmp_lower: "strcasecmp (map to_lower s) t = strcasecmp s t"
  by (simp add: strcasecmp_def comp_def)

text \<open>The part of a path behind its last slash.\<close>

definition strrchr_from :: "char \<Rightarrow> string \<Rightarrow> string option" where
  "strrchr_from c s = (if c \<in> set s then Some (rev (takeWhile (\<lambda>x. x \<noteq> c) (rev s))) else None)"

definition lbasename :: "string \<Rightarrow> string" where
  "lbasename url = (case strrchr_from (CHR ''/'') url of Some c \<Rightarrow> c | None \<Rightarrow> url)"

lemma lbasename_append:
  "CHR ''/'' \<notin> set b \<Longrightarrow> lbasename (a @ CHR ''/'' # b) = b"
  by (simp add: lbasename_def strrchr_from_def takeWhile_append)

lemma lbasename_no_slash: "CHR ''/'' \<notin> set (lbasename url)"
  by (auto simp: lbasename_def strrchr_from_def split: if_splits dest: set_takeWhileD)

end
