(* ===== verification/CompressFile.thy ===== *)
theory CompressFile
  imports Compress CStrings
begin

text \<open>
  \<open>compressFile\<close> (src/afsctool.c) as a whole: the checks before the file is touched, the probe of
  the compression flag, opening, reading and backing up the file, the chunking loop, the
  rewrite (resource fork, attribute, truncation, flag), the check of the result, the reversal
  of a failed one and the common exit. The file is a node of the file system; each system
  call whose failure the code handles has a \<open>site\<close>, and \<open>fails\<close> says which ones fail. What the
  kernel returns for a file with the compression flag, and what a private mapping shows once
  the file behind it has changed, are parameters.
\<close>

section \<open>The file and its environment\<close>

record fnode =
  f_data :: "byte list"
  f_xattrs :: "(string \<times> byte list) list"
  f_flags :: uint32
  f_mode :: uint16
  f_times :: "(int \<times> int) \<times> (int \<times> int)"

datatype site = Chmod_w | Chmod_r | Chflags_set | Chflags_clear | Listxattr_size
  | Malloc_xattrnames | Listxattr | Open_in | Mmap_in | Malloc_in | Read_in
  | Backup_name | Backup_create | Backup_write | Malloc_decmpfs | Malloc_outBuf
  | Malloc_block | Truncate | Setxattr_fork | Restore_write | Setxattr_decmpfs | Fchflags
  | Fremove_decmpfs | Fremove_fork | Open_check | Mmap_check | Chflags_revert
  | Remove_decmpfs | Remove_fork | Fopen_revert | Fwrite_revert | Chmod_restore
  | Getxattr_fork | Malloc_fork | Read_fork | Getxattr_decmpfs | Malloc_attr | Read_attr
  | Malloc_out | Fopen_read | Fread_data | Chflags_off | Fopen_write | Chflags_back | Fwrite_data

text \<open>What \<open>statfs\<close> and \<open>getattrlist\<close> report of the volume.\<close>

record volume =
  statfs_ok :: bool
  f_fstypename :: string
  f_fssubtype :: uint32
  vol_cap_decmpfs :: bool

record env =
  fails :: "site \<Rightarrow> bool"
  kread :: "byte list \<Rightarrow> (string \<times> byte list) list \<Rightarrow> byte list"
  mapped :: "byte list \<Rightarrow> fnode \<Rightarrow> byte list option"
  kblocks :: "fnode \<Rightarrow> int"
  vol :: volume
  quitRequested :: bool
  exclusive_io :: bool
  has_worker :: bool
  LZVN_ENCODE_MIN_SRC_SIZE :: int

text \<open>
  \<open>winfo\<close> is \<open>*inFileInfo\<close>; \<open>wbackup\<close> the contents of the backup file while it exists, and
  \<open>wbackupName\<close> whether \<open>backupName\<close> is still set; \<open>wlocked\<close> the I/O lock of the worker.
\<close>

record world =
  wnode :: fnode
  winfo :: stat
  wbackup :: "byte list option"
  wbackupName :: bool
  wlocked :: bool
  wskipped :: int
  wAPFS :: bool
  wdata_compressed_size :: int
  wmaxOutBufSize :: nat

datatype exit = Returned | Bailed | Diverged | Crashed

type_synonym step_result = "(exit \<times> world) + world"

section \<open>System calls\<close>

definition is_flagged :: "uint32 \<Rightarrow> bool" where
  "is_flagged fl \<longleftrightarrow> fl AND UF_COMPRESSED \<noteq> 0"

definition vfs_read :: "env \<Rightarrow> fnode \<Rightarrow> byte list" where
  "vfs_read e nd = (if is_flagged (f_flags nd) then kread e (f_data nd) (f_xattrs nd) else f_data nd)"

definition vfs_size :: "env \<Rightarrow> fnode \<Rightarrow> int" where
  "vfs_size e nd = int (length (vfs_read e nd))"

definition sys_lstat :: "env \<Rightarrow> world \<Rightarrow> world" where
  "sys_lstat e w = w\<lparr>winfo := (winfo w)\<lparr>st_mode := f_mode (wnode w), st_flags := f_flags (wnode w),
      st_size := vfs_size e (wnode w), st_blocks := kblocks e (wnode w)\<rparr>\<rparr>"

definition sys_chmod :: "env \<Rightarrow> site \<Rightarrow> uint16 \<Rightarrow> world \<Rightarrow> world" where
  "sys_chmod e s m w = (if fails e s then w else w\<lparr>wnode := (wnode w)\<lparr>f_mode := m\<rparr>\<rparr>)"

definition sys_chflags :: "uint32 \<Rightarrow> world \<Rightarrow> world" where
  "sys_chflags fl w = w\<lparr>wnode := (wnode w)\<lparr>f_flags := fl\<rparr>\<rparr>"

definition sys_utimes :: "(int \<times> int) \<times> (int \<times> int) \<Rightarrow> world \<Rightarrow> world" where
  "sys_utimes ts w = w\<lparr>wnode := (wnode w)\<lparr>f_times := ts\<rparr>\<rparr>"

definition sys_truncate :: "env \<Rightarrow> world \<Rightarrow> world" where
  "sys_truncate e w = (if fails e Truncate then w else w\<lparr>wnode := (wnode w)\<lparr>f_data := []\<rparr>\<rparr>)"

text \<open>\<open>setxattr\<close> with \<open>XATTR_CREATE\<close>: it also fails when the attribute exists.\<close>

definition sys_setxattr :: "env \<Rightarrow> site \<Rightarrow> string \<Rightarrow> byte list \<Rightarrow> world \<Rightarrow> world option" where
  "sys_setxattr e s name v w =
     (if fails e s \<or> map_of (f_xattrs (wnode w)) name \<noteq> None then None
      else Some (w\<lparr>wnode := (wnode w)\<lparr>f_xattrs := f_xattrs (wnode w) @ [(name, v)]\<rparr>\<rparr>))"

definition sys_removexattr :: "env \<Rightarrow> site \<Rightarrow> string \<Rightarrow> world \<Rightarrow> world" where
  "sys_removexattr e s name w =
     (if fails e s then w
      else w\<lparr>wnode := (wnode w)\<lparr>f_xattrs := filter (\<lambda>x. fst x \<noteq> name) (f_xattrs (wnode w))\<rparr>\<rparr>)"

text \<open>The input buffer: an allocated copy, or a private mapping of the file.\<close>

definition in_view :: "env \<Rightarrow> bool \<Rightarrow> byte list \<Rightarrow> world \<Rightarrow> byte list option" where
  "in_view e useMmap inBuf w = (if useMmap then mapped e inBuf (wnode w) else Some inBuf)"

text \<open>\<open>restoreFile\<close>: when the write fails the backup is kept.\<close>

definition restoreFile :: "env \<Rightarrow> bool \<Rightarrow> byte list \<Rightarrow> world \<Rightarrow> world" where
  "restoreFile e useMmap inBuf w =
     (case in_view e useMmap inBuf w of
        None \<Rightarrow> w\<lparr>wbackupName := False\<rparr>
      | Some buf \<Rightarrow>
          if fails e Restore_write then w\<lparr>wbackupName := False\<rparr>
          else w\<lparr>wnode := (wnode w)\<lparr>f_data := buf @ drop (length buf) (f_data (wnode w))\<rparr>\<rparr>)"

section \<open>Before the file is opened\<close>

definition MNTTYPE_ZFS_SUBTYPE :: uint32 where "MNTTYPE_ZFS_SUBTYPE = 0x5A465300"

text \<open>The result and the value stored through \<open>isAPFS\<close>.\<close>

definition fileIsCompressable :: "env \<Rightarrow> stat \<Rightarrow> compression_type \<Rightarrow> bool \<times> bool" where
  "fileIsCompressable e info comptype =
     (let v = vol e;
          isAPFS0 = strncasecmp_eq (f_fstypename v) ''apfs'' 4;
          isZFS = (f_fssubtype v = MNTTYPE_ZFS_SUBTYPE);
          isAPFS = (if statfs_ok v then isAPFS0 \<and> \<not> isZFS else False);
          lastChunkSize = st_size info mod 0x10000
      in
      (if \<not> statfs_ok v then False
       else if isZFS then False
       else if comptype = LZVN \<and> lastChunkSize > 0 \<and> lastChunkSize < LZVN_ENCODE_MIN_SRC_SIZE e then False
       else vol_cap_decmpfs v \<and> S_ISREG (st_mode info) \<and> \<not> is_flagged (st_flags info),
       isAPFS))"

definition cf_entry :: "env \<Rightarrow> folder_info \<Rightarrow> world \<Rightarrow> step_result" where
  "cf_entry e fi w =
     (if quitRequested e then Inl (Returned, w)
      else
        let filesize = st_size (winfo w);
            r = fileIsCompressable e (winfo w) (compressiontype fi);
            w1 = w\<lparr>wAPFS := snd r\<rparr>
        in
        if \<not> fst r then Inl (Returned, w1)
        else if filesize > maxSize fi \<and> maxSize fi \<noteq> 0 then Inl (Returned, w1)
        else if filesize = 0 then Inl (Returned, w1)
        else Inr w1)"

text \<open>Owner read and write permission are added where missing.\<close>

definition cf_chmod :: "env \<Rightarrow> uint16 \<Rightarrow> world \<Rightarrow> world" where
  "cf_chmod e orig_mode w =
     (let w1 = (if orig_mode AND S_IWUSR = 0
                then sys_lstat e (sys_chmod e Chmod_w (orig_mode OR S_IWUSR) w) else w)
      in if orig_mode AND S_IRUSR = 0
         then sys_lstat e (sys_chmod e Chmod_r (orig_mode OR S_IRUSR) w1) else w1)"

text \<open>The compression flag is set and cleared again to see whether the file system takes it.\<close>

definition cf_chflags :: "env \<Rightarrow> world \<Rightarrow> step_result" where
  "cf_chflags e w =
     (if fails e Chflags_set then Inl (Returned, w)
      else
        let w1 = sys_chflags (UF_COMPRESSED OR st_flags (winfo w)) w in
        if fails e Chflags_clear then Inl (Returned, w1)
        else Inr (sys_chflags (st_flags (winfo w)) w1))"

definition cf_xattrs :: "env \<Rightarrow> world \<Rightarrow> step_result" where
  "cf_xattrs e w =
     (let names = map fst (f_xattrs (wnode w)) in
      if fails e Listxattr_size \<or> names = [] then Inr w
      else if fails e Malloc_xattrnames \<or> fails e Listxattr then Inl (Returned, w)
      else if list_ex (\<lambda>n. n = XATTR_RESOURCEFORK_NAME \<and> length n = 22
                         \<or> n = DECMPFS_XATTR_NAME \<and> length n = 17) names
      then Inl (Returned, w)
      else Inr w)"

definition cf_size :: "nat \<Rightarrow> world \<Rightarrow> step_result" where
  "cf_size filesize w = (if size_supported filesize then Inr w else Inl (Returned, w))"

section \<open>Opening, reading, backing up\<close>

definition cf_open :: "env \<Rightarrow> world \<Rightarrow> step_result" where
  "cf_open e w =
     (let w1 = (if exclusive_io e \<and> has_worker e then w\<lparr>wlocked := True\<rparr> else w) in
      if fails e Open_in then Inl (Bailed, w1\<lparr>wskipped := wskipped w1 + 1\<rparr>) else Inr w1)"

text \<open>The input buffer, and whether it is a mapping.\<close>

definition cf_read ::
    "env \<Rightarrow> nat \<Rightarrow> (int \<times> int) \<times> (int \<times> int) \<Rightarrow> world \<Rightarrow> (exit \<times> world) + (byte list \<times> bool)" where
  "cf_read e filesize tms w =
     (if uses_mmap filesize \<and> \<not> fails e Mmap_in
      then Inr (take filesize (vfs_read e (wnode w)), True)
      else if fails e Malloc_in then Inl (Returned, sys_utimes tms w)
      else if fails e Read_in \<or> length (vfs_read e (wnode w)) < filesize
      then Inl (Returned, sys_utimes tms w)
      else Inr (take filesize (vfs_read e (wnode w)), False))"

definition cf_backup :: "env \<Rightarrow> folder_info \<Rightarrow> byte list \<Rightarrow> world \<Rightarrow> step_result" where
  "cf_backup e fi inBuf w =
     (if \<not> backup_file fi then Inr w
      else if fails e Backup_name then Inl (Bailed, w)
      else if fails e Backup_create then Inl (Bailed, w\<lparr>wbackupName := True\<rparr>)
      else if fails e Backup_write then Inl (Bailed, w\<lparr>wbackupName := True, wbackup := Some []\<rparr>)
      else Inr (w\<lparr>wbackupName := True, wbackup := Some inBuf\<rparr>))"

definition cf_unlock :: "env \<Rightarrow> world \<Rightarrow> world" where
  "cf_unlock e w = (if exclusive_io e \<and> has_worker e then w\<lparr>wlocked := False\<rparr> else w)"

definition cf_alloc ::
    "env \<Rightarrow> compression_type \<Rightarrow> (int \<times> int) \<times> (int \<times> int) \<Rightarrow> world \<Rightarrow> (exit \<times> world) + compressionType"
where
  "cf_alloc e comptype tms w =
     (if fails e Malloc_decmpfs then Inl (Bailed, sys_utimes tms w)
      else case compression_codes comptype of
        None \<Rightarrow> Inl (Bailed, sys_utimes tms w)
      | Some codes \<Rightarrow>
          if fails e Malloc_outBuf \<or> fails e Malloc_block then Inl (Bailed, sys_utimes tms w)
          else Inr codes)"

section \<open>Compressing\<close>

definition compress_data ::
    "codecs \<Rightarrow> heap \<Rightarrow> folder_info \<Rightarrow> byte list \<Rightarrow> cerror + chunk_result" where
  "compress_data cdc hp fi inBuf =
     (let numBlocks = numBlocks_of (length inBuf); comptype = compressiontype fi
      in chunk_loop cdc hp fi comptype inBuf numBlocks 0 0 (chunk_init hp comptype numBlocks))"

fun loop_exit :: "cerror \<Rightarrow> exit" where
  "loop_exit NoReturn = Diverged"
| "loop_exit HeapOverflow = Crashed"
| "loop_exit _ = Bailed"

definition cf_chunks ::
    "codecs \<Rightarrow> heap \<Rightarrow> folder_info \<Rightarrow> byte list \<Rightarrow> (int \<times> int) \<times> (int \<times> int) \<Rightarrow> world
     \<Rightarrow> (exit \<times> world) + chunk_result" where
  "cf_chunks cdc hp fi inBuf tms w =
     (case compress_data cdc hp fi inBuf of
        Inl err \<Rightarrow> Inl (loop_exit err, if loop_exit err = Bailed then sys_utimes tms w else w)
      | Inr r \<Rightarrow> Inr r)"

definition cf_lock :: "env \<Rightarrow> world \<Rightarrow> world" where
  "cf_lock e w = (if has_worker e then w\<lparr>wlocked := True\<rparr> else w)"

section \<open>Rewriting the file\<close>

definition savings_rejected :: "folder_info \<Rightarrow> nat \<Rightarrow> nat \<Rightarrow> bool" where
  "savings_rejected fi newSize filesize \<longleftrightarrow>
     minSavings fi \<noteq> 0 \<and> real newSize / real filesize \<ge> 1 - minSavings fi / 100
     \<or> newSize \<ge> filesize"

definition finish_fork :: "heap \<Rightarrow> compression_type \<Rightarrow> cstate \<Rightarrow> cerror + cstate" where
  "finish_fork hp comptype st = (if comptype = ZLIB then zlib_finish hp st else Inr st)"

text \<open>
  The resource fork: rejected when it saves too little, completed, and written once the file
  is truncated. The result says whether the file is truncated.
\<close>

definition cf_fork ::
    "env \<Rightarrow> heap \<Rightarrow> folder_info \<Rightarrow> byte list \<Rightarrow> bool \<Rightarrow> (int \<times> int) \<times> (int \<times> int) \<Rightarrow> chunk_result \<Rightarrow> world
     \<Rightarrow> (exit \<times> world) + (world \<times> bool)" where
  "cf_fork e hp fi inBuf useMmap tms res w =
     (case res of
        StoreInXattr blk \<Rightarrow>
          Inr (w\<lparr>wdata_compressed_size := int (sizeof_disk_header + length blk)\<rparr>, False)
      | NextChunk st \<Rightarrow>
          if savings_rejected fi (currBlock st + sizeof_disk_header + 50) (length inBuf)
          then Inl (Bailed, sys_utimes tms w)
          else (case finish_fork hp (compressiontype fi) st of
              Inl err \<Rightarrow> Inl (Bailed, sys_utimes tms w)
            | Inr st' \<Rightarrow>
                let fork = fork_bytes (compressiontype fi) st'; w1 = sys_truncate e w in
                case sys_setxattr e Setxattr_fork XATTR_RESOURCEFORK_NAME fork w1 of
                  None \<Rightarrow> Inl (Bailed, restoreFile e useMmap inBuf w1)
                | Some w2 \<Rightarrow>
                    Inr (w2\<lparr>wdata_compressed_size := int (length fork),
                            wmaxOutBufSize := max (wmaxOutBufSize w2) (outBufSize st')\<rparr>, True)))"

fun is_fork :: "chunk_result \<Rightarrow> bool" where
  "is_fork (StoreInXattr blk) = False"
| "is_fork (NextChunk st) = True"

definition outdecmpfs :: "compressionType \<Rightarrow> nat \<Rightarrow> chunk_result \<Rightarrow> byte list" where
  "outdecmpfs codes filesize res =
     (case res of
        StoreInXattr blk \<Rightarrow> disk_header_bytes \<lparr>compression_magic = DECMPFS_MAGIC,
            compression_type = xattr_code codes, header_uncompressed_size = filesize\<rparr> @ blk
      | NextChunk st \<Rightarrow> disk_header_bytes \<lparr>compression_magic = DECMPFS_MAGIC,
            compression_type = resourceFork_code codes, header_uncompressed_size = filesize\<rparr>)"

definition cf_decmpfs ::
    "env \<Rightarrow> byte list \<Rightarrow> bool \<Rightarrow> world \<Rightarrow> step_result" where
  "cf_decmpfs e attr isTruncated w =
     (case sys_setxattr e Setxattr_decmpfs DECMPFS_XATTR_NAME attr w of
        None \<Rightarrow> Inl (Bailed, w)
      | Some w1 \<Rightarrow> Inr (if isTruncated then w1 else sys_truncate e w1))"

definition cf_flag ::
    "env \<Rightarrow> bool \<Rightarrow> byte list \<Rightarrow> bool \<Rightarrow> (int \<times> int) \<times> (int \<times> int) \<Rightarrow> world \<Rightarrow> step_result" where
  "cf_flag e fork inBuf useMmap tms w =
     (if fails e Fchflags then
        let w1 = sys_removexattr e Fremove_decmpfs DECMPFS_XATTR_NAME w;
            w2 = (if fork then sys_removexattr e Fremove_fork XATTR_RESOURCEFORK_NAME w1 else w1)
        in Inl (Bailed, sys_utimes tms (restoreFile e useMmap inBuf w2))
      else Inr (sys_lstat e (sys_chflags (UF_COMPRESSED OR st_flags (winfo w)) w)))"

section \<open>Checking and reverting\<close>

text \<open>The label \<open>fail\<close>: the flag is cleared, the attributes go and the data is written back.\<close>

definition cf_revert :: "env \<Rightarrow> bool \<Rightarrow> byte list \<Rightarrow> bool \<Rightarrow> world \<Rightarrow> step_result" where
  "cf_revert e fork inBuf useMmap w =
     (if fails e Chflags_revert then Inl (Bailed, w\<lparr>wbackupName := False\<rparr>)
      else
        let w1 = sys_chflags (NOT UF_COMPRESSED AND st_flags (winfo w)) w;
            w2 = sys_removexattr e Remove_decmpfs DECMPFS_XATTR_NAME w1;
            w3 = (if fork then sys_removexattr e Remove_fork XATTR_RESOURCEFORK_NAME w2 else w2)
        in
        if fails e Fopen_revert then Inl (Bailed, w3\<lparr>wbackupName := False\<rparr>)
        else
          let w4 = w3\<lparr>wnode := (wnode w3)\<lparr>f_data := []\<rparr>\<rparr> in
          if fails e Fwrite_revert then Inl (Bailed, w4\<lparr>wbackupName := False\<rparr>)
          else (case in_view e useMmap inBuf w4 of
              None \<Rightarrow> Inl (Crashed, w4)
            | Some buf \<Rightarrow> Inr (w4\<lparr>wnode := (wnode w4)\<lparr>f_data := buf\<rparr>\<rparr>)))"

definition cf_check :: "env \<Rightarrow> folder_info \<Rightarrow> bool \<Rightarrow> byte list \<Rightarrow> bool \<Rightarrow> world \<Rightarrow> step_result" where
  "cf_check e fi fork inBuf useMmap w =
     (if \<not> check_files fi then Inr w
      else if fails e Open_check \<or> st_size (winfo w) \<noteq> int (length inBuf)
      then cf_revert e fork inBuf useMmap w
      else if fails e Mmap_check then Inl (Crashed, w)
      else (case in_view e useMmap inBuf w of
          None \<Rightarrow> Inl (Crashed, w)
        | Some buf \<Rightarrow>
            if vfs_read e (wnode w) \<noteq> buf then cf_revert e fork inBuf useMmap w else Inr w))"

section \<open>The common exit and the whole function\<close>

definition cf_bail :: "env \<Rightarrow> uint16 \<Rightarrow> (int \<times> int) \<times> (int \<times> int) \<Rightarrow> world \<Rightarrow> world" where
  "cf_bail e orig_mode tms w =
     (let w1 = sys_utimes tms w;
          w2 = (if st_mode (winfo w1) \<noteq> orig_mode then sys_chmod e Chmod_restore orig_mode w1 else w1);
          w3 = (if has_worker e then w2\<lparr>wlocked := False\<rparr> else w2)
      in if wbackupName w3 then w3\<lparr>wbackup := None, wbackupName := False\<rparr> else w3)"

definition cf_rewrite ::
    "env \<Rightarrow> heap \<Rightarrow> folder_info \<Rightarrow> compressionType \<Rightarrow> byte list \<Rightarrow> bool \<Rightarrow> (int \<times> int) \<times> (int \<times> int)
     \<Rightarrow> chunk_result \<Rightarrow> world \<Rightarrow> step_result" where
  "cf_rewrite e hp fi codes inBuf useMmap tms res w =
     bindE (cf_fork e hp fi inBuf useMmap tms res w) (\<lambda>(w1, isTruncated).
     bindE (cf_decmpfs e (outdecmpfs codes (length inBuf) res) isTruncated w1) (\<lambda>w2.
     bindE (cf_flag e (is_fork res) inBuf useMmap tms w2)
       (cf_check e fi (is_fork res) inBuf useMmap)))"

definition cf_body ::
    "env \<Rightarrow> codecs \<Rightarrow> heap \<Rightarrow> folder_info \<Rightarrow> world \<Rightarrow> step_result" where
  "cf_body e cdc hp fi w =
     (let orig_mode = st_mode (winfo w); tms = usec_times (winfo w);
          filesize = nat (st_size (winfo w))
      in
     bindE (cf_entry e fi w) (\<lambda>w.
     bindE (cf_chflags e (cf_chmod e orig_mode w)) (\<lambda>w.
     bindE (cf_xattrs e w) (\<lambda>w.
     bindE (cf_size filesize w) (\<lambda>w.
     bindE (cf_open e w) (\<lambda>w.
     bindE (cf_read e filesize tms w) (\<lambda>(inBuf, useMmap).
     bindE (cf_backup e fi inBuf w) (\<lambda>w0.
     let w = cf_unlock e w0 in
     bindE (cf_alloc e (compressiontype fi) tms w) (\<lambda>codes.
     bindE (cf_chunks cdc hp fi inBuf tms w) (\<lambda>res.
     cf_rewrite e hp fi codes inBuf useMmap tms res (cf_lock e w)))))))))))"

definition compressFile ::
    "env \<Rightarrow> codecs \<Rightarrow> heap \<Rightarrow> folder_info \<Rightarrow> world \<Rightarrow> exit \<times> world" where
  "compressFile e cdc hp fi w =
     (case cf_body e cdc hp fi w of
        Inl (Bailed, w') \<Rightarrow> (Returned, cf_bail e (st_mode (winfo w)) (usec_times (winfo w)) w')
      | Inl r \<Rightarrow> r
      | Inr w' \<Rightarrow> (Returned, cf_bail e (st_mode (winfo w)) (usec_times (winfo w)) w'))"

end
