(* ===== verification/CompressSafety.thy ===== *)
theory CompressSafety
  imports CompressFile
begin

text \<open>
  What \<open>compressFile\<close> does to the file, whatever the compressor and the kernel return and
  whichever system calls fail: the content a reader sees, the backup, the mode and the times.
  The lemmas follow the phases of the function.
\<close>

section \<open>Content through the phases\<close>

text \<open>The data is in the data fork and the file is not flagged; or the rewrite has begun.\<close>

definition intact :: "byte list \<Rightarrow> world \<Rightarrow> bool" where
  "intact d w \<longleftrightarrow> f_data (wnode w) = d \<and> \<not> is_flagged (f_flags (wnode w))"

definition rewriting :: "byte list \<Rightarrow> world \<Rightarrow> bool" where
  "rewriting d w \<longleftrightarrow> f_data (wnode w) \<in> {d, []} \<and> \<not> is_flagged (f_flags (wnode w))"

definition sane_info :: "world \<Rightarrow> bool" where
  "sane_info w \<longleftrightarrow> \<not> is_flagged (st_flags (winfo w))"

named_theorems sys_defs

declare sys_lstat_def [sys_defs] sys_chmod_def [sys_defs] sys_chflags_def [sys_defs]
  sys_utimes_def [sys_defs] sys_truncate_def [sys_defs] sys_setxattr_def [sys_defs]
  sys_removexattr_def [sys_defs] cf_lock_def [sys_defs] cf_unlock_def [sys_defs]

lemma not_flagged_revert: "\<not> is_flagged (NOT UF_COMPRESSED AND fl)"
proof -
  have "(NOT UF_COMPRESSED AND fl) AND UF_COMPRESSED = 0"
    by (rule bit_word_eqI) (auto simp: bit_simps)
  then show ?thesis by (simp add: is_flagged_def)
qed

lemma flagged_set: "is_flagged (UF_COMPRESSED OR fl)"
proof -
  have "bit (UF_COMPRESSED :: uint32) 5" by (simp add: UF_COMPRESSED_def)
  then have "bit ((UF_COMPRESSED OR fl) AND UF_COMPRESSED) 5" by (simp add: bit_simps)
  then show ?thesis unfolding is_flagged_def by (metis bit_0_eq bot_apply bot_bool_def)
qed

lemma intact_readable: "intact d w \<Longrightarrow> vfs_read e (wnode w) = d"
  by (simp add: intact_def vfs_read_def)

lemma intact_rewriting: "intact d w \<Longrightarrow> rewriting d w"
  by (simp add: intact_def rewriting_def)

text \<open>Operations that leave content and flags alone.\<close>

lemma content_frame [simp]:
  "intact d (sys_lstat e w) = intact d w" "rewriting d (sys_lstat e w) = rewriting d w"
  "intact d (sys_chmod e s m w) = intact d w" "rewriting d (sys_chmod e s m w) = rewriting d w"
  "intact d (sys_utimes t w) = intact d w" "rewriting d (sys_utimes t w) = rewriting d w"
  "intact d (sys_removexattr e s n w) = intact d w"
  "rewriting d (sys_removexattr e s n w) = rewriting d w"
  "intact d (cf_lock e w) = intact d w" "rewriting d (cf_lock e w) = rewriting d w"
  "intact d (cf_unlock e w) = intact d w" "rewriting d (cf_unlock e w) = rewriting d w"
  by (simp_all add: sys_defs intact_def rewriting_def)

lemma sane_frame [simp]:
  "sane_info (sys_chmod e s m w) = sane_info w" "sane_info (sys_utimes t w) = sane_info w"
  "sane_info (sys_removexattr e s n w) = sane_info w" "sane_info (cf_lock e w) = sane_info w"
  "sane_info (cf_unlock e w) = sane_info w" "sane_info (sys_chflags fl w) = sane_info w"
  "sane_info (sys_truncate e w) = sane_info w"
  by (simp_all add: sys_defs sane_info_def)

lemma lstat_sane: "intact d w \<Longrightarrow> sane_info (sys_lstat e w)"
  by (simp add: intact_def sane_info_def sys_lstat_def)

lemma truncate_rewriting: "intact d w \<Longrightarrow> rewriting d (sys_truncate e w)"
  by (simp add: sys_defs intact_def rewriting_def)

lemma setxattr_content:
  assumes "sys_setxattr e s n v w = Some w'"
  shows "intact d w' = intact d w" "rewriting d w' = rewriting d w" "sane_info w' = sane_info w"
  using assms by (auto simp: sys_defs intact_def rewriting_def sane_info_def split: if_splits)

lemma restore_content:
  assumes "rewriting d w" and "in_view e mm d w = Some d" and "\<not> fails e Restore_write"
  shows "intact d (restoreFile e mm d w)"
  using assms by (auto simp: restoreFile_def rewriting_def intact_def)

lemma bail_content: "intact d (cf_bail e m t w) = intact d w"
  "vfs_read e' (wnode (cf_bail e m t w)) = vfs_read e' (wnode w)"
  by (simp_all add: cf_bail_def Let_def intact_def sys_defs vfs_read_def)

section \<open>The preparation\<close>

text \<open>\<open>result_all P Q\<close>: \<open>P\<close> holds at every early exit, \<open>Q\<close> at the normal end.\<close>

fun result_all :: "(exit \<Rightarrow> world \<Rightarrow> bool) \<Rightarrow> (world \<Rightarrow> bool) \<Rightarrow> (exit \<times> world) + world \<Rightarrow> bool" where
  "result_all P Q (Inl (x, w)) = P x w"
| "result_all P Q (Inr w) = Q w"

definition prepared :: "byte list \<Rightarrow> world \<Rightarrow> bool" where
  "prepared d w \<longleftrightarrow> intact d w \<and> sane_info w"

lemma result_all_bindE:
  "result_all P Q m \<Longrightarrow> (\<And>w. Q w \<Longrightarrow> result_all P R (f w)) \<Longrightarrow> result_all P R (bindE m f)"
  by (cases m) (auto simp: split_paired_all)

lemma result_all_mono:
  "result_all P Q m \<Longrightarrow> (\<And>x w. P x w \<Longrightarrow> P' x w) \<Longrightarrow> (\<And>w. Q w \<Longrightarrow> Q' w) \<Longrightarrow> result_all P' Q' m"
  by (cases m) (auto simp: split_paired_all)

lemma cf_entry_prepared:
  assumes "intact d w" and "st_flags (winfo w) = f_flags (wnode w)"
  shows "result_all (\<lambda>_. intact d) (prepared d) (cf_entry e fi w)"
  using assms
  by (auto simp: cf_entry_def fileIsCompressable_def Let_def prepared_def intact_def sane_info_def)

lemma cf_chmod_prepared:
  assumes "prepared d w"
  shows "prepared d (cf_chmod e m w)"
  using assms by (auto simp: prepared_def cf_chmod_def Let_def lstat_sane)

lemma cf_chflags_prepared:
  assumes "prepared d w" and "\<not> fails e Chflags_clear"
  shows "result_all (\<lambda>_. intact d) (prepared d) (cf_chflags e w)"
  using assms
  by (auto simp: cf_chflags_def Let_def prepared_def sys_chflags_def intact_def sane_info_def)

text \<open>Behind the attribute check neither compression attribute exists.\<close>

definition no_cmp_xattrs :: "world \<Rightarrow> bool" where
  "no_cmp_xattrs w \<longleftrightarrow> map_of (f_xattrs (wnode w)) DECMPFS_XATTR_NAME = None
     \<and> map_of (f_xattrs (wnode w)) XATTR_RESOURCEFORK_NAME = None"

lemma cf_xattrs_prepared:
  assumes "prepared d w" and "\<not> fails e Listxattr_size"
  shows "result_all (\<lambda>_. intact d) (\<lambda>w. prepared d w \<and> no_cmp_xattrs w) (cf_xattrs e w)"
proof -
  have "map_of xs n = None \<longleftrightarrow> \<not> list_ex (\<lambda>m. m = n) (map fst xs)"
    for xs :: "(string \<times> byte list) list" and n
    by (auto simp: list_ex_iff map_of_eq_None_iff)
  then show ?thesis
    using assms
    by (auto simp: cf_xattrs_def Let_def prepared_def no_cmp_xattrs_def list_ex_iff
        XATTR_RESOURCEFORK_NAME_def DECMPFS_XATTR_NAME_def)
qed

lemma no_cmp_frame [simp]:
  "no_cmp_xattrs (cf_lock e w) = no_cmp_xattrs w" "no_cmp_xattrs (cf_unlock e w) = no_cmp_xattrs w"
  "no_cmp_xattrs (sys_truncate e w) = no_cmp_xattrs w"
  by (simp_all add: sys_defs no_cmp_xattrs_def)

lemma cf_size_frame: "Q w \<Longrightarrow> P Returned w \<Longrightarrow> result_all P Q (cf_size n w)"
  by (simp add: cf_size_def)

lemma cf_open_prepared:
  "prepared d w \<and> no_cmp_xattrs w \<Longrightarrow>
     result_all (\<lambda>_. intact d) (\<lambda>w. prepared d w \<and> no_cmp_xattrs w) (cf_open e w)"
  by (auto simp: cf_open_def Let_def prepared_def intact_def sane_info_def no_cmp_xattrs_def)

lemma cf_read_result:
  assumes "intact d w" and "cf_read e (length d) t w = Inr (inBuf, mm)"
  shows "inBuf = d" and "mm \<Longrightarrow> uses_mmap (length d)"
  using assms by (auto simp: cf_read_def intact_readable split: if_splits)

lemma cf_read_exit:
  "intact d w \<Longrightarrow> cf_read e n t w = Inl (x, w') \<Longrightarrow> intact d w'"
  by (auto simp: cf_read_def split: if_splits)

lemma cf_backup_prepared:
  "prepared d w \<and> no_cmp_xattrs w \<Longrightarrow>
     result_all (\<lambda>_. intact d) (\<lambda>w. prepared d w \<and> no_cmp_xattrs w) (cf_backup e fi inBuf w)"
  by (auto simp: cf_backup_def prepared_def intact_def sane_info_def no_cmp_xattrs_def)

lemma cf_alloc_exit: "intact d w \<Longrightarrow> cf_alloc e c t w = Inl (x, w') \<Longrightarrow> intact d w'"
  by (auto simp: cf_alloc_def split: if_splits option.splits)

lemma cf_chunks_exit: "intact d w \<Longrightarrow> cf_chunks cdc hp fi inBuf t w = Inl (x, w') \<Longrightarrow> intact d w'"
  by (auto simp: cf_chunks_def split: if_splits sum.splits)

section \<open>The rewrite\<close>

text \<open>
  \<open>survives b\<close>: a reader sees \<open>d\<close>, or (when there is a backup, \<open>b\<close>) the backup holds \<open>d\<close> and
  stays: its name is unset, or the process is gone. \<open>faults_ok b\<close> are the calls that must work
  when there is no backup, and what a mapping may show.
\<close>

definition survives :: "bool \<Rightarrow> env \<Rightarrow> byte list \<Rightarrow> exit \<Rightarrow> world \<Rightarrow> bool" where
  "survives b e d x w \<longleftrightarrow>
     vfs_read e (wnode w) = d \<or> b \<and> wbackup w = Some d \<and> (x = Crashed \<or> \<not> wbackupName w)"

definition faults_ok :: "bool \<Rightarrow> env \<Rightarrow> bool \<Rightarrow> byte list \<Rightarrow> bool" where
  "faults_ok b e mm d \<longleftrightarrow>
     (\<forall>w. in_view e mm d w = Some d \<or> b \<and> in_view e mm d w = None)
     \<and> (\<not> b \<longrightarrow> \<not> fails e Restore_write \<and> \<not> fails e Chflags_revert \<and> \<not> fails e Fopen_revert
          \<and> \<not> fails e Fwrite_revert \<and> \<not> fails e Mmap_check)"

definition has_copy :: "bool \<Rightarrow> byte list \<Rightarrow> world \<Rightarrow> bool" where
  "has_copy b d w \<longleftrightarrow> (b \<longrightarrow> wbackup w = Some d)"

lemma has_copy_frame [simp]:
  "has_copy b d (sys_lstat e w) = has_copy b d w" "has_copy b d (sys_chmod e s m w) = has_copy b d w"
  "has_copy b d (sys_utimes t w) = has_copy b d w" "has_copy b d (sys_chflags fl w) = has_copy b d w"
  "has_copy b d (sys_removexattr e s n w) = has_copy b d w"
  "has_copy b d (sys_truncate e w) = has_copy b d w" "has_copy b d (cf_lock e w) = has_copy b d w"
  "has_copy b d (cf_unlock e w) = has_copy b d w"
  by (simp_all add: sys_defs has_copy_def)

lemma setxattr_copy:
  "sys_setxattr e s n v w = Some w' \<Longrightarrow> has_copy b d w' = has_copy b d w"
  by (auto simp: sys_defs has_copy_def split: if_splits)

lemma intact_survives: "intact d w \<Longrightarrow> survives b e d x w"
  by (simp add: survives_def intact_readable)

lemma restore_survives:
  assumes "rewriting d w" and "faults_ok b e mm d" and "has_copy b d w"
  shows "survives b e d x (sys_utimes t (restoreFile e mm d w))"
    and "survives b e d x (restoreFile e mm d w)"
proof -
  have "intact d (restoreFile e mm d w) \<or>
      b \<and> wbackup (restoreFile e mm d w) = Some d \<and> \<not> wbackupName (restoreFile e mm d w)"
  proof (cases "in_view e mm d w = Some d \<and> \<not> fails e Restore_write")
    case True
    with assms(1) show ?thesis by (simp add: restore_content)
  next
    case False
    with assms(2,3) have b: b and "wbackup w = Some d"
      by (auto simp: faults_ok_def has_copy_def)
    with False assms(2) show ?thesis
      by (auto simp: restoreFile_def faults_ok_def split: option.splits)
  qed
  then show "survives b e d x (restoreFile e mm d w)"
    "survives b e d x (sys_utimes t (restoreFile e mm d w))"
    by (auto simp: survives_def intact_def vfs_read_def sys_utimes_def)
qed

lemma cf_fork_result:
  assumes "prepared d w" and "no_cmp_xattrs w" and "faults_ok b e mm d" and "has_copy b d w"
  shows "cf_fork e hp fi d mm t res w = Inl (x, w') \<Longrightarrow> survives b e d x w'"
    and "cf_fork e hp fi d mm t res w = Inr (w', tr) \<Longrightarrow>
      rewriting d w' \<and> sane_info w' \<and> has_copy b d w'
      \<and> map_of (f_xattrs (wnode w')) DECMPFS_XATTR_NAME = None"
proof -
  have int: "intact d w" using assms(1) by (simp add: prepared_def)
  then have rw: "rewriting d (sys_truncate e w)" by (rule truncate_rewriting)
  show "survives b e d x w'" if "cf_fork e hp fi d mm t res w = Inl (x, w')"
    using that int rw assms(3,4)
    by (auto simp: cf_fork_def Let_def intact_survives restore_survives(2)
        split: chunk_result.splits if_splits sum.splits option.splits)
  show "rewriting d w' \<and> sane_info w' \<and> has_copy b d w'
      \<and> map_of (f_xattrs (wnode w')) DECMPFS_XATTR_NAME = None"
    if r: "cf_fork e hp fi d mm t res w = Inr (w', tr)"
  proof (cases res)
    case (StoreInXattr blk)
    with r int assms show ?thesis
      by (auto simp: cf_fork_def rewriting_def intact_def sane_info_def prepared_def has_copy_def
          no_cmp_xattrs_def)
  next
    case (NextChunk st)
    with r obtain fork w2 where w2:
      "sys_setxattr e Setxattr_fork XATTR_RESOURCEFORK_NAME fork (sys_truncate e w) = Some w2"
      and w': "wnode w' = wnode w2" "winfo w' = winfo w2" "wbackup w' = wbackup w2"
      by (auto simp: cf_fork_def Let_def split: if_splits sum.splits option.splits)
    have "map_of (f_xattrs (wnode w2)) DECMPFS_XATTR_NAME = None"
      using w2 assms(2) by (auto simp: sys_defs no_cmp_xattrs_def map_add_def split: if_splits)
    moreover have "rewriting d w2" "sane_info w2" "has_copy b d w2"
      using rw assms(1,4) setxattr_content [OF w2] setxattr_copy [OF w2] by (simp_all add: prepared_def)
    ultimately show ?thesis
      by (simp add: w' rewriting_def sane_info_def has_copy_def)
  qed
qed

lemma cf_decmpfs_result:
  assumes "rewriting d w" and "sane_info w" and "has_copy b d w"
    and "map_of (f_xattrs (wnode w)) DECMPFS_XATTR_NAME = None" and "\<not> fails e Setxattr_decmpfs"
  obtains w' where "cf_decmpfs e attr tr w = Inr w'" and "rewriting d w'" and "sane_info w'"
    and "has_copy b d w'"
proof -
  obtain w1 where w1: "sys_setxattr e Setxattr_decmpfs DECMPFS_XATTR_NAME attr w = Some w1"
    using assms(4,5) by (simp add: sys_setxattr_def)
  note c = setxattr_content [OF w1] setxattr_copy [OF w1]
  have "rewriting d (sys_truncate e w1)"
    using assms(1) c(2) by (auto simp: rewriting_def sys_truncate_def)
  then show thesis
    using assms c w1 by (intro that [of "if tr then w1 else sys_truncate e w1"])
      (simp_all add: cf_decmpfs_def)
qed

lemma cf_flag_result:
  assumes "rewriting d w" and "faults_ok b e mm d" and "has_copy b d w"
  shows "cf_flag e fork d mm t w = Inl (x, w') \<Longrightarrow> survives b e d x w'"
    and "cf_flag e fork d mm t w = Inr w' \<Longrightarrow> has_copy b d w'"
  using assms
  by (auto simp: cf_flag_def Let_def restore_survives(1) split: if_splits)

lemma cf_revert_result:
  assumes ok: "faults_ok b e mm d" and copy: "has_copy b d w"
  shows "cf_revert e fork d mm w = Inl (x, w') \<Longrightarrow> survives b e d x w'"
    and "cf_revert e fork d mm w = Inr w' \<Longrightarrow> intact d w'"
proof -
  define w1 where "w1 = sys_chflags (NOT UF_COMPRESSED AND st_flags (winfo w)) w"
  define w2 where "w2 = sys_removexattr e Remove_decmpfs DECMPFS_XATTR_NAME w1"
  define w3 where "w3 = (if fork then sys_removexattr e Remove_fork XATTR_RESOURCEFORK_NAME w2 else w2)"
  define w4 where "w4 = w3\<lparr>wnode := (wnode w3)\<lparr>f_data := []\<rparr>\<rparr>"
  have eq: "cf_revert e fork d mm w =
     (if fails e Chflags_revert then Inl (Bailed, w\<lparr>wbackupName := False\<rparr>)
      else if fails e Fopen_revert then Inl (Bailed, w3\<lparr>wbackupName := False\<rparr>)
      else if fails e Fwrite_revert then Inl (Bailed, w4\<lparr>wbackupName := False\<rparr>)
      else (case in_view e mm d w4 of None \<Rightarrow> Inl (Crashed, w4)
        | Some buf \<Rightarrow> Inr (w4\<lparr>wnode := (wnode w4)\<lparr>f_data := buf\<rparr>\<rparr>)))"
    unfolding cf_revert_def Let_def w4_def w3_def w2_def w1_def by (rule refl)
  have fl: "\<not> is_flagged (f_flags (wnode w4))"
    by (simp add: w4_def w3_def w2_def w1_def sys_defs not_flagged_revert)
  have c3: "has_copy b d w3" and c4: "has_copy b d w4"
    using copy by (simp_all add: w4_def w3_def w2_def w1_def) (simp_all add: has_copy_def sys_defs)
  have view: "in_view e mm d w4 = Some d \<or> b \<and> in_view e mm d w4 = None"
    using ok by (simp add: faults_ok_def)
  have nb: "\<not> b \<longrightarrow> \<not> fails e Chflags_revert \<and> \<not> fails e Fopen_revert \<and> \<not> fails e Fwrite_revert"
    using ok by (simp add: faults_ok_def)
  show "survives b e d x w'" if "cf_revert e fork d mm w = Inl (x, w')"
    using that view nb copy c3 c4 unfolding eq
    by (cases b) (auto simp: survives_def has_copy_def split: if_splits option.splits)
  show "intact d w'" if "cf_revert e fork d mm w = Inr w'"
    using that fl view unfolding eq by (auto simp: intact_def split: if_splits option.splits)
qed

lemma cf_check_result:
  assumes "check_files fi" and "faults_ok b e mm d" and "has_copy b d w"
  shows "cf_check e fi fork d mm w = Inl (x, w') \<Longrightarrow> survives b e d x w'"
    and "cf_check e fi fork d mm w = Inr w' \<Longrightarrow> vfs_read e (wnode w') = d"
proof -
  have view: "in_view e mm d w = Some d \<or> b \<and> in_view e mm d w = None"
    and mm: "fails e Mmap_check \<longrightarrow> b"
    using assms(2) by (auto simp: faults_ok_def)
  show "survives b e d x w'" if "cf_check e fi fork d mm w = Inl (x, w')"
    using that view mm assms(1,3) cf_revert_result(1) [OF assms(2,3)]
    by (auto simp: cf_check_def survives_def has_copy_def split: if_splits option.splits)
  show "vfs_read e (wnode w') = d" if "cf_check e fi fork d mm w = Inr w'"
    using that view assms(1) cf_revert_result(2) [OF assms(2,3)] intact_readable
    by (auto simp: cf_check_def split: if_splits option.splits)
qed

lemma cf_rewrite_result:
  assumes "prepared d w" and "no_cmp_xattrs w" and "faults_ok b e mm d" and "has_copy b d w"
    and "\<not> fails e Setxattr_decmpfs" and "check_files fi"
  shows "cf_rewrite e hp fi codes d mm t res w = Inl (x, w') \<Longrightarrow> survives b e d x w'"
    and "cf_rewrite e hp fi codes d mm t res w = Inr w' \<Longrightarrow> vfs_read e (wnode w') = d"
proof -
  let ?attr = "outdecmpfs codes (length d) res"
  consider (exit) x1 w1 where "cf_fork e hp fi d mm t res w = Inl (x1, w1)" "survives b e d x1 w1"
    | (cont) w1 tr w2 where "cf_fork e hp fi d mm t res w = Inr (w1, tr)"
      "cf_decmpfs e ?attr tr w1 = Inr w2" "rewriting d w2" "has_copy b d w2"
  proof (cases "cf_fork e hp fi d mm t res w")
    case (Inl r)
    then show thesis
      using cf_fork_result(1) [OF assms(1-4)] exit by (cases r) auto
  next
    case (Inr r)
    then obtain w1 tr where r: "cf_fork e hp fi d mm t res w = Inr (w1, tr)" by (cases r) auto
    note f = cf_fork_result(2) [OF assms(1-4) r]
    then obtain w2 where "cf_decmpfs e ?attr tr w1 = Inr w2" "rewriting d w2" "has_copy b d w2"
      using assms(5) cf_decmpfs_result [of d w1 b e ?attr tr] by blast
    with r show thesis by (rule cont)
  qed
  then have "(\<forall>x w'. cf_rewrite e hp fi codes d mm t res w = Inl (x, w') \<longrightarrow> survives b e d x w')
    \<and> (\<forall>w'. cf_rewrite e hp fi codes d mm t res w = Inr w' \<longrightarrow> vfs_read e (wnode w') = d)"
  proof cases
    case exit
    then show ?thesis by (simp add: cf_rewrite_def)
  next
    case cont
    show ?thesis
      unfolding cf_rewrite_def cont(1,2) bindE.simps prod.case bindE_Inl_iff bindE_Inr_iff
      using cf_flag_result [OF cont(3) assms(3) cont(4)] cf_check_result [OF assms(6,3)] by blast
  qed
  then show "cf_rewrite e hp fi codes d mm t res w = Inl (x, w') \<Longrightarrow> survives b e d x w'"
    and "cf_rewrite e hp fi codes d mm t res w = Inr w' \<Longrightarrow> vfs_read e (wnode w') = d"
    by blast+
qed

section \<open>The whole function\<close>

text \<open>The information the caller passes agrees with the file, which is not flagged.\<close>

definition fresh_file :: "byte list \<Rightarrow> world \<Rightarrow> bool" where
  "fresh_file d w \<longleftrightarrow> f_data (wnode w) = d \<and> \<not> is_flagged (f_flags (wnode w))
     \<and> st_size (winfo w) = int (length d) \<and> st_flags (winfo w) = f_flags (wnode w)
     \<and> st_mode (winfo w) = f_mode (wnode w)"

lemma cf_tail_result:
  assumes w: "prepared d w \<and> no_cmp_xattrs w" and mm: "mm \<longrightarrow> uses_mmap (length d)"
    and ok: "\<forall>mm. (mm \<longrightarrow> uses_mmap (length d)) \<longrightarrow> faults_ok b e mm d"
    and bk: "b \<longrightarrow> backup_file fi" and f: "\<not> fails e Setxattr_decmpfs" "check_files fi"
  shows "result_all (survives b e d) (\<lambda>w'. vfs_read e (wnode w') = d)
     (bindE (cf_backup e fi d w) (\<lambda>w0.
     let w = cf_unlock e w0 in
     bindE (cf_alloc e (compressiontype fi) t w) (\<lambda>codes.
     bindE (cf_chunks cdc hp fi d t w) (\<lambda>res.
     cf_rewrite e hp fi codes d mm t res (cf_lock e w)))))"
proof (rule result_all_bindE)
  show "result_all (survives b e d) (\<lambda>w. (prepared d w \<and> no_cmp_xattrs w) \<and> has_copy b d w)
      (cf_backup e fi d w)"
    using cf_backup_prepared [OF w, of e fi d] bk
    by (auto simp: cf_backup_def intact_survives prepared_def has_copy_def split: if_splits)
  fix w0 assume w0: "(prepared d w0 \<and> no_cmp_xattrs w0) \<and> has_copy b d w0"
  let ?w = "cf_unlock e w0"
  have u: "prepared d ?w" "no_cmp_xattrs ?w" "has_copy b d ?w" "intact d ?w"
    using w0 by (simp_all add: prepared_def)
  show "result_all (survives b e d) (\<lambda>w'. vfs_read e (wnode w') = d)
     (let w = ?w in bindE (cf_alloc e (compressiontype fi) t w) (\<lambda>codes.
     bindE (cf_chunks cdc hp fi d t w) (\<lambda>res.
     cf_rewrite e hp fi codes d mm t res (cf_lock e w))))"
  proof (cases "bindE (cf_alloc e (compressiontype fi) t ?w) (\<lambda>codes.
      bindE (cf_chunks cdc hp fi d t ?w) (\<lambda>res. Inr (codes, res)))")
    case (Inl r)
    then have "intact d (snd r)"
      using cf_alloc_exit [OF u(4), of e "compressiontype fi" t]
        cf_chunks_exit [OF u(4), of cdc hp fi d t]
      by (cases r) (auto simp: bindE_Inl_iff)
    with Inl show ?thesis
      by (cases "cf_alloc e (compressiontype fi) t ?w"; cases "cf_chunks cdc hp fi d t ?w"; cases r)
        (auto simp: intact_survives)
  next
    case (Inr r)
    then obtain codes res where eq: "cf_alloc e (compressiontype fi) t ?w = Inr codes"
      "cf_chunks cdc hp fi d t ?w = Inr res"
      by (auto simp: bindE_Inr_iff)
    have l: "prepared d (cf_lock e ?w)" "no_cmp_xattrs (cf_lock e ?w)" "has_copy b d (cf_lock e ?w)"
      using u by (simp_all add: prepared_def)
    have fo: "faults_ok b e mm d" using ok mm by blast
    note r = cf_rewrite_result [OF l(1,2) fo l(3) f]
    show ?thesis
      using r [where codes = codes and res = res and hp = hp and t = t]
      by (cases "cf_rewrite e hp fi codes d mm t res (cf_lock e ?w)") (auto simp: eq)
  qed
qed

lemma cf_open_result:
  assumes p: "prepared d w \<and> no_cmp_xattrs w"
    and ok: "\<forall>mm. (mm \<longrightarrow> uses_mmap (length d)) \<longrightarrow> faults_ok b e mm d"
    and bk: "b \<longrightarrow> backup_file fi" and f: "\<not> fails e Setxattr_decmpfs" "check_files fi"
  shows "result_all (survives b e d) (\<lambda>w'. vfs_read e (wnode w') = d)
     (bindE (cf_open e w) (\<lambda>w.
     bindE (cf_read e (length d) t w) (\<lambda>(inBuf, useMmap).
     bindE (cf_backup e fi inBuf w) (\<lambda>w0.
     let w = cf_unlock e w0 in
     bindE (cf_alloc e (compressiontype fi) t w) (\<lambda>codes.
     bindE (cf_chunks cdc hp fi inBuf t w) (\<lambda>res.
     cf_rewrite e hp fi codes inBuf useMmap t res (cf_lock e w)))))))"
proof (rule result_all_bindE)
  show "result_all (survives b e d) (\<lambda>w. prepared d w \<and> no_cmp_xattrs w) (cf_open e w)"
    using cf_open_prepared [OF p] by (rule result_all_mono) (simp_all add: intact_survives)
  fix w3 assume p3: "prepared d w3 \<and> no_cmp_xattrs w3"
  then have i3: "intact d w3" by (simp add: prepared_def)
  show "result_all (survives b e d) (\<lambda>w'. vfs_read e (wnode w') = d)
     (bindE (cf_read e (length d) t w3) (\<lambda>(inBuf, useMmap).
     bindE (cf_backup e fi inBuf w3) (\<lambda>w0.
     let w = cf_unlock e w0 in
     bindE (cf_alloc e (compressiontype fi) t w) (\<lambda>codes.
     bindE (cf_chunks cdc hp fi inBuf t w) (\<lambda>res.
     cf_rewrite e hp fi codes inBuf useMmap t res (cf_lock e w))))))"
  proof (cases "cf_read e (length d) t w3")
    case (Inl r)
    then show ?thesis
      using cf_read_exit [OF i3] by (cases r) (auto simp: intact_survives)
  next
    case (Inr r)
    obtain inBuf mm where r: "r = (inBuf, mm)" by (cases r)
    note rd = cf_read_result [OF i3 Inr [unfolded r]]
    show ?thesis
      unfolding Inr r rd(1) bindE.simps prod.case
      using rd(2) by (intro cf_tail_result [OF p3 _ ok bk f]) simp
  qed
qed

lemma cf_body_result:
  assumes fresh: "fresh_file d w"
    and ok: "\<forall>mm. (mm \<longrightarrow> uses_mmap (length d)) \<longrightarrow> faults_ok b e mm d"
    and bk: "b \<longrightarrow> backup_file fi" and f: "\<not> fails e Setxattr_decmpfs" "check_files fi"
    and g: "\<not> fails e Chflags_clear" "\<not> fails e Listxattr_size"
  shows "result_all (survives b e d) (\<lambda>w'. vfs_read e (wnode w') = d) (cf_body e cdc hp fi w)"
proof -
  have mono: "result_all (survives b e d) Q m" if "result_all (\<lambda>_. intact d) Q m" for Q m
    using that by (rule result_all_mono) (simp_all add: intact_survives)
  let ?t = "usec_times (winfo w)" and ?m = "st_mode (winfo w)"
  have size: "nat (st_size (winfo w)) = length d" using fresh by (simp add: fresh_file_def)
  have int: "intact d w" and fl: "st_flags (winfo w) = f_flags (wnode w)"
    using fresh by (simp_all add: fresh_file_def intact_def)
  show ?thesis
    unfolding cf_body_def Let_def [of "?m"] Let_def [of "?t"] Let_def [of "nat (st_size (winfo w))"] size
      Let_def [of "length d"]
    apply (rule result_all_bindE [OF mono [OF cf_entry_prepared [OF int fl]]])
    apply (rule result_all_bindE [OF mono [OF cf_chflags_prepared [OF cf_chmod_prepared g(1)]]], assumption)
    apply (rule result_all_bindE [OF mono [OF cf_xattrs_prepared [OF _ g(2)]]], assumption)
    apply (rule result_all_bindE [OF cf_size_frame [where Q = "\<lambda>w. prepared d w \<and> no_cmp_xattrs w"]],
        assumption, simp add: intact_survives prepared_def)
    apply (rule cf_open_result [OF _ ok bk f], assumption)
    done
qed

lemma compressFile_result:
  assumes "fresh_file d w"
    and "\<forall>mm. (mm \<longrightarrow> uses_mmap (length d)) \<longrightarrow> faults_ok b e mm d"
    and "b \<longrightarrow> backup_file fi" and "\<not> fails e Setxattr_decmpfs" "check_files fi"
    and "\<not> fails e Chflags_clear" "\<not> fails e Listxattr_size"
    and run: "compressFile e cdc hp fi w = (x, w')"
  shows "vfs_read e (wnode w') = d \<or> b \<and> wbackup w' = Some d"
proof -
  have "wbackup (cf_bail e (st_mode (winfo w)) (usec_times (winfo w)) v) = Some d"
    if "wbackup v = Some d" "\<not> wbackupName v" for v
    using that by (simp add: cf_bail_def Let_def sys_defs)
  with run cf_body_result [OF assms(1-7), of cdc hp] show ?thesis
    unfolding compressFile_def survives_def
    by (cases "cf_body e cdc hp fi w") (auto simp: bail_content survives_def split: exit.splits)
qed

end
