(* ===== verification/FileSamples.thy ===== *)
theory FileSamples
  imports Samples CompressSafety
begin

text \<open>
  Concrete files and environments for the properties of whole files: a codec that compresses
  data made of two equal halves (and meets \<open>zlib_contract\<close>), and an 8000-byte file of that kind.
\<close>

definition halving_codecs :: codecs where
  "halving_codecs = sample_codecs\<lparr>compress2 := (\<lambda>cap src level.
     let h = take (length src div 2) src;
         out = (if src = h @ h then 0x78 # h else 0x58 # src)
     in if length out \<le> cap then Some out else None)\<rparr>"

definition halving_uncompress :: uncompressor where
  "halving_uncompress cap src =
     (case src of [] \<Rightarrow> Inl Z_DATA_ERROR
      | b # bs \<Rightarrow>
          if b = 0x78 then (if length (bs @ bs) \<le> cap then Inr (bs @ bs) else Inl Z_BUF_ERROR)
          else if b = 0x58 then (if length bs \<le> cap then Inr bs else Inl Z_BUF_ERROR)
          else Inl Z_DATA_ERROR)"

lemma halving_contract: "zlib_contract halving_codecs halving_uncompress"
proof -
  have h: "halving_uncompress c (0x78 # h) = Inr src" if "h @ h = src" "length src \<le> c" for c h src
    using that by (auto simp: halving_uncompress_def)
  have s: "halving_uncompress c (0x58 # src) = Inr src" if "length src \<le> c" for c src
    using that by (simp add: halving_uncompress_def)
  show ?thesis
    by (auto simp: zlib_contract_def halving_codecs_def Let_def h s split: if_splits)
qed

definition sample_data :: "byte list" where "sample_data = replicate 8000 7"

lemma length_sample_data [simp]: "length sample_data = 8000"
  by (simp add: sample_data_def)

definition sample_volume :: volume where
  "sample_volume = \<lparr>statfs_ok = True, f_fstypename = ''hfs'', f_fssubtype = 0, vol_cap_decmpfs = True\<rparr>"

definition sample_env :: env where
  "sample_env = \<lparr>fails = (\<lambda>_. False), kread = (\<lambda>d xs. sample_data), mapped = (\<lambda>d nd. Some d), kblocks = (\<lambda>_. 8),
     vol = sample_volume, quitRequested = False, exclusive_io = True, has_worker = True,
     LZVN_ENCODE_MIN_SRC_SIZE = 8\<rparr>"

definition sample_node :: fnode where
  "sample_node = \<lparr>f_data = sample_data, f_xattrs = [(''user.note'', [1])], f_flags = 0,
     f_mode = 0x81A4, f_times = ((5, 6), (7, 8))\<rparr>"

definition sample_stat :: stat where
  "sample_stat = \<lparr>st_mode = 0x81A4, st_size = 8000, st_blocks = 16, st_blksize = 4096, st_flags = 0,
     st_ino = 1, st_nlink = 1, st_atimespec = (5, 6000), st_mtimespec = (7, 8000)\<rparr>"

definition sample_world :: world where
  "sample_world = \<lparr>wnode = sample_node, winfo = sample_stat, wbackup = None, wbackupName = False,
     wlocked = False, wskipped = 0, wAPFS = False, wdata_compressed_size = 0, wmaxOutBufSize = 0\<rparr>"

lemma sample_fresh: "fresh_file sample_data sample_world"
  by (simp add: fresh_file_def sample_world_def sample_node_def sample_stat_def is_flagged_def)

lemma sample_compressable:
  "fst (fileIsCompressable (sample_env\<lparr>fails := f\<rparr>) sample_stat ZLIB)"
  by (simp add: fileIsCompressable_def sample_env_def sample_volume_def sample_stat_def Let_def
      MNTTYPE_ZFS_SUBTYPE_def stat_bits is_flagged_def)

lemma sample_supported: "size_supported (length sample_data)"
  by (simp add: size_supported_def numBlocks_of_def compblksize_def CMP_MAX_SUPPORTED_SIZE_def)

lemma sample_not_mapped: "\<not> uses_mmap (length sample_data)"
  by (simp add: uses_mmap_def)

text \<open>The sample file compresses into a fork that is accepted.\<close>

lemma sample_packs:
  obtains st st' where "compress_data halving_codecs sample_heap sample_info sample_data = Inr (NextChunk st)"
    and "currBlock st = 4273" and "finish_fork sample_heap (compressiontype sample_info) st = Inr st'"
    and "\<not> savings_rejected sample_info (currBlock st + sizeof_disk_header + 50) (length sample_data)"
proof -
  let ?st = "chunk_init sample_heap ZLIB 1"
  have zlib: "compressiontype sample_info = ZLIB" by (simp add: sample_info_def)
  have n: "numBlocks_of (length sample_data) = 1" by (simp add: numBlocks_of_def compblksize_def)
  have halves: "sample_data = replicate 4000 7 @ replicate 4000 7"
    by (simp add: sample_data_def flip: replicate_add)
  have "take (length sample_data div 2) sample_data = replicate 4000 7"
    by (simp add: halves)
  then have out: "encode_chunk halving_codecs sample_heap sample_info ZLIB (chunk_at sample_data 0)
      = Inr (0x78 # replicate 4000 7)"
    using halves
    by (simp add: chunk_at_eq compblksize_def halving_codecs_def sample_codecs_def Let_def)
  have large: "large_block halving_codecs sample_info ZLIB (chunk_at sample_data 0) (0x78 # replicate 4000 7)
      = Inr (0x78 # replicate 4000 7)"
    by (simp add: large_block_def bytesAfterCursor_def compblksize_def)
  obtain st where st: "chunk_step halving_codecs sample_heap sample_info ZLIB sample_data 1 0 0 ?st
      = Inr (NextChunk st)" "currBlock st = 4273"
    using out large
    by (simp add: chunk_step_def grow_outBuf_def Let_def place_block_def sizeof_disk_header_def
        MAX_DECMPFS_XATTR_SIZE_def zlib_blockStart_def del: encode_chunk.simps)
  then have "chunk_loop halving_codecs sample_heap sample_info ZLIB sample_data 1 0 0 ?st
      = chunk_loop halving_codecs sample_heap sample_info ZLIB sample_data 1 compblksize 1 st"
    by (subst chunk_loop.simps) (simp del: chunk_init.simps)
  also have "\<dots> = Inr (NextChunk st)"
    by (subst chunk_loop.simps) (simp add: compblksize_def)
  finally have "compress_data halving_codecs sample_heap sample_info sample_data = Inr (NextChunk st)"
    unfolding compress_data_def Let_def n zlib .
  moreover obtain st' where "finish_fork sample_heap (compressiontype sample_info) st = Inr st'"
    using sample_finish [of st] by (auto simp: finish_fork_def zlib)
  moreover have "\<not> savings_rejected sample_info (currBlock st + sizeof_disk_header + 50) (length sample_data)"
    by (simp add: savings_rejected_def sample_info_def sizeof_disk_header_def st(2))
  ultimately show thesis using st(2) by (intro that)
qed

end
