(* ===== verification/CompressEffects.thy ===== *)
theory CompressEffects
  imports FileSamples
begin

text \<open>
  The run of \<open>compressFile\<close> in closed form when the system calls work (with the exception
  under study), and the bookkeeping that holds under any faults: the mode and the times at
  the common exit and the I/O lock.
\<close>

section \<open>The run up to the rewrite\<close>

definition ready :: "env \<Rightarrow> folder_info \<Rightarrow> byte list \<Rightarrow> world \<Rightarrow> bool" where
  "ready e fi d w \<longleftrightarrow> fresh_file d w \<and> \<not> quitRequested e
     \<and> fst (fileIsCompressable e (winfo w) (compressiontype fi))
     \<and> (maxSize fi = 0 \<or> int (length d) \<le> maxSize fi) \<and> d \<noteq> [] \<and> size_supported (length d)
     \<and> st_mode (winfo w) AND S_IWUSR \<noteq> 0 \<and> st_mode (winfo w) AND S_IRUSR \<noteq> 0
     \<and> no_cmp_xattrs w \<and> compression_codes (compressiontype fi) \<noteq> None"

lemma cf_xattrs_pass: "no_cmp_xattrs w \<Longrightarrow> \<not> fails e Malloc_xattrnames \<Longrightarrow> \<not> fails e Listxattr
    \<Longrightarrow> cf_xattrs e w = Inr w"
  by (force simp: cf_xattrs_def Let_def no_cmp_xattrs_def map_of_eq_None_iff list_ex_iff)

lemma cf_chflags_pass:
  assumes "st_flags (winfo w) = f_flags (wnode w)" "\<not> fails e Chflags_set" "\<not> fails e Chflags_clear"
  shows "cf_chflags e w = Inr w"
proof -
  have "sys_chflags (f_flags (wnode w)) (sys_chflags (UF_COMPRESSED OR f_flags (wnode w)) w) = w"
    by (simp add: sys_chflags_def)
  with assms show ?thesis by (simp add: cf_chflags_def Let_def)
qed

lemma cf_body_no_faults:
  assumes rdy: "ready e fi d w"
    and ok: "\<And>s. s \<noteq> Setxattr_decmpfs \<Longrightarrow> \<not> fails e s"
  obtains w2 codes where
    "cf_body e cdc hp fi w =
       bindE (cf_chunks cdc hp fi d (usec_times (winfo w)) (cf_unlock e w2))
         (\<lambda>res. cf_rewrite e hp fi codes d (uses_mmap (length d)) (usec_times (winfo w)) res
                  (cf_lock e (cf_unlock e w2)))"
    and "wnode w2 = wnode w" and "winfo w2 = winfo w"
    and "compression_codes (compressiontype fi) = Some codes"
    and "wbackup w2 = (if backup_file fi then Some d else wbackup w)"
    and "wbackupName w2 \<longleftrightarrow> backup_file fi \<or> wbackupName w"
proof -
  from rdy obtain codes where codes: "compression_codes (compressiontype fi) = Some codes"
    by (auto simp: ready_def)
  define w1 where "w1 = w\<lparr>wAPFS := snd (fileIsCompressable e (winfo w) (compressiontype fi))\<rparr>"
  define w1' where "w1' = (if exclusive_io e \<and> has_worker e then w1\<lparr>wlocked := True\<rparr> else w1)"
  define w2 where "w2 = (if backup_file fi then w1'\<lparr>wbackupName := True, wbackup := Some d\<rparr> else w1')"
  have same: "wnode w1 = wnode w" "winfo w1 = winfo w" "wnode w1' = wnode w" "winfo w1' = winfo w"
    by (simp_all add: w1_def w1'_def)
  have entry: "cf_entry e fi w = Inr w1"
    using rdy by (auto simp: cf_entry_def Let_def w1_def ready_def fresh_file_def)
  have chmod: "cf_chmod e (st_mode (winfo w)) w1 = w1"
    using rdy by (simp add: cf_chmod_def ready_def)
  have chflags: "cf_chflags e w1 = Inr w1"
    using rdy ok by (intro cf_chflags_pass) (simp_all add: same ready_def fresh_file_def)
  have "no_cmp_xattrs w1" using rdy by (simp add: ready_def no_cmp_xattrs_def same)
  then have xattrs: "cf_xattrs e w1 = Inr w1" using ok by (intro cf_xattrs_pass) simp_all
  have size: "cf_size (length d) w1 = Inr w1" using rdy by (simp add: cf_size_def ready_def)
  have len: "nat (st_size (winfo w)) = length d" using rdy by (simp add: ready_def fresh_file_def)
  have opn: "cf_open e w1 = Inr w1'" using ok by (simp add: cf_open_def Let_def w1'_def)
  have "vfs_read e (wnode w1') = d"
    using rdy by (simp add: same vfs_read_def ready_def fresh_file_def)
  then have rd: "cf_read e (length d) t w1' = Inr (d, uses_mmap (length d))" for t
    using ok by (simp add: cf_read_def)
  have bk: "cf_backup e fi d w1' = Inr w2" using ok by (simp add: cf_backup_def w2_def)
  have al: "cf_alloc e (compressiontype fi) t v = Inr codes" for t v
    using ok codes by (simp add: cf_alloc_def)
  show thesis
  proof (rule that)
    show "cf_body e cdc hp fi w =
       bindE (cf_chunks cdc hp fi d (usec_times (winfo w)) (cf_unlock e w2))
         (\<lambda>res. cf_rewrite e hp fi codes d (uses_mmap (length d)) (usec_times (winfo w)) res
                  (cf_lock e (cf_unlock e w2)))"
      by (simp add: cf_body_def Let_def entry chmod chflags xattrs size len opn rd bk al)
  qed (use codes in \<open>auto simp: w2_def w1'_def w1_def\<close>)
qed

lemma cf_frame [simp]:
  "wnode (cf_lock e w) = wnode w" "wnode (cf_unlock e w) = wnode w"
  "winfo (cf_lock e w) = winfo w" "winfo (cf_unlock e w) = winfo w"
  "wbackup (cf_lock e w) = wbackup w" "wbackup (cf_unlock e w) = wbackup w"
  "wbackupName (cf_lock e w) = wbackupName w" "wbackupName (cf_unlock e w) = wbackupName w"
  by (simp_all add: cf_lock_def cf_unlock_def)

section \<open>Mode, times and lock at the common exit\<close>

text \<open>The known mode is the mode of the file; or it is the original one.\<close>

definition mode_synced :: "world \<Rightarrow> bool" where
  "mode_synced w \<longleftrightarrow> st_mode (winfo w) = f_mode (wnode w)"

abbreviation keeps_mode :: "step_result \<Rightarrow> bool" where
  "keeps_mode \<equiv> result_all (\<lambda>_. mode_synced) mode_synced"

lemma mode_frame [simp]:
  "mode_synced (sys_lstat e w)" "mode_synced (sys_chflags fl w) = mode_synced w"
  "mode_synced (sys_utimes t w) = mode_synced w" "mode_synced (sys_truncate e w) = mode_synced w"
  "mode_synced (sys_removexattr e s n w) = mode_synced w" "mode_synced (cf_lock e w) = mode_synced w"
  "mode_synced (cf_unlock e w) = mode_synced w" "mode_synced (restoreFile e mm d w) = mode_synced w"
  by (auto simp: sys_defs mode_synced_def restoreFile_def split: option.splits)

lemma mode_updates [simp]:
  "mode_synced (w\<lparr>wbackupName := nm\<rparr>) = mode_synced w"
  "mode_synced (w\<lparr>wbackupName := nm, wbackup := bk\<rparr>) = mode_synced w"
  "mode_synced (w\<lparr>wnode := (wnode w)\<lparr>f_data := d\<rparr>\<rparr>) = mode_synced w"
  "mode_synced (w\<lparr>wAPFS := a\<rparr>) = mode_synced w" "mode_synced (w\<lparr>wlocked := l\<rparr>) = mode_synced w"
  "mode_synced (w\<lparr>wskipped := k\<rparr>) = mode_synced w"
  "mode_synced (w\<lparr>wdata_compressed_size := z\<rparr>) = mode_synced w"
  "mode_synced (w\<lparr>wdata_compressed_size := z, wmaxOutBufSize := mx\<rparr>) = mode_synced w"
  by (simp_all add: mode_synced_def)

lemma setxattr_mode: "sys_setxattr e s n v w = Some w' \<Longrightarrow> mode_synced w' = mode_synced w"
  by (auto simp: sys_setxattr_def mode_synced_def split: if_splits)

lemma cf_chmod_mode: "mode_synced w \<Longrightarrow> mode_synced (cf_chmod e m w)"
  by (simp add: cf_chmod_def Let_def)

lemma cf_revert_mode: "mode_synced w \<Longrightarrow> keeps_mode (cf_revert e fork inBuf mm w)"
  by (auto simp: cf_revert_def Let_def split: option.splits)

lemma cf_check_mode: "mode_synced w \<Longrightarrow> keeps_mode (cf_check e fi fork inBuf mm w)"
  by (auto simp: cf_check_def cf_revert_mode split: option.splits)

lemma cf_flag_mode: "mode_synced w \<Longrightarrow> keeps_mode (cf_flag e fork inBuf mm t w)"
  by (auto simp: cf_flag_def Let_def)

lemma cf_decmpfs_mode: "mode_synced w \<Longrightarrow> keeps_mode (cf_decmpfs e a tr w)"
  by (auto simp: cf_decmpfs_def setxattr_mode split: option.splits)

lemma cf_fork_mode:
  assumes "mode_synced w"
  shows "cf_fork e hp fi d mm t res w = Inl (x, w') \<Longrightarrow> mode_synced w'"
    and "cf_fork e hp fi d mm t res w = Inr (w', tr) \<Longrightarrow> mode_synced w'"
  using assms
  by (auto simp: cf_fork_def Let_def setxattr_mode
      split: chunk_result.splits if_splits sum.splits option.splits)

lemma cf_rewrite_mode:
  assumes "mode_synced w"
  shows "keeps_mode (cf_rewrite e hp fi codes d mm t res w)"
proof (cases "cf_fork e hp fi d mm t res w")
  case (Inl r)
  then show ?thesis using cf_fork_mode(1) [OF assms] by (cases r) (auto simp: cf_rewrite_def)
next
  case (Inr r)
  then obtain w1 tr where r: "cf_fork e hp fi d mm t res w = Inr (w1, tr)" by (cases r) auto
  then have "mode_synced w1" by (rule cf_fork_mode(2) [OF assms])
  then show ?thesis
    unfolding cf_rewrite_def r bindE.simps prod.case
    by (intro result_all_bindE [OF cf_decmpfs_mode] result_all_bindE [OF cf_flag_mode] cf_check_mode)
qed

lemma cf_tail_mode:
  assumes "mode_synced w"
  shows "keeps_mode (bindE (cf_alloc e c t w) (\<lambda>codes. bindE (cf_chunks cdc hp fi d t w)
     (\<lambda>res. cf_rewrite e hp fi codes d mm t res (cf_lock e w))))"
proof -
  have "keeps_mode (bindE (cf_chunks cdc hp fi d t w)
     (\<lambda>res. cf_rewrite e hp fi codes d mm t res (cf_lock e w)))" for codes
    using assms
    by (cases "compress_data cdc hp fi d") (auto simp: cf_chunks_def cf_rewrite_mode)
  then show ?thesis
    using assms by (auto simp: cf_alloc_def split: option.splits)
qed

lemma cf_body_mode:
  assumes "mode_synced w"
  shows "keeps_mode (cf_body e cdc hp fi w)"
proof -
  have entry: "keeps_mode (cf_entry e fi w)"
    using assms by (simp add: cf_entry_def Let_def)
  have chflags: "mode_synced w \<Longrightarrow> keeps_mode (cf_chflags e w)" for w
    by (simp add: cf_chflags_def Let_def)
  have xattrs: "mode_synced w \<Longrightarrow> keeps_mode (cf_xattrs e w)" for w
    by (simp add: cf_xattrs_def Let_def)
  have opn: "mode_synced w \<Longrightarrow> keeps_mode (cf_open e w)" for w
    by (simp add: cf_open_def Let_def)
  have rest: "keeps_mode (bindE (cf_read e n t w) (\<lambda>(inBuf, useMmap).
     bindE (cf_backup e fi inBuf w) (\<lambda>w0.
     let w = cf_unlock e w0 in
     bindE (cf_alloc e (compressiontype fi) t w) (\<lambda>codes.
     bindE (cf_chunks cdc hp fi inBuf t w) (\<lambda>res.
     cf_rewrite e hp fi codes inBuf useMmap t res (cf_lock e w))))))"
    if "mode_synced w" for n t w
    using that cf_tail_mode by (auto simp: cf_read_def cf_backup_def Let_def)
  show ?thesis
    unfolding cf_body_def Let_def [of "st_mode (winfo w)"] Let_def [of "usec_times (winfo w)"]
      Let_def [of "nat (st_size (winfo w))"]
    by (intro result_all_bindE [OF entry] result_all_bindE [OF chflags] result_all_bindE [OF xattrs]
        result_all_bindE [OF cf_size_frame] result_all_bindE [OF opn] rest cf_chmod_mode)
qed

section \<open>A successful run\<close>

definition accepted :: "heap \<Rightarrow> folder_info \<Rightarrow> byte list \<Rightarrow> chunk_result \<Rightarrow> bool" where
  "accepted hp fi d res =
     (case res of StoreInXattr blk \<Rightarrow> True
      | NextChunk st \<Rightarrow>
          \<not> savings_rejected fi (currBlock st + sizeof_disk_header + 50) (length d)
          \<and> (case finish_fork hp (compressiontype fi) st of Inl _ \<Rightarrow> False | Inr _ \<Rightarrow> True))"

definition stored_xattrs ::
    "heap \<Rightarrow> folder_info \<Rightarrow> byte list \<Rightarrow> chunk_result \<Rightarrow> (string \<times> byte list) list
     \<Rightarrow> (string \<times> byte list) list" where
  "stored_xattrs hp fi d res xs =
     (case compression_codes (compressiontype fi) of
        None \<Rightarrow> xs
      | Some codes \<Rightarrow>
          xs @ (case res of StoreInXattr blk \<Rightarrow> []
                | NextChunk st \<Rightarrow>
                    (case finish_fork hp (compressiontype fi) st of Inl _ \<Rightarrow> []
                     | Inr st' \<Rightarrow> [(XATTR_RESOURCEFORK_NAME, fork_bytes (compressiontype fi) st')]))
             @ [(DECMPFS_XATTR_NAME, outdecmpfs codes (length d) res)])"

text \<open>The steps of the rewrite, from a state \<open>v\<close> whose file is that of \<open>w\<close>.\<close>

lemma cf_fork_accepted:
  assumes "\<And>s. \<not> fails e s" and "no_cmp_xattrs v" and "accepted hp fi d res"
    and "compression_codes (compressiontype fi) = Some codes"
  obtains v' tr where "cf_fork e hp fi d mm t res v = Inr (v', tr)" and "winfo v' = winfo v"
    and "cf_decmpfs e (outdecmpfs codes (length d) res) tr v' = Inr (v'\<lparr>wnode := (wnode v)\<lparr>f_data := [],
           f_xattrs := stored_xattrs hp fi d res (f_xattrs (wnode v))\<rparr>\<rparr>)"
proof (cases res)
  case (StoreInXattr blk)
  then show thesis
    using assms by (intro that [of "v\<lparr>wdata_compressed_size := int (sizeof_disk_header + length blk)\<rparr>" False])
      (simp_all add: cf_fork_def cf_decmpfs_def sys_setxattr_def sys_truncate_def stored_xattrs_def
        no_cmp_xattrs_def)
next
  case (NextChunk st)
  with assms(3) obtain st' where st': "finish_fork hp (compressiontype fi) st = Inr st'"
    and sv: "\<not> savings_rejected fi (currBlock st + sizeof_disk_header + 50) (length d)"
    by (auto simp: accepted_def split: sum.splits)
  let ?F = "fork_bytes (compressiontype fi) st'"
  let ?v = "v\<lparr>wnode := (wnode v)\<lparr>f_data := [], f_xattrs := f_xattrs (wnode v) @ [(XATTR_RESOURCEFORK_NAME, ?F)]\<rparr>,
      wdata_compressed_size := int (length ?F), wmaxOutBufSize := max (wmaxOutBufSize v) (outBufSize st')\<rparr>"
  show thesis
    using assms NextChunk st' sv
    by (intro that [of ?v True])
      (simp_all add: cf_fork_def cf_decmpfs_def sys_setxattr_def sys_truncate_def stored_xattrs_def
        no_cmp_xattrs_def Let_def)
qed

lemma compress_run:
  assumes "ready e fi d w" and "\<And>s. \<not> fails e s"
    and "compress_data cdc hp fi d = Inr res" and "accepted hp fi d res"
    and "kread e [] (stored_xattrs hp fi d res (f_xattrs (wnode w))) = d"
    and "uses_mmap (length d) \<Longrightarrow> (\<And>nd. mapped e d nd = Some d)"
  shows "fst (compressFile e cdc hp fi w) = Returned
    \<and> wnode (snd (compressFile e cdc hp fi w)) = \<lparr>f_data = [],
        f_xattrs = stored_xattrs hp fi d res (f_xattrs (wnode w)),
        f_flags = UF_COMPRESSED OR f_flags (wnode w), f_mode = f_mode (wnode w),
        f_times = usec_times (winfo w)\<rparr>"
proof -
  obtain w2 codes where body: "cf_body e cdc hp fi w =
       bindE (cf_chunks cdc hp fi d (usec_times (winfo w)) (cf_unlock e w2))
         (\<lambda>res. cf_rewrite e hp fi codes d (uses_mmap (length d)) (usec_times (winfo w)) res
                  (cf_lock e (cf_unlock e w2)))"
    and w2: "wnode w2 = wnode w" "winfo w2 = winfo w"
    and codes: "compression_codes (compressiontype fi) = Some codes"
    using cf_body_no_faults [OF assms(1)] assms(2) by metis
  define v where "v = cf_lock e (cf_unlock e w2)"
  have v: "wnode v = wnode w" "winfo v = winfo w" by (simp_all add: v_def w2)
  have nc: "no_cmp_xattrs v" and info: "st_flags (winfo w) = f_flags (wnode w)"
      "st_mode (winfo w) = f_mode (wnode w)"
    using assms(1) by (simp_all add: v ready_def no_cmp_xattrs_def fresh_file_def)
  obtain v' tr where f: "cf_fork e hp fi d (uses_mmap (length d)) (usec_times (winfo w)) res v = Inr (v', tr)"
    and v': "winfo v' = winfo v"
    and g: "cf_decmpfs e (outdecmpfs codes (length d) res) tr v' = Inr (v'\<lparr>wnode := (wnode v)\<lparr>f_data := [],
           f_xattrs := stored_xattrs hp fi d res (f_xattrs (wnode v))\<rparr>\<rparr>)"
    using assms(2) nc assms(4) codes by (rule cf_fork_accepted)
  define w4 where "w4 = v'\<lparr>wnode := (wnode v)\<lparr>f_data := [],
           f_xattrs := stored_xattrs hp fi d res (f_xattrs (wnode v))\<rparr>\<rparr>"
  define w5 where "w5 = sys_lstat e (sys_chflags (UF_COMPRESSED OR f_flags (wnode w)) w4)"
  have h: "cf_flag e b d mm t w4 = Inr w5" for b mm t
    using assms(2) info by (simp add: cf_flag_def w5_def w4_def v v')
  have nd: "wnode w5 = \<lparr>f_data = [], f_xattrs = stored_xattrs hp fi d res (f_xattrs (wnode w)),
        f_flags = UF_COMPRESSED OR f_flags (wnode w), f_mode = f_mode (wnode w), f_times = f_times (wnode w)\<rparr>"
    by (simp add: w5_def w4_def sys_lstat_def sys_chflags_def v)
  have read: "vfs_read e (wnode w5) = d"
    using assms(5) flagged_set by (simp add: nd vfs_read_def)
  have size: "st_size (winfo w5) = int (length d)" and mode: "st_mode (winfo w5) = f_mode (wnode w)"
    using read nd by (simp_all add: w5_def sys_lstat_def vfs_size_def)
  have view: "in_view e (uses_mmap (length d)) d u = Some d" for u
    using assms(6) by (simp add: in_view_def)
  have "cf_check e fi b d (uses_mmap (length d)) w5 = Inr w5" for b
    using assms(2) read size view by (simp add: cf_check_def)
  then have "cf_body e cdc hp fi w = Inr w5"
    using assms(3) f g h by (simp add: body cf_chunks_def cf_rewrite_def v_def [symmetric] w4_def [symmetric])
  moreover have "wnode (cf_bail e (st_mode (winfo w)) t w5) = (wnode w5)\<lparr>f_times := t\<rparr>" for t
    using info mode by (simp add: cf_bail_def Let_def sys_defs)
  ultimately show ?thesis
    by (simp add: compressFile_def nd)
qed

section \<open>Properties of the function\<close>

lemma sample_no_faults: "\<not> fails sample_env s"
  by (simp add: sample_env_def)

lemma sample_ready: "ready (sample_env\<lparr>fails := f\<rparr>) sample_info sample_data sample_world"
  using sample_fresh sample_supported sample_compressable [of f]
  by (simp add: ready_def sample_info_def sample_world_def sample_stat_def stat_bits no_cmp_xattrs_def
      sample_node_def DECMPFS_XATTR_NAME_def XATTR_RESOURCEFORK_NAME_def sample_env_def sample_data_def)

lemma sample_ready': "ready sample_env sample_info sample_data sample_world"
proof -
  have "sample_env\<lparr>fails := \<lambda>_. False\<rparr> = sample_env" by (simp add: sample_env_def)
  with sample_ready [of "\<lambda>_. False"] show ?thesis by simp
qed

definition no_faults :: "env \<Rightarrow> site list \<Rightarrow> bool" where
  "no_faults e ss \<longleftrightarrow> list_all (\<lambda>s. \<not> fails e s) ss"

text \<open>C7: \<open>compressFile\<close> with the file check on never changes what a reader of the file sees,
  whatever the compressor produced and whatever the kernel makes of it: a result that does not
  read back as the original is reverted. The hypotheses name the calls that must work for that
  (the attribute write after truncation, the restoring writes and the reverting calls); every
  other call may fail. For a mapped input the mapping must still show the original.\<close>

theorem compress_preserves_content:
  assumes "fresh_file d w" and "check_files fi"
    and "no_faults e [Chflags_clear, Listxattr_size, Setxattr_decmpfs, Restore_write, Mmap_check,
           Chflags_revert, Fopen_revert, Fwrite_revert]"
    and "uses_mmap (length d) \<Longrightarrow> (\<And>nd. mapped e d nd = Some d)"
  shows "vfs_read e (wnode (snd (compressFile e cdc hp fi w))) = d"
proof -
  have "\<forall>mm. (mm \<longrightarrow> uses_mmap (length d)) \<longrightarrow> faults_ok False e mm d"
    using assms(3,4) by (auto simp: faults_ok_def no_faults_def in_view_def)
  then have "vfs_read e (wnode w') = d" if "compressFile e cdc hp fi w = (x, w')" for x w'
    using compressFile_result [OF assms(1) _ _ _ assms(2) _ _ that, of False] assms(3)
    by (auto simp: no_faults_def)
  then show ?thesis by (cases "compressFile e cdc hp fi w") simp
qed

theorem compress_preserves_content_witness:
  "vfs_read (sample_env\<lparr>fails := (\<lambda>s. s = Fchflags)\<rparr>) (wnode (snd (compressFile
     (sample_env\<lparr>fails := (\<lambda>s. s = Fchflags)\<rparr>) halving_codecs sample_heap sample_info sample_world)))
   = sample_data"
  by (rule compress_preserves_content [OF sample_fresh])
    (simp_all add: sample_info_def no_faults_def sample_env_def)



text \<open>C9: the exception is real. When the data goes to the resource fork, the file is truncated
  before the decmpfs attribute is written; if that write fails the function leaves without
  restoring the data and removes the backup, and the file stays empty.\<close>

theorem setxattr_failure_loses_data:
  assumes "ready e fi d w"
    and "\<And>s. fails e s \<longleftrightarrow> s = Setxattr_decmpfs"
    and "compress_data cdc hp fi d = Inr (NextChunk st)"
    and "\<not> savings_rejected fi (currBlock st + sizeof_disk_header + 50) (length d)"
    and "finish_fork hp (compressiontype fi) st = Inr st'"
  shows "fst (compressFile e cdc hp fi w) = Returned
    \<and> vfs_read e (wnode (snd (compressFile e cdc hp fi w))) = []
    \<and> (backup_file fi \<longrightarrow> wbackup (snd (compressFile e cdc hp fi w)) = None)"
proof -
  obtain w2 codes where body: "cf_body e cdc hp fi w =
       bindE (cf_chunks cdc hp fi d (usec_times (winfo w)) (cf_unlock e w2))
         (\<lambda>res. cf_rewrite e hp fi codes d (uses_mmap (length d)) (usec_times (winfo w)) res
                  (cf_lock e (cf_unlock e w2)))"
    and w2: "wnode w2 = wnode w" "winfo w2 = winfo w" "wbackupName w2 \<longleftrightarrow> backup_file fi \<or> wbackupName w"
    using cf_body_no_faults [OF assms(1)] assms(2) by metis
  let ?w = "cf_lock e (cf_unlock e w2)"
  have no: "map_of (f_xattrs (wnode ?w)) XATTR_RESOURCEFORK_NAME = None" and fl: "\<not> is_flagged (f_flags (wnode w))"
    using assms(1) by (simp_all add: w2 ready_def no_cmp_xattrs_def fresh_file_def)
  define w3 where "w3 = ?w\<lparr>wnode := (wnode ?w)\<lparr>f_data := [],
      f_xattrs := f_xattrs (wnode ?w) @ [(XATTR_RESOURCEFORK_NAME, fork_bytes (compressiontype fi) st')]\<rparr>,
      wdata_compressed_size := int (length (fork_bytes (compressiontype fi) st')),
      wmaxOutBufSize := max (wmaxOutBufSize ?w) (outBufSize st')\<rparr>"
  have "cf_fork e hp fi d mm t (NextChunk st) ?w = Inr (w3, True)" for mm t
    using assms(2,4,5) no by (simp add: cf_fork_def Let_def sys_truncate_def sys_setxattr_def w3_def)
  then have "cf_body e cdc hp fi w = Inl (Bailed, w3)"
    using assms(2,3) by (simp add: body cf_chunks_def cf_rewrite_def cf_decmpfs_def sys_setxattr_def)
  moreover have "vfs_read e (wnode w3) = []" "backup_file fi \<longrightarrow> wbackupName w3"
    using fl by (simp_all add: w3_def vfs_read_def w2)
  moreover have "wbackup (cf_bail e m t w3) = None" if "wbackupName w3" for m t
    using that by (simp add: cf_bail_def Let_def sys_defs)
  ultimately show ?thesis
    by (auto simp: compressFile_def bail_content)
qed

theorem setxattr_failure_loses_data_witness:
  "vfs_read (sample_env\<lparr>fails := (\<lambda>s. s = Setxattr_decmpfs)\<rparr>)
     (wnode (snd (compressFile (sample_env\<lparr>fails := (\<lambda>s. s = Setxattr_decmpfs)\<rparr>) halving_codecs sample_heap sample_info sample_world))) = []"
proof -
  let ?e = "sample_env\<lparr>fails := (\<lambda>s. s = Setxattr_decmpfs)\<rparr>"
  obtain st st' where "compress_data halving_codecs sample_heap sample_info sample_data = Inr (NextChunk st)"
    "\<not> savings_rejected sample_info (currBlock st + sizeof_disk_header + 50) (length sample_data)"
    "finish_fork sample_heap (compressiontype sample_info) st = Inr st'"
    by (rule sample_packs)
  from setxattr_failure_loses_data [OF sample_ready [of "\<lambda>s. s = Setxattr_decmpfs"] _ this]
  show ?thesis by simp
qed

text \<open>C10: a file that is compressed successfully (every call works, the result is accepted and the
  kernel reads it back) ends with an empty data fork, the compression attributes as its only new
  ones, the compression flag, its mode and its times; a resource fork is smaller than the file.\<close>

theorem compress_result:
  assumes "ready e fi d w" and "\<And>s. \<not> fails e s"
    and "compress_data cdc hp fi d = Inr res" and "accepted hp fi d res"
    and "kread e [] (stored_xattrs hp fi d res (f_xattrs (wnode w))) = d"
    and "uses_mmap (length d) \<Longrightarrow> (\<And>nd. mapped e d nd = Some d)"
  shows "fst (compressFile e cdc hp fi w) = Returned
    \<and> wnode (snd (compressFile e cdc hp fi w)) = \<lparr>f_data = [],
        f_xattrs = stored_xattrs hp fi d res (f_xattrs (wnode w)),
        f_flags = UF_COMPRESSED OR f_flags (wnode w), f_mode = f_mode (wnode w),
        f_times = usec_times (winfo w)\<rparr>
    \<and> (case res of StoreInXattr blk \<Rightarrow> True | NextChunk st \<Rightarrow> currBlock st + 66 < length d)"
  using compress_run [OF assms] assms(4)
  by (auto simp: accepted_def savings_rejected_def sizeof_disk_header_def split: chunk_result.splits)

theorem compress_result_witness:
  "\<exists>fork. wnode (snd (compressFile sample_env halving_codecs sample_heap sample_info sample_world)) =
     \<lparr>f_data = [], f_xattrs = [(''user.note'', [1]), (XATTR_RESOURCEFORK_NAME, fork),
        (DECMPFS_XATTR_NAME, disk_header_bytes \<lparr>compression_magic = DECMPFS_MAGIC,
           compression_type = CMP_ZLIB_RESOURCE_FORK, header_uncompressed_size = 8000\<rparr>)],
      f_flags = UF_COMPRESSED, f_mode = 0x81A4, f_times = ((5, 6), (7, 8))\<rparr>"
proof -
  obtain st st' where st: "compress_data halving_codecs sample_heap sample_info sample_data = Inr (NextChunk st)"
    "\<not> savings_rejected sample_info (currBlock st + sizeof_disk_header + 50) (length sample_data)"
    "finish_fork sample_heap (compressiontype sample_info) st = Inr st'"
    by (rule sample_packs)
  then have acc: "accepted sample_heap sample_info sample_data (NextChunk st)"
    by (simp add: accepted_def)
  have zlib: "compressiontype sample_info = ZLIB" by (simp add: sample_info_def)
  note r = compress_result [OF sample_ready' sample_no_faults st(1) acc]
  have "wnode (snd (compressFile sample_env halving_codecs sample_heap sample_info sample_world)) =
      \<lparr>f_data = [], f_xattrs = stored_xattrs sample_heap sample_info sample_data (NextChunk st)
         (f_xattrs (wnode sample_world)),
       f_flags = UF_COMPRESSED OR f_flags (wnode sample_world), f_mode = f_mode (wnode sample_world),
       f_times = usec_times (winfo sample_world)\<rparr>"
    using r by (simp add: sample_env_def)
  then show ?thesis
    using st(3)
    by (simp add: sample_world_def sample_node_def sample_stat_def usec_times_def stored_xattrs_def
        zlib outdecmpfs_def)
qed

text \<open>C11: from every exit behind the opening of the file the function restores the mode the file
  came with, even when it had added permissions, and its times, and releases the I/O lock,
  whichever calls failed (the restoring \<open>chmod\<close> apart).\<close>

theorem compress_restores_attributes:
  assumes "fresh_file d w" and "\<not> fails e Chmod_restore"
    and "cf_body e cdc hp fi w = Inl (Bailed, w1) \<or> cf_body e cdc hp fi w = Inr w1"
  shows "fst (compressFile e cdc hp fi w) = Returned
    \<and> f_mode (wnode (snd (compressFile e cdc hp fi w))) = f_mode (wnode w)
    \<and> f_times (wnode (snd (compressFile e cdc hp fi w))) = usec_times (winfo w)
    \<and> (has_worker e \<longrightarrow> \<not> wlocked (snd (compressFile e cdc hp fi w)))"
proof -
  have "mode_synced w" using assms(1) by (simp add: fresh_file_def mode_synced_def)
  then have "keeps_mode (cf_body e cdc hp fi w)" by (rule cf_body_mode)
  with assms(3) have "mode_synced w1" by auto
  moreover have "compressFile e cdc hp fi w =
      (Returned, cf_bail e (st_mode (winfo w)) (usec_times (winfo w)) w1)"
    using assms(3) by (auto simp: compressFile_def)
  ultimately show ?thesis
    using assms(1,2)
    by (simp add: cf_bail_def Let_def sys_defs mode_synced_def fresh_file_def)
qed

theorem compress_restores_attributes_witness:
  "f_mode (wnode (snd (compressFile (sample_env\<lparr>fails := (\<lambda>s. s = Open_in)\<rparr>)
     halving_codecs sample_heap sample_info (sample_world\<lparr>wnode := sample_node\<lparr>f_mode := 0x8024\<rparr>,
        winfo := sample_stat\<lparr>st_mode := 0x8024\<rparr>\<rparr>)))) = 0x8024"
proof -
  let ?e = "sample_env\<lparr>fails := (\<lambda>s. s = Open_in)\<rparr>"
  let ?w = "sample_world\<lparr>wnode := sample_node\<lparr>f_mode := 0x8024\<rparr>, winfo := sample_stat\<lparr>st_mode := 0x8024\<rparr>\<rparr>"
  have fresh: "fresh_file sample_data ?w"
    using sample_fresh by (simp add: fresh_file_def sample_world_def)
  have "\<exists>w1. cf_body ?e halving_codecs sample_heap sample_info ?w = Inl (Bailed, w1)"
    using sample_supported
    by (simp add: cf_body_def Let_def cf_entry_def fileIsCompressable_def sample_env_def sample_volume_def
        sample_world_def sample_stat_def sample_node_def sample_info_def MNTTYPE_ZFS_SUBTYPE_def stat_bits
        is_flagged_def cf_chmod_def sys_chmod_def sys_lstat_def cf_chflags_def sys_chflags_def cf_xattrs_def
        XATTR_RESOURCEFORK_NAME_def DECMPFS_XATTR_NAME_def cf_size_def cf_open_def)
  then obtain w1 where "cf_body ?e halving_codecs sample_heap sample_info ?w = Inl (Bailed, w1)" by blast
  with compress_restores_attributes [OF fresh, of ?e halving_codecs sample_heap sample_info w1]
  show ?thesis by simp
qed

text \<open>The early returns do not restore the mode. A file without owner write permission that
  already has a resource fork is refused, and stays writable afterwards.\<close>

theorem early_return_leaves_mode:
  assumes "fresh_file d w" and "\<And>s. \<not> fails e s" and "\<not> quitRequested e"
    and "fst (fileIsCompressable e (winfo w) (compressiontype fi))"
    and "maxSize fi = 0" and "d \<noteq> []"
    and "st_mode (winfo w) AND S_IWUSR = 0" and "st_mode (winfo w) AND S_IRUSR \<noteq> 0"
    and "map_of (f_xattrs (wnode w)) XATTR_RESOURCEFORK_NAME \<noteq> None"
  shows "fst (compressFile e cdc hp fi w) = Returned
    \<and> f_mode (wnode (snd (compressFile e cdc hp fi w))) = f_mode (wnode w) OR S_IWUSR"
proof -
  define w1 where "w1 = w\<lparr>wAPFS := snd (fileIsCompressable e (winfo w) (compressiontype fi))\<rparr>"
  define w2 where "w2 = sys_lstat e (sys_chmod e Chmod_w (st_mode (winfo w) OR S_IWUSR) w1)"
  have entry: "cf_entry e fi w = Inr w1"
    using assms(1,3-6) by (auto simp: cf_entry_def Let_def w1_def fresh_file_def)
  have chmod: "cf_chmod e (st_mode (winfo w)) w1 = w2"
    using assms(7,8) by (simp add: cf_chmod_def w2_def)
  have "st_flags (winfo w2) = f_flags (wnode w2)"
    by (simp add: w2_def sys_lstat_def)
  then have chflags: "cf_chflags e w2 = Inr w2"
    using assms(2) by (intro cf_chflags_pass) simp_all
  have nd: "wnode w2 = (wnode w)\<lparr>f_mode := st_mode (winfo w) OR S_IWUSR\<rparr>"
    using assms(2) by (simp add: w2_def sys_lstat_def sys_chmod_def w1_def)
  have mem: "XATTR_RESOURCEFORK_NAME \<in> set (map fst (f_xattrs (wnode w2)))"
    using assms(9) by (simp add: nd map_of_eq_None_iff)
  then have "list_ex (\<lambda>n. n = XATTR_RESOURCEFORK_NAME \<and> length n = 22
      \<or> n = DECMPFS_XATTR_NAME \<and> length n = 17) (map fst (f_xattrs (wnode w2)))"
    unfolding list_ex_iff
    by (intro bexI [of _ XATTR_RESOURCEFORK_NAME]) (simp add: XATTR_RESOURCEFORK_NAME_def)
  moreover have "map fst (f_xattrs (wnode w2)) \<noteq> []"
    using mem by (metis empty_iff list.set(1))
  ultimately have xattrs: "cf_xattrs e w2 = Inl (Returned, w2)"
    using assms(2) unfolding cf_xattrs_def Let_def by simp
  have "cf_body e cdc hp fi w = Inl (Returned, w2)"
    by (simp add: cf_body_def Let_def entry chmod chflags xattrs)
  then show ?thesis
    using assms(1) by (simp add: compressFile_def nd fresh_file_def)
qed

theorem early_return_leaves_mode_witness:
  "f_mode (wnode (snd (compressFile sample_env halving_codecs sample_heap sample_info
     (sample_world\<lparr>wnode := sample_node\<lparr>f_mode := 0x8124, f_xattrs := [(XATTR_RESOURCEFORK_NAME, [0])]\<rparr>,
        winfo := sample_stat\<lparr>st_mode := 0x8124\<rparr>\<rparr>)))) = 0x81A4"
proof -
  let ?w = "sample_world\<lparr>wnode := sample_node\<lparr>f_mode := 0x8124, f_xattrs := [(XATTR_RESOURCEFORK_NAME, [0])]\<rparr>,
        winfo := sample_stat\<lparr>st_mode := 0x8124\<rparr>\<rparr>"
  have fresh: "fresh_file sample_data ?w"
    using sample_fresh by (simp add: fresh_file_def sample_world_def)
  have "fst (fileIsCompressable sample_env (winfo ?w) (compressiontype sample_info))"
    by (simp add: fileIsCompressable_def sample_env_def sample_volume_def sample_stat_def sample_info_def
        Let_def MNTTYPE_ZFS_SUBTYPE_def stat_bits is_flagged_def)
  from early_return_leaves_mode [OF fresh _ _ this] show ?thesis
    by (simp add: sample_env_def sample_info_def sample_data_def stat_bits)
qed

text \<open>a file with neither owner permission loses the write permission that was just added: the
  second \<open>chmod\<close> starts from the original mode again.\<close>

theorem chmod_drops_write:
  assumes "orig_mode AND S_IWUSR = 0" and "orig_mode AND S_IRUSR = 0" and "\<And>s. \<not> fails e s"
  shows "f_mode (wnode (cf_chmod e orig_mode w)) = orig_mode OR S_IRUSR
    \<and> f_mode (wnode (cf_chmod e orig_mode w)) AND S_IWUSR = 0"
proof -
  have "(orig_mode OR S_IRUSR) AND S_IWUSR = (orig_mode AND S_IWUSR) OR (S_IRUSR AND S_IWUSR)"
    by (rule bit.conj_disj_distrib2)
  moreover have "S_IRUSR AND S_IWUSR = 0" by (simp add: S_IRUSR_def S_IWUSR_def)
  ultimately show ?thesis
    using assms by (simp add: cf_chmod_def Let_def sys_lstat_def sys_chmod_def)
qed

theorem chmod_drops_write_witness:
  "f_mode (wnode (cf_chmod sample_env 0x8024 sample_world)) = 0x8124"
  using chmod_drops_write [of "0x8024" sample_env sample_world]
  by (simp add: stat_bits sample_env_def)

end
