(* ===== verification/OsVersion.thy ===== *)
theory OsVersion
  imports Main "HOL-Library.Product_Lexorder"
begin

text \<open>
  The OS version check (src/os_version_check.c): the version is read once, from the system
  property list (\<open>plist\<close>, \<open>None\<close> where it cannot be read), and compared field by field.
\<close>

record os_version =
  GlobalMajor :: int
  GlobalMinor :: int
  GlobalSubminor :: int

definition no_version :: os_version where
  "no_version = \<lparr>GlobalMajor = 0, GlobalMinor = 0, GlobalSubminor = 0\<rparr>"

definition parseSystemVersionPList :: "os_version option \<Rightarrow> os_version \<Rightarrow> os_version" where
  "parseSystemVersionPList plist v = (case plist of None \<Rightarrow> v | Some v' \<Rightarrow> v')"

text \<open>The result and the version globals afterwards.\<close>

definition isMacOSVersionAtLeast ::
    "os_version option \<Rightarrow> os_version \<Rightarrow> int \<Rightarrow> int \<Rightarrow> int \<Rightarrow> bool \<times> os_version" where
  "isMacOSVersionAtLeast plist v Major Minor Subminor =
     (let v' = (if GlobalMajor v < 10 then parseSystemVersionPList plist v else v)
      in (if Major < GlobalMajor v' then True
          else if Major > GlobalMajor v' then False
          else if Minor < GlobalMinor v' then True
          else if Minor > GlobalMinor v' then False
          else Subminor \<le> GlobalSubminor v', v'))"

text \<open>The check is the lexicographic order on versions; once the version has been read (major
  10 or later) it is not read again.\<close>

theorem os_version_check_lexicographic:
  "fst (isMacOSVersionAtLeast plist v Major Minor Subminor) \<longleftrightarrow>
     (Major, Minor, Subminor) \<le>
       (let v' = snd (isMacOSVersionAtLeast plist v Major Minor Subminor)
        in (GlobalMajor v', GlobalMinor v', GlobalSubminor v'))"
  by (auto simp: isMacOSVersionAtLeast_def Let_def less_eq_prod_def)

end
