(* ===== verification/DecompressFile.thy ===== *)
theory DecompressFile
  imports CompressFile Decompress OsVersion
begin

text \<open>
  \<open>decompressFile\<close> (src/afsctool.c) as a whole: reading the two compression attributes, the
  dispatch on the compression type (ZLIB in userland, LZVN and LZFSE through the kernel),
  clearing the flag, rewriting the data fork and removing the attributes. The state and the
  system calls are those of \<open>CompressFile\<close>; a use of memory that C leaves undefined (a double
  free, an access outside a buffer, \<open>fclose (NULL)\<close>) is the exit \<open>Crashed\<close>.
\<close>

record dfenv = env +
  uncompress :: uncompressor
  plist :: "os_version option"
  os_globals :: os_version
  out_junk :: "nat \<Rightarrow> byte"

abbreviation bail_out :: "world \<Rightarrow> (exit \<times> world) + 'a" where
  "bail_out w \<equiv> Inl (Bailed, w)"

section \<open>Reading the attributes\<close>

text \<open>The resource fork (\<open>None\<close> is \<open>inBuf == NULL\<close>) and the decmpfs attribute.\<close>

definition df_xattrs ::
    "dfenv \<Rightarrow> world \<Rightarrow> (exit \<times> world) + (byte list option \<times> byte list option)" where
  "df_xattrs e w =
     (let xs = f_xattrs (wnode w);
          fork = map_of xs XATTR_RESOURCEFORK_NAME;
          attr = map_of xs DECMPFS_XATTR_NAME
      in
      if fails e Listxattr_size \<or> xs = [] then Inr (None, None)
      else if fails e Malloc_xattrnames \<or> fails e Listxattr then bail_out w
      else if fork \<noteq> None \<and> (fails e Getxattr_fork
                \<or> fork \<noteq> Some [] \<and> (fails e Malloc_fork \<or> fails e Read_fork)) then bail_out w
      else if attr \<noteq> None \<and> (fails e Getxattr_decmpfs
                \<or> attr \<noteq> Some [] \<and> (fails e Malloc_attr \<or> fails e Read_attr)) then bail_out w
      else Inr (if fork = Some [] then None else fork, if attr = Some [] then None else attr))"

text \<open>The size is a 64-bit field; no allocation of 2^63 bytes or more succeeds.\<close>

definition df_header ::
    "dfenv \<Rightarrow> byte list option \<Rightarrow> world \<Rightarrow> (exit \<times> world) + (byte list \<times> nat \<times> nat)" where
  "df_header e attr w =
     (case attr of
        None \<Rightarrow> bail_out w
      | Some indecmpfsBuf \<Rightarrow>
          if length indecmpfsBuf < sizeof_disk_header then bail_out w
          else
            let h = read_disk_header indecmpfsBuf; filesize = header_uncompressed_size h in
            if filesize = 0 then bail_out w
            else if fails e Malloc_out \<or> 2 ^ 63 \<le> filesize then bail_out w
            else Inr (indecmpfsBuf, compression_type h, filesize))"

section \<open>Decompressing\<close>

definition os_at_least :: "dfenv \<Rightarrow> int \<Rightarrow> int \<Rightarrow> int \<Rightarrow> bool" where
  "os_at_least e a b c = fst (isMacOSVersionAtLeast (plist e) (os_globals e) a b c)"

datatype method_choice = Userland "derror + byte list" | Simple | Refuse

text \<open>The switch: the method, and \<open>removeResourceFork\<close>.\<close>

definition df_method ::
    "dfenv \<Rightarrow> nat \<Rightarrow> nat \<Rightarrow> byte list option \<Rightarrow> byte list \<Rightarrow> method_choice \<times> bool" where
  "df_method e ctype filesize fork indecmpfsBuf =
     (let obuf = malloc_bytes (out_junk e) filesize in
      if ctype = CMP_ZLIB_RESOURCE_FORK then
        (case fork of None \<Rightarrow> (Userland (Inl RFMissing), False)
         | Some inBuf \<Rightarrow> (Userland (decode_resource_fork (uncompress e) inBuf filesize obuf), True))
      else if ctype = CMP_ZLIB_XATTR then
        (Userland (decode_xattr (uncompress e) indecmpfsBuf filesize obuf), False)
      else if ctype = CMP_LZVN_RESOURCE_FORK \<or> ctype = CMP_LZVN_XATTR then
        (if os_at_least e 10 9 0 then Simple else Refuse, ctype = CMP_LZVN_RESOURCE_FORK)
      else if ctype = CMP_LZFSE_RESOURCE_FORK \<or> ctype = CMP_LZFSE_XATTR then
        (if os_at_least e 10 11 0 then Simple else Refuse, ctype = CMP_LZFSE_RESOURCE_FORK)
      else (Refuse, False))"

fun derror_exit :: "derror \<Rightarrow> exit" where
  "derror_exit IncompleteFreed = Crashed"
| "derror_exit OutOfBounds = Crashed"
| "derror_exit _ = Bailed"

text \<open>
  The simple method reads the file through the kernel; a failed \<open>fopen\<close> is followed by
  \<open>fclose (NULL)\<close>.
\<close>

fun df_decode ::
    "dfenv \<Rightarrow> method_choice \<Rightarrow> nat \<Rightarrow> world \<Rightarrow> (exit \<times> world) + byte list" where
  "df_decode e (Userland (Inl err)) filesize w = Inl (derror_exit err, w)"
| "df_decode e (Userland (Inr buf)) filesize w = Inr buf"
| "df_decode e Refuse filesize w = bail_out w"
| "df_decode e Simple filesize w =
     (if fails e Fopen_read then Inl (Crashed, w)
      else if fails e Fread_data \<or> length (vfs_read (env.truncate e) (wnode w)) < filesize then bail_out w
      else Inr (take filesize (vfs_read (env.truncate e) (wnode w))))"

section \<open>Rewriting the file\<close>

text \<open>\<open>fopen "r+"\<close> does not truncate: the data is written over the data fork.\<close>

definition df_rewrite :: "dfenv \<Rightarrow> byte list \<Rightarrow> bool \<Rightarrow> world \<Rightarrow> step_result" where
  "df_rewrite e buf removeResourceFork w =
     (if fails e Chflags_off then bail_out w
      else
        let w1 = sys_chflags (NOT UF_COMPRESSED AND st_flags (winfo w)) w in
        if fails e Fopen_write then
          bail_out (if fails e Chflags_back then w1
                    else sys_chflags (UF_COMPRESSED AND st_flags (winfo w)) w1)
        else if fails e Fwrite_data then
          bail_out (if fails e Chflags_back then w1
                    else sys_chflags (UF_COMPRESSED OR st_flags (winfo w)) w1)
        else
          let w2 = w1\<lparr>wnode := (wnode w1)\<lparr>f_data := buf @ drop (length buf) (f_data (wnode w1))\<rparr>\<rparr>;
              w3 = sys_removexattr (env.truncate e) Remove_decmpfs DECMPFS_XATTR_NAME w2
          in Inr (if removeResourceFork
                  then sys_removexattr (env.truncate e) Remove_fork XATTR_RESOURCEFORK_NAME w3 else w3))"

definition df_bail :: "dfenv \<Rightarrow> uint16 \<Rightarrow> (int \<times> int) \<times> (int \<times> int) \<Rightarrow> world \<Rightarrow> world" where
  "df_bail e orig_mode tms w =
     (let w1 = sys_utimes tms w
      in if st_mode (winfo w1) \<noteq> orig_mode
         then sys_chmod (env.truncate e) Chmod_restore orig_mode w1 else w1)"

definition df_body :: "dfenv \<Rightarrow> world \<Rightarrow> step_result" where
  "df_body e w =
     (let orig_mode = st_mode (winfo w) in
      if quitRequested e \<or> \<not> S_ISREG orig_mode \<or> \<not> is_flagged (st_flags (winfo w))
      then Inl (Returned, w)
      else
        let w1 = cf_chmod (env.truncate e) orig_mode w in
        bindE (df_xattrs e w1) (\<lambda>(fork, attr).
        bindE (df_header e attr w1) (\<lambda>(indecmpfsBuf, ctype, filesize).
        case df_method e ctype filesize fork indecmpfsBuf of (meth, removeResourceFork) \<Rightarrow>
          bindE (df_decode e meth filesize w1) (\<lambda>buf.
          df_rewrite e buf removeResourceFork w1))))"

definition decompressFile :: "dfenv \<Rightarrow> world \<Rightarrow> exit \<times> world" where
  "decompressFile e w =
     (case df_body e w of
        Inl (Bailed, w') \<Rightarrow> (Returned, df_bail e (st_mode (winfo w)) (usec_times (winfo w)) w')
      | Inl r \<Rightarrow> r
      | Inr w' \<Rightarrow> (Returned, df_bail e (st_mode (winfo w)) (usec_times (winfo w)) w'))"

end
