(* ===== verification/FileRoundtrip.thy ===== *)
theory FileRoundtrip
  imports CompressEffects DecompressFile
begin

text \<open>
  \<open>compressFile\<close> followed by \<open>decompressFile\<close>: the stored attributes as the decompressor finds
  them, the run of the decompressor on them, and the round trip of a whole file.
\<close>

section \<open>The stored attributes\<close>

lemma clear_after_set:
  assumes "\<not> is_flagged fl"
  shows "NOT UF_COMPRESSED AND (UF_COMPRESSED OR fl) = fl"
proof (rule bit_word_eqI)
  fix n assume "n < LENGTH(32)"
  have "bit (fl AND UF_COMPRESSED) n = bit 0 n" using assms by (simp add: is_flagged_def)
  then have "\<not> (bit fl n \<and> bit UF_COMPRESSED n)" by (simp add: bit_and_iff)
  then show "bit (NOT UF_COMPRESSED AND (UF_COMPRESSED OR fl)) n = bit fl n"
    using \<open>n < LENGTH(32)\<close> by (auto simp: bit_simps)
qed

text \<open>A stored result: the codes, the header it carries and what the decompressor needs of it.\<close>

definition decodes_to :: "dfenv \<Rightarrow> (string \<times> byte list) list \<Rightarrow> byte list \<Rightarrow> bool" where
  "decodes_to e xs d \<longleftrightarrow>
     (\<exists>attr rm. map_of xs DECMPFS_XATTR_NAME = Some attr \<and> sizeof_disk_header \<le> length attr \<and> length d < 2 ^ 63
        \<and> header_uncompressed_size (read_disk_header attr) = length d
        \<and> df_method e (compression_type (read_disk_header attr)) (length d)
             (let f = map_of xs XATTR_RESOURCEFORK_NAME in if f = Some [] then None else f) attr
           = (Userland (Inr d), rm)
        \<and> (rm \<longleftrightarrow> map_of xs XATTR_RESOURCEFORK_NAME \<noteq> None))"

lemma size_supported_small: "size_supported n \<Longrightarrow> n < 2 ^ 31"
  by (simp add: size_supported_def CMP_MAX_SUPPORTED_SIZE_def)

lemma zlib_stored_decodes:
  assumes "zlib_contract cdc (uncompress e)" and "size_supported (length d)" and "d \<noteq> []"
    and "compressiontype fi = ZLIB" and "compress_data cdc hp fi d = Inr res"
    and "accepted hp fi d res"
    and "map_of xs DECMPFS_XATTR_NAME = None" and "map_of xs XATTR_RESOURCEFORK_NAME = None"
  shows "decodes_to e (stored_xattrs hp fi d res xs) d"
proof -
  have small: "length d < 2 ^ 64" and small63: "length d < 2 ^ 63"
    using size_supported_small [OF assms(2)] by simp_all
  have n: "numBlocks_of (length d) = chunk_count (length d)"
    using assms(2) by (rule size_supported_exact(1))
  have loop: "chunk_loop cdc hp fi ZLIB d (chunk_count (length d)) 0 0
      (chunk_init hp ZLIB (chunk_count (length d))) = Inr res"
    using assms(4,5) by (simp add: compress_data_def n Let_def del: chunk_init.simps)
  have obuf: "length (malloc_bytes (out_junk e) (length d)) = length d" by simp
  have rd: "read_disk_header (disk_header_bytes \<lparr>compression_magic = DECMPFS_MAGIC,
      compression_type = c, header_uncompressed_size = length d\<rparr> @ rest) =
      \<lparr>compression_magic = DECMPFS_MAGIC, compression_type = c, header_uncompressed_size = length d\<rparr>"
    if "c < 2 ^ 32" for c rest
    using small that by (intro read_disk_header_bytes) (simp_all add: DECMPFS_MAGIC_def)
  show ?thesis
  proof (cases res)
    case (StoreInXattr blk)
    have "block_of_chunk (uncompress e) d blk"
      using assms(1) chunk_loop_xattr(3) [OF loop [unfolded StoreInXattr]] by (rule chunk_block_decodes)
    then have "decode_xattr (uncompress e) (disk_header_bytes \<lparr>compression_magic = DECMPFS_MAGIC,
      compression_type = CMP_ZLIB_XATTR, header_uncompressed_size = length d\<rparr> @ blk) (length d)
      (malloc_bytes (out_junk e) (length d)) = Inr d"
      using obuf by (intro decode_zlib_xattr) simp_all
    then show ?thesis
      using assms(4,7,8) StoreInXattr small63
      by (auto simp: decodes_to_def stored_xattrs_def outdecmpfs_def rd df_method_def cmp_codes map_add_def)
  next
    case (NextChunk st)
    with assms(4,6) obtain st' where st': "zlib_finish hp st = Inr st'"
      by (auto simp: accepted_def finish_fork_def split: sum.splits)
    obtain blks where F: "fork_bytes ZLIB st' = zlib_fork (chunk_count (length d)) blks"
      and b: "map (chunk_block cdc hp fi ZLIB) (file_chunks d) = map Inr blks"
      using loop [unfolded NextChunk] st' by (rule zlib_loop_blocks)
    have "good_blocks (uncompress e) d blks" using assms(1) b by (rule zlib_blocks_good)
    then have dec: "decode_resource_fork (uncompress e) (fork_bytes ZLIB st') (length d)
        (malloc_bytes (out_junk e) (length d)) = Inr d"
      unfolding F using assms(2,3) obuf by (rule decode_zlib_fork)
    have "fork_bytes ZLIB st' \<noteq> []"
      unfolding F using length_zlib_fork [of "chunk_count (length d)" blks] by (auto simp: zlib_base_def)
    then show ?thesis
      using assms(4,7,8) NextChunk st' dec small63 rd [of CMP_ZLIB_RESOURCE_FORK "[]"]
      by (auto simp: decodes_to_def stored_xattrs_def outdecmpfs_def df_method_def cmp_codes finish_fork_def
          map_add_def simp del: fork_bytes.simps)
  qed
qed

section \<open>The run of the decompressor\<close>

lemma df_rewrite_no_faults:
  assumes "\<And>s. \<not> fails e s"
  shows "df_rewrite e buf rm w = Inr (w\<lparr>wnode := (wnode w)\<lparr>
      f_data := buf @ drop (length buf) (f_data (wnode w)),
      f_xattrs := filter (\<lambda>x. fst x \<noteq> DECMPFS_XATTR_NAME \<and> (rm \<longrightarrow> fst x \<noteq> XATTR_RESOURCEFORK_NAME))
                    (f_xattrs (wnode w)),
      f_flags := NOT UF_COMPRESSED AND st_flags (winfo w)\<rparr>\<rparr>)"
proof -
  have "\<not> fails (env.truncate e) s" for s using assms by (simp add: env.truncate_def)
  then show ?thesis
    using assms by (simp add: df_rewrite_def Let_def sys_defs filter_filter conj_commute)
qed

lemma decompress_run:
  assumes "\<And>s. \<not> fails e s" and "\<not> quitRequested e" and "decodes_to e (f_xattrs (wnode w)) d"
    and "f_data (wnode w) = []" and "d \<noteq> []" and "is_flagged (f_flags (wnode w))"
    and "st_mode (winfo w) = f_mode (wnode w)" and "st_flags (winfo w) = f_flags (wnode w)"
    and "S_ISREG (f_mode (wnode w))"
    and "f_mode (wnode w) AND S_IWUSR \<noteq> 0" and "f_mode (wnode w) AND S_IRUSR \<noteq> 0"
  shows "fst (decompressFile e w) = Returned
    \<and> wnode (snd (decompressFile e w)) = \<lparr>f_data = d,
        f_xattrs = filter (\<lambda>x. fst x \<noteq> DECMPFS_XATTR_NAME \<and> fst x \<noteq> XATTR_RESOURCEFORK_NAME)
                     (f_xattrs (wnode w)),
        f_flags = NOT UF_COMPRESSED AND f_flags (wnode w), f_mode = f_mode (wnode w),
        f_times = usec_times (winfo w)\<rparr>"
proof -
  let ?xs = "f_xattrs (wnode w)" and ?fork = "map_of (f_xattrs (wnode w)) XATTR_RESOURCEFORK_NAME"
  obtain attr rm where attr: "map_of ?xs DECMPFS_XATTR_NAME = Some attr" "sizeof_disk_header \<le> length attr"
    and len: "header_uncompressed_size (read_disk_header attr) = length d" "length d < 2 ^ 63"
    and meth: "df_method e (compression_type (read_disk_header attr)) (length d)
             (if ?fork = Some [] then None else ?fork) attr = (Userland (Inr d), rm)"
    and rm: "rm \<longleftrightarrow> ?fork \<noteq> None"
    using assms(3) by (auto simp: decodes_to_def Let_def)
  have "attr \<noteq> []" using attr(2) by (auto simp: sizeof_disk_header_def)
  then have xattrs: "df_xattrs e w = Inr (if ?fork = Some [] then None else ?fork, Some attr)"
    using assms(1) attr(1) by (auto simp: df_xattrs_def Let_def)
  have hdr: "df_header e (Some attr) w = Inr (attr, compression_type (read_disk_header attr), length d)"
    using assms(1,5) attr(2) len by (simp add: df_header_def Let_def)
  have "cf_chmod (env.truncate e) (st_mode (winfo w)) w = w"
    using assms(7,10,11) by (simp add: cf_chmod_def)
  then have body: "df_body e w = df_rewrite e d rm w"
    using assms(2,6-9) by (simp add: df_body_def Let_def xattrs hdr meth)
  have "filter (\<lambda>x. fst x \<noteq> DECMPFS_XATTR_NAME \<and> (rm \<longrightarrow> fst x \<noteq> XATTR_RESOURCEFORK_NAME)) ?xs
      = filter (\<lambda>x. fst x \<noteq> DECMPFS_XATTR_NAME \<and> fst x \<noteq> XATTR_RESOURCEFORK_NAME) ?xs"
    using rm by (cases rm) (force simp: map_of_eq_None_iff intro!: filter_cong)+
  then show ?thesis
    using assms(4,7,8)
    by (simp add: decompressFile_def body df_rewrite_no_faults [OF assms(1)] df_bail_def Let_def sys_defs)
qed

section \<open>The round trip of a file\<close>

text \<open>C15: a file compressed with ZLIB (in the resource fork or in the attribute) and later
  decompressed is the file it was: the data, every other extended attribute, the flags and the
  mode are restored, and the compression attributes are gone.\<close>

theorem file_roundtrip:
  assumes "ready e fi d w" and "\<And>s. \<not> fails e s"
    and "compressiontype fi = ZLIB" and "compress_data cdc hp fi d = Inr res" and "accepted hp fi d res"
    and "kread e [] (stored_xattrs hp fi d res (f_xattrs (wnode w))) = d"
    and "uses_mmap (length d) \<Longrightarrow> (\<And>nd. mapped e d nd = Some d)"
    and "w1 = snd (compressFile e cdc hp fi w)"
    and "\<And>s. \<not> fails e' s" and "\<not> quitRequested e'" and "zlib_contract cdc (uncompress e')"
    and "wnode w2 = wnode w1" and "st_mode (winfo w2) = f_mode (wnode w1)"
    and "st_flags (winfo w2) = f_flags (wnode w1)" and "S_ISREG (f_mode (wnode w))"
  shows "fst (decompressFile e' w2) = Returned
    \<and> wnode (snd (decompressFile e' w2)) = (wnode w)\<lparr>f_times := usec_times (winfo w2)\<rparr>"
proof -
  let ?xs = "stored_xattrs hp fi d res (f_xattrs (wnode w))"
  have rdy: "d \<noteq> []" "size_supported (length d)" "f_data (wnode w) = d" "\<not> is_flagged (f_flags (wnode w))"
      "f_mode (wnode w) AND S_IWUSR \<noteq> 0" "f_mode (wnode w) AND S_IRUSR \<noteq> 0"
    and xs: "map_of (f_xattrs (wnode w)) DECMPFS_XATTR_NAME = None"
      "map_of (f_xattrs (wnode w)) XATTR_RESOURCEFORK_NAME = None"
    using assms(1) by (auto simp: ready_def fresh_file_def no_cmp_xattrs_def)
  have nd: "wnode w2 = \<lparr>f_data = [], f_xattrs = ?xs, f_flags = UF_COMPRESSED OR f_flags (wnode w),
      f_mode = f_mode (wnode w), f_times = usec_times (winfo w)\<rparr>"
    using compress_run [OF assms(1,2,4-7)] by (simp add: assms(8,12))
  have dec: "decodes_to e' (f_xattrs (wnode w2)) d"
    using zlib_stored_decodes [OF assms(11) rdy(2,1) assms(3-5) xs] by (simp add: nd)
  have "filter (\<lambda>x. fst x \<noteq> DECMPFS_XATTR_NAME \<and> fst x \<noteq> XATTR_RESOURCEFORK_NAME) (f_xattrs (wnode w))
      = f_xattrs (wnode w)"
    using xs by (force simp: filter_id_conv map_of_eq_None_iff)
  then have "filter (\<lambda>x. fst x \<noteq> DECMPFS_XATTR_NAME \<and> fst x \<noteq> XATTR_RESOURCEFORK_NAME) ?xs
      = f_xattrs (wnode w)"
    by (auto simp: stored_xattrs_def assms(3) split: chunk_result.splits sum.splits)
  moreover have "\<lparr>f_data = d, f_xattrs = f_xattrs (wnode w), f_flags = f_flags (wnode w),
      f_mode = f_mode (wnode w), f_times = t\<rparr> = (wnode w)\<lparr>f_times := t\<rparr>" for t
    using rdy(3) by simp
  ultimately show ?thesis
    using decompress_run [OF assms(9,10) dec] rdy assms(13-15) flagged_set
    by (simp add: nd assms(12) [symmetric] clear_after_set)
qed

definition sample_dfenv :: dfenv where
  "sample_dfenv = env.extend sample_env
     \<lparr>uncompress = halving_uncompress, plist = None, os_globals = no_version, out_junk = (\<lambda>_. 0)\<rparr>"

theorem file_roundtrip_witness:
  "let w1 = snd (compressFile sample_env halving_codecs sample_heap sample_info sample_world);
       info = sample_stat\<lparr>st_mode := f_mode (wnode w1), st_flags := f_flags (wnode w1)\<rparr>
   in wnode (snd (decompressFile sample_dfenv (w1\<lparr>winfo := info\<rparr>))) = sample_node"
proof -
  obtain st st' where st: "compress_data halving_codecs sample_heap sample_info sample_data = Inr (NextChunk st)"
    "\<not> savings_rejected sample_info (currBlock st + sizeof_disk_header + 50) (length sample_data)"
    "finish_fork sample_heap (compressiontype sample_info) st = Inr st'"
    by (rule sample_packs)
  then have acc: "accepted sample_heap sample_info sample_data (NextChunk st)"
    by (simp add: accepted_def)
  have zlib: "compressiontype sample_info = ZLIB" by (simp add: sample_info_def)
  have kr: "kread sample_env [] xs = sample_data" for xs by (simp add: sample_env_def)
  have mp: "mapped sample_env sample_data nd = Some sample_data" for nd by (simp add: sample_env_def)
  have e': "\<not> fails sample_dfenv s" "\<not> quitRequested sample_dfenv"
    "zlib_contract halving_codecs (uncompress sample_dfenv)" for s
    by (simp_all add: sample_dfenv_def env.extend_def sample_env_def halving_contract)
  have reg: "S_ISREG (f_mode (wnode sample_world))"
    by (simp add: sample_world_def sample_node_def stat_bits)
  show ?thesis
    using file_roundtrip [OF sample_ready' sample_no_faults zlib st(1) acc kr mp refl e' _ _ _ reg]
    by (simp add: Let_def usec_times_def sample_stat_def sample_world_def sample_node_def)
qed

end
