(* ===== verification/FileTypes.thy ===== *)
theory FileTypes
  imports FsTypes CStrings
begin

text \<open>
  The table of file types of a folder and, per type, the table of extensions (src/afsctool.c:
  \<open>getFileTypeInfo\<close>, \<open>add_extension_to_filetypeinfo\<close>). Both are arrays kept sorted by the same
  binary search and insertion, one by \<open>strcmp\<close>, one by \<open>strcasecmp\<close>; the interface \<open>sorted_table\<close>
  states what the search needs of the comparison, and is interpreted for both. A table that
  was never allocated (a NULL pointer in C) has capacity 0.
\<close>

section \<open>The search and the insertion\<close>

text \<open>
  \<open>c x\<close> is the comparison of the entry \<open>x\<close> with the key. One round of the \<open>while\<close> loop: the
  positions are 1-based, \<open>curr_pos = 0\<close> means that the interval is empty.
\<close>

lemma half_interval: "0 < (r - l) div 2 \<Longrightarrow> r - ((r - l) div 2 + l) < r - (l :: nat)"
  by linarith

function search_loop ::
    "('a \<Rightarrow> int) \<Rightarrow> 'a list \<Rightarrow> nat \<Rightarrow> nat \<Rightarrow> nat \<Rightarrow> nat \<times> nat" where
  "search_loop c xs curr_pos left_pos right_pos =
     (if c (xs ! (curr_pos - 1)) = 0 then (curr_pos, left_pos)
      else
        let h = (right_pos - left_pos) div 2 in
        if h = 0 then (0, left_pos)
        else
          let curr' = h + left_pos in
          if c (xs ! (curr' - 1)) > 0 then search_loop c xs curr' left_pos curr'
          else if c (xs ! (curr' - 1)) < 0 then search_loop c xs curr' curr' right_pos
          else (curr', left_pos))"
  by pat_completeness auto
termination
  by (relation "measure (\<lambda>(c, xs, curr_pos, left_pos, right_pos). right_pos - left_pos)")
    (auto intro: half_interval)

declare search_loop.simps [simp del]

text \<open>\<open>Inl i\<close>: the entry at index \<open>i\<close> matches; \<open>Inr i\<close>: no entry does and \<open>i\<close> is where it belongs.\<close>

definition table_search :: "('a \<Rightarrow> int) \<Rightarrow> 'a list \<Rightarrow> nat + nat" where
  "table_search c xs =
     (if xs = [] then Inr 0
      else
        let (curr_pos, left_pos) = search_loop c xs 1 0 (length xs + 1) in
        if curr_pos \<noteq> 0 \<and> c (xs ! (curr_pos - 1)) = 0 then Inl (curr_pos - 1) else Inr left_pos)"

text \<open>\<open>memmove\<close> of the tail by one place, and the store.\<close>

definition table_insert :: "nat \<Rightarrow> 'a \<Rightarrow> 'a list \<Rightarrow> 'a list" where
  "table_insert i x xs = take i xs @ x # drop i xs"

text \<open>The capacity: one slot for a fresh table, doubled when it is full.\<close>

definition grow_capacity :: "nat \<Rightarrow> nat \<Rightarrow> nat" where
  "grow_capacity cap n =
     (let s = (if cap = 0 then 1 else cap) in if s < n + 1 then s * 2 else s)"

lemma length_table_insert [simp]: "i \<le> length xs \<Longrightarrow> length (table_insert i x xs) = length xs + 1"
  by (simp add: table_insert_def)

lemma set_table_insert [simp]: "set (table_insert i x xs) = insert x (set xs)"
  using append_take_drop_id [of i xs] by (metis Un_insert_right list.simps(15) set_append table_insert_def)

lemma grow_capacity_fits:
  "n \<le> cap \<Longrightarrow> n + 1 \<le> grow_capacity cap n"
  by (auto simp: grow_capacity_def Let_def)

section \<open>The interface of a sorted table\<close>

locale sorted_table =
  fixes cmp :: "'k \<Rightarrow> 'k \<Rightarrow> int"
    and key :: "'a \<Rightarrow> 'k"
  assumes cmp_refl: "cmp k k = 0"
    and cmp_flip: "cmp a b \<le> 0 \<longleftrightarrow> 0 \<le> cmp b a"
    and cmp_trans: "cmp a b \<le> 0 \<Longrightarrow> cmp b d \<le> 0 \<Longrightarrow> cmp a d \<le> 0"
begin

definition ordered :: "'a list \<Rightarrow> bool" where
  "ordered xs \<longleftrightarrow> sorted_wrt (\<lambda>x y. cmp (key x) (key y) < 0) xs"

lemma cmp_flip_less: "cmp a b < 0 \<longleftrightarrow> 0 < cmp b a"
  using cmp_flip [of b a] by (auto simp: not_le [symmetric])

lemma cmp_less_le: "cmp a b < 0 \<Longrightarrow> cmp b d \<le> 0 \<Longrightarrow> cmp a d < 0"
  using cmp_trans [of b d a] cmp_flip [of d a] cmp_flip [of b a] by force

lemma cmp_le_less: "cmp a b \<le> 0 \<Longrightarrow> cmp b d < 0 \<Longrightarrow> cmp a d < 0"
  using cmp_trans [of d a b] cmp_flip [of d a] cmp_flip [of d b] by force

lemma ordered_nth:
  "ordered xs \<Longrightarrow> i < j \<Longrightarrow> j < length xs \<Longrightarrow> cmp (key (xs ! i)) (key (xs ! j)) < 0"
  unfolding ordered_def by (rule sorted_wrt_nth_less)

text \<open>The loop keeps: smaller entries before \<open>left_pos\<close>, larger ones from \<open>right_pos - 1\<close> on.\<close>

lemma search_loop_result:
  assumes "ordered xs" and "left_pos < right_pos" and "right_pos \<le> length xs + 1"
    and "1 \<le> curr_pos" and "curr_pos \<le> length xs"
    and "\<forall>i < left_pos. cmp (key (xs ! i)) k < 0"
    and "\<forall>i. right_pos \<le> i + 1 \<and> i < length xs \<longrightarrow> 0 < cmp (key (xs ! i)) k"
    and "search_loop (\<lambda>x. cmp (key x) k) xs curr_pos left_pos right_pos = (p, l)"
  shows "(1 \<le> p \<and> p \<le> length xs \<and> cmp (key (xs ! (p - 1))) k = 0)
    \<or> (p = 0 \<and> l \<le> length xs \<and> (\<forall>i < l. cmp (key (xs ! i)) k < 0)
        \<and> (\<forall>i. l \<le> i \<and> i < length xs \<longrightarrow> 0 < cmp (key (xs ! i)) k))"
  using assms
proof (induction "right_pos - left_pos" arbitrary: curr_pos left_pos right_pos rule: less_induct)
  case less
  let ?c = "\<lambda>x. cmp (key x) k" and ?h = "(right_pos - left_pos) div 2"
  let ?m = "?h + left_pos"
  show ?case
  proof (cases "?c (xs ! (curr_pos - 1)) = 0")
    case True
    then have "(p, l) = (curr_pos, left_pos)"
      using less.prems(8) by (subst (asm) search_loop.simps) simp
    then show ?thesis using less.prems(4,5) True by simp
  next
    case ne: False
    show ?thesis
    proof (cases "?h = 0")
      case True
      with less.prems(2) have "right_pos = left_pos + 1" by simp
      moreover have "(p, l) = (0, left_pos)"
        using less.prems(8) ne True by (subst (asm) search_loop.simps) (simp add: Let_def)
      ultimately show ?thesis
        using less.prems(3,6,7) by simp
    next
      case False
      then have m: "1 \<le> ?m" "?m < right_pos" "left_pos < ?m" "?m \<le> length xs"
        using less.prems(2,3) by (auto simp: div_greater_zero_iff)
      have before: "cmp (key (xs ! i)) k < 0" if c: "?c (xs ! (?m - 1)) < 0" and i: "i < ?m" for i
      proof (cases "i = ?m - 1")
        case True
        with c show ?thesis by simp
      next
        case False
        with i m have "cmp (key (xs ! i)) (key (xs ! (?m - 1))) < 0"
          by (intro ordered_nth less.prems(1)) linarith+
        then show ?thesis using c by (rule cmp_less_le [OF _ less_imp_le])
      qed
      have after: "0 < cmp (key (xs ! i)) k"
        if c: "0 < ?c (xs ! (?m - 1))" and i: "?m \<le> i + 1" "i < length xs" for i
      proof (cases "i = ?m - 1")
        case True
        with c show ?thesis by simp
      next
        case False
        with i m have "cmp (key (xs ! (?m - 1))) (key (xs ! i)) < 0"
          by (intro ordered_nth less.prems(1)) linarith+
        moreover have "cmp k (key (xs ! (?m - 1))) < 0" using c by (simp only: cmp_flip_less)
        ultimately have "cmp k (key (xs ! i)) < 0"
          by (rule cmp_le_less [OF less_imp_le, rotated])
        then show ?thesis using cmp_flip_less by blast
      qed
      consider (gt) "0 < ?c (xs ! (?m - 1))" | (lt) "?c (xs ! (?m - 1)) < 0" | (eq) "?c (xs ! (?m - 1)) = 0"
        by linarith
      then show ?thesis
      proof cases
        case gt
        have "search_loop ?c xs ?m left_pos ?m = (p, l)"
          using less.prems(8) ne False gt by (subst (asm) search_loop.simps) (simp add: Let_def)
        then show ?thesis
          using less.hyps [of ?m left_pos ?m] less.prems m after [OF gt] by simp
      next
        case lt
        have "search_loop ?c xs ?m ?m right_pos = (p, l)"
          using less.prems(8) ne False lt by (subst (asm) search_loop.simps) (simp add: Let_def)
        then show ?thesis
          using less.hyps [of right_pos ?m ?m] less.prems m before [OF lt] by simp
      next
        case eq
        have "(p, l) = (?m, left_pos)"
          using less.prems(8) ne False eq by (subst (asm) search_loop.simps) (auto simp: Let_def)
        then show ?thesis using m eq by simp
      qed
    qed
  qed
qed

lemma table_search_found:
  assumes "ordered xs" and "table_search (\<lambda>x. cmp (key x) k) xs = Inl i"
  shows "i < length xs" and "cmp (key (xs ! i)) k = 0"
proof -
  obtain p l where r: "search_loop (\<lambda>x. cmp (key x) k) xs 1 0 (length xs + 1) = (p, l)"
    by (cases "search_loop (\<lambda>x. cmp (key x) k) xs 1 0 (length xs + 1)")
  have ne: "xs \<noteq> []" using assms(2) by (auto simp: table_search_def)
  with search_loop_result [OF assms(1) _ _ _ _ _ _ r] assms(2) r
  show "i < length xs" "cmp (key (xs ! i)) k = 0"
    by (auto simp: table_search_def Suc_le_eq split: if_splits)
qed

lemma table_search_missing:
  assumes "ordered xs" and "table_search (\<lambda>x. cmp (key x) k) xs = Inr i"
  shows "i \<le> length xs" and "j < i \<Longrightarrow> cmp (key (xs ! j)) k < 0"
    and "i \<le> j \<Longrightarrow> j < length xs \<Longrightarrow> 0 < cmp (key (xs ! j)) k"
proof -
  obtain p l where r: "search_loop (\<lambda>x. cmp (key x) k) xs 1 0 (length xs + 1) = (p, l)"
    by (cases "search_loop (\<lambda>x. cmp (key x) k) xs 1 0 (length xs + 1)")
  have "i \<le> length xs \<and> (\<forall>j < i. cmp (key (xs ! j)) k < 0)
      \<and> (\<forall>j. i \<le> j \<and> j < length xs \<longrightarrow> 0 < cmp (key (xs ! j)) k)"
  proof (cases "xs = []")
    case True
    with assms(2) show ?thesis by (simp add: table_search_def)
  next
    case False
    with search_loop_result [OF assms(1) _ _ _ _ _ _ r] assms(2) r show ?thesis
      by (auto simp: table_search_def Suc_le_eq split: if_splits)
  qed
  then show "i \<le> length xs" "j < i \<Longrightarrow> cmp (key (xs ! j)) k < 0"
    "i \<le> j \<Longrightarrow> j < length xs \<Longrightarrow> 0 < cmp (key (xs ! j)) k"
    by auto
qed

text \<open>The search finds a matching entry exactly when there is one.\<close>

lemma table_search_complete:
  assumes "ordered xs"
  shows "(\<exists>i. table_search (\<lambda>x. cmp (key x) k) xs = Inl i) \<longleftrightarrow> (\<exists>x \<in> set xs. cmp (key x) k = 0)"
proof (cases "table_search (\<lambda>x. cmp (key x) k) xs")
  case (Inl i)
  then show ?thesis using table_search_found [OF assms Inl] nth_mem by blast
next
  case (Inr i)
  have "cmp (key x) k \<noteq> 0" if "x \<in> set xs" for x
  proof -
    from that obtain j where j: "j < length xs" "x = xs ! j" by (auto simp: in_set_conv_nth)
    with table_search_missing(2,3) [OF assms Inr, of j] show ?thesis by (cases "j < i") auto
  qed
  with Inr show ?thesis by auto
qed

text \<open>Inserting at the reported place keeps the order.\<close>

lemma ordered_insert:
  assumes "ordered xs" and "table_search (\<lambda>x. cmp (key x) k) xs = Inr i" and "cmp (key y) k = 0"
  shows "ordered (table_insert i y xs)"
proof -
  note miss = table_search_missing [OF assms(1,2)]
  have yk: "cmp (key y) k \<le> 0" "cmp k (key y) \<le> 0"
    using assms(3) cmp_flip [of k "key y"] by simp_all
  have lo: "cmp (key x) (key y) < 0" if "x \<in> set (take i xs)" for x
  proof -
    from that obtain j where "j < i" "x = xs ! j" using miss(1) by (auto simp: in_set_conv_nth)
    then show ?thesis using miss(2) yk(2) cmp_less_le by blast
  qed
  have hi: "cmp (key y) (key x) < 0" if "x \<in> set (drop i xs)" for x
  proof -
    from that obtain j where "j < length xs - i" "x = xs ! (i + j)" by (auto simp: in_set_conv_nth)
    then have "0 < cmp (key x) k" using miss(3) [of "i + j"] by simp
    then show ?thesis using yk(1) cmp_flip_less cmp_le_less by blast
  qed
  have mid: "cmp (key x) (key z) < 0" if "x \<in> set (take i xs)" "z \<in> set (drop i xs)" for x z
    using lo [OF that(1)] hi [OF that(2)] cmp_less_le by (blast intro: less_imp_le)
  have "sorted_wrt (\<lambda>x y. cmp (key x) (key y) < 0) (take i xs @ drop i xs)"
    using assms(1) by (simp add: ordered_def)
  then have "sorted_wrt (\<lambda>x y. cmp (key x) (key y) < 0) (take i xs)"
    "sorted_wrt (\<lambda>x y. cmp (key x) (key y) < 0) (drop i xs)"
    by (simp_all only: sorted_wrt_append)
  then show ?thesis
    using lo hi mid by (auto simp: ordered_def table_insert_def sorted_wrt_append)
qed

lemma ordered_Nil: "ordered []"
  by (simp add: ordered_def)

lemma ordered_update:
  assumes "ordered xs" and "i < length xs" and "cmp (key y) (key (xs ! i)) = 0"
  shows "ordered (xs[i := y])"
proof -
  have y: "cmp (key y) (key (xs ! i)) \<le> 0" "cmp (key (xs ! i)) (key y) \<le> 0"
    using assms(3) cmp_flip [of "key (xs ! i)" "key y"] by simp_all
  have "cmp (key (xs[i := y] ! a)) (key (xs[i := y] ! b)) < 0" if "a < b" "b < length xs" for a b
  proof -
    have lt: "cmp (key (xs ! a)) (key (xs ! b)) < 0" using assms(1) that by (rule ordered_nth)
    have "a \<noteq> b" using that(1) by simp
    then consider "a = i" "b \<noteq> i" | "a \<noteq> i" "b = i" | "a \<noteq> i" "b \<noteq> i" by blast
    then show ?thesis
    proof cases
      case 1
      then show ?thesis using cmp_le_less [OF y(1)] lt assms(2) by simp
    next
      case 2
      then show ?thesis using cmp_less_le [OF _ y(2)] lt assms(2) by simp
    next
      case 3
      then show ?thesis using lt by simp
    qed
  qed
  then show ?thesis by (simp add: ordered_def sorted_wrt_iff_nth_less)
qed

end

text \<open>The two tables.\<close>

lemma strcasecmp_laws:
  "strcasecmp s s = 0" "strcasecmp s t \<le> 0 \<longleftrightarrow> 0 \<le> strcasecmp t s"
  "strcasecmp s t \<le> 0 \<Longrightarrow> strcasecmp t u \<le> 0 \<Longrightarrow> strcasecmp s u \<le> 0"
proof -
  show "strcasecmp s t \<le> 0 \<longleftrightarrow> 0 \<le> strcasecmp t s"
    using strcmp_flip [of "map to_lower s" "map to_lower t"] by (simp add: strcasecmp_def)
qed (simp_all add: strcasecmp_def strcmp_trans)

interpretation ext: sorted_table strcasecmp "\<lambda>s. s"
  by unfold_locales (rule strcasecmp_laws, rule strcasecmp_laws, erule (1) strcasecmp_laws)

interpretation ftab: sorted_table strcmp filetype
proof unfold_locales
  fix a b d
  show "strcmp a b \<le> 0 \<longleftrightarrow> 0 \<le> strcmp b a" using strcmp_flip [of a b] by simp
  show "strcmp a b \<le> 0 \<Longrightarrow> strcmp b d \<le> 0 \<Longrightarrow> strcmp a d \<le> 0" by (rule strcmp_trans)
qed simp

section \<open>The extension of a path\<close>

text \<open>The scan from the last character down to index 1 for a stop character.\<close>

fun scan_back :: "(char \<Rightarrow> bool) \<Rightarrow> string \<Rightarrow> nat \<Rightarrow> nat" where
  "scan_back stop path 0 = 0"
| "scan_back stop path (Suc i) = (if stop (path ! Suc i) then Suc i else scan_back stop path i)"

definition extension_with :: "(char \<Rightarrow> bool) \<Rightarrow> string \<Rightarrow> string option" where
  "extension_with stop path =
     (if path = [] then None
      else
        let i = scan_back stop path (length path - 1) in
        if i \<noteq> 0 \<and> i \<noteq> length path - 1 \<and> path ! i \<noteq> CHR ''/'' \<and> path ! (i - 1) \<noteq> CHR ''/''
        then Some (drop (i + 1) path) else None)"

text \<open>The scan of the file functions stops at a dot or a slash, that of \<open>process_folder\<close> at a dot only.\<close>

definition file_extension :: "string \<Rightarrow> string option" where
  "file_extension = extension_with (\<lambda>c. c = CHR ''.'' \<or> c = CHR ''/'')"

definition folder_file_extension :: "string \<Rightarrow> string option" where
  "folder_file_extension = extension_with (\<lambda>c. c = CHR ''.'')"

lemma scan_back_le: "scan_back stop path n \<le> n"
  by (induction n) auto

lemma scan_back_stop: "scan_back stop path n \<noteq> 0 \<Longrightarrow> stop (path ! scan_back stop path n)"
  by (induction n) auto

lemma scan_back_after: "scan_back stop path n < j \<Longrightarrow> j \<le> n \<Longrightarrow> \<not> stop (path ! j)"
  by (induction n) (auto split: if_splits simp: le_Suc_eq)

lemma scan_back_eq:
  assumes "i \<le> n" and "stop (path ! i)" and "\<forall>j. i < j \<and> j \<le> n \<longrightarrow> \<not> stop (path ! j)" and "0 < i"
  shows "scan_back stop path n = i"
  using assms by (induction n) (auto simp: le_Suc_eq)

lemma extension_with_iff:
  "extension_with stop path = Some e \<longleftrightarrow>
     (\<exists>pre c. path = pre @ c # e \<and> stop c \<and> c \<noteq> CHR ''/'' \<and> e \<noteq> [] \<and> (\<forall>x \<in> set e. \<not> stop x)
        \<and> pre \<noteq> [] \<and> last pre \<noteq> CHR ''/'')"
proof
  let ?n = "length path - 1"
  let ?i = "scan_back stop path ?n"
  assume "extension_with stop path = Some e"
  then have i: "path \<noteq> []" "?i \<noteq> 0" "?i \<noteq> ?n" "path ! ?i \<noteq> CHR ''/''" "path ! (?i - 1) \<noteq> CHR ''/''"
    and e: "e = drop (?i + 1) path"
    by (auto simp: extension_with_def Let_def split: if_splits)
  have lt: "?i < ?n" using scan_back_le [of stop path ?n] i(3) by simp
  have "path = take ?i path @ path ! ?i # e"
    using lt unfolding e by (simp add: id_take_nth_drop)
  moreover have "stop (path ! ?i)" using i(2) by (rule scan_back_stop)
  moreover have "\<forall>x \<in> set e. \<not> stop x"
  proof
    fix x assume "x \<in> set e"
    then obtain j where "j < length path - (?i + 1)" "x = path ! (?i + 1 + j)"
      by (auto simp: e in_set_conv_nth)
    moreover from this have "\<not> stop (path ! (?i + 1 + j))"
      by (intro scan_back_after [of stop path ?n]) simp_all
    ultimately show "\<not> stop x" by simp
  qed
  moreover have "e \<noteq> []" using lt by (simp add: e)
  moreover have "take ?i path \<noteq> []" "last (take ?i path) = path ! (?i - 1)"
    using i(1,2) lt by (auto simp: last_conv_nth)
  ultimately show "\<exists>pre c. path = pre @ c # e \<and> stop c \<and> c \<noteq> CHR ''/'' \<and> e \<noteq> [] \<and> (\<forall>x \<in> set e. \<not> stop x)
        \<and> pre \<noteq> [] \<and> last pre \<noteq> CHR ''/''"
    using i(4,5) by metis
next
  assume "\<exists>pre c. path = pre @ c # e \<and> stop c \<and> c \<noteq> CHR ''/'' \<and> e \<noteq> [] \<and> (\<forall>x \<in> set e. \<not> stop x)
        \<and> pre \<noteq> [] \<and> last pre \<noteq> CHR ''/''"
  then obtain pre c where p: "path = pre @ c # e" "stop c" "c \<noteq> CHR ''/''" "e \<noteq> []"
    "\<forall>x \<in> set e. \<not> stop x" "pre \<noteq> []" "last pre \<noteq> CHR ''/''" by blast
  have "scan_back stop path (length path - 1) = length pre"
  proof (rule scan_back_eq)
    show "\<forall>j. length pre < j \<and> j \<le> length path - 1 \<longrightarrow> \<not> stop (path ! j)"
      using p(1,5) by (auto simp: nth_append nth_Cons')
  qed (use p in \<open>auto simp: nth_append\<close>)
  then show "extension_with stop path = Some e"
    using p by (simp add: extension_with_def nth_append last_conv_nth)
qed

section \<open>Adding an extension, finding a type\<close>

definition add_extension_to_filetypeinfo :: "string \<Rightarrow> filetype_info \<Rightarrow> filetype_info" where
  "add_extension_to_filetypeinfo filepath ft =
     (case file_extension filepath of
        None \<Rightarrow> ft
      | Some fileextension \<Rightarrow>
          let ft1 = (if extensionssize ft = 0 then ft\<lparr>extensionssize := 1\<rparr> else ft) in
          (case table_search (\<lambda>x. strcasecmp x fileextension) (extensions ft1) of
             Inl _ \<Rightarrow> ft1
           | Inr left_pos \<Rightarrow>
               ft1\<lparr>extensions := table_insert left_pos (map to_lower fileextension) (extensions ft1),
                   extensionssize := grow_capacity (extensionssize ft1) (length (extensions ft1))\<rparr>))"

definition new_filetype_info :: "string \<Rightarrow> filetype_info" where
  "new_filetype_info ftype =
     \<lparr>filetype = ftype, extensions = [], extensionssize = 0, ft_uncompressed_size = 0,
      ft_uncompressed_size_rounded = 0, ft_compressed_size = 0, ft_compressed_size_rounded = 0,
      ft_compattr_size = 0, ft_total_size = 0, ft_num_compressed = 0, ft_num_files = 0,
      ft_num_hard_link_files = 0\<rparr>"

text \<open>The result is the index of the entry (the code returns its address) and the new settings.\<close>

definition getFileTypeInfo :: "string \<Rightarrow> string option \<Rightarrow> folder_info \<Rightarrow> nat option \<times> folder_info" where
  "getFileTypeInfo filepath ftype fi =
     (case ftype of
        None \<Rightarrow> (None, fi)
      | Some t \<Rightarrow>
          let fi1 = (if filetypessize fi = 0 then fi\<lparr>filetypessize := 1\<rparr> else fi); ts = filetypes fi1 in
          (case table_search (\<lambda>x. strcmp (filetype x) t) ts of
             Inl i \<Rightarrow>
               (Some i, fi1\<lparr>filetypes := ts[i := add_extension_to_filetypeinfo filepath (ts ! i)]\<rparr>)
           | Inr i \<Rightarrow>
               (Some i, fi1\<lparr>filetypes :=
                   table_insert i (add_extension_to_filetypeinfo filepath (new_filetype_info t)) ts,
                 filetypessize := grow_capacity (filetypessize fi1) (length ts)\<rparr>)))"

section \<open>The invariant of the tables\<close>

definition ext_table_ok :: "filetype_info \<Rightarrow> bool" where
  "ext_table_ok ft \<longleftrightarrow> ext.ordered (extensions ft) \<and> length (extensions ft) \<le> extensionssize ft
     \<and> (\<forall>x \<in> set (extensions ft). map to_lower x = x)"

definition type_table_ok :: "folder_info \<Rightarrow> bool" where
  "type_table_ok fi \<longleftrightarrow> ftab.ordered (filetypes fi) \<and> length (filetypes fi) \<le> filetypessize fi
     \<and> (\<forall>ft \<in> set (filetypes fi). ext_table_ok ft)"

lemma add_extension_filetype [simp]:
  "filetype (add_extension_to_filetypeinfo filepath ft) = filetype ft"
  by (simp add: add_extension_to_filetypeinfo_def Let_def split: option.splits sum.splits)

lemma add_extension_ok:
  assumes "ext_table_ok ft"
  shows "ext_table_ok (add_extension_to_filetypeinfo filepath ft)"
proof (cases "file_extension filepath")
  case None
  with assms show ?thesis by (simp add: add_extension_to_filetypeinfo_def)
next
  case (Some e)
  define ft1 where "ft1 = (if extensionssize ft = 0 then ft\<lparr>extensionssize := 1\<rparr> else ft)"
  have ok1: "ext_table_ok ft1" using assms by (auto simp: ext_table_ok_def ft1_def)
  show ?thesis
  proof (cases "table_search (\<lambda>x. strcasecmp x e) (extensions ft1)")
    case (Inl i)
    then show ?thesis
      using ok1 Some by (simp add: add_extension_to_filetypeinfo_def ft1_def [symmetric] Let_def)
  next
    case (Inr i)
    have ord: "ext.ordered (extensions ft1)" using ok1 by (simp add: ext_table_ok_def)
    have "strcasecmp (map to_lower e) e = 0"
      by (simp add: strcasecmp_lower strcasecmp_laws(1))
    then have "ext.ordered (table_insert i (map to_lower e) (extensions ft1))"
      by (rule ext.ordered_insert [OF ord Inr])
    moreover have "i \<le> length (extensions ft1)"
      using ext.table_search_missing(1) [OF ord Inr] .
    ultimately show ?thesis
      using ok1 Some Inr grow_capacity_fits [of "length (extensions ft1)" "extensionssize ft1"]
      by (simp add: add_extension_to_filetypeinfo_def ft1_def [symmetric] Let_def ext_table_ok_def)
  qed
qed

lemma new_filetype_ok: "ext_table_ok (new_filetype_info t)"
  by (simp add: ext_table_ok_def new_filetype_info_def ext.ordered_Nil)

lemma add_extension_has:
  assumes "ext_table_ok ft" and "file_extension filepath = Some e"
  shows "map to_lower e \<in> set (extensions (add_extension_to_filetypeinfo filepath ft))"
proof -
  define ft1 where "ft1 = (if extensionssize ft = 0 then ft\<lparr>extensionssize := 1\<rparr> else ft)"
  have ok1: "ext_table_ok ft1" using assms by (auto simp: ext_table_ok_def ft1_def)
  then have ord: "ext.ordered (extensions ft1)" by (simp add: ext_table_ok_def)
  show ?thesis
  proof (cases "table_search (\<lambda>x. strcasecmp x e) (extensions ft1)")
    case (Inl i)
    let ?x = "extensions ft1 ! i"
    have x: "?x \<in> set (extensions ft1)" "strcasecmp ?x e = 0"
      using ext.table_search_found [OF ord Inl] by simp_all
    then have "map to_lower ?x = map to_lower e" by (simp add: strcasecmp_def strcmp_eq_0)
    moreover have "map to_lower ?x = ?x" using ok1 x(1) by (simp add: ext_table_ok_def)
    ultimately show ?thesis
      using x(1) Inl assms(2) by (simp add: add_extension_to_filetypeinfo_def ft1_def [symmetric] Let_def)
  next
    case (Inr i)
    then show ?thesis
      using assms(2) by (simp add: add_extension_to_filetypeinfo_def ft1_def [symmetric] Let_def)
  qed
qed

text \<open>One lookup: found or inserted, with everything else in place.\<close>

lemma getFileTypeInfo_cases:
  assumes "type_table_ok fi"
  obtains (found) i ft where "getFileTypeInfo path (Some t) fi = (Some i, (if filetypessize fi = 0
        then fi\<lparr>filetypessize := 1\<rparr> else fi)\<lparr>filetypes := (filetypes fi)[i := ft]\<rparr>)"
      "i < length (filetypes fi)" "filetype (filetypes fi ! i) = t"
      "ft = add_extension_to_filetypeinfo path (filetypes fi ! i)"
  | (added) i ft where "getFileTypeInfo path (Some t) fi = (Some i, (if filetypessize fi = 0
        then fi\<lparr>filetypessize := 1\<rparr> else fi)\<lparr>filetypes := table_insert i ft (filetypes fi),
          filetypessize := grow_capacity (if filetypessize fi = 0 then 1 else filetypessize fi)
            (length (filetypes fi))\<rparr>)"
      "i \<le> length (filetypes fi)" "t \<notin> filetype ` set (filetypes fi)"
      "ft = add_extension_to_filetypeinfo path (new_filetype_info t)"
      "ftab.ordered (table_insert i ft (filetypes fi))"
proof -
  have ord: "ftab.ordered (filetypes fi)" using assms by (simp add: type_table_ok_def)
  show thesis
  proof (cases "table_search (\<lambda>x. strcmp (filetype x) t) (filetypes fi)")
    case (Inl i)
    note f = ftab.table_search_found [OF ord Inl]
    show ?thesis
      using f Inl by (intro found [of i]) (auto simp: getFileTypeInfo_def Let_def strcmp_eq_0)
  next
    case (Inr i)
    let ?ft = "add_extension_to_filetypeinfo path (new_filetype_info t)"
    have "filetype ?ft = t" by (simp add: new_filetype_info_def)
    then have "ftab.ordered (table_insert i ?ft (filetypes fi))"
      by (intro ftab.ordered_insert [OF ord Inr]) simp
    moreover have "t \<notin> filetype ` set (filetypes fi)"
      using ftab.table_search_complete [OF ord, of t] Inr by (auto simp: strcmp_eq_0)
    ultimately show ?thesis
      using ftab.table_search_missing(1) [OF ord Inr] Inr
      by (intro added [of i]) (auto simp: getFileTypeInfo_def Let_def)
  qed
qed

lemma getFileTypeInfo_ok:
  assumes "type_table_ok fi"
  shows "type_table_ok (snd (getFileTypeInfo path ftype fi))"
proof (cases ftype)
  case None
  with assms show ?thesis by (simp add: getFileTypeInfo_def)
next
  case (Some t)
  have ord: "ftab.ordered (filetypes fi)" and ex: "\<And>ft. ft \<in> set (filetypes fi) \<Longrightarrow> ext_table_ok ft"
    and cap: "length (filetypes fi) \<le> filetypessize fi"
    using assms by (auto simp: type_table_ok_def)
  from assms show ?thesis
  proof (cases rule: getFileTypeInfo_cases [of fi path t])
    case (found i ft)
    have "ftab.ordered ((filetypes fi)[i := ft])"
      using found by (intro ftab.ordered_update [OF ord]) simp_all
    moreover have "ext_table_ok ft" using found ex by (simp add: add_extension_ok)
    ultimately show ?thesis
      using found cap ex Some by (auto simp: type_table_ok_def dest: set_update_subset_insert [THEN subsetD])
  next
    case (added i ft)
    have "ext_table_ok ft" using added by (simp add: add_extension_ok new_filetype_ok)
    moreover have "length (filetypes fi) + 1
        \<le> grow_capacity (if filetypessize fi = 0 then 1 else filetypessize fi) (length (filetypes fi))"
      using cap by (intro grow_capacity_fits) simp
    ultimately show ?thesis
      using added ex Some by (auto simp: type_table_ok_def)
  qed
qed

section \<open>Properties\<close>

text \<open>The extension of a path is what follows its last dot when that dot is in the last path
  component, is neither the first nor the last character of the component, and some text
  follows.\<close>

theorem file_extension_iff:
  "file_extension path = Some e \<longleftrightarrow>
     (\<exists>pre. path = pre @ CHR ''.'' # e \<and> e \<noteq> [] \<and> CHR ''.'' \<notin> set e \<and> CHR ''/'' \<notin> set e
        \<and> pre \<noteq> [] \<and> last pre \<noteq> CHR ''/'')"
  by (auto simp: file_extension_def extension_with_iff)

text \<open>\<open>process_folder\<close> stops its scan at dots only, so a dot in the name of a directory gives
  files without an extension the rest of the path as their extension, which the functions for
  single files do not.\<close>

theorem folder_extension_crosses_slash:
  assumes "CHR ''.'' \<notin> set e" and "CHR ''/'' \<in> set e" and "pre \<noteq> []" and "last pre \<noteq> CHR ''/''"
  shows "folder_file_extension (pre @ CHR ''.'' # e) = Some e
    \<and> file_extension (pre @ CHR ''.'' # e) = None"
proof
  have "e \<noteq> []" using assms(2) by auto
  with assms show "folder_file_extension (pre @ CHR ''.'' # e) = Some e"
    unfolding folder_file_extension_def extension_with_iff by auto
  show "file_extension (pre @ CHR ''.'' # e) = None"
  proof (rule ccontr)
    assume "file_extension (pre @ CHR ''.'' # e) \<noteq> None"
    then obtain x where "file_extension (pre @ CHR ''.'' # e) = Some x" by auto
    then obtain pre' where eq: "pre @ CHR ''.'' # e = pre' @ CHR ''.'' # x"
      and x: "CHR ''.'' \<notin> set x" "CHR ''/'' \<notin> set x"
      unfolding file_extension_def extension_with_iff by auto
    have "takeWhile (\<lambda>c. c \<noteq> CHR ''.'') (rev (pre @ CHR ''.'' # e)) = rev e"
      using assms(1) by (simp add: takeWhile_append)
    moreover have "takeWhile (\<lambda>c. c \<noteq> CHR ''.'') (rev (pre @ CHR ''.'' # e)) = rev x"
      unfolding eq using x(1) by (simp add: takeWhile_append)
    ultimately have "e = x" by simp
    with assms(2) x(2) show False by simp
  qed
qed

theorem folder_extension_crosses_slash_witness:
  "folder_file_extension ''src.d/Makefile'' = Some ''d/Makefile''
   \<and> file_extension ''src.d/Makefile'' = None"
  using folder_extension_crosses_slash [of "''d/Makefile''" "''src''"] by simp

text \<open>C18: looking up a file type keeps the type table sorted and within its capacity (as it does
  every extension table), returns the entry of the type, adds no other type, and records the
  lower-cased extension of the file with it.\<close>

theorem getFileTypeInfo_correct:
  assumes "type_table_ok fi" and "getFileTypeInfo path (Some t) fi = (r, fi')"
  shows "type_table_ok fi' \<and> (\<exists>i. r = Some i \<and> i < length (filetypes fi')
      \<and> filetype (filetypes fi' ! i) = t
      \<and> filetype ` set (filetypes fi') = insert t (filetype ` set (filetypes fi))
      \<and> (\<forall>e. file_extension path = Some e \<longrightarrow> map to_lower e \<in> set (extensions (filetypes fi' ! i))))"
proof
  show "type_table_ok fi'" using getFileTypeInfo_ok [OF assms(1), of path "Some t"] assms(2) by simp
  have ex: "\<And>ft. ft \<in> set (filetypes fi) \<Longrightarrow> ext_table_ok ft"
    using assms(1) by (auto simp: type_table_ok_def)
  from assms(1) show "\<exists>i. r = Some i \<and> i < length (filetypes fi') \<and> filetype (filetypes fi' ! i) = t
      \<and> filetype ` set (filetypes fi') = insert t (filetype ` set (filetypes fi))
      \<and> (\<forall>e. file_extension path = Some e \<longrightarrow> map to_lower e \<in> set (extensions (filetypes fi' ! i)))"
  proof (cases rule: getFileTypeInfo_cases [of fi path t])
    case (found i ft)
    have fts: "filetypes fi' = (filetypes fi)[i := ft]" and r: "r = Some i"
      using found(1) assms(2) by auto
    have "map filetype ((filetypes fi)[i := ft]) = map filetype (filetypes fi)"
      using found(2-4) by (intro nth_equalityI) (auto simp: nth_list_update)
    then have img: "filetype ` set (filetypes fi') = filetype ` set (filetypes fi)"
      unfolding fts by (metis set_map)
    have "t \<in> filetype ` set (filetypes fi)" using found(2,3) by (metis image_eqI nth_mem)
    then show ?thesis
      using found ex fts img r by (auto simp: add_extension_has insert_absorb)
  next
    case (added i ft)
    have fts: "filetypes fi' = table_insert i ft (filetypes fi)" and r: "r = Some i"
      using added(1) assms(2) by auto
    have "filetypes fi' ! i = ft" using added(2) by (simp add: fts table_insert_def nth_append)
    moreover have "filetype ft = t" using added(4) by (simp add: new_filetype_info_def)
    moreover have "length (filetypes fi') = length (filetypes fi) + 1" using added(2) by (simp add: fts)
    ultimately show ?thesis
      using added(2,4) fts r new_filetype_ok [of t] by (auto simp: add_extension_has)
  qed
qed

definition empty_info :: folder_info where
  "empty_info =
     \<lparr>uncompressed_size = 0, uncompressed_size_rounded = 0, compressed_size = 0,
      compressed_size_rounded = 0, compattr_size = 0, total_size = 0, num_compressed = 0,
      num_files = 0, num_hard_link_files = 0, num_folders = 0, num_hard_link_folders = 0,
      maxSize = 0, data_compressed_size = 0, print_info = 0, compressiontype = NONE,
      compressionlevel = 0, minSavings = 0, print_files = False, compress_files = False,
      allowLargeBlocks = False, check_files = False, check_hard_links = False,
      follow_sym_links = False, filetypes = [], filetypessize = 0, filetypeslist = None,
      invert_filetypelist = False, backup_file = False, onAPFS = False, z_compression = []\<rparr>"

lemma empty_info_ok: "type_table_ok empty_info"
  by (simp add: type_table_ok_def empty_info_def ftab.ordered_Nil)

theorem getFileTypeInfo_correct_witness:
  "let r = getFileTypeInfo ''doc/Read.ME'' (Some ''text'') empty_info
   in fst r = Some 0 \<and> map filetype (filetypes (snd r)) = [''text'']
      \<and> ''me'' \<in> set (extensions (filetypes (snd r) ! 0))"
proof -
  define r where "r = getFileTypeInfo ''doc/Read.ME'' (Some ''text'') empty_info"
  have fst: "fst r = Some 0" and types: "map filetype (filetypes (snd r)) = [''text'']"
    by (simp_all add: r_def getFileTypeInfo_def table_search_def table_insert_def empty_info_def
        new_filetype_info_def Let_def)
  have lower: "map to_lower ''ME'' = ''me''" by code_simp
  have "file_extension ''doc/Read.ME'' = Some ''ME''"
    by (simp add: file_extension_def extension_with_def Let_def numeral_eq_Suc)
  with getFileTypeInfo_correct [OF empty_info_ok, of "''doc/Read.ME''" "''text''" "fst r" "snd r"] fst types
  have "map to_lower ''ME'' \<in> set (extensions (filetypes (snd r) ! 0))"
    by (simp add: r_def)
  with fst types show ?thesis by (simp add: r_def [symmetric] lower [symmetric] Let_def del: list.map)
qed

end
