(* ===== verification/SizeFormat.thy ===== *)
theory SizeFormat
  imports FsTypes
begin

text \<open>
  Sizes as the tools report them (src/afsctool.c): rounding to file system blocks, and the
  units and values of \<open>getSizeStr\<close>. The result of \<open>getSizeStr\<close> is the number of bytes and the
  printed value with its unit in base 10 and in base 2 (where it prints them); a \<open>double\<close> is
  taken as a real number, the final \<open>printf\<close> formatting is left out.
\<close>

section \<open>Rounding to blocks\<close>

definition roundToBlkSize :: "int \<Rightarrow> stat \<Rightarrow> int" where
  "roundToBlkSize sz fileinfo =
     (if sz \<le> 0 then sz
      else if sz < st_blksize fileinfo then st_blksize fileinfo
      else
        let remainder = sz mod st_blksize fileinfo
        in if remainder \<noteq> 0 then sz + (st_blksize fileinfo - remainder) else sz)"

text \<open>A positive size is rounded up to the least multiple of the block size.\<close>

theorem roundToBlkSize_least:
  assumes "0 < sz" and "0 < st_blksize st"
  shows "st_blksize st dvd roundToBlkSize sz st \<and> sz \<le> roundToBlkSize sz st
    \<and> roundToBlkSize sz st < sz + st_blksize st"
proof (cases "sz < st_blksize st")
  case True
  with assms show ?thesis by (simp add: roundToBlkSize_def)
next
  case False
  define b where "b = st_blksize st"
  have b: "0 < b" "b \<le> sz" using assms False by (simp_all add: b_def)
  have m: "0 \<le> sz mod b" "sz mod b < b" using b by simp_all
  have "sz + (b - sz mod b) = b * (sz div b + 1)"
    by (simp add: algebra_simps minus_mod_eq_mult_div [symmetric])
  then have "b dvd sz + (b - sz mod b)" by (metis dvd_triv_left)
  show ?thesis
  proof (cases "sz mod b = 0")
    case True
    then have "roundToBlkSize sz st = sz" using b by (simp add: roundToBlkSize_def b_def)
    with True b show ?thesis by (simp add: b_def [symmetric] dvd_eq_mod_eq_0)
  next
    case nz: False
    then have eq: "roundToBlkSize sz st = sz + (b - sz mod b)"
      using b by (simp add: roundToBlkSize_def b_def)
    from m(1) nz have "0 < sz mod b" by simp
    with m(2) \<open>b dvd _\<close> show ?thesis unfolding eq b_def [symmetric] by simp
  qed
qed

theorem roundToBlkSize_least_witness:
  "roundToBlkSize 5000 (\<lparr>st_mode = 0, st_size = 0, st_blocks = 0, st_blksize = 4096, st_flags = 0,
     st_ino = 0, st_nlink = 0, st_atimespec = (0, 0), st_mtimespec = (0, 0)\<rparr>) < 9096"
  using roundToBlkSize_least [of 5000 "\<lparr>st_mode = 0, st_size = 0, st_blocks = 0, st_blksize = 4096,
     st_flags = 0, st_ino = 0, st_nlink = 0, st_atimespec = (0, 0), st_mtimespec = (0, 0)\<rparr>"]
  by simp

section \<open>Units\<close>

definition sizeunits :: nat where "sizeunits = 6"
definition sizeunit10 :: "nat \<Rightarrow> int" where "sizeunit10 k = 1000 ^ (k + 1)"
definition sizeunit2 :: "nat \<Rightarrow> int" where "sizeunit2 k = 1024 ^ (k + 1)"

definition sizeunit10_short :: "string list" where
  "sizeunit10_short = [''KB'', ''MB'', ''GB'', ''TB'', ''PB'', ''EB'']"
definition sizeunit10_long :: "string list" where
  "sizeunit10_long = [''kilobytes'', ''megabytes'', ''gigabytes'', ''terabytes'', ''petabytes'', ''exabytes'']"
definition sizeunit2_short :: "string list" where
  "sizeunit2_short = [''KiB'', ''MiB'', ''GiB'', ''TiB'', ''PiB'', ''EiB'']"

text \<open>The loop that picks the unit.\<close>

function pick_unit :: "(nat \<Rightarrow> int) \<Rightarrow> int \<Rightarrow> nat \<Rightarrow> nat" where
  "pick_unit unit sz k =
     (if k + 1 < sizeunits \<and> sz div unit (k + 1) > 0 then pick_unit unit sz (k + 1) else k)"
  by pat_completeness auto
termination
  by (relation "measure (\<lambda>(unit, sz, k). sizeunits - k)") (auto simp: sizeunits_def)

declare pick_unit.simps [simp del]

text \<open>The value: whole units for the smallest unit, one decimal for the next, two for the rest.\<close>

definition scaled_value :: "(nat \<Rightarrow> int) \<Rightarrow> int \<Rightarrow> nat \<Rightarrow> real" where
  "scaled_value unit sz k =
     (let r = real_of_int sz / real_of_int (unit k) in
      if k = 0 then r
      else if k = 1 then real_of_int ((\<lfloor>r * 100\<rfloor> + 5) div 10) / 10
      else real_of_int ((\<lfloor>r * 1000\<rfloor> + 5) div 10) / 100)"

record size_str =
  ss_bytes :: int
  ss_base10 :: "(real \<times> string \<times> string) option"
  ss_base2 :: "(real \<times> string) option"

definition getSizeStr :: "int \<Rightarrow> int \<Rightarrow> bool \<Rightarrow> size_str" where
  "getSizeStr sz size_rounded likeFinder =
     (let unit2 = pick_unit sizeunit2 size_rounded 0;
          unit10 = pick_unit sizeunit10 size_rounded 0;
          humanReadable = scaled_value sizeunit2 size_rounded unit2
      in \<lparr>ss_bytes = sz,
          ss_base10 = (if likeFinder
            then Some (scaled_value sizeunit10 size_rounded unit10, sizeunit10_short ! unit10,
                       sizeunit10_long ! unit10)
            else None),
          ss_base2 = (if likeFinder then None
            else if (if unit2 = 0 then humanReadable \<ge> 1 else humanReadable > 0)
            then Some (humanReadable, sizeunit2_short ! unit2) else None)\<rparr>)"

lemma pick_unit_bound: "k < sizeunits \<Longrightarrow> pick_unit unit sz k < sizeunits"
proof (induction unit sz k rule: pick_unit.induct)
  case (1 unit sz k)
  then show ?case by (subst pick_unit.simps) simp
qed

lemma pick_unit_le: "k < pick_unit unit sz k \<Longrightarrow> sz div unit (pick_unit unit sz k) > 0"
proof (induction unit sz k rule: pick_unit.induct)
  case (1 unit sz k)
  show ?case
  proof (cases "k + 1 < sizeunits \<and> sz div unit (k + 1) > 0")
    case True
    then have eq: "pick_unit unit sz k = pick_unit unit sz (k + 1)" by (subst pick_unit.simps) simp
    show ?thesis
    proof (cases "k + 1 < pick_unit unit sz (k + 1)")
      case lt: True
      with 1 True eq show ?thesis by simp
    next
      case False
      with "1.prems" eq have "pick_unit unit sz (k + 1) = k + 1" by simp
      with True eq show ?thesis by simp
    qed
  next
    case False
    then have "pick_unit unit sz k = k" by (subst pick_unit.simps) auto
    with "1.prems" show ?thesis by simp
  qed
qed

lemma pick_unit_stops: "pick_unit unit sz k + 1 < sizeunits \<Longrightarrow> sz div unit (pick_unit unit sz k + 1) \<le> 0"
proof (induction unit sz k rule: pick_unit.induct)
  case (1 unit sz k)
  show ?case
  proof (cases "k + 1 < sizeunits \<and> sz div unit (k + 1) > 0")
    case True
    then have "pick_unit unit sz k = pick_unit unit sz (k + 1)" by (subst pick_unit.simps) simp
    with 1 True show ?thesis by simp
  next
    case False
    then have "pick_unit unit sz k = k" by (subst pick_unit.simps) auto
    with "1.prems" False show ?thesis by simp
  qed
qed

text \<open>The last unit is reached only by sizes of at least an exabyte.\<close>

lemma scaled_value_close:
  "\<bar>scaled_value unit sz k - real_of_int sz / real_of_int (unit k)\<bar>
     \<le> (if k = 1 then 1 / 20 else 1 / 200)"
proof -
  define r where "r = real_of_int sz / real_of_int (unit k)"
  have r10: "\<bar>real_of_int ((\<lfloor>r * c * 10\<rfloor> + 5) div 10) / c - r\<bar> \<le> 1 / (2 * c)" if "0 < c" for c :: real
  proof -
    define f where "f = \<lfloor>r * c * 10\<rfloor>"
    have f: "real_of_int f \<le> r * c * 10" "r * c * 10 < real_of_int f + 1"
      unfolding f_def by linarith+
    define q where "q = (f + 5) div 10"
    have "10 * q \<le> f + 5" "f - 4 \<le> 10 * q" unfolding q_def by linarith+
    then have q: "10 * real_of_int q \<le> real_of_int f + 5" "real_of_int f - 4 \<le> 10 * real_of_int q"
      by linarith+
    have "\<bar>real_of_int q - r * c\<bar> \<le> 1 / 2" using f q by linarith
    then have "\<bar>real_of_int q - r * c\<bar> / c \<le> (1 / 2) / c"
      using that by (intro divide_right_mono) simp_all
    moreover have "\<bar>real_of_int q / c - r\<bar> = \<bar>real_of_int q - r * c\<bar> / c"
    proof -
      have "real_of_int q / c - r = (real_of_int q - r * c) / c" using that by (simp add: field_simps)
      then show ?thesis using that by (simp add: abs_divide)
    qed
    ultimately show ?thesis by (simp add: q_def f_def)
  qed
  show ?thesis
    using r10 [of 10] r10 [of 100] by (simp add: scaled_value_def Let_def r_def [symmetric] mult.assoc)
qed

text \<open>\<open>getSizeStr\<close> reports a size in the largest unit that it reaches (the smallest one below
  that), rounded to the decimals it prints: the error is at most half of the last decimal.\<close>

theorem getSizeStr_unit:
  assumes "unit = sizeunit2 \<or> unit = sizeunit10"
  shows "(let k = pick_unit unit sz 0 in k < sizeunits
      \<and> (0 < k \<longrightarrow> unit k \<le> sz) \<and> (k + 1 < sizeunits \<longrightarrow> sz < unit (k + 1))
      \<and> \<bar>scaled_value unit sz k - real_of_int sz / real_of_int (unit k)\<bar> \<le> (if k = 1 then 1 / 20 else 1 / 200))"
proof -
  let ?k = "pick_unit unit sz 0"
  have pos: "0 < unit j" for j using assms by (auto simp: sizeunit2_def sizeunit10_def)
  have "0 < ?k \<longrightarrow> unit ?k \<le> sz"
    using pick_unit_le [of 0 unit sz] pos [of ?k] by (auto simp: pos_imp_zdiv_pos_iff)
  moreover have "?k + 1 < sizeunits \<longrightarrow> sz < unit (?k + 1)"
    using pick_unit_stops [of unit sz 0] pos [of "?k + 1"] by (auto simp: pos_imp_zdiv_pos_iff not_less [symmetric])
  moreover have "?k < sizeunits" by (rule pick_unit_bound) (simp add: sizeunits_def)
  ultimately show ?thesis using scaled_value_close [of unit sz ?k] by (simp add: Let_def)
qed

theorem getSizeStr_unit_witness:
  "pick_unit sizeunit2 5000000 0 = 1 \<and> sizeunit2 1 \<le> 5000000
   \<and> \<bar>scaled_value sizeunit2 5000000 1 - 5000000 / 1048576\<bar> \<le> 1 / 20"
proof -
  have "pick_unit sizeunit2 5000000 0 = 1"
    by (simp add: pick_unit.simps sizeunit2_def sizeunits_def)
  with getSizeStr_unit [of sizeunit2 5000000] show ?thesis
    by (simp add: Let_def sizeunit2_def)
qed

end
