(* ===== verification/HashMap.thy ===== *)
theory HashMap
  imports Prelude
begin

text \<open>
  The hash map of the sparsehash library (\<open>google::dense_hash_map\<close>), which the repository does
  not contain: its operations are a record \<open>hash_ops\<close> that the definitions using a map take as an
  argument, and \<open>hash_laws\<close> is its documented behaviour, for the keys other than the reserved
  ones (the empty key and the deleted key). \<open>map_ops\<close> is an instance for concrete runs.
\<close>

record ('k, 'v, 'm) hash_ops =
  h_clear :: 'm
  h_count :: "'m \<Rightarrow> 'k \<Rightarrow> bool"
  h_find :: "'m \<Rightarrow> 'k \<Rightarrow> 'v"
  h_insert :: "'m \<Rightarrow> 'k \<Rightarrow> 'v \<Rightarrow> 'm"
  h_erase :: "'m \<Rightarrow> 'k \<Rightarrow> 'm"

definition hash_lookup :: "('k, 'v, 'm) hash_ops \<Rightarrow> 'm \<Rightarrow> 'k \<Rightarrow> 'v option" where
  "hash_lookup ops m k = (if h_count ops m k then Some (h_find ops m k) else None)"

definition hash_laws :: "('k, 'v, 'm) hash_ops \<Rightarrow> ('k \<Rightarrow> bool) \<Rightarrow> bool" where
  "hash_laws ops valid \<longleftrightarrow>
     (\<forall>j. valid j \<longrightarrow> hash_lookup ops (h_clear ops) j = None)
   \<and> (\<forall>m k v j. valid k \<longrightarrow> valid j \<longrightarrow>
        hash_lookup ops (h_insert ops m k v) j = (if j = k then Some v else hash_lookup ops m j))
   \<and> (\<forall>m k j. valid k \<longrightarrow> valid j \<longrightarrow>
        hash_lookup ops (h_erase ops m k) j = (if j = k then None else hash_lookup ops m j))"

lemma hash_laws_simps:
  assumes "hash_laws ops valid"
  shows "valid j \<Longrightarrow> hash_lookup ops (h_clear ops) j = None"
    and "valid k \<Longrightarrow> valid j \<Longrightarrow>
      hash_lookup ops (h_insert ops m k v) j = (if j = k then Some v else hash_lookup ops m j)"
    and "valid k \<Longrightarrow> valid j \<Longrightarrow>
      hash_lookup ops (h_erase ops m k) j = (if j = k then None else hash_lookup ops m j)"
  using assms by (simp_all add: hash_laws_def)

lemma h_count_lookup: "h_count ops m k \<longleftrightarrow> hash_lookup ops m k \<noteq> None"
  by (simp add: hash_lookup_def)

lemma h_find_lookup: "hash_lookup ops m k = Some v \<Longrightarrow> h_find ops m k = v"
  by (simp add: hash_lookup_def split: if_splits)

definition map_ops :: "('k, 'v, 'k \<rightharpoonup> 'v) hash_ops" where
  "map_ops = \<lparr>h_clear = Map.empty, h_count = (\<lambda>m k. m k \<noteq> None), h_find = (\<lambda>m k. the (m k)),
     h_insert = (\<lambda>m k v. m(k \<mapsto> v)), h_erase = (\<lambda>m k. m(k := None))\<rparr>"

lemma map_ops_laws: "hash_laws map_ops valid"
  by (auto simp: hash_laws_def map_ops_def hash_lookup_def)

text \<open>An instance whose maps are finite, so that they can be gone through.\<close>

definition alist_ops :: "('k, 'v, ('k \<times> 'v) list) hash_ops" where
  "alist_ops = \<lparr>h_clear = [], h_count = (\<lambda>m k. map_of m k \<noteq> None), h_find = (\<lambda>m k. the (map_of m k)),
     h_insert = (\<lambda>m k v. (k, v) # m), h_erase = (\<lambda>m k. filter (\<lambda>x. fst x \<noteq> k) m)\<rparr>"

lemma alist_lookup: "hash_lookup alist_ops m k = map_of m k"
  by (auto simp: hash_lookup_def alist_ops_def)

lemma map_of_erase: "map_of (filter (\<lambda>x. fst x \<noteq> k) m) j = (if j = k then None else map_of m j)"
  by (induction m) auto

lemma alist_ops_laws: "hash_laws alist_ops valid"
  unfolding hash_laws_def alist_lookup by (simp add: alist_ops_def map_of_erase)

end
