(* ===== verification/HardLinks.thy ===== *)
theory HardLinks
  imports FsTypes HashMap
begin

text \<open>
  The hard link check (src/utils.cpp): one name of every file with several links is let through,
  the first that is presented; the others are reported. The function keeps its state in two
  static variables, \<open>numLinks\<close> (-1 before the first call) and \<open>ino2PathMap\<close>; the call with null
  arguments forgets it.
\<close>

record 'm link_state =
  numLinks :: int
  ino2PathMap :: 'm

type_synonym 'm link_ops = "(nat, string, 'm) hash_ops"

definition link_init :: "'m link_ops \<Rightarrow> 'm link_state" where
  "link_init ops = \<lparr>numLinks = -1, ino2PathMap = h_clear ops\<rparr>"

definition has_links :: "stat \<Rightarrow> bool" where
  "has_links st \<longleftrightarrow> S_ISREG (st_mode st) \<and> st_nlink st > 1"

definition checkForHardLink ::
    "'m link_ops \<Rightarrow> (string \<times> stat) option \<Rightarrow> 'm link_state \<Rightarrow> bool \<times> 'm link_state" where
  "checkForHardLink ops file s0 =
     (let s = (if numLinks s0 = -1 then \<lparr>numLinks = 0, ino2PathMap = h_clear ops\<rparr> else s0)
      in case file of
        Some (filepath, fileInfo) \<Rightarrow>
          if has_links fileInfo then
            if h_count ops (ino2PathMap s) (st_ino fileInfo)
            then (h_find ops (ino2PathMap s) (st_ino fileInfo) \<noteq> filepath, s)
            else (False, s\<lparr>ino2PathMap := h_insert ops (ino2PathMap s) (st_ino fileInfo) filepath,
                           numLinks := numLinks s + 1\<rparr>)
          else (False, s)
      | None \<Rightarrow>
          if numLinks s \<noteq> 0 then (False, \<lparr>numLinks = 0, ino2PathMap = h_clear ops\<rparr>)
          else (False, s))"

text \<open>The state after a list of files was presented.\<close>

fun present :: "'m link_ops \<Rightarrow> (string \<times> stat) list \<Rightarrow> 'm link_state \<Rightarrow> 'm link_state" where
  "present ops [] s = s"
| "present ops (f # fs) s = present ops fs (snd (checkForHardLink ops (Some f) s))"

section \<open>What the state holds\<close>

text \<open>The first name presented for an inode.\<close>

fun first_path :: "(string \<times> stat) list \<Rightarrow> nat \<Rightarrow> string option" where
  "first_path [] ino = None"
| "first_path ((p, st) # fs) ino =
     (if has_links st \<and> st_ino st = ino then Some p else first_path fs ino)"

lemma first_path_append:
  "first_path (xs @ ys) ino = (case first_path xs ino of None \<Rightarrow> first_path ys ino | r \<Rightarrow> r)"
  by (induction xs ino rule: first_path.induct) auto

lemma first_path_Some: "first_path xs ino = Some p \<Longrightarrow> p \<in> fst ` set xs"
  by (induction xs ino rule: first_path.induct) (auto split: if_splits)

lemma first_path_None:
  "first_path xs ino = None \<longleftrightarrow> (\<forall>(p, st) \<in> set xs. has_links st \<longrightarrow> st_ino st \<noteq> ino)"
  by (induction xs ino rule: first_path.induct) auto

text \<open>The invariant: a fresh state, or the map holds the first name of every presented inode and
  \<open>numLinks\<close> is their number.\<close>

definition linked_inos :: "(string \<times> stat) list \<Rightarrow> nat set" where
  "linked_inos xs = {st_ino st |p st. (p, st) \<in> set xs \<and> has_links st}"

definition links_of :: "'m link_ops \<Rightarrow> (string \<times> stat) list \<Rightarrow> 'm link_state \<Rightarrow> bool" where
  "links_of ops xs s \<longleftrightarrow>
     xs = [] \<and> numLinks s = -1
   \<or> numLinks s = int (card (linked_inos xs))
     \<and> (\<forall>ino. ino \<noteq> 0 \<longrightarrow> hash_lookup ops (ino2PathMap s) ino = first_path xs ino)"

lemma linked_inos_simps [simp]:
  "linked_inos [] = {}"
  "linked_inos (xs @ [(p, st)]) = (if has_links st then insert (st_ino st) (linked_inos xs) else linked_inos xs)"
  by (auto simp: linked_inos_def)

lemma finite_linked_inos [simp]: "finite (linked_inos xs)"
  by (induction xs rule: rev_induct) auto

lemma linked_inos_first_path: "ino \<in> linked_inos xs \<longleftrightarrow> first_path xs ino \<noteq> None"
  by (auto simp: linked_inos_def first_path_None)

lemma links_of_init: "links_of ops [] (link_init ops)"
  by (simp add: links_of_def link_init_def)

lemma checkForHardLink_step:
  assumes "hash_laws ops (\<lambda>i. i \<noteq> 0)" and "links_of ops xs s" and "st_ino st \<noteq> 0"
  shows "links_of ops (xs @ [(p, st)]) (snd (checkForHardLink ops (Some (p, st)) s))"
    and "fst (checkForHardLink ops (Some (p, st)) s) \<longleftrightarrow>
           has_links st \<and> (\<exists>q. first_path xs (st_ino st) = Some q \<and> q \<noteq> p)"
proof -
  note laws = hash_laws_simps [OF assms(1)]
  define s1 where "s1 = (if numLinks s = -1 then \<lparr>numLinks = 0, ino2PathMap = h_clear ops\<rparr> else s)"
  have s1: "numLinks s1 = int (card (linked_inos xs))"
    "ino \<noteq> 0 \<Longrightarrow> hash_lookup ops (ino2PathMap s1) ino = first_path xs ino" for ino
    using assms(2) by (auto simp: s1_def links_of_def laws(1))
  have count: "h_count ops (ino2PathMap s1) (st_ino st) \<longleftrightarrow> first_path xs (st_ino st) \<noteq> None"
    using s1(2) assms(3) by (simp add: h_count_lookup)
  have find: "first_path xs (st_ino st) = Some q \<Longrightarrow> h_find ops (ino2PathMap s1) (st_ino st) = q" for q
    using s1(2) assms(3) by (auto intro: h_find_lookup)
  note eq = checkForHardLink_def [of ops "Some (p, st)" s, folded s1_def, unfolded Let_def option.case prod.case]
  show "fst (checkForHardLink ops (Some (p, st)) s) \<longleftrightarrow>
           has_links st \<and> (\<exists>q. first_path xs (st_ino st) = Some q \<and> q \<noteq> p)"
    unfolding eq by (auto simp: count find)
  show "links_of ops (xs @ [(p, st)]) (snd (checkForHardLink ops (Some (p, st)) s))"
  proof (cases "has_links st \<and> first_path xs (st_ino st) = None")
    case True
    then have "st_ino st \<notin> linked_inos xs" by (simp add: linked_inos_first_path)
    with True show ?thesis
      unfolding eq links_of_def
      by (auto simp: count s1 laws(2) assms(3) first_path_append split: option.splits)
  next
    case False
    then have same: "snd (checkForHardLink ops (Some (p, st)) s) = s1"
      unfolding eq by (auto simp: count)
    from False have "linked_inos (xs @ [(p, st)]) = linked_inos xs"
      by (auto simp: linked_inos_first_path insert_absorb)
    moreover from False have "first_path (xs @ [(p, st)]) ino = first_path xs ino" for ino
      by (auto simp: first_path_append split: option.splits)
    ultimately show ?thesis unfolding same links_of_def by (simp add: s1)
  qed
qed

lemma present_append: "present ops (xs @ ys) s = present ops ys (present ops xs s)"
  by (induction xs arbitrary: s) auto

lemma present_links:
  assumes "hash_laws ops (\<lambda>i. i \<noteq> 0)" and "\<forall>(p, st) \<in> set xs. st_ino st \<noteq> 0"
  shows "links_of ops xs (present ops xs (link_init ops))"
  using assms(2)
proof (induction xs rule: rev_induct)
  case Nil
  then show ?case by (simp add: links_of_init)
next
  case (snoc x xs)
  then show ?case
    by (cases x) (auto simp: present_append intro: checkForHardLink_step(1) [OF assms(1)])
qed

lemma reset_links:
  assumes "hash_laws ops (\<lambda>i. i \<noteq> 0)" and "links_of ops xs s"
  shows "links_of ops [] (snd (checkForHardLink ops None s))"
proof -
  have empty: "first_path xs ino = None" if "numLinks s = 0" for ino
  proof -
    from that assms(2) have "linked_inos xs = {}" by (auto simp: links_of_def)
    then show ?thesis using linked_inos_first_path [of ino xs] by simp
  qed
  show ?thesis
    using assms(2) hash_laws_simps(1) [OF assms(1)]
    by (auto simp: checkForHardLink_def links_of_def empty)
qed

section \<open>Properties\<close>

text \<open>C21: a file is reported as a hard link exactly when it is a regular file with several links
  and an earlier presented file had the same inode; \<open>numLinks\<close> counts the files let through.\<close>

theorem hard_link_iff:
  assumes "hash_laws ops (\<lambda>i. i \<noteq> 0)"
    and "distinct (map fst (xs @ [(p, st)]))" and "\<forall>(q, s) \<in> set (xs @ [(p, st)]). st_ino s \<noteq> 0"
  shows "(fst (checkForHardLink ops (Some (p, st)) (present ops xs (link_init ops))) \<longleftrightarrow>
       has_links st \<and> (\<exists>(q, s) \<in> set xs. has_links s \<and> st_ino s = st_ino st))
    \<and> (xs \<noteq> [] \<longrightarrow> numLinks (present ops xs (link_init ops)) = int (card (linked_inos xs)))"
proof -
  have l: "links_of ops xs (present ops xs (link_init ops))"
    using assms(3) by (intro present_links [OF assms(1)]) auto
  have "first_path xs (st_ino st) = Some q \<Longrightarrow> q \<noteq> p" for q
    using assms(2) by (auto dest!: first_path_Some)
  then have "(\<exists>q. first_path xs (st_ino st) = Some q \<and> q \<noteq> p) \<longleftrightarrow> first_path xs (st_ino st) \<noteq> None"
    by auto
  then show ?thesis
    using checkForHardLink_step(2) [OF assms(1) l, of st p] l assms(3)
    by (auto simp: first_path_None links_of_def)
qed

definition linked_stat :: "nat \<Rightarrow> nat \<Rightarrow> stat" where
  "linked_stat ino nlink = \<lparr>st_mode = 0x81A4, st_size = 10, st_blocks = 8, st_blksize = 4096,
     st_flags = 0, st_ino = ino, st_nlink = nlink, st_atimespec = (0, 0), st_mtimespec = (0, 0)\<rparr>"

theorem hard_link_iff_witness:
  "fst (checkForHardLink map_ops (Some (''c'', linked_stat 7 2))
     (present map_ops [(''a'', linked_stat 7 2), (''b'', linked_stat 8 1)] (link_init map_ops)))"
  using hard_link_iff [OF map_ops_laws, of "[(''a'', linked_stat 7 2), (''b'', linked_stat 8 1)]"
      "''c''" "linked_stat 7 2"]
  by (simp add: linked_stat_def has_links_def stat_bits)

end
