(* ===== verification/Mutex.thy ===== *)
theory Mutex
  imports Prelude
begin

text \<open>
  \<open>MutexEx\<close> and \<open>MutexEx::Scope\<close> (src/CritSectEx/CritSectEx.h) in the variant without timeouts:
  a POSIX mutex with a counter beside it. First the operations one at a time, where \<open>None\<close> is
  a call that blocks; then the same steps interleaved between threads, the counter read and
  written in separate steps because it is not protected by the mutex while it is decremented.
\<close>

section \<open>The operations\<close>

record mutex =
  mx_owner :: "nat option"
  bIsLocked :: nat
  bTimedOut :: bool
  scopesUnlocked :: nat
  scopesLocked :: nat
  lockCounter :: nat

definition new_mutex :: mutex where
  "new_mutex = \<lparr>mx_owner = None, bIsLocked = 0, bTimedOut = False, scopesUnlocked = 0,
     scopesLocked = 0, lockCounter = 0\<rparr>"

text \<open>A POSIX mutex of the default kind: locking blocks while it is held, by any thread.\<close>

definition PerfLock :: "nat \<Rightarrow> mutex \<Rightarrow> mutex option" where
  "PerfLock tid mx =
     (if mx_owner mx = None then Some (mx\<lparr>mx_owner := Some tid, bIsLocked := bIsLocked mx + 1\<rparr>)
      else None)"

definition PerfUnlock :: "mutex \<Rightarrow> mutex" where
  "PerfUnlock mx = mx\<lparr>mx_owner := None, bIsLocked := bIsLocked mx - 1\<rparr>"

text \<open>The mutex and the new value of \<open>bUnlockFlag\<close>; \<open>Lock\<close> itself returns true.\<close>

definition mutex_Lock :: "nat \<Rightarrow> mutex \<Rightarrow> (mutex \<times> bool) option" where
  "mutex_Lock tid mx = map_option (\<lambda>mx'. (mx', \<not> bTimedOut mx')) (PerfLock tid mx)"

definition mutex_Unlock :: "bool \<Rightarrow> mutex \<Rightarrow> mutex" where
  "mutex_Unlock bUnlockFlag mx = (if bUnlockFlag then PerfUnlock mx else mx)"

definition mutex_IsLocked :: "mutex \<Rightarrow> bool" where
  "mutex_IsLocked mx \<longleftrightarrow> bIsLocked mx \<noteq> 0"

record scope =
  m_bLocked :: bool
  m_bUnlockFlag :: bool
  scope_verbose :: bool

definition open_scope :: scope where
  "open_scope = \<lparr>m_bLocked = False, m_bUnlockFlag = False, scope_verbose = False\<rparr>"

definition InternalUnlock :: "scope \<Rightarrow> mutex \<Rightarrow> mutex" where
  "InternalUnlock sc mx = (if m_bUnlockFlag sc then PerfUnlock mx else mx)"

definition InternalLock :: "nat \<Rightarrow> scope \<Rightarrow> mutex \<Rightarrow> (scope \<times> mutex) option" where
  "InternalLock tid sc mx =
     (case mutex_Lock tid mx of None \<Rightarrow> None
      | Some (mx', flag) \<Rightarrow> Some (sc\<lparr>m_bLocked := True, m_bUnlockFlag := flag\<rparr>, mx'))"

text \<open>The constructors: the mutex is locked at once unless the timeout is 0.\<close>

definition new_scope :: "nat \<Rightarrow> nat \<Rightarrow> mutex \<Rightarrow> (scope \<times> mutex) option" where
  "new_scope tid dwTimeout mx =
     (if dwTimeout \<noteq> 0 then InternalLock tid open_scope mx else Some (open_scope, mx))"

definition scope_Lock :: "nat \<Rightarrow> scope \<Rightarrow> mutex \<Rightarrow> (scope \<times> mutex) option" where
  "scope_Lock tid sc mx = (if \<not> m_bLocked sc then InternalLock tid sc mx else Some (sc, mx))"

definition scope_Unlock :: "scope \<Rightarrow> mutex \<Rightarrow> scope \<times> mutex" where
  "scope_Unlock sc mx = (sc\<lparr>m_bUnlockFlag := False, m_bLocked := False\<rparr>, InternalUnlock sc mx)"

definition scope_IsLocked :: "scope \<Rightarrow> bool" where
  "scope_IsLocked sc \<longleftrightarrow> m_bLocked sc"

definition delete_scope :: "scope \<Rightarrow> mutex \<Rightarrow> mutex" where
  "delete_scope sc mx =
     (let mx1 = (if scope_verbose sc
                 then (if m_bLocked sc then mx\<lparr>scopesLocked := scopesLocked mx + 1\<rparr>
                       else mx\<lparr>scopesUnlocked := scopesUnlocked mx + 1\<rparr>)
                 else mx)
      in InternalUnlock sc mx1)"

lemmas scope_defs = open_scope_def InternalUnlock_def InternalLock_def new_scope_def scope_Lock_def
  scope_Unlock_def scope_IsLocked_def delete_scope_def mutex_Lock_def mutex_Unlock_def PerfLock_def
  PerfUnlock_def mutex_IsLocked_def

section \<open>The interface of a scoped lock\<close>

text \<open>
  What a worker relies on when it locks and unlocks through its scope: \<open>good\<close> relates the scope
  to the mutex, \<open>held\<close> says that the scope holds it and \<open>free\<close> that nobody does.
\<close>

locale scoped_lock =
  fixes lock :: "'s \<Rightarrow> 'm \<Rightarrow> ('s \<times> 'm) option"
    and unlock :: "'s \<Rightarrow> 'm \<Rightarrow> 's \<times> 'm"
    and good :: "'s \<Rightarrow> 'm \<Rightarrow> bool"
    and held :: "'s \<Rightarrow> bool"
    and free :: "'m \<Rightarrow> bool"
  assumes lock_held: "held s \<Longrightarrow> lock s m = Some (s, m)"
    and lock_free: "good s m \<Longrightarrow> \<not> held s \<Longrightarrow> free m \<Longrightarrow>
      \<exists>s' m'. lock s m = Some (s', m') \<and> good s' m' \<and> held s' \<and> \<not> free m'"
    and lock_taken: "good s m \<Longrightarrow> \<not> held s \<Longrightarrow> \<not> free m \<Longrightarrow> lock s m = None"
    and unlock_held: "good s m \<Longrightarrow> held s \<Longrightarrow>
      good (fst (unlock s m)) (snd (unlock s m)) \<and> \<not> held (fst (unlock s m)) \<and> free (snd (unlock s m))"
    and unlock_open: "good s m \<Longrightarrow> \<not> held s \<Longrightarrow> unlock s m = (s, m)"
    and good_held: "good s m \<Longrightarrow> held s \<Longrightarrow> \<not> free m"
begin

text \<open>A sequence of calls, \<open>True\<close> for \<open>Lock\<close>; it stops when a call blocks.\<close>

fun calls :: "bool list \<Rightarrow> 's \<Rightarrow> 'm \<Rightarrow> ('s \<times> 'm) option" where
  "calls [] s m = Some (s, m)"
| "calls (True # cs) s m = (case lock s m of None \<Rightarrow> None | Some (s', m') \<Rightarrow> calls cs s' m')"
| "calls (False # cs) s m = calls cs (fst (unlock s m)) (snd (unlock s m))"

text \<open>Alone on the mutex, no sequence of calls blocks, and the scope holds the mutex exactly when
  it is not free.\<close>

lemma calls_never_block:
  "good s m \<Longrightarrow> held s \<noteq> free m \<Longrightarrow>
     \<exists>s' m'. calls cs s m = Some (s', m') \<and> good s' m' \<and> held s' \<noteq> free m'"
proof (induction cs arbitrary: s m)
  case (Cons c cs)
  show ?case
  proof (cases c)
    case True
    show ?thesis
    proof (cases "held s")
      case True
      with \<open>c\<close> Cons show ?thesis by (simp add: lock_held)
    next
      case False
      with Cons.prems lock_free [of s m] obtain s' m' where
        "lock s m = Some (s', m')" "good s' m'" "held s'" "\<not> free m'" by blast
      with \<open>c\<close> Cons.IH [of s' m'] show ?thesis by simp
    qed
  next
    case False
    show ?thesis
    proof (cases "held s")
      case True
      with Cons.prems unlock_held [of s m] Cons.IH [of "fst (unlock s m)" "snd (unlock s m)"] \<open>\<not> c\<close>
      show ?thesis by simp
    next
      case False
      with Cons.prems unlock_open [of s m] Cons.IH [of s m] \<open>\<not> c\<close> show ?thesis by simp
    qed
  qed
qed simp

lemma unlock_frees: "good s m \<Longrightarrow> held s \<noteq> free m \<Longrightarrow> free (snd (unlock s m))"
  using unlock_held [of s m] unlock_open [of s m] by (cases "held s") auto

end

text \<open>The scope of thread \<open>tid\<close> fits its mutex: it is locked exactly when it must unlock, and then
  the thread owns the mutex and the counter is 1.\<close>

definition scope_fits :: "nat \<Rightarrow> scope \<Rightarrow> mutex \<Rightarrow> bool" where
  "scope_fits tid sc mx \<longleftrightarrow> m_bUnlockFlag sc = m_bLocked sc \<and> \<not> bTimedOut mx
     \<and> bIsLocked mx = (if mx_owner mx = None then 0 else 1)
     \<and> (m_bLocked sc \<longrightarrow> mx_owner mx = Some tid)"

interpretation sl: scoped_lock "scope_Lock tid" scope_Unlock "scope_fits tid" scope_IsLocked
    "\<lambda>mx. mx_owner mx = None"
  by unfold_locales (auto simp: scope_defs scope_fits_def split: if_splits)

fun scope_calls :: "nat \<Rightarrow> bool list \<Rightarrow> scope \<Rightarrow> mutex \<Rightarrow> (scope \<times> mutex) option" where
  "scope_calls tid [] sc mx = Some (sc, mx)"
| "scope_calls tid (True # cs) sc mx =
     (case scope_Lock tid sc mx of None \<Rightarrow> None | Some (sc', mx') \<Rightarrow> scope_calls tid cs sc' mx')"
| "scope_calls tid (False # cs) sc mx =
     scope_calls tid cs (fst (scope_Unlock sc mx)) (snd (scope_Unlock sc mx))"

lemma scope_calls_eq: "scope_calls tid cs sc mx = sl.calls tid cs sc mx"
  by (induction tid cs sc mx rule: scope_calls.induct) (simp_all split: option.splits)

text \<open>A worker may call \<open>Lock\<close> and \<open>Unlock\<close> on its scope in any order and number (as
  \<open>compressFile\<close> does): alone on the mutex no call blocks, and the destructor releases it.\<close>

theorem scope_released:
  assumes "mx_owner mx = None" and "bIsLocked mx = 0" and "\<not> bTimedOut mx"
    and "new_scope tid 0 mx = Some (sc, mx1)"
  shows "\<exists>sc' mx'. scope_calls tid cs sc mx1 = Some (sc', mx')
    \<and> mx_owner (delete_scope sc' mx') = None \<and> bIsLocked (delete_scope sc' mx') = 0"
proof -
  have "scope_fits tid sc mx1" "scope_IsLocked sc \<noteq> (mx_owner mx1 = None)"
    using assms by (auto simp: scope_defs scope_fits_def)
  from sl.calls_never_block [OF this, of cs] obtain sc' mx' where
    r: "scope_calls tid cs sc mx1 = Some (sc', mx')" "scope_fits tid sc' mx'"
      "scope_IsLocked sc' \<noteq> (mx_owner mx' = None)"
    by (auto simp: scope_calls_eq)
  then show ?thesis by (auto simp: scope_defs scope_fits_def Let_def split: if_splits)
qed

theorem scope_released_witness:
  "\<exists>sc' mx'. scope_calls 3 [True, True, False, False, True] open_scope new_mutex = Some (sc', mx')
    \<and> mx_owner (delete_scope sc' mx') = None \<and> bIsLocked (delete_scope sc' mx') = 0"
  by (rule scope_released [of new_mutex 3 open_scope new_mutex])
    (simp_all add: new_mutex_def new_scope_def)

section \<open>Interleaved threads\<close>

text \<open>
  Where a thread is: outside; holding the mutex before the counter is read, before it is
  written, and with it written; after the release, before the test of the counter, before the
  read and before the write of the decrement.
\<close>

datatype lock_pc = Outside | Acquired | Adding nat | Inside | Released | Tested | Subtracting nat

record lock_state =
  lk_owner :: "nat option"
  lk_count :: nat
  lk_pc :: "nat \<Rightarrow> lock_pc"

definition at :: "nat \<Rightarrow> lock_pc \<Rightarrow> lock_state \<Rightarrow> lock_state" where
  "at t p s = s\<lparr>lk_pc := (lk_pc s)(t := p)\<rparr>"

inductive lock_step :: "lock_state \<Rightarrow> lock_state \<Rightarrow> bool" where
  pthread_lock: "lk_pc s t = Outside \<Longrightarrow> lk_owner s = None \<Longrightarrow>
     lock_step s (at t Acquired (s\<lparr>lk_owner := Some t\<rparr>))"
| read_inc: "lk_pc s t = Acquired \<Longrightarrow> lock_step s (at t (Adding (lk_count s)) s)"
| write_inc: "lk_pc s t = Adding n \<Longrightarrow> lock_step s (at t Inside (s\<lparr>lk_count := n + 1\<rparr>))"
| pthread_unlock: "lk_pc s t = Inside \<Longrightarrow> lock_step s (at t Released (s\<lparr>lk_owner := None\<rparr>))"
| test_positive: "lk_pc s t = Released \<Longrightarrow> lk_count s > 0 \<Longrightarrow> lock_step s (at t Tested s)"
| test_zero: "lk_pc s t = Released \<Longrightarrow> lk_count s = 0 \<Longrightarrow> lock_step s (at t Outside s)"
| read_dec: "lk_pc s t = Tested \<Longrightarrow> lock_step s (at t (Subtracting (lk_count s)) s)"
| write_dec: "lk_pc s t = Subtracting n \<Longrightarrow> lock_step s (at t Outside (s\<lparr>lk_count := n - 1\<rparr>))"

inductive_simps lock_step_simps: "lock_step s s'"

definition lock_start :: lock_state where
  "lock_start = \<lparr>lk_owner = None, lk_count = 0, lk_pc = (\<lambda>_. Outside)\<rparr>"

fun holds :: "lock_pc \<Rightarrow> bool" where
  "holds Acquired = True"
| "holds (Adding n) = True"
| "holds Inside = True"
| "holds _ = False"

definition owner_holds :: "lock_state \<Rightarrow> bool" where
  "owner_holds s \<longleftrightarrow> (\<forall>t. holds (lk_pc s t) \<longleftrightarrow> lk_owner s = Some t)"

lemma owner_holds_step: "lock_step s s' \<Longrightarrow> owner_holds s \<Longrightarrow> owner_holds s'"
  by (induction rule: lock_step.induct) (force simp: owner_holds_def at_def)+

lemma owner_holds_reachable: "lock_step\<^sup>*\<^sup>* lock_start s \<Longrightarrow> owner_holds s"
proof (induction rule: rtranclp_induct)
  case base
  show ?case by (simp add: owner_holds_def lock_start_def)
qed (rule owner_holds_step)



text \<open>The counter is decremented after the mutex is released, so an increment of the next
  owner can be lost: a reachable state has a thread inside while \<open>IsLocked\<close> says no.\<close>

theorem lock_count_race:
  "\<exists>s. lock_step\<^sup>*\<^sup>* lock_start s \<and> lk_owner s = Some 1 \<and> lk_pc s 1 = Inside \<and> lk_count s = 0"
proof -
  let ?next = "\<lambda>t p s. at t p s"
  define s1 where "s1 = at 0 Acquired (lock_start\<lparr>lk_owner := Some 0\<rparr>)"
  define s2 where "s2 = at 0 (Adding 0) s1"
  define s3 where "s3 = at 0 Inside (s2\<lparr>lk_count := 0 + 1\<rparr>)"
  define s4 where "s4 = at 0 Released (s3\<lparr>lk_owner := None\<rparr>)"
  define s5 where "s5 = at 0 Tested s4"
  define s6 where "s6 = at 0 (Subtracting 1) s5"
  define s7 where "s7 = at 1 Acquired (s6\<lparr>lk_owner := Some 1\<rparr>)"
  define s8 where "s8 = at 1 (Adding 1) s7"
  define s9 where "s9 = at 1 Inside (s8\<lparr>lk_count := 1 + 1\<rparr>)"
  define s10 where "s10 = at 0 Outside (s9\<lparr>lk_count := 1 - 1\<rparr>)"
  note ds = s1_def s2_def s3_def s4_def s5_def s6_def s7_def s8_def s9_def s10_def at_def lock_start_def
  have "lock_step lock_start s1" unfolding s1_def by (rule lock_step.pthread_lock) (simp_all add: ds)
  moreover have "lock_step s1 s2" using lock_step.read_inc [of s1 0] by (simp add: ds)
  moreover have "lock_step s2 s3" using lock_step.write_inc [of s2 0 0] by (simp add: ds)
  moreover have "lock_step s3 s4" using lock_step.pthread_unlock [of s3 0] by (simp add: ds)
  moreover have "lock_step s4 s5" using lock_step.test_positive [of s4 0] by (simp add: ds)
  moreover have "lock_step s5 s6" using lock_step.read_dec [of s5 0] by (simp add: ds)
  moreover have "lock_step s6 s7" using lock_step.pthread_lock [of s6 1] by (simp add: ds)
  moreover have "lock_step s7 s8" using lock_step.read_inc [of s7 1] by (simp add: ds)
  moreover have "lock_step s8 s9" using lock_step.write_inc [of s8 1 1] by (simp add: ds)
  moreover have "lock_step s9 s10" using lock_step.write_dec [of s9 0 1] by (simp add: ds)
  ultimately have "lock_step\<^sup>*\<^sup>* lock_start s10" by (meson converse_rtranclp_into_rtranclp rtranclp.rtrancl_refl)
  then show ?thesis by (intro exI [of _ s10]) (simp add: ds)
qed

end
