(* ===== verification/FileStats.thy ===== *)
theory FileStats
  imports FileTypes SizeFormat HardLinks FileSamples
begin

text \<open>
  What one file adds to the statistics: \<open>process_file_info\<close> (src/afsctool.c). The extended
  attributes are listed and summed, the file is counted, matched against the requested types and
  charged to the folder and to its type. Messages are left out. The sizes of the HFS+ catalog
  records, what Spotlight says of a file, the attribute calls that fail and the moments a signal
  asks to stop are parameters (\<open>sys\<close>).
\<close>

section \<open>The environment\<close>

text \<open>Which calls on the attributes of a file fail.\<close>

record listing_fault =
  lf_size :: bool
  lf_malloc :: bool
  lf_list :: bool
  lf_get :: "string \<Rightarrow> bool"

datatype poll = At_entry | In_info | At_next

record sys =
  sy_env :: "nat \<Rightarrow> env"
  sy_codecs :: codecs
  sy_heap :: heap
  sy_quit :: "poll \<Rightarrow> string \<Rightarrow> bool"
  sy_listing :: "string \<Rightarrow> listing_fault"
  sy_getFileType :: "string \<Rightarrow> string option"
  sizeof_HFSPlusAttrKey :: int
  sizeof_HFSPlusCatalogFile :: int
  sizeof_HFSPlusCatalogFolder :: int

type_synonym xattrs = "(string \<times> byte list) list"

section \<open>The extended attributes of a file\<close>

record xattr_totals =
  numxattrs :: int
  RFsize :: int
  compattrsize :: int
  xattrssize :: int

definition no_xattrs :: xattr_totals where
  "no_xattrs = \<lparr>numxattrs = 0, RFsize = 0, compattrsize = 0, xattrssize = 0\<rparr>"

definition add_xattr :: "string \<times> byte list \<Rightarrow> xattr_totals \<Rightarrow> xattr_totals" where
  "add_xattr x t =
     (let xattrsize = int (length (snd x)); t1 = t\<lparr>numxattrs := numxattrs t + 1\<rparr> in
      if fst x = XATTR_RESOURCEFORK_NAME \<and> length (fst x) = 22 then t1\<lparr>RFsize := RFsize t1 + xattrsize\<rparr>
      else if fst x = DECMPFS_XATTR_NAME \<and> length (fst x) = 17
      then t1\<lparr>compattrsize := compattrsize t1 + xattrsize\<rparr>
      else t1\<lparr>xattrssize := xattrssize t1 + xattrsize\<rparr>)"

text \<open>\<open>None\<close> is the early return.\<close>

definition sum_xattrs :: "listing_fault \<Rightarrow> xattrs \<Rightarrow> xattr_totals option" where
  "sum_xattrs lf xs =
     (if lf_size lf \<or> xs = [] then Some no_xattrs
      else if lf_malloc lf \<or> lf_list lf then None
      else if list_ex (\<lambda>x. lf_get lf (fst x)) xs then None
      else Some (fold add_xattr xs no_xattrs))"

section \<open>Types\<close>

definition type_matches :: "string \<Rightarrow> string option \<Rightarrow> string list \<Rightarrow> bool" where
  "type_matches ftype ext ts = list_ex (\<lambda>t. strcmp t ftype = 0 \<or> strcmp ''ALL'' t = 0
     \<or> (case ext of None \<Rightarrow> False | Some x \<Rightarrow> strcasecmp x t = 0)) ts"

definition type_requested :: "string \<Rightarrow> string option \<Rightarrow> folder_info \<Rightarrow> bool" where
  "type_requested filepath ftype fi =
     (case (filetypeslist fi, ftype) of
        (Some ts, Some t) \<Rightarrow> type_matches t (file_extension filepath) ts
      | _ \<Rightarrow> False)"

text \<open>The entry of the type, where the type is requested.\<close>

definition find_type :: "string \<Rightarrow> string option \<Rightarrow> folder_info \<Rightarrow> nat option \<times> folder_info" where
  "find_type filepath ftype fi =
     (if type_requested filepath ftype fi then getFileTypeInfo filepath ftype fi else (None, fi))"

text \<open>An update through the pointer to a type entry.\<close>

definition upd_type :: "nat option \<Rightarrow> (filetype_info \<Rightarrow> filetype_info) \<Rightarrow> folder_info \<Rightarrow> folder_info" where
  "upd_type ft f fi =
     (case ft of None \<Rightarrow> fi | Some i \<Rightarrow> fi\<lparr>filetypes := (filetypes fi)[i := f (filetypes fi ! i)]\<rparr>)"

section \<open>Charging sizes\<close>

record charge =
  ch_uncompressed :: int
  ch_uncompressed_rounded :: int
  ch_compressed :: int
  ch_compressed_rounded :: int
  ch_compattr :: int
  ch_total :: int
  ch_num_compressed :: int

definition charge_folder :: "charge \<Rightarrow> folder_info \<Rightarrow> folder_info" where
  "charge_folder c fi = fi\<lparr>
     uncompressed_size := uncompressed_size fi + ch_uncompressed c,
     uncompressed_size_rounded := uncompressed_size_rounded fi + ch_uncompressed_rounded c,
     compressed_size := compressed_size fi + ch_compressed c,
     compressed_size_rounded := compressed_size_rounded fi + ch_compressed_rounded c,
     compattr_size := compattr_size fi + ch_compattr c,
     total_size := total_size fi + ch_total c,
     num_compressed := num_compressed fi + ch_num_compressed c\<rparr>"

definition charge_type :: "charge \<Rightarrow> filetype_info \<Rightarrow> filetype_info" where
  "charge_type c ft = ft\<lparr>
     ft_uncompressed_size := ft_uncompressed_size ft + ch_uncompressed c,
     ft_uncompressed_size_rounded := ft_uncompressed_size_rounded ft + ch_uncompressed_rounded c,
     ft_compressed_size := ft_compressed_size ft + ch_compressed c,
     ft_compressed_size_rounded := ft_compressed_size_rounded ft + ch_compressed_rounded c,
     ft_compattr_size := ft_compattr_size ft + ch_compattr c,
     ft_total_size := ft_total_size ft + ch_total c,
     ft_num_compressed := ft_num_compressed ft + ch_num_compressed c\<rparr>"

text \<open>A file without the compression flag: its data and its resource fork, twice.\<close>

definition plain_charge :: "sys \<Rightarrow> bool \<Rightarrow> stat \<Rightarrow> xattr_totals \<Rightarrow> charge" where
  "plain_charge s apfs st t =
     (let filesize = st_size st + RFsize t;
          filesize_rounded = roundToBlkSize (roundToBlkSize (st_size st) st + RFsize t) st;
          total = filesize_rounded + compattrsize t + xattrssize t
            + (if apfs then 0
               else numxattrs t * sizeof_HFSPlusAttrKey s + sizeof_HFSPlusCatalogFile s)
      in \<lparr>ch_uncompressed = filesize, ch_uncompressed_rounded = filesize_rounded,
          ch_compressed = filesize, ch_compressed_rounded = filesize_rounded,
          ch_compattr = 0, ch_total = total, ch_num_compressed = 0\<rparr>)"

text \<open>A compressed file: its size and the blocks it takes.\<close>

definition compressed_charge :: "stat \<Rightarrow> xattr_totals \<Rightarrow> charge" where
  "compressed_charge st t =
     (let filesize = st_blocks st * S_BLKSIZE
      in \<lparr>ch_uncompressed = st_size st, ch_uncompressed_rounded = roundToBlkSize (st_size st) st,
          ch_compressed = filesize, ch_compressed_rounded = roundToBlkSize filesize st,
          ch_compattr = compattrsize t, ch_total = filesize, ch_num_compressed = 1\<rparr>)"

section \<open>The function\<close>

definition process_file_info ::
    "sys \<Rightarrow> string \<Rightarrow> string option \<Rightarrow> stat \<Rightarrow> xattrs \<Rightarrow> folder_info \<Rightarrow> int \<times> folder_info" where
  "process_file_info s filepath ftype fileinfo xs fi =
     (if sy_quit s In_info filepath then (0, fi)
      else case sum_xattrs (sy_listing s filepath) xs of
        None \<Rightarrow> (0, fi)
      | Some t \<Rightarrow>
          let found = find_type filepath ftype (fi\<lparr>num_files := num_files fi + 1\<rparr>);
              fi1 = upd_type (fst found) (\<lambda>ft. ft\<lparr>ft_num_files := ft_num_files ft + 1\<rparr>) (snd found);
              c = (if \<not> is_flagged (st_flags fileinfo) then plain_charge s (onAPFS fi1) fileinfo t
                   else compressed_charge fileinfo t)
          in (if \<not> is_flagged (st_flags fileinfo) then st_size fileinfo else st_blocks fileinfo * S_BLKSIZE,
              upd_type (fst found) (charge_type c) (charge_folder c fi1)))"

section \<open>What the steps keep\<close>

text \<open>\<open>g\<close> is one of the counters of a type entry.\<close>

definition type_sum :: "(filetype_info \<Rightarrow> int) \<Rightarrow> folder_info \<Rightarrow> int" where
  "type_sum g fi = sum_list (map g (filetypes fi))"

definition counter :: "(filetype_info \<Rightarrow> int) \<Rightarrow> bool" where
  "counter g \<longleftrightarrow> g \<in> {ft_uncompressed_size, ft_uncompressed_size_rounded, ft_compressed_size,
     ft_compressed_size_rounded, ft_compattr_size, ft_total_size, ft_num_compressed, ft_num_files,
     ft_num_hard_link_files}"

lemma counter_laws:
  assumes "counter g"
  shows "g (add_extension_to_filetypeinfo path ft) = g ft" and "g (new_filetype_info t) = 0"
    and "g (ft\<lparr>extensionssize := n\<rparr>) = g ft"
  using assms
  by (auto simp: counter_def add_extension_to_filetypeinfo_def new_filetype_info_def Let_def
      split: option.splits sum.splits)

lemma sum_list_insert:
  "i \<le> length xs \<Longrightarrow> sum_list (map g (table_insert i x xs)) = (g x :: int) + sum_list (map g xs)"
proof -
  have "sum_list (map g (take i xs)) + sum_list (map g (drop i xs)) = sum_list (map g xs)"
    by (simp add: take_map [symmetric] drop_map [symmetric] sum_list_append [symmetric]
        del: sum_list_append)
  then show ?thesis by (simp add: table_insert_def)
qed

lemma sum_list_upd:
  "i < length xs \<Longrightarrow> sum_list (map g (xs[i := x])) = (g x :: int) + sum_list (map g xs) - g (xs ! i)"
proof (induction xs arbitrary: i)
  case (Cons a xs)
  then show ?case by (cases i) auto
qed simp

lemma getFileTypeInfo_index:
  assumes "type_table_ok fi" and "getFileTypeInfo path (Some t) fi = (r, fi')"
  obtains i where "r = Some i" and "i < length (filetypes fi')"
    and "filetype (filetypes fi' ! i) = t"
  using assms
  by (cases rule: getFileTypeInfo_cases [of fi path t])
    (force simp: table_insert_def nth_append new_filetype_info_def)+

lemma getFileTypeInfo_sum:
  assumes "type_table_ok fi" and "counter g"
  shows "type_sum g (snd (getFileTypeInfo path ftype fi)) = type_sum g fi"
proof (cases ftype)
  case None
  then show ?thesis by (simp add: getFileTypeInfo_def)
next
  case (Some t)
  from assms(1) show ?thesis
    by (cases rule: getFileTypeInfo_cases [of fi path t])
      (simp_all add: Some type_sum_def sum_list_upd sum_list_insert counter_laws [OF assms(2)])
qed

lemma getFileTypeInfo_frame [simp]:
  "num_files (snd (getFileTypeInfo path ftype fi)) = num_files fi"
  "num_folders (snd (getFileTypeInfo path ftype fi)) = num_folders fi"
  "num_hard_link_files (snd (getFileTypeInfo path ftype fi)) = num_hard_link_files fi"
  "num_hard_link_folders (snd (getFileTypeInfo path ftype fi)) = num_hard_link_folders fi"
  "uncompressed_size (snd (getFileTypeInfo path ftype fi)) = uncompressed_size fi"
  "compressed_size (snd (getFileTypeInfo path ftype fi)) = compressed_size fi"
  "total_size (snd (getFileTypeInfo path ftype fi)) = total_size fi"
  "num_compressed (snd (getFileTypeInfo path ftype fi)) = num_compressed fi"
  "onAPFS (snd (getFileTypeInfo path ftype fi)) = onAPFS fi"
  "check_files (snd (getFileTypeInfo path ftype fi)) = check_files fi"
  "compress_files (snd (getFileTypeInfo path ftype fi)) = compress_files fi"
  "check_hard_links (snd (getFileTypeInfo path ftype fi)) = check_hard_links fi"
  "filetypeslist (snd (getFileTypeInfo path ftype fi)) = filetypeslist fi"
  "invert_filetypelist (snd (getFileTypeInfo path ftype fi)) = invert_filetypelist fi"
  by (auto simp: getFileTypeInfo_def Let_def split: option.splits sum.splits)

lemma upd_type_frame [simp]:
  "num_files (upd_type i f fi) = num_files fi"
  "num_folders (upd_type i f fi) = num_folders fi"
  "num_hard_link_files (upd_type i f fi) = num_hard_link_files fi"
  "num_hard_link_folders (upd_type i f fi) = num_hard_link_folders fi"
  "uncompressed_size (upd_type i f fi) = uncompressed_size fi"
  "compressed_size (upd_type i f fi) = compressed_size fi"
  "total_size (upd_type i f fi) = total_size fi"
  "num_compressed (upd_type i f fi) = num_compressed fi"
  "onAPFS (upd_type i f fi) = onAPFS fi"
  "check_files (upd_type i f fi) = check_files fi"
  "compress_files (upd_type i f fi) = compress_files fi"
  "check_hard_links (upd_type i f fi) = check_hard_links fi"
  "filetypeslist (upd_type i f fi) = filetypeslist fi"
  "invert_filetypelist (upd_type i f fi) = invert_filetypelist fi"
  by (simp_all add: upd_type_def split: option.splits)

lemma upd_type_ok:
  assumes "type_table_ok fi"
    and "\<And>ft. filetype (f ft) = filetype ft \<and> extensions (f ft) = extensions ft
           \<and> extensionssize (f ft) = extensionssize ft"
    and "\<And>k. i = Some k \<Longrightarrow> k < length (filetypes fi)"
  shows "type_table_ok (upd_type i f fi)"
proof (cases i)
  case None
  with assms(1) show ?thesis by (simp add: upd_type_def)
next
  case (Some k)
  have ord: "ftab.ordered (filetypes fi)" using assms(1) by (simp add: type_table_ok_def)
  have "ftab.ordered ((filetypes fi)[k := f (filetypes fi ! k)])"
    using assms(2,3) Some by (intro ftab.ordered_update [OF ord]) simp_all
  moreover have "ext_table_ok (f (filetypes fi ! k))"
    using assms Some by (auto simp: type_table_ok_def ext_table_ok_def)
  ultimately show ?thesis
    using assms(1) Some
    by (auto simp: upd_type_def type_table_ok_def dest: set_update_subset_insert [THEN subsetD])
qed

lemma upd_type_sum:
  "i < length (filetypes fi) \<Longrightarrow>
     type_sum g (upd_type (Some i) f fi)
       = type_sum g fi + (g (f (filetypes fi ! i)) - g (filetypes fi ! i))"
  by (simp add: upd_type_def type_sum_def sum_list_upd)

lemma length_upd_type [simp]: "length (filetypes (upd_type i f fi)) = length (filetypes fi)"
  by (simp add: upd_type_def split: option.splits)

lemma charge_folder_frame [simp]:
  "filetypes (charge_folder c fi) = filetypes fi" "filetypessize (charge_folder c fi) = filetypessize fi"
  "type_table_ok (charge_folder c fi) = type_table_ok fi"
  "type_sum g (charge_folder c fi) = type_sum g fi"
  "num_files (charge_folder c fi) = num_files fi" "num_folders (charge_folder c fi) = num_folders fi"
  "num_hard_link_files (charge_folder c fi) = num_hard_link_files fi"
  "num_hard_link_folders (charge_folder c fi) = num_hard_link_folders fi"
  "onAPFS (charge_folder c fi) = onAPFS fi" "check_files (charge_folder c fi) = check_files fi"
  "compress_files (charge_folder c fi) = compress_files fi"
  "check_hard_links (charge_folder c fi) = check_hard_links fi"
  "filetypeslist (charge_folder c fi) = filetypeslist fi"
  "invert_filetypelist (charge_folder c fi) = invert_filetypelist fi"
  by (simp_all add: charge_folder_def type_table_ok_def type_sum_def)

definition file_charge :: "sys \<Rightarrow> bool \<Rightarrow> stat \<Rightarrow> xattr_totals \<Rightarrow> charge" where
  "file_charge s apfs st t =
     (if \<not> is_flagged (st_flags st) then plain_charge s apfs st t else compressed_charge st t)"

text \<open>The function on a file that is counted.\<close>

lemma find_type_frame [simp]:
  "num_files (snd (find_type path ftype fi)) = num_files fi"
  "num_folders (snd (find_type path ftype fi)) = num_folders fi"
  "num_hard_link_files (snd (find_type path ftype fi)) = num_hard_link_files fi"
  "num_hard_link_folders (snd (find_type path ftype fi)) = num_hard_link_folders fi"
  "uncompressed_size (snd (find_type path ftype fi)) = uncompressed_size fi"
  "compressed_size (snd (find_type path ftype fi)) = compressed_size fi"
  "total_size (snd (find_type path ftype fi)) = total_size fi"
  "num_compressed (snd (find_type path ftype fi)) = num_compressed fi"
  "onAPFS (snd (find_type path ftype fi)) = onAPFS fi"
  "check_files (snd (find_type path ftype fi)) = check_files fi"
  "compress_files (snd (find_type path ftype fi)) = compress_files fi"
  "check_hard_links (snd (find_type path ftype fi)) = check_hard_links fi"
  "filetypeslist (snd (find_type path ftype fi)) = filetypeslist fi"
  "invert_filetypelist (snd (find_type path ftype fi)) = invert_filetypelist fi"
  by (simp_all add: find_type_def)

lemma process_file_info_skipped:
  "sy_quit s In_info path \<or> sum_xattrs (sy_listing s path) xs = None \<Longrightarrow>
     process_file_info s path ftype st xs fi = (0, fi)"
  by (auto simp: process_file_info_def)

lemma process_file_info_counted:
  assumes "\<not> sy_quit s In_info path" and "sum_xattrs (sy_listing s path) xs = Some t"
  shows "process_file_info s path ftype st xs fi =
      (if \<not> is_flagged (st_flags st) then st_size st else st_blocks st * S_BLKSIZE,
       upd_type (fst (find_type path ftype (fi\<lparr>num_files := num_files fi + 1\<rparr>)))
         (charge_type (file_charge s (onAPFS fi) st t))
         (charge_folder (file_charge s (onAPFS fi) st t)
           (upd_type (fst (find_type path ftype (fi\<lparr>num_files := num_files fi + 1\<rparr>)))
             (\<lambda>ft. ft\<lparr>ft_num_files := ft_num_files ft + 1\<rparr>)
             (snd (find_type path ftype (fi\<lparr>num_files := num_files fi + 1\<rparr>))))))"
  using assms by (simp add: process_file_info_def Let_def file_charge_def)

lemma type_requested_Some: "type_requested path ftype fi \<Longrightarrow> \<exists>t. ftype = Some t"
  by (auto simp: type_requested_def split: option.splits)

lemma upd_type_None [simp]: "upd_type None f fi = fi"
  by (simp add: upd_type_def)

lemma charge_type_keeps [simp]:
  "filetype (charge_type c ft) = filetype ft" "extensions (charge_type c ft) = extensions ft"
  "extensionssize (charge_type c ft) = extensionssize ft"
  "ft_num_files (charge_type c ft) = ft_num_files ft"
  "ft_num_hard_link_files (charge_type c ft) = ft_num_hard_link_files ft"
  "ft_uncompressed_size (charge_type c ft) = ft_uncompressed_size ft + ch_uncompressed c"
  "ft_compressed_size (charge_type c ft) = ft_compressed_size ft + ch_compressed c"
  "ft_total_size (charge_type c ft) = ft_total_size ft + ch_total c"
  "ft_num_compressed (charge_type c ft) = ft_num_compressed ft + ch_num_compressed c"
  by (simp_all add: charge_type_def)

text \<open>Everything a counted file changes.\<close>

lemma process_file_info_effect:
  fixes ftype :: "string option" and st :: stat
  assumes ok: "type_table_ok fi" and "\<not> sy_quit s In_info path"
    and "sum_xattrs (sy_listing s path) xs = Some t"
  defines "fi' \<equiv> snd (process_file_info s path ftype st xs fi)"
    and "c \<equiv> file_charge s (onAPFS fi) st t" and "r \<equiv> type_requested path ftype fi"
  shows "type_table_ok fi'" and "num_files fi' = num_files fi + 1"
    and "uncompressed_size fi' = uncompressed_size fi + ch_uncompressed c"
    and "compressed_size fi' = compressed_size fi + ch_compressed c"
    and "total_size fi' = total_size fi + ch_total c"
    and "num_compressed fi' = num_compressed fi + ch_num_compressed c"
    and "type_sum ft_num_files fi' = type_sum ft_num_files fi + of_bool r"
    and "type_sum ft_num_hard_link_files fi' = type_sum ft_num_hard_link_files fi"
    and "type_sum ft_uncompressed_size fi' = type_sum ft_uncompressed_size fi + of_bool r * ch_uncompressed c"
    and "type_sum ft_compressed_size fi' = type_sum ft_compressed_size fi + of_bool r * ch_compressed c"
    and "type_sum ft_total_size fi' = type_sum ft_total_size fi + of_bool r * ch_total c"
proof -
  define fi1 where "fi1 = fi\<lparr>num_files := num_files fi + 1\<rparr>"
  have ok1: "type_table_ok fi1" using ok by (simp add: type_table_ok_def fi1_def)
  have req: "type_requested path ftype fi1 \<longleftrightarrow> r"
    by (simp add: r_def type_requested_def fi1_def)
  define i where "i = fst (find_type path ftype fi1)"
  define fi2 where "fi2 = snd (find_type path ftype fi1)"
  have fi': "fi' = upd_type i (charge_type c) (charge_folder c
        (upd_type i (\<lambda>ft. ft\<lparr>ft_num_files := ft_num_files ft + 1\<rparr>) fi2))"
    unfolding fi'_def process_file_info_counted [OF assms(2,3)]
    by (simp add: i_def fi2_def fi1_def c_def)
  have fr: "fi2 = snd (if r then getFileTypeInfo path ftype fi1 else (None, fi1))"
    and i: "i = fst (if r then getFileTypeInfo path ftype fi1 else (None, fi1))"
    by (simp_all add: fi2_def i_def find_type_def req)
  have ok2: "type_table_ok fi2"
    unfolding fr using ok1 getFileTypeInfo_ok [OF ok1, of path ftype] by simp
  have frame: "num_files fi2 = num_files fi + 1" "uncompressed_size fi2 = uncompressed_size fi"
    "compressed_size fi2 = compressed_size fi" "total_size fi2 = total_size fi"
    "num_compressed fi2 = num_compressed fi"
    unfolding fr by (simp_all add: fi1_def)
  have sum2: "counter g \<Longrightarrow> type_sum g fi2 = type_sum g fi" for g
    unfolding fr using getFileTypeInfo_sum [OF ok1] by (simp add: type_sum_def fi1_def)
  have idx: "if r then (\<exists>k. i = Some k \<and> k < length (filetypes fi2)) else i = None"
  proof (cases r)
    case True
    then obtain tt where "ftype = Some tt" using type_requested_Some [of path ftype fi] by (auto simp: r_def)
    with True i fr have "getFileTypeInfo path (Some tt) fi1 = (i, fi2)" by simp
    from getFileTypeInfo_index [OF ok1 this] True show ?thesis by metis
  qed (use i in simp)
  have "type_table_ok (upd_type i (\<lambda>ft. ft\<lparr>ft_num_files := ft_num_files ft + 1\<rparr>) fi2)"
    using idx by (intro upd_type_ok [OF ok2]) (auto split: if_splits)
  then show "type_table_ok fi'"
    unfolding fi' using idx by (intro upd_type_ok) (auto split: if_splits)
  show "num_files fi' = num_files fi + 1" "uncompressed_size fi' = uncompressed_size fi + ch_uncompressed c"
    "compressed_size fi' = compressed_size fi + ch_compressed c" "total_size fi' = total_size fi + ch_total c"
    "num_compressed fi' = num_compressed fi + ch_num_compressed c"
    unfolding fi' by (simp_all add: frame charge_folder_def)
  note cs = sum2 [of ft_num_files] sum2 [of ft_num_hard_link_files] sum2 [of ft_uncompressed_size]
    sum2 [of ft_compressed_size] sum2 [of ft_total_size]
  show "type_sum ft_num_files fi' = type_sum ft_num_files fi + of_bool r"
    "type_sum ft_num_hard_link_files fi' = type_sum ft_num_hard_link_files fi"
    "type_sum ft_uncompressed_size fi' = type_sum ft_uncompressed_size fi + of_bool r * ch_uncompressed c"
    "type_sum ft_compressed_size fi' = type_sum ft_compressed_size fi + of_bool r * ch_compressed c"
    "type_sum ft_total_size fi' = type_sum ft_total_size fi + of_bool r * ch_total c"
    unfolding fi' using idx cs by (auto simp: counter_def upd_type_sum split: if_splits)
qed

section \<open>Properties\<close>


definition quiet_fault :: listing_fault where
  "quiet_fault = \<lparr>lf_size = False, lf_malloc = False, lf_list = False, lf_get = (\<lambda>_. False)\<rparr>"

definition sample_sys :: sys where
  "sample_sys = \<lparr>sy_env = (\<lambda>_. sample_env), sy_codecs = halving_codecs, sy_heap = sample_heap, sy_quit = (\<lambda>_ _. False),
     sy_listing = (\<lambda>_. quiet_fault), sy_getFileType = (\<lambda>_. Some ''public.text''),
     sizeof_HFSPlusAttrKey = 268, sizeof_HFSPlusCatalogFile = 248, sizeof_HFSPlusCatalogFolder = 88\<rparr>"


end
