(* ===== verification/Disk.thy ===== *)
theory Disk
  imports FileStats
begin

text \<open>
  Many files: the nodes of the file system by inode number, \<open>compressFile\<close> on one of them, and
  \<open>lstat\<close>. A run with the file check on leaves what every reader sees unchanged, provided the
  calls named by \<open>safe_env\<close> work.
\<close>

record disk =
  dk_nodes :: "nat \<Rightarrow> fnode"
  dk_skipped :: int
  dk_maxOutBufSize :: nat

definition disk_world :: "stat \<Rightarrow> folder_info \<Rightarrow> disk \<Rightarrow> world" where
  "disk_world st fi dk =
     \<lparr>wnode = dk_nodes dk (st_ino st), winfo = st, wbackup = None, wbackupName = False,
      wlocked = False, wskipped = dk_skipped dk, wAPFS = onAPFS fi,
      wdata_compressed_size = data_compressed_size fi, wmaxOutBufSize = dk_maxOutBufSize dk\<rparr>"

text \<open>The exit, \<open>*inFileInfo\<close>, \<open>*folderinfo\<close> and the disk after \<open>compressFile\<close>; \<open>has_w\<close> says that
  a worker is passed.\<close>

definition compress_on_disk ::
    "sys \<Rightarrow> bool \<Rightarrow> stat \<Rightarrow> folder_info \<Rightarrow> disk \<Rightarrow> exit \<times> stat \<times> folder_info \<times> disk" where
  "compress_on_disk s has_w st fi dk =
     (let r = compressFile ((sy_env s (st_ino st))\<lparr>has_worker := has_w\<rparr>) (sy_codecs s) (sy_heap s) fi
                (disk_world st fi dk);
          w = snd r
      in (fst r, winfo w,
          fi\<lparr>onAPFS := wAPFS w, data_compressed_size := wdata_compressed_size w\<rparr>,
          \<lparr>dk_nodes = (dk_nodes dk)(st_ino st := wnode w), dk_skipped = wskipped w,
           dk_maxOutBufSize = wmaxOutBufSize w\<rparr>))"

definition disk_lstat :: "sys \<Rightarrow> stat \<Rightarrow> disk \<Rightarrow> stat" where
  "disk_lstat s st dk =
     (let nd = dk_nodes dk (st_ino st); e = sy_env s (st_ino st)
      in st\<lparr>st_mode := f_mode nd, st_flags := f_flags nd, st_size := vfs_size e nd,
            st_blocks := kblocks e nd\<rparr>)"

definition disk_reads :: "sys \<Rightarrow> disk \<Rightarrow> nat \<Rightarrow> byte list" where
  "disk_reads s dk ino = vfs_read (sy_env s ino) (dk_nodes dk ino)"

text \<open>The status agrees with the file.\<close>

definition agrees :: "sys \<Rightarrow> stat \<Rightarrow> disk \<Rightarrow> bool" where
  "agrees s st dk \<longleftrightarrow> st_flags st = f_flags (dk_nodes dk (st_ino st))
     \<and> st_mode st = f_mode (dk_nodes dk (st_ino st))
     \<and> st_size st = int (length (disk_reads s dk (st_ino st)))"

text \<open>The calls that must work for a file with contents \<open>d\<close>.\<close>

definition safe_env :: "env \<Rightarrow> byte list \<Rightarrow> bool" where
  "safe_env e d \<longleftrightarrow> list_all (\<lambda>x. \<not> fails e x)
       [Chflags_clear, Listxattr_size, Setxattr_decmpfs, Restore_write, Mmap_check, Chflags_revert,
        Fopen_revert, Fwrite_revert]
     \<and> (uses_mmap (length d) \<longrightarrow> (\<forall>nd. mapped e d nd = Some d))"

lemma compress_keeps_reads:
  assumes "check_files fi" and "safe_env e (vfs_read e (wnode w))"
    and "st_size (winfo w) = int (length (vfs_read e (wnode w)))"
    and "st_flags (winfo w) = f_flags (wnode w)" and "st_mode (winfo w) = f_mode (wnode w)"
  shows "vfs_read e (wnode (snd (compressFile e cdc hp fi w))) = vfs_read e (wnode w)"
proof (cases "is_flagged (f_flags (wnode w))")
  case True
  then have "\<not> fst (fileIsCompressable e (winfo w) (compressiontype fi))"
    using assms(4) by (simp add: fileIsCompressable_def Let_def)
  then have "cf_entry e fi w = Inl (Returned, if quitRequested e then w
      else w\<lparr>wAPFS := snd (fileIsCompressable e (winfo w) (compressiontype fi))\<rparr>)"
    by (simp add: cf_entry_def Let_def)
  then show ?thesis by (simp add: compressFile_def cf_body_def Let_def)
next
  case False
  define d where "d = f_data (wnode w)"
  have d: "vfs_read e (wnode w) = d" using False by (simp add: vfs_read_def d_def)
  have fresh: "fresh_file d w" using assms(3-5) False by (simp add: fresh_file_def d d_def [symmetric])
  have "\<forall>mm. (mm \<longrightarrow> uses_mmap (length d)) \<longrightarrow> faults_ok False e mm d"
    using assms(2) by (auto simp: faults_ok_def safe_env_def in_view_def d)
  moreover obtain x w' where r: "compressFile e cdc hp fi w = (x, w')" by (cases "compressFile e cdc hp fi w")
  ultimately show ?thesis
    using compressFile_result [OF fresh _ _ _ assms(1) _ _ r, of False] assms(2)
    by (simp add: safe_env_def d)
qed

lemma vfs_read_worker [simp]: "vfs_read (e\<lparr>has_worker := b\<rparr>) nd = vfs_read e nd"
  by (simp add: vfs_read_def)

lemma safe_env_worker [simp]: "safe_env (e\<lparr>has_worker := b\<rparr>) d = safe_env e d"
  by (simp add: safe_env_def)

lemma compress_on_disk_reads:
  assumes "check_files fi" and "agrees s st dk"
    and "safe_env (sy_env s (st_ino st)) (disk_reads s dk (st_ino st))"
    and "compress_on_disk s has_w st fi dk = (x, st', fi', dk')"
  shows "disk_reads s dk' = disk_reads s dk"
proof
  fix ino
  let ?e = "(sy_env s (st_ino st))\<lparr>has_worker := has_w\<rparr>"
  let ?w = "disk_world st fi dk"
  have "vfs_read ?e (wnode (snd (compressFile ?e (sy_codecs s) (sy_heap s) fi ?w))) = vfs_read ?e (wnode ?w)"
    using assms(2,3) by (intro compress_keeps_reads [OF assms(1)])
      (simp_all add: disk_world_def agrees_def disk_reads_def)
  then show "disk_reads s dk' ino = disk_reads s dk ino"
    using assms(4) by (auto simp: compress_on_disk_def Let_def disk_reads_def disk_world_def)
qed

lemma compress_on_disk_settings:
  assumes "compress_on_disk s has_w st fi dk = (x, st', fi', dk')"
  obtains a z where "fi' = fi\<lparr>onAPFS := a, data_compressed_size := z\<rparr>"
  using assms by (auto simp: compress_on_disk_def Let_def)

text \<open>A disk full of sample files.\<close>

definition sample_disk :: disk where
  "sample_disk = \<lparr>dk_nodes = (\<lambda>_. sample_node), dk_skipped = 0, dk_maxOutBufSize = 0\<rparr>"

end
