(* ===== verification/FileQueue.thy ===== *)
theory FileQueue
  imports Disk HashMap Mutex "HOL-Library.Multiset"
begin

text \<open>
  The queue of the parallel tools (src/ParallelProcess_p.hpp, src/ParallelProcess.cpp): file
  entries with their own or a shared copy of the settings, the double-ended queue the workers
  take from at either end, the registry of the names in it, and the operations of the C interface
  that fill it. The processor's own locks make each queue operation one step.
\<close>

section \<open>File entries\<close>

text \<open>The settings an entry points to: none, those of the caller, or a copy the entry owns.\<close>

datatype info_ref = NullInfo | SharedInfo | OwnInfo folder_info

record file_entry =
  fileName :: string
  fileInfo :: stat
  folderInfo :: info_ref
  freeFolderInfo :: bool
  compressedSize :: int

definition zero_stat :: stat where
  "zero_stat = \<lparr>st_mode = 0, st_size = 0, st_blocks = 0, st_blksize = 0, st_flags = 0, st_ino = 0,
     st_nlink = 0, st_atimespec = (0, 0), st_mtimespec = (0, 0)\<rparr>"

definition FileEntry0 :: file_entry where
  "FileEntry0 = \<lparr>fileName = [], fileInfo = zero_stat, folderInfo = NullInfo, freeFolderInfo = False,
     compressedSize = 0\<rparr>"

text \<open>The copy constructor of \<open>FolderInfo\<close> drops the list of types.\<close>

definition copy_folder_info :: "folder_info \<Rightarrow> folder_info" where
  "copy_folder_info src = src\<lparr>filetypeslist := None\<rparr>"

definition FileEntry :: "string \<Rightarrow> stat \<Rightarrow> folder_info \<Rightarrow> bool \<Rightarrow> file_entry" where
  "FileEntry name finfo dinfo ownInfo =
     \<lparr>fileName = name, fileInfo = finfo,
      folderInfo = (if ownInfo then OwnInfo (copy_folder_info dinfo) else SharedInfo),
      freeFolderInfo = ownInfo, compressedSize = 0\<rparr>"

text \<open>Assignment does not copy \<open>compressedSize\<close>; a copy has what was in the memory it is built in.\<close>

definition assign_entry :: "file_entry \<Rightarrow> file_entry \<Rightarrow> file_entry" where
  "assign_entry this ref = this\<lparr>fileName := fileName ref, fileInfo := fileInfo ref,
     folderInfo := (if freeFolderInfo ref
       then (case folderInfo ref of OwnInfo fi \<Rightarrow> OwnInfo (copy_folder_info fi) | r \<Rightarrow> r)
       else folderInfo ref),
     freeFolderInfo := freeFolderInfo ref\<rparr>"

definition copy_entry :: "int \<Rightarrow> file_entry \<Rightarrow> file_entry" where
  "copy_entry old ref = assign_entry (FileEntry0\<lparr>compressedSize := old\<rparr>) ref"

lemma assign_entry_simps [simp]:
  "fileName (assign_entry this ref) = fileName ref" "fileInfo (assign_entry this ref) = fileInfo ref"
  "compressedSize (assign_entry this ref) = compressedSize this"
  "fileName (copy_entry old ref) = fileName ref" "fileInfo (copy_entry old ref) = fileInfo ref"
  by (simp_all add: assign_entry_def copy_entry_def)

section \<open>The processor\<close>

type_synonym 'm name_ops = "(string, unit, 'm) hash_ops"

record 'm pool =
  itemList :: "file_entry list"
  itemMapForName :: 'm
  quitRequestedFlag :: bool
  nJobs :: int
  nReverse :: int
  nProcessing :: int
  nProcessed :: int
  allDoneEvent :: "bool option"
  verboseLevel :: int
  jobInfo :: folder_info

definition createParallelProcessor :: "'m name_ops \<Rightarrow> int \<Rightarrow> int \<Rightarrow> int \<Rightarrow> 'm pool" where
  "createParallelProcessor ops n r verbose =
     \<lparr>itemList = [], itemMapForName = h_clear ops, quitRequestedFlag = False, nJobs = n,
      nReverse = r, nProcessing = 0, nProcessed = 0, allDoneEvent = None, verboseLevel = verbose,
      jobInfo = empty_info\<rparr>"

definition setJobs :: "bool \<Rightarrow> int \<Rightarrow> int \<Rightarrow> 'm pool \<Rightarrow> bool \<times> 'm pool" where
  "setJobs poolEmpty n r p =
     (if poolEmpty \<and> n > 0 \<and> n \<ge> r then (True, p\<lparr>nJobs := n, nReverse := r\<rparr>) else (False, p))"

definition getFront :: "'m pool \<Rightarrow> (file_entry \<times> 'm pool) option" where
  "getFront p = (case itemList p of [] \<Rightarrow> None | e # es \<Rightarrow> Some (e, p\<lparr>itemList := es\<rparr>))"

definition getBack :: "'m pool \<Rightarrow> (file_entry \<times> 'm pool) option" where
  "getBack p = (if itemList p = [] then None
     else Some (last (itemList p), p\<lparr>itemList := butlast (itemList p)\<rparr>))"

definition setQuitRequested :: "bool \<Rightarrow> 'm pool \<Rightarrow> bool \<times> 'm pool" where
  "setQuitRequested val p = (quitRequestedFlag p, p\<lparr>quitRequestedFlag := val\<rparr>)"

definition addFileToParallelProcessor ::
    "'m name_ops \<Rightarrow> int \<Rightarrow> string \<Rightarrow> stat \<Rightarrow> folder_info \<Rightarrow> bool \<Rightarrow> 'm pool \<Rightarrow> bool \<times> 'm pool" where
  "addFileToParallelProcessor ops old inFile inFileInfo fi ownInfo p =
     (if \<not> h_count ops (itemMapForName p) inFile then
        let entry = (if ownInfo then FileEntry inFile inFileInfo (copy_folder_info fi) ownInfo
                     else FileEntry inFile inFileInfo fi ownInfo)
        in (True, p\<lparr>itemList := itemList p @ [copy_entry old entry],
                    itemMapForName := h_insert ops (itemMapForName p) inFile ()\<rparr>)
      else (False, p))"

text \<open>\<open>std::sort\<close> by size: some ordered rearrangement.\<close>

definition sizeLess :: "file_entry \<Rightarrow> file_entry \<Rightarrow> bool" where
  "sizeLess a b \<longleftrightarrow> st_size (fileInfo a) < st_size (fileInfo b)"

definition sorted_by_size :: "file_entry list \<Rightarrow> file_entry list \<Rightarrow> bool" where
  "sorted_by_size xs ys \<longleftrightarrow> mset ys = mset xs \<and> sorted_wrt (\<lambda>a b. \<not> sizeLess b a) ys"

definition sortFilesInParallelProcessorBySize ::
    "(file_entry list \<Rightarrow> file_entry list) \<Rightarrow> 'm pool \<Rightarrow> bool \<times> 'm pool" where
  "sortFilesInParallelProcessorBySize std_sort p =
     (if itemList p \<noteq> [] then (True, p\<lparr>itemList := std_sort (itemList p)\<rparr>) else (False, p))"

definition filesInParallelProcessor :: "'m pool \<Rightarrow> nat" where
  "filesInParallelProcessor p = length (itemList p)"

text \<open>A worker that is done; the result is the number of workers left.\<close>

definition workerDone :: "'m pool \<Rightarrow> int \<times> 'm pool" where
  "workerDone p =
     (let p1 = p\<lparr>nJobs := nJobs p - 1\<rparr>;
          p2 = (if nJobs p1 \<le> 0 \<and> allDoneEvent p1 \<noteq> None then p1\<lparr>allDoneEvent := Some True\<rparr> else p1)
      in (nJobs p2, p2))"

lemma workerDone_fields [simp]:
  "nJobs (snd (workerDone p)) = nJobs p - 1"
  "quitRequestedFlag (snd (workerDone p)) = quitRequestedFlag p"
  "itemList (snd (workerDone p)) = itemList p"
  by (simp_all add: workerDone_def Let_def)

section \<open>The interface of the queue\<close>

locale work_deque =
  fixes front :: "'q \<Rightarrow> ('a \<times> 'q) option"
    and rear :: "'q \<Rightarrow> ('a \<times> 'q) option"
    and contents :: "'q \<Rightarrow> 'a list"
  assumes front_empty: "front q = None \<longleftrightarrow> contents q = []"
    and rear_empty: "rear q = None \<longleftrightarrow> contents q = []"
    and front_item: "front q = Some (a, q') \<Longrightarrow> contents q = a # contents q'"
    and rear_item: "rear q = Some (a, q') \<Longrightarrow> contents q = contents q' @ [a]"
begin

definition take_end :: "bool \<Rightarrow> 'q \<Rightarrow> ('a \<times> 'q) option" where
  "take_end fromRear q = (if fromRear then rear q else front q)"

lemma take_empty: "take_end r q = None \<longleftrightarrow> contents q = []"
  by (simp add: take_end_def front_empty rear_empty)

lemma take_mset: "take_end r q = Some (a, q') \<Longrightarrow> mset (contents q) = add_mset a (mset (contents q'))"
  by (auto simp: take_end_def dest: front_item rear_item split: if_splits)

lemma take_length: "take_end r q = Some (a, q') \<Longrightarrow> length (contents q) = length (contents q') + 1"
  by (auto simp: take_end_def dest: front_item rear_item split: if_splits)

end

interpretation wq: work_deque getFront getBack itemList
  by unfold_locales (auto simp: getFront_def getBack_def split: list.splits if_splits)

section \<open>Filling the queue\<close>

text \<open>The keys of the registry that are not reserved, and the invariant while the queue is filled:
  the names in the queue are distinct and are the registered ones.\<close>

definition valid_name :: "string \<Rightarrow> bool" where
  "valid_name n \<longleftrightarrow> n \<noteq> [] \<and> n \<noteq> ''/dev/null''"

definition registered :: "'m name_ops \<Rightarrow> 'm pool \<Rightarrow> bool" where
  "registered ops p \<longleftrightarrow> distinct (map fileName (itemList p))
     \<and> (\<forall>n. valid_name n \<longrightarrow> (h_count ops (itemMapForName p) n \<longleftrightarrow> n \<in> fileName ` set (itemList p)))
     \<and> (\<forall>e \<in> set (itemList p). valid_name (fileName e))"

lemma registered_new:
  "hash_laws ops valid_name \<Longrightarrow> registered ops (createParallelProcessor ops n r v)"
  by (simp add: registered_def createParallelProcessor_def h_count_lookup hash_laws_simps)

lemma registered_add:
  assumes "hash_laws ops valid_name" and "registered ops p" and "valid_name name"
  shows "registered ops (snd (addFileToParallelProcessor ops old name st fi own p))"
    and "fst (addFileToParallelProcessor ops old name st fi own p) \<longleftrightarrow> name \<notin> fileName ` set (itemList p)"
proof -
  have c: "h_count ops (itemMapForName p) name \<longleftrightarrow> name \<in> fileName ` set (itemList p)"
    using assms(2,3) by (simp add: registered_def)
  have ins: "valid_name n \<Longrightarrow> h_count ops (h_insert ops (itemMapForName p) name ()) n \<longleftrightarrow>
      n = name \<or> h_count ops (itemMapForName p) n" for n
    unfolding h_count_lookup using hash_laws_simps(2) [OF assms(1,3), of n "itemMapForName p" "()"] by simp
  show "fst (addFileToParallelProcessor ops old name st fi own p) \<longleftrightarrow> name \<notin> fileName ` set (itemList p)"
    by (simp add: addFileToParallelProcessor_def Let_def c)
  show "registered ops (snd (addFileToParallelProcessor ops old name st fi own p))"
    using assms(2,3) c
    by (auto simp: addFileToParallelProcessor_def Let_def registered_def ins FileEntry_def)
qed

text \<open>A list of files added one after the other.\<close>

fun add_files ::
    "'m name_ops \<Rightarrow> int \<Rightarrow> (string \<times> stat \<times> folder_info \<times> bool) list \<Rightarrow> 'm pool \<Rightarrow> 'm pool" where
  "add_files ops old [] p = p"
| "add_files ops old ((name, st, fi, own) # fs) p =
     add_files ops old fs (snd (addFileToParallelProcessor ops old name st fi own p))"

lemma add_names:
  assumes "hash_laws ops valid_name" and "registered ops p" and "valid_name name"
  shows "set (map fileName (itemList (snd (addFileToParallelProcessor ops old name st fi own p))))
    = insert name (fileName ` set (itemList p))"
  using registered_add(2) [OF assms, of old st fi own]
  by (auto simp: addFileToParallelProcessor_def Let_def FileEntry_def split: if_splits)

lemma add_files_registered:
  assumes "hash_laws ops valid_name" and "registered ops p" and "\<forall>f \<in> set fs. valid_name (fst f)"
  shows "registered ops (add_files ops old fs p) \<and>
    fileName ` set (itemList (add_files ops old fs p)) = fileName ` set (itemList p) \<union> fst ` set fs"
  using assms(2,3)
proof (induction fs arbitrary: p)
  case (Cons f fs)
  obtain name st fi own where f: "f = (name, st, fi, own)" by (cases f)
  define q where "q = snd (addFileToParallelProcessor ops old name st fi own p)"
  have v: "valid_name name" using Cons.prems(2) f by simp
  have q: "registered ops q" "fileName ` set (itemList q) = insert name (fileName ` set (itemList p))"
    using registered_add(1) [OF assms(1) Cons.prems(1) v, of old st fi own]
      add_names [OF assms(1) Cons.prems(1) v, of old st fi own] by (simp_all add: q_def)
  show ?case
    using Cons.IH [OF q(1)] Cons.prems(2) by (simp add: f q_def [symmetric] q(2))
qed simp

text \<open>C26: however often a file is presented, it enters the queue once: the names in the queue are
  distinct and are exactly those that were presented.\<close>

theorem queue_has_each_file_once:
  assumes "hash_laws ops valid_name" and "\<forall>f \<in> set fs. valid_name (fst f)"
    and "p = add_files ops old fs (createParallelProcessor ops n r v)"
  shows "distinct (map fileName (itemList p)) \<and> fileName ` set (itemList p) = fst ` set fs
    \<and> (\<forall>name. valid_name name \<longrightarrow> h_count ops (itemMapForName p) name = (name \<in> fst ` set fs))"
proof -
  have "itemList (createParallelProcessor ops n r v) = []" by (simp add: createParallelProcessor_def)
  with add_files_registered [OF assms(1) registered_new [OF assms(1)] assms(2), of old n r v]
  show ?thesis by (simp add: assms(3) registered_def)
qed

theorem queue_has_each_file_once_witness:
  "length (itemList (add_files map_ops 0
     [(''a'', zero_stat, empty_info, False), (''b'', zero_stat, empty_info, True), (''a'', zero_stat, empty_info, True)]
     (createParallelProcessor map_ops 2 0 0))) = 2"
proof -
  define fs where "fs = [(''a'', zero_stat, empty_info, False), (''b'', zero_stat, empty_info, True),
    (''a'', zero_stat, empty_info, True)]"
  define p where "p = add_files map_ops 0 fs (createParallelProcessor map_ops 2 0 0)"
  have "\<forall>f \<in> set fs. valid_name (fst f)" by (simp add: fs_def valid_name_def)
  from queue_has_each_file_once [OF map_ops_laws this p_def]
  have d: "distinct (map fileName (itemList p))" "set (map fileName (itemList p)) = {''a'', ''b''}"
    by (auto simp: fs_def)
  from distinct_card [OF d(1)] d(2) have "length (itemList p) = 2" by simp
  then show ?thesis by (simp only: p_def fs_def)
qed

end
