(* ===== verification/WorkerPool.thy ===== *)
theory WorkerPool
  imports FileQueue
begin

text \<open>
  The workers of the parallel tools (src/ParallelProcess.cpp, src/ParallelProcess_p.hpp):
  \<open>FileEntry::compress\<close>, the loop of \<open>FileProcessor::Run\<close> with its cleanup, and the part of
  \<open>ParallelFileProcessor::run\<close> that creates the workers, starts them and waits. One step of a
  worker is the code between two accesses to shared state; the scheduler picks the worker. The
  list of handled files is kept beside the state of the code to state what was done.
\<close>

section \<open>Compressing an entry\<close>

text \<open>\<open>FileEntry::compress\<close>: the exit of \<open>compressFile\<close>, the entry, the caller's settings, the job
  statistics and the disk.\<close>

definition FileEntry_compress ::
    "sys \<Rightarrow> int \<Rightarrow> file_entry \<Rightarrow> folder_info \<Rightarrow> folder_info \<Rightarrow> disk
     \<Rightarrow> exit \<times> file_entry \<times> folder_info \<times> folder_info \<times> disk" where
  "FileEntry_compress s verbose entry shared job dk =
     (case folderInfo entry of
        NullInfo \<Rightarrow> (Crashed, entry, shared, job, dk)
      | ref \<Rightarrow>
          let fi = (case ref of OwnInfo f \<Rightarrow> f | _ \<Rightarrow> shared)\<lparr>data_compressed_size := -1\<rparr>;
              r = compress_on_disk s True (fileInfo entry) fi dk;
              st' = fst (snd r); fi' = fst (snd (snd r)); dk' = snd (snd (snd r));
              entry1 = entry\<lparr>fileInfo := st', folderInfo := (case ref of OwnInfo f \<Rightarrow> OwnInfo fi' | x \<Rightarrow> x)\<rparr>;
              shared' = (case ref of OwnInfo f \<Rightarrow> shared | _ \<Rightarrow> fi');
              pr = process_file_info s (fileName entry) None st' (f_xattrs (dk_nodes dk' (st_ino st'))) job
          in if verbose \<noteq> 0 then (fst r, entry1\<lparr>compressedSize := fst pr\<rparr>, shared', snd pr, dk')
             else (fst r, entry1, shared', job, dk'))"

section \<open>Workers and the machine\<close>

datatype worker_pc = NotStarted | Checking | Fetching | Got | Busy | Packed | Counting | Tidying
  | Cleaning | Gone

record worker =
  w_pc :: worker_pc
  isBackwards :: bool
  w_entry :: file_entry
  w_nProcessed :: int
  runningTotalRaw :: int
  runningTotalCompressed :: int
  cleanedUp :: bool

definition new_worker :: "bool \<Rightarrow> worker" where
  "new_worker isReverse = \<lparr>w_pc = NotStarted, isBackwards = isReverse, w_entry = FileEntry0,
     w_nProcessed = -1, runningTotalRaw = 0, runningTotalCompressed = 0, cleanedUp = False\<rparr>"

text \<open>\<open>mc_next\<close> is the index of the loop that starts the workers, \<open>mc_waiting\<close> says that this loop is
  over; \<open>mc_log\<close> lists the names handed to \<open>compress\<close>, with the worker.\<close>

record 'm machine =
  mc_pool :: "'m pool"
  mc_workers :: "worker list"
  mc_next :: nat
  mc_waiting :: bool
  mc_shared :: folder_info
  mc_disk :: disk
  mc_log :: "(nat \<times> string) list"

text \<open>The start of \<open>run\<close>: the event is created and the workers are, the reverse ones last.\<close>

definition run_init :: "'m pool \<Rightarrow> folder_info \<Rightarrow> disk \<Rightarrow> 'm machine" where
  "run_init p shared dk =
     \<lparr>mc_pool = (if nJobs p \<ge> 1 then p\<lparr>allDoneEvent := Some False\<rparr> else p),
      mc_workers = map (\<lambda>i. new_worker (int i \<ge> nJobs p - nReverse p)) [0..<nat (nJobs p)],
      mc_next = 0, mc_waiting = False, mc_shared = shared, mc_disk = dk, mc_log = []\<rparr>"

definition upd_worker :: "nat \<Rightarrow> (worker \<Rightarrow> worker) \<Rightarrow> 'm machine \<Rightarrow> 'm machine" where
  "upd_worker i f m = m\<lparr>mc_workers := (mc_workers m)[i := f (mc_workers m ! i)]\<rparr>"

definition goto :: "nat \<Rightarrow> worker_pc \<Rightarrow> 'm machine \<Rightarrow> 'm machine" where
  "goto i pc = upd_worker i (\<lambda>w. w\<lparr>w_pc := pc\<rparr>)"

text \<open>\<open>CleanupThread\<close> of \<open>FileProcessor\<close>, called by the thread and again by the destructor.\<close>

definition CleanupThread :: "worker \<Rightarrow> 'm pool \<Rightarrow> worker \<times> 'm pool" where
  "CleanupThread w p = (if \<not> cleanedUp w then (w\<lparr>cleanedUp := True\<rparr>, snd (workerDone p)) else (w, p))"

text \<open>After an entry: the totals of the worker, and the name leaves the registry.\<close>

definition account_entry :: "worker \<Rightarrow> worker" where
  "account_entry w = w\<lparr>w_nProcessed := w_nProcessed w + 1,
     runningTotalRaw := runningTotalRaw w + st_size (fileInfo (w_entry w)),
     runningTotalCompressed := runningTotalCompressed w
       + (if compressedSize (w_entry w) > 0 then compressedSize (w_entry w)
          else st_size (fileInfo (w_entry w)))\<rparr>"

text \<open>One step of worker \<open>i\<close>; \<open>None\<close> when it cannot move: not started, gone, or in a call of
  \<open>compressFile\<close> that does not come back.\<close>

definition worker_step :: "sys \<Rightarrow> 'm name_ops \<Rightarrow> nat \<Rightarrow> 'm machine \<Rightarrow> 'm machine option" where
  "worker_step s ops i m =
     (let w = mc_workers m ! i; p = mc_pool m in
      case w_pc w of
        NotStarted \<Rightarrow> None
      | Checking \<Rightarrow> Some (goto i (if quitRequestedFlag p then Cleaning else Fetching) m)
      | Fetching \<Rightarrow>
          (case (if isBackwards w then getBack p else getFront p) of
             None \<Rightarrow> Some (goto i Cleaning m)
           | Some (e, p') \<Rightarrow>
               Some (upd_worker i (\<lambda>w. w\<lparr>w_entry := assign_entry (w_entry w) e, w_pc := Got\<rparr>)
                 (m\<lparr>mc_pool := p'\<rparr>)))
      | Got \<Rightarrow> Some (goto i Busy (m\<lparr>mc_pool := p\<lparr>nProcessing := nProcessing p + 1\<rparr>\<rparr>))
      | Busy \<Rightarrow>
          (let r = FileEntry_compress s (verboseLevel p) (w_entry w) (mc_shared m) (jobInfo p) (mc_disk m);
               e' = fst (snd r)
           in if fst r = Returned then
                Some (upd_worker i (\<lambda>w. w\<lparr>w_entry := e', w_pc := Packed\<rparr>)
                  (m\<lparr>mc_pool := p\<lparr>jobInfo := fst (snd (snd (snd r)))\<rparr>,
                     mc_shared := fst (snd (snd r)), mc_disk := snd (snd (snd (snd r))),
                     mc_log := mc_log m @ [(i, fileName (w_entry w))]\<rparr>))
              else None)
      | Packed \<Rightarrow> Some (goto i Counting (m\<lparr>mc_pool := p\<lparr>nProcessing := nProcessing p - 1\<rparr>\<rparr>))
      | Counting \<Rightarrow> Some (goto i Tidying (m\<lparr>mc_pool := p\<lparr>nProcessed := nProcessed p + 1\<rparr>\<rparr>))
      | Tidying \<Rightarrow>
          Some (goto i Checking (upd_worker i account_entry
            (m\<lparr>mc_pool := p\<lparr>itemMapForName := h_erase ops (itemMapForName p) (fileName (w_entry w))\<rparr>\<rparr>)))
      | Cleaning \<Rightarrow>
          Some (goto i Gone (upd_worker i (\<lambda>_. fst (CleanupThread w p)) (m\<lparr>mc_pool := snd (CleanupThread w p)\<rparr>)))
      | Gone \<Rightarrow> None)"

text \<open>The main thread: the loop that starts the workers reads the number of jobs anew each time.\<close>

definition start_step :: "'m machine \<Rightarrow> 'm machine option" where
  "start_step m =
     (if mc_waiting m then None
      else if int (mc_next m) < nJobs (mc_pool m) then
        Some (upd_worker (mc_next m) (\<lambda>w. w\<lparr>w_pc := Checking, w_nProcessed := 0\<rparr>) (m\<lparr>mc_next := mc_next m + 1\<rparr>))
      else Some (m\<lparr>mc_waiting := True\<rparr>))"

text \<open>The condition under which the loop that waits is left.\<close>

definition wait_over :: "'m machine \<Rightarrow> bool" where
  "wait_over m \<longleftrightarrow> mc_waiting m \<and> (nJobs (mc_pool m) < 1 \<or> quitRequestedFlag (mc_pool m)
     \<or> allDoneEvent (mc_pool m) = Some True)"

inductive pool_step :: "sys \<Rightarrow> 'm name_ops \<Rightarrow> 'm machine \<Rightarrow> 'm machine \<Rightarrow> bool"
  for s ops where
  work: "i < length (mc_workers m) \<Longrightarrow> worker_step s ops i m = Some m' \<Longrightarrow> pool_step s ops m m'"
| start: "start_step m = Some m' \<Longrightarrow> pool_step s ops m m'"
| quit: "pool_step s ops m (m\<lparr>mc_pool := snd (setQuitRequested True (mc_pool m))\<rparr>)"

end
