(* ===== verification/PoolInvariant.thy ===== *)
theory PoolInvariant
  imports WorkerPool
begin

text \<open>
  What every interleaving of the workers keeps: the files are in the queue, in the hands of one
  worker or handled; the counters agree with where the workers are; and the event is set exactly
  when the last worker is gone. Every step of a worker or of the start loop decreases a measure.
\<close>

section \<open>Sums over the workers\<close>

definition wsum :: "(worker \<Rightarrow> 'a::cancel_comm_monoid_add) \<Rightarrow> worker list \<Rightarrow> 'a" where
  "wsum f ws = sum_list (map f ws)"

lemma wsum_update:
  "i < length ws \<Longrightarrow> wsum f (ws[i := w]) + f (ws ! i) = wsum f ws + f w"
proof (induction ws arbitrary: i)
  case (Cons a ws)
  show ?case
  proof (cases i)
    case 0
    then show ?thesis by (simp add: wsum_def add.commute add.left_commute)
  next
    case (Suc j)
    with Cons.prems Cons.IH [of j] show ?thesis by (simp add: wsum_def add.assoc)
  qed
qed simp

definition held_names :: "worker \<Rightarrow> string multiset" where
  "held_names w = (if w_pc w \<in> {Got, Busy} then {#fileName (w_entry w)#} else {#})"

definition busy :: "worker \<Rightarrow> int" where
  "busy w = of_bool (w_pc w \<in> {Busy, Packed})"

definition uncounted :: "worker \<Rightarrow> int" where
  "uncounted w = of_bool (w_pc w \<in> {Packed, Counting})"

definition gone :: "worker \<Rightarrow> int" where
  "gone w = of_bool (w_pc w = Gone)"

text \<open>Steps left: a worker by where it is, a file in the queue by the rounds it takes.\<close>

fun pc_weight :: "worker_pc \<Rightarrow> nat" where
  "pc_weight NotStarted = 4"
| "pc_weight Checking = 3"
| "pc_weight Fetching = 2"
| "pc_weight Got = 8"
| "pc_weight Busy = 7"
| "pc_weight Packed = 6"
| "pc_weight Counting = 5"
| "pc_weight Tidying = 4"
| "pc_weight Cleaning = 1"
| "pc_weight Gone = 0"

definition pool_measure :: "'m machine \<Rightarrow> nat" where
  "pool_measure m = 7 * length (itemList (mc_pool m)) + wsum (\<lambda>w. pc_weight (w_pc w)) (mc_workers m)
     + (if mc_waiting m then 0 else 1)"

section \<open>One step of a worker\<close>

text \<open>The step replaces the worker by \<open>w'\<close>; the rest depends on where the worker was.\<close>

lemma worker_step_effect:
  assumes "worker_step s ops i m = Some m'" and "i < length (mc_workers m)"
  obtains w' where "mc_workers m' = (mc_workers m)[i := w']"
    and "mc_next m' = mc_next m" and "mc_waiting m' = mc_waiting m"
    and "quitRequestedFlag (mc_pool m') = quitRequestedFlag (mc_pool m)"
    and "w_pc w' \<noteq> NotStarted" and "w_pc (mc_workers m ! i) \<noteq> NotStarted"
    and "mset (map fileName (itemList (mc_pool m'))) + held_names w' + mset (map snd (mc_log m'))
       = mset (map fileName (itemList (mc_pool m))) + held_names (mc_workers m ! i) + mset (map snd (mc_log m))"
    and "nProcessing (mc_pool m') + busy (mc_workers m ! i) = nProcessing (mc_pool m) + busy w'"
    and "nProcessed (mc_pool m') + uncounted w' + int (length (mc_log m))
       = nProcessed (mc_pool m) + uncounted (mc_workers m ! i) + int (length (mc_log m'))"
    and "7 * length (itemList (mc_pool m')) + pc_weight (w_pc w')
       < 7 * length (itemList (mc_pool m)) + pc_weight (w_pc (mc_workers m ! i))"
    and "w_pc w' \<in> {Cleaning, Gone} \<longrightarrow> quitRequestedFlag (mc_pool m) \<or> itemList (mc_pool m) = []
       \<or> w_pc (mc_workers m ! i) \<in> {Cleaning, Gone}"
    and "itemList (mc_pool m) = [] \<longrightarrow> itemList (mc_pool m') = []"
proof -
  define w where "w = mc_workers m ! i"
  define p where "p = mc_pool m"
  note defs = worker_step_def Let_def w_def [symmetric] p_def [symmetric] upd_worker_def goto_def
    held_names_def busy_def uncounted_def
  note step = assms(1) [unfolded worker_step_def Let_def, folded w_def p_def]
  show thesis
  proof (cases "w_pc w")
    case NotStarted
    with step show ?thesis by simp
  next
    case Checking
    with step assms(2) show ?thesis
      by (intro that [of "w\<lparr>w_pc := (if quitRequestedFlag p then Cleaning else Fetching)\<rparr>"])
        (auto simp: defs)
  next
    case Fetching
    show ?thesis
    proof (cases "wq.take_end (isBackwards w) p")
      case None
      then have "itemList p = []" by (simp add: wq.take_empty)
      with Fetching None step assms(2) show ?thesis
        by (intro that [of "w\<lparr>w_pc := Cleaning\<rparr>"]) (auto simp: defs wq.take_end_def)
    next
      case (Some r)
      then obtain e p' where r: "wq.take_end (isBackwards w) p = Some (e, p')" by (cases r) auto
      note q = wq.take_mset [OF r] wq.take_length [OF r]
      have fr: "nProcessing p' = nProcessing p" "nProcessed p' = nProcessed p"
        "quitRequestedFlag p' = quitRequestedFlag p"
        using r by (auto simp: wq.take_end_def getFront_def getBack_def split: list.splits if_splits)
      have m': "m' = upd_worker i (\<lambda>w. w\<lparr>w_entry := assign_entry (w_entry w) e, w_pc := Got\<rparr>) (m\<lparr>mc_pool := p'\<rparr>)"
        using Fetching step r by (simp add: wq.take_end_def)
      have "mset (map fileName (itemList p)) = add_mset (fileName e) (mset (map fileName (itemList p')))"
        using q(1) by (metis image_mset_add_mset mset_map)
      then show ?thesis
        using Fetching assms(2) q(2) fr
        by (intro that [of "w\<lparr>w_entry := assign_entry (w_entry w) e, w_pc := Got\<rparr>"]) (auto simp: defs m')
    qed
  next
    case Got
    with step assms(2) show ?thesis by (intro that [of "w\<lparr>w_pc := Busy\<rparr>"]) (auto simp: defs)
  next
    case Busy
    define r where "r = FileEntry_compress s (verboseLevel p) (w_entry w) (mc_shared m) (jobInfo p) (mc_disk m)"
    have m': "m' = upd_worker i (\<lambda>w. w\<lparr>w_entry := fst (snd r), w_pc := Packed\<rparr>)
        (m\<lparr>mc_pool := p\<lparr>jobInfo := fst (snd (snd (snd r)))\<rparr>, mc_shared := fst (snd (snd r)),
          mc_disk := snd (snd (snd (snd r))), mc_log := mc_log m @ [(i, fileName (w_entry w))]\<rparr>)"
      using Busy step by (simp add: r_def [symmetric] split: if_splits)
    show ?thesis
      using Busy assms(2) by (intro that [of "w\<lparr>w_entry := fst (snd r), w_pc := Packed\<rparr>"]) (auto simp: defs m')
  next
    case Packed
    with step assms(2) show ?thesis by (intro that [of "w\<lparr>w_pc := Counting\<rparr>"]) (auto simp: defs)
  next
    case Counting
    with step assms(2) show ?thesis by (intro that [of "w\<lparr>w_pc := Tidying\<rparr>"]) (auto simp: defs)
  next
    case Tidying
    with step assms(2) show ?thesis
      by (intro that [of "(account_entry w)\<lparr>w_pc := Checking\<rparr>"]) (auto simp: defs)
  next
    case Cleaning
    have fr: "itemList (snd (CleanupThread w p)) = itemList p"
      "nProcessing (snd (CleanupThread w p)) = nProcessing p"
      "nProcessed (snd (CleanupThread w p)) = nProcessed p"
      "quitRequestedFlag (snd (CleanupThread w p)) = quitRequestedFlag p"
      by (simp_all add: CleanupThread_def workerDone_def Let_def)
    from Cleaning step assms(2) show ?thesis
      by (intro that [of "(fst (CleanupThread w p))\<lparr>w_pc := Gone\<rparr>"]) (auto simp: defs fr)
  next
    case Gone
    with step show ?thesis by simp
  qed
qed

lemma worker_step_jobs:
  assumes "worker_step s ops i m = Some m'" and "i < length (mc_workers m)"
    and "cleanedUp (mc_workers m ! i) \<longleftrightarrow> w_pc (mc_workers m ! i) = Gone"
    and "allDoneEvent (mc_pool m) = Some (nJobs (mc_pool m) \<le> 0)"
  shows "cleanedUp (mc_workers m' ! i) \<longleftrightarrow> w_pc (mc_workers m' ! i) = Gone"
    and "nJobs (mc_pool m') + gone (mc_workers m' ! i) = nJobs (mc_pool m) + gone (mc_workers m ! i)"
    and "allDoneEvent (mc_pool m') = Some (nJobs (mc_pool m') \<le> 0)"
proof -
  have pop: "getBack p = Some (e, p') \<Longrightarrow> nJobs p' = nJobs p \<and> allDoneEvent p' = allDoneEvent p"
    "getFront p = Some (e, p') \<Longrightarrow> nJobs p' = nJobs p \<and> allDoneEvent p' = allDoneEvent p"
    for e and p p' :: "'a pool"
    by (auto simp: getFront_def getBack_def split: list.splits if_splits)
  note defs = worker_step_def Let_def upd_worker_def goto_def gone_def account_entry_def
    CleanupThread_def workerDone_def
  show "cleanedUp (mc_workers m' ! i) \<longleftrightarrow> w_pc (mc_workers m' ! i) = Gone"
    using assms by (auto simp: defs split: worker_pc.splits if_splits option.splits)
  show "nJobs (mc_pool m') + gone (mc_workers m' ! i) = nJobs (mc_pool m) + gone (mc_workers m ! i)"
    using assms by (auto simp: defs split: worker_pc.splits if_splits option.splits dest: pop)
  show "allDoneEvent (mc_pool m') = Some (nJobs (mc_pool m') \<le> 0)"
    using assms by (auto simp: defs split: worker_pc.splits if_splits option.splits dest: pop)
qed

section \<open>The invariant\<close>

definition pool_inv :: "string multiset \<Rightarrow> nat \<Rightarrow> 'm machine \<Rightarrow> bool" where
  "pool_inv N n m \<longleftrightarrow> length (mc_workers m) = n
     \<and> mset (map fileName (itemList (mc_pool m))) + wsum held_names (mc_workers m) + mset (map snd (mc_log m)) = N
     \<and> nProcessing (mc_pool m) = wsum busy (mc_workers m)
     \<and> nProcessed (mc_pool m) + wsum uncounted (mc_workers m) = int (length (mc_log m))
     \<and> nJobs (mc_pool m) + wsum gone (mc_workers m) = int n
     \<and> allDoneEvent (mc_pool m) = Some (nJobs (mc_pool m) \<le> 0)
     \<and> (\<forall>i < n. mc_next m \<le> i \<longleftrightarrow> w_pc (mc_workers m ! i) = NotStarted)
     \<and> (\<forall>i < n. cleanedUp (mc_workers m ! i) \<longleftrightarrow> w_pc (mc_workers m ! i) = Gone)
     \<and> ((\<exists>i < n. w_pc (mc_workers m ! i) \<in> {Cleaning, Gone}) \<longrightarrow>
          quitRequestedFlag (mc_pool m) \<or> itemList (mc_pool m) = [])"

lemma wsum_nonneg: "(\<And>w. 0 \<le> f w) \<Longrightarrow> 0 \<le> (wsum f ws :: int)"
  by (induction ws) (simp_all add: wsum_def)

lemma wsum_const: "(\<And>w. w \<in> set ws \<Longrightarrow> f w = c) \<Longrightarrow> (wsum f ws :: int) = int (length ws) * c"
  by (induction ws) (simp_all add: wsum_def algebra_simps)

lemma wsum_0: "(\<And>w. w \<in> set ws \<Longrightarrow> f w = 0) \<Longrightarrow> wsum f ws = 0"
  by (induction ws) (simp_all add: wsum_def)

lemma gone_bounds: "0 \<le> gone w" "gone w \<le> 1" "gone w = 1 \<longleftrightarrow> w_pc w = Gone"
  by (simp_all add: gone_def)

lemma pool_inv_init:
  assumes "1 \<le> nJobs p" and "nProcessing p = 0" and "nProcessed p = 0"
  shows "pool_inv (mset (map fileName (itemList p))) (nat (nJobs p)) (run_init p shared dk)"
proof -
  have w: "w \<in> set (mc_workers (run_init p shared dk)) \<Longrightarrow> w_pc w = NotStarted \<and> \<not> cleanedUp w" for w
    by (auto simp: run_init_def new_worker_def)
  then have z: "wsum held_names (mc_workers (run_init p shared dk)) = {#}"
    "wsum busy (mc_workers (run_init p shared dk)) = 0"
    "wsum uncounted (mc_workers (run_init p shared dk)) = 0"
    "wsum gone (mc_workers (run_init p shared dk)) = 0"
    by (auto intro!: wsum_0 simp: held_names_def busy_def uncounted_def gone_def)
  have i: "i < nat (nJobs p) \<Longrightarrow> w_pc (mc_workers (run_init p shared dk) ! i) = NotStarted
      \<and> \<not> cleanedUp (mc_workers (run_init p shared dk) ! i)" for i
    by (simp add: run_init_def new_worker_def)
  show ?thesis
    unfolding pool_inv_def using z i assms by (auto simp: run_init_def)
qed

lemma pool_inv_worker:
  assumes inv: "pool_inv N n m" and step: "worker_step s ops i m = Some m'" and i: "i < n"
  shows "pool_inv N n m'" and "pool_measure m' < pool_measure m"
proof -
  have len: "length (mc_workers m) = n" using inv by (simp add: pool_inv_def)
  with i have il: "i < length (mc_workers m)" by simp
  obtain w' where e: "mc_workers m' = (mc_workers m)[i := w']"
    "mc_next m' = mc_next m" "mc_waiting m' = mc_waiting m"
    "quitRequestedFlag (mc_pool m') = quitRequestedFlag (mc_pool m)"
    "w_pc w' \<noteq> NotStarted" "w_pc (mc_workers m ! i) \<noteq> NotStarted"
    "mset (map fileName (itemList (mc_pool m'))) + held_names w' + mset (map snd (mc_log m'))
       = mset (map fileName (itemList (mc_pool m))) + held_names (mc_workers m ! i) + mset (map snd (mc_log m))"
    "nProcessing (mc_pool m') + busy (mc_workers m ! i) = nProcessing (mc_pool m) + busy w'"
    "nProcessed (mc_pool m') + uncounted w' + int (length (mc_log m))
       = nProcessed (mc_pool m) + uncounted (mc_workers m ! i) + int (length (mc_log m'))"
    "7 * length (itemList (mc_pool m')) + pc_weight (w_pc w')
       < 7 * length (itemList (mc_pool m)) + pc_weight (w_pc (mc_workers m ! i))"
    "w_pc w' \<in> {Cleaning, Gone} \<longrightarrow> quitRequestedFlag (mc_pool m) \<or> itemList (mc_pool m) = []
       \<or> w_pc (mc_workers m ! i) \<in> {Cleaning, Gone}"
    "itemList (mc_pool m) = [] \<longrightarrow> itemList (mc_pool m') = []"
    by (rule worker_step_effect [OF step il])
  have cl: "cleanedUp (mc_workers m ! i) \<longleftrightarrow> w_pc (mc_workers m ! i) = Gone"
    and ev: "allDoneEvent (mc_pool m) = Some (nJobs (mc_pool m) \<le> 0)"
    using inv i by (simp_all add: pool_inv_def)
  note j = worker_step_jobs [OF step il cl ev]
  have w': "mc_workers m' ! i = w'" using e(1) il by simp
  note u = wsum_update [OF il, of _ w', folded e(1)]
  have held: "mset (map fileName (itemList (mc_pool m'))) + wsum held_names (mc_workers m') + mset (map snd (mc_log m')) = N"
  proof -
    have "mset (map fileName (itemList (mc_pool m'))) + wsum held_names (mc_workers m')
        + mset (map snd (mc_log m')) + held_names (mc_workers m ! i)
      = (mset (map fileName (itemList (mc_pool m'))) + held_names w' + mset (map snd (mc_log m')))
        + wsum held_names (mc_workers m)"
      using u [of held_names] by (simp add: ac_simps)
    also have "\<dots> = N + held_names (mc_workers m ! i)"
      unfolding e(7) using inv by (simp add: pool_inv_def ac_simps)
    finally show ?thesis by simp
  qed
  have "\<forall>k < n. mc_next m' \<le> k \<longleftrightarrow> w_pc (mc_workers m' ! k) = NotStarted"
    using inv e(1,2,5,6) i len by (auto simp: pool_inv_def nth_list_update)
  moreover have "\<forall>k < n. cleanedUp (mc_workers m' ! k) \<longleftrightarrow> w_pc (mc_workers m' ! k) = Gone"
    using inv e(1) j(1) w' i len by (auto simp: pool_inv_def nth_list_update)
  moreover have "(\<exists>k < n. w_pc (mc_workers m' ! k) \<in> {Cleaning, Gone}) \<longrightarrow>
      quitRequestedFlag (mc_pool m') \<or> itemList (mc_pool m') = []"
    using inv e(1,4,11,12) i len by (auto simp: pool_inv_def nth_list_update split: if_splits)
  moreover have "nProcessing (mc_pool m') = wsum busy (mc_workers m')"
    using inv e(8) u [of busy] by (simp add: pool_inv_def)
  moreover have "nProcessed (mc_pool m') + wsum uncounted (mc_workers m') = int (length (mc_log m'))"
    using inv e(9) u [of uncounted] by (simp add: pool_inv_def)
  moreover have "nJobs (mc_pool m') + wsum gone (mc_workers m') = int n"
    using inv j(2) u [of gone] w' by (simp add: pool_inv_def)
  ultimately show "pool_inv N n m'"
    using held j(3) e(1) len by (simp add: pool_inv_def)
  show "pool_measure m' < pool_measure m"
    using e(3,10) u [of "\<lambda>w. pc_weight (w_pc w)"] by (simp add: pool_measure_def)
qed

lemma pool_inv_start:
  assumes inv: "pool_inv N n m" and step: "start_step m = Some m'"
  shows "pool_inv N n m'" and "pool_measure m' < pool_measure m"
proof -
  have len: "length (mc_workers m) = n" using inv by (simp add: pool_inv_def)
  have "pool_inv N n m' \<and> pool_measure m' < pool_measure m"
  proof (cases "int (mc_next m) < nJobs (mc_pool m)")
    case False
    with step have "m' = m\<lparr>mc_waiting := True\<rparr>" "\<not> mc_waiting m"
      by (auto simp: start_step_def split: if_splits)
    then show ?thesis using inv by (simp add: pool_inv_def pool_measure_def)
  next
    case True
    define k where "k = mc_next m"
    define w' where "w' = (mc_workers m ! k)\<lparr>w_pc := Checking, w_nProcessed := 0\<rparr>"
    have "0 \<le> wsum gone (mc_workers m)" by (rule wsum_nonneg) (rule gone_bounds)
    with True inv have k: "k < n" by (simp add: pool_inv_def k_def)
    then have kl: "k < length (mc_workers m)" using len by simp
    have m': "m' = m\<lparr>mc_next := k + 1, mc_workers := (mc_workers m)[k := w']\<rparr>" "\<not> mc_waiting m"
      using True step by (auto simp: start_step_def k_def w'_def upd_worker_def split: if_splits)
    have pc: "w_pc (mc_workers m ! k) = NotStarted" and cl: "\<not> cleanedUp (mc_workers m ! k)"
      using inv k by (auto simp: pool_inv_def k_def)
    note u = wsum_update [OF kl, of _ w']
    have z: "held_names w' = {#}" "busy w' = 0" "uncounted w' = 0" "gone w' = 0"
      "held_names (mc_workers m ! k) = {#}" "busy (mc_workers m ! k) = 0"
      "uncounted (mc_workers m ! k) = 0" "gone (mc_workers m ! k) = 0"
      using pc by (simp_all add: w'_def held_names_def busy_def uncounted_def gone_def)
    have "\<forall>j < n. k + 1 \<le> j \<longleftrightarrow> w_pc ((mc_workers m)[k := w'] ! j) = NotStarted"
    proof (intro allI impI)
      fix j assume j: "j < n"
      then have "mc_next m \<le> j \<longleftrightarrow> w_pc (mc_workers m ! j) = NotStarted" using inv by (simp add: pool_inv_def)
      then show "k + 1 \<le> j \<longleftrightarrow> w_pc ((mc_workers m)[k := w'] ! j) = NotStarted"
        using j len by (cases "j = k") (auto simp: k_def [symmetric] w'_def)
    qed
    moreover have "\<forall>j < n. cleanedUp ((mc_workers m)[k := w'] ! j) \<longleftrightarrow> w_pc ((mc_workers m)[k := w'] ! j) = Gone"
      using inv k len cl by (auto simp: pool_inv_def nth_list_update w'_def)
    moreover have "(\<exists>j < n. w_pc ((mc_workers m)[k := w'] ! j) \<in> {Cleaning, Gone}) \<longrightarrow>
        quitRequestedFlag (mc_pool m) \<or> itemList (mc_pool m) = []"
      using inv k len by (auto simp: pool_inv_def nth_list_update w'_def split: if_splits)
    ultimately have "pool_inv N n m'"
      using inv len u [of held_names] u [of busy] u [of uncounted] u [of gone]
      by (simp add: m' pool_inv_def z)
    moreover have "pool_measure m' < pool_measure m"
      using u [of "\<lambda>w. pc_weight (w_pc w)"] pc by (simp add: m' pool_measure_def w'_def)
    ultimately show ?thesis by simp
  qed
  then show "pool_inv N n m'" and "pool_measure m' < pool_measure m" by simp_all
qed

lemma pool_inv_step:
  assumes "pool_step s ops m m'" and "pool_inv N n m"
  shows "pool_inv N n m'"
  using assms
proof cases
  case (work i)
  then show ?thesis using pool_inv_worker(1) [OF assms(2)] assms(2) by (simp add: pool_inv_def)
next
  case start
  then show ?thesis using pool_inv_start(1) [OF assms(2)] by simp
next
  case quit
  then show ?thesis using assms(2) by (simp add: pool_inv_def setQuitRequested_def)
qed

lemma pool_inv_reachable:
  "(pool_step s ops)\<^sup>*\<^sup>* m m' \<Longrightarrow> pool_inv N n m \<Longrightarrow> pool_inv N n m'"
  by (induction rule: rtranclp_induct) (auto intro: pool_inv_step)

section \<open>Entries have settings\<close>

definition no_null :: "'m machine \<Rightarrow> bool" where
  "no_null m \<longleftrightarrow> (\<forall>e \<in> set (itemList (mc_pool m)). folderInfo e \<noteq> NullInfo)
     \<and> (\<forall>w \<in> set (mc_workers m). w_pc w \<in> {Got, Busy} \<longrightarrow> folderInfo (w_entry w) \<noteq> NullInfo)"

lemma assign_entry_null: "folderInfo (assign_entry this ref) = NullInfo \<longleftrightarrow> folderInfo ref = NullInfo"
  by (simp add: assign_entry_def split: info_ref.splits)

lemma no_null_upd:
  assumes "no_null m" and "\<And>w. w_pc (f w) \<in> {Got, Busy} \<Longrightarrow>
      w = mc_workers m ! i \<Longrightarrow> i < length (mc_workers m) \<Longrightarrow> folderInfo (w_entry (f w)) \<noteq> NullInfo"
  shows "no_null (upd_worker i f m)"
proof (cases "i < length (mc_workers m)")
  case True
  with assms(1) assms(2) [OF _ refl True] show ?thesis
    by (auto simp: no_null_def upd_worker_def dest!: set_update_subset_insert [THEN subsetD])
next
  case False
  with assms(1) show ?thesis by (simp add: upd_worker_def list_update_beyond no_null_def)
qed

lemma no_null_worker:
  assumes "no_null m" and "worker_step s ops i m = Some m'" and "i < length (mc_workers m)"
  shows "no_null m'"
proof -
  have w: "mc_workers m ! i \<in> set (mc_workers m)" using assms(3) by simp
  have pool: "no_null m \<Longrightarrow> set (itemList p') \<subseteq> set (itemList (mc_pool m)) \<Longrightarrow> no_null (m\<lparr>mc_pool := p'\<rparr>)" for p'
    by (auto simp: no_null_def)
  have front: "getFront p = Some (e, p') \<Longrightarrow> e \<in> set (itemList p) \<and> set (itemList p') \<subseteq> set (itemList p)"
    and rear: "getBack p = Some (e, p') \<Longrightarrow> e \<in> set (itemList p) \<and> set (itemList p') \<subseteq> set (itemList p)"
    for e and p p' :: "'a pool"
    by (auto simp: getFront_def getBack_def split: list.splits if_splits dest: in_set_butlastD)
  have item: "e \<in> set (itemList (mc_pool m)) \<Longrightarrow> folderInfo e \<noteq> NullInfo" for e
    using assms(1) by (auto simp: no_null_def)
  show ?thesis
  proof (cases "w_pc (mc_workers m ! i)")
    case Fetching
    show ?thesis
    proof (cases "if isBackwards (mc_workers m ! i) then getBack (mc_pool m) else getFront (mc_pool m)")
      case None
      with Fetching assms have "m' = goto i Cleaning m" by (simp add: worker_step_def Let_def)
      then show ?thesis using assms(1) by (auto simp: goto_def intro!: no_null_upd)
    next
      case (Some r)
      obtain e p' where r: "r = (e, p')" by (cases r)
      have e: "folderInfo e \<noteq> NullInfo" "set (itemList p') \<subseteq> set (itemList (mc_pool m))"
        using Some front [of "mc_pool m" e p'] rear [of "mc_pool m" e p'] item [of e]
        unfolding r by (metis (full_types))+
      from Some Fetching assms r have "m' = upd_worker i
          (\<lambda>w. w\<lparr>w_entry := assign_entry (w_entry w) e, w_pc := Got\<rparr>) (m\<lparr>mc_pool := p'\<rparr>)"
        by (simp add: worker_step_def Let_def)
      then show ?thesis
        using pool [OF assms(1) e(2)] e(1) by (auto simp: assign_entry_null intro!: no_null_upd)
    qed
  next
    case Got
    then show ?thesis
      using assms w
      by (auto simp: worker_step_def Let_def goto_def intro!: no_null_upd pool) (auto simp: no_null_def)
  next
    case Busy
    then show ?thesis
      using assms
      by (auto simp: worker_step_def Let_def no_null_def upd_worker_def split: if_splits
          dest!: set_update_subset_insert [THEN subsetD])
  next
    case Cleaning
    have "itemList (snd (CleanupThread w p)) = itemList p" for w and p :: "'a pool"
      by (simp add: CleanupThread_def workerDone_def Let_def)
    with Cleaning assms show ?thesis
      by (auto simp: worker_step_def Let_def no_null_def goto_def upd_worker_def
          dest!: set_update_subset_insert [THEN subsetD])
  qed (use assms in \<open>auto simp: worker_step_def Let_def goto_def account_entry_def
        intro!: no_null_upd pool split: if_splits\<close>)
qed

lemma no_null_step: "pool_step s ops m m' \<Longrightarrow> no_null m \<Longrightarrow> no_null m'"
proof (induction rule: pool_step.cases)
  case (work i m m')
  then show ?case by (auto intro: no_null_worker)
next
  case (start m m')
  then show ?case
    by (auto simp: start_step_def no_null_def upd_worker_def split: if_splits
        dest!: set_update_subset_insert [THEN subsetD])
next
  case (quit m)
  then show ?case by (simp add: no_null_def setQuitRequested_def)
qed

lemma no_null_reachable: "(pool_step s ops)\<^sup>*\<^sup>* m m' \<Longrightarrow> no_null m \<Longrightarrow> no_null m'"
  by (induction rule: rtranclp_induct) (auto intro: no_null_step)

lemma no_null_init:
  "\<forall>e \<in> set (itemList p). folderInfo e \<noteq> NullInfo \<Longrightarrow> no_null (run_init p shared dk)"
  by (auto simp: no_null_def run_init_def new_worker_def)

end
