(* ===== verification/PoolProperties.thy ===== *)
theory PoolProperties
  imports PoolInvariant
begin

text \<open>
  What the parallel run guarantees, and what it does not: no file is handled twice; when the event
  is set every file has been handled; the workers come to an end; but the loop that starts them
  reads a number of jobs that finished workers decrement, so a run can wait for ever.
\<close>

text \<open>A queue ready to be run: at least one job, no file handled yet.\<close>

definition ready_pool :: "'m pool \<Rightarrow> bool" where
  "ready_pool p \<longleftrightarrow> 1 \<le> nJobs p \<and> nProcessing p = 0 \<and> nProcessed p = 0
     \<and> (\<forall>e \<in> set (itemList p). folderInfo e \<noteq> NullInfo)"

definition queued_names :: "'m pool \<Rightarrow> string multiset" where
  "queued_names p = mset (map fileName (itemList p))"

definition handled_names :: "'m machine \<Rightarrow> string multiset" where
  "handled_names m = mset (map snd (mc_log m))"

lemma ready_inv:
  "ready_pool p \<Longrightarrow> (pool_step s ops)\<^sup>*\<^sup>* (run_init p shared dk) m \<Longrightarrow>
     pool_inv (queued_names p) (nat (nJobs p)) m"
  unfolding queued_names_def
  by (erule pool_inv_reachable, rule pool_inv_init) (simp_all add: ready_pool_def)

text \<open>C27: at every moment each file is in the queue, held by one worker or handled, so that no
  file is compressed twice; \<open>nProcessing\<close> counts the workers that are compressing, and
  \<open>nProcessed\<close> never exceeds the files handled.\<close>

theorem pool_accounts_for_files:
  assumes "ready_pool p" and "(pool_step s ops)\<^sup>*\<^sup>* (run_init p shared dk) m"
  shows "queued_names (mc_pool m) + wsum held_names (mc_workers m) + handled_names m = queued_names p
    \<and> handled_names m \<subseteq># queued_names p
    \<and> (distinct (map fileName (itemList p)) \<longrightarrow> distinct (map snd (mc_log m)))
    \<and> nProcessing (mc_pool m) = int (length (filter (\<lambda>w. w_pc w \<in> {Busy, Packed}) (mc_workers m)))
    \<and> nProcessed (mc_pool m) \<le> int (length (mc_log m))"
proof -
  note inv = ready_inv [OF assms]
  have a: "queued_names (mc_pool m) + wsum held_names (mc_workers m) + handled_names m = queued_names p"
    using inv by (simp add: pool_inv_def queued_names_def handled_names_def)
  have b: "handled_names m \<subseteq># queued_names p" using a by (metis mset_subset_eq_add_right)
  have c: "distinct (map fileName (itemList p)) \<Longrightarrow> distinct (map snd (mc_log m))"
  proof -
    assume "distinct (map fileName (itemList p))"
    then have "count (queued_names p) x \<le> 1" for x
      unfolding queued_names_def distinct_count_atmost_1 by (simp del: mset_map)
    then have le: "count (mset (map snd (mc_log m))) x \<le> 1" for x
      using b unfolding handled_names_def by (meson le_trans mset_subset_eq_count)
    show "distinct (map snd (mc_log m))"
      unfolding distinct_count_atmost_1
    proof
      fix x
      define c where "c = count (mset (map snd (mc_log m))) x"
      have "0 < c \<longleftrightarrow> x \<in> set (map snd (mc_log m))"
        unfolding c_def by (simp only: count_greater_zero_iff set_mset_mset)
      moreover have "c \<le> 1" using le [of x] by (simp only: c_def)
      ultimately show "count (mset (map snd (mc_log m))) x = (if x \<in> set (map snd (mc_log m)) then 1 else 0)"
        unfolding c_def [symmetric] by (cases "x \<in> set (map snd (mc_log m))") auto
    qed
  qed
  have "wsum busy ws = int (length (filter (\<lambda>w. w_pc w \<in> {Busy, Packed}) ws))" for ws
    by (induction ws) (auto simp: wsum_def busy_def)
  moreover have "0 \<le> wsum uncounted (mc_workers m)" by (rule wsum_nonneg) (simp add: uncounted_def)
  ultimately show ?thesis
    using a b c inv by (simp add: pool_inv_def)
qed

lemma pool_done:
  assumes "ready_pool p" and "(pool_step s ops)\<^sup>*\<^sup>* (run_init p shared dk) m"
    and "allDoneEvent (mc_pool m) = Some True" and "\<not> quitRequestedFlag (mc_pool m)"
  shows "handled_names m = queued_names p \<and> itemList (mc_pool m) = []
    \<and> nProcessed (mc_pool m) = int (length (itemList p)) \<and> nProcessing (mc_pool m) = 0"
proof -
  define n where "n = nat (nJobs p)"
  have inv: "pool_inv (queued_names p) n m" unfolding n_def by (rule ready_inv [OF assms(1,2)])
  have n: "1 \<le> n" using assms(1) by (auto simp: ready_pool_def n_def)
  have len: "length (mc_workers m) = n" using inv by (simp add: pool_inv_def)
  have "nJobs (mc_pool m) \<le> 0" using inv assms(3) by (simp add: pool_inv_def)
  then have g: "int n \<le> wsum gone (mc_workers m)" using inv by (simp add: pool_inv_def)
  have all: "w \<in> set ws \<Longrightarrow> int (length ws) \<le> wsum gone ws \<Longrightarrow> w_pc w = Gone" for w ws
  proof (induction ws)
    case (Cons a ws)
    have le: "wsum gone ws \<le> int (length ws)"
      by (induction ws) (auto simp: wsum_def gone_def)
    from Cons.prems(2) have s: "1 + int (length ws) \<le> gone a + wsum gone ws" by (simp add: wsum_def)
    then have "gone a = 1" "int (length ws) \<le> wsum gone ws" using le gone_bounds(2) [of a] by linarith+
    with Cons show ?case by (auto simp: gone_bounds(3))
  qed simp
  have gn: "w \<in> set (mc_workers m) \<Longrightarrow> w_pc w = Gone" for w using all g len by simp
  have z: "wsum held_names (mc_workers m) = {#}" "wsum busy (mc_workers m) = 0"
    "wsum uncounted (mc_workers m) = 0"
    by (auto intro!: wsum_0 simp: held_names_def busy_def uncounted_def gn)
  have "w_pc (mc_workers m ! 0) = Gone" using n len by (intro gn nth_mem) simp
  then have e: "itemList (mc_pool m) = []" using inv n assms(4) by (force simp: pool_inv_def)
  then have h: "handled_names m = queued_names p" using inv z(1) by (simp add: pool_inv_def handled_names_def)
  then have "length (mc_log m) = length (itemList p)"
    unfolding handled_names_def queued_names_def by (metis length_map size_mset)
  then show ?thesis using h e inv z by (simp add: pool_inv_def)
qed

text \<open>C28: when the event that ends the run is set and nobody asked to stop, every queued file has
  been handled exactly once and all are counted.\<close>

theorem pool_handles_all:
  assumes "ready_pool p" and "(pool_step s ops)\<^sup>*\<^sup>* (run_init p shared dk) m"
    and "allDoneEvent (mc_pool m) = Some True" and "\<not> quitRequestedFlag (mc_pool m)"
  shows "handled_names m = queued_names p \<and> itemList (mc_pool m) = []
    \<and> nProcessed (mc_pool m) = int (length (itemList p)) \<and> nProcessing (mc_pool m) = 0"
  by (rule pool_done [OF assms])

section \<open>Termination and progress\<close>

definition active_step :: "sys \<Rightarrow> 'm name_ops \<Rightarrow> 'm machine \<Rightarrow> 'm machine \<Rightarrow> bool" where
  "active_step s ops m m' \<longleftrightarrow> (\<exists>i < length (mc_workers m). worker_step s ops i m = Some m')
     \<or> start_step m = Some m'"

lemma active_measure:
  assumes "active_step s ops m m'" and "pool_inv N n m"
  shows "pool_inv N n m'" and "pool_measure m' < pool_measure m"
  using assms pool_inv_worker [OF assms(2)] pool_inv_start [OF assms(2)]
  by (auto simp: active_step_def pool_inv_def [of N n m])

lemma active_runs:
  "(active_step s ops ^^ k) m m' \<Longrightarrow> pool_inv N n m \<Longrightarrow> pool_inv N n m' \<and> k + pool_measure m' \<le> pool_measure m"
proof (induction k arbitrary: m')
  case (Suc k)
  from Suc.prems(1) obtain x where x: "(active_step s ops ^^ k) m x" "active_step s ops x m'" by auto
  from Suc.IH [OF x(1) Suc.prems(2)] active_measure [OF x(2)] show ?case by force
qed simp

text \<open>C29: a run takes at most seven steps for each file and four for each worker, and one that ends
  the start loop: the workers cannot go on for ever.\<close>

theorem pool_terminates:
  assumes "ready_pool p" and "(active_step s ops ^^ k) (run_init p shared dk) m"
  shows "k \<le> 7 * length (itemList p) + 4 * nat (nJobs p) + 1"
proof -
  have "pool_inv (queued_names p) (nat (nJobs p)) (run_init p shared dk)"
    by (rule ready_inv [OF assms(1) rtranclp.rtrancl_refl])
  from active_runs [OF assms(2) this] have "k \<le> pool_measure (run_init p shared dk)" by simp
  also have "\<dots> = 7 * length (itemList p) + 4 * nat (nJobs p) + 1"
    by (simp add: pool_measure_def run_init_def wsum_def comp_def new_worker_def sum_list_triv mult.commute)
  finally show ?thesis .
qed

text \<open>\<open>compressFile\<close> always comes back.\<close>

definition returning :: "sys \<Rightarrow> bool" where
  "returning s \<longleftrightarrow> (\<forall>v e sh job d. folderInfo e \<noteq> NullInfo \<longrightarrow> fst (FileEntry_compress s v e sh job d) = Returned)"

text \<open>C30: once every worker was started, the run never gets stuck before it may end: some worker
  can move, if \<open>compressFile\<close> returns.\<close>

theorem pool_progress:
  assumes "ready_pool p" and "(pool_step s ops)\<^sup>*\<^sup>* (run_init p shared dk) m"
    and "mc_next m = length (mc_workers m)" and "\<not> wait_over m"
    and "returning s"
  shows "\<exists>m'. active_step s ops m m'"
proof (cases "mc_waiting m")
  case False
  then have "start_step m \<noteq> None" by (simp add: start_step_def)
  then show ?thesis by (auto simp: active_step_def)
next
  case True
  define n where "n = nat (nJobs p)"
  have inv: "pool_inv (queued_names p) n m" unfolding n_def by (rule ready_inv [OF assms(1,2)])
  have len: "length (mc_workers m) = n" using inv by (simp add: pool_inv_def)
  have "0 < nJobs (mc_pool m)" using assms(4) True by (simp add: wait_over_def)
  then have "wsum gone (mc_workers m) \<noteq> int n * 1" using inv by (simp add: pool_inv_def)
  then have "\<exists>w \<in> set (mc_workers m). gone w \<noteq> 1" using wsum_const [of "mc_workers m" gone 1] len by auto
  then obtain i where i: "i < n" "w_pc (mc_workers m ! i) \<noteq> Gone"
    using len by (auto simp: in_set_conv_nth gone_bounds(3))
  then have "w_pc (mc_workers m ! i) \<noteq> NotStarted" using inv assms(3) len by (auto simp: pool_inv_def)
  moreover have "w_pc (mc_workers m ! i) = Busy \<Longrightarrow> folderInfo (w_entry (mc_workers m ! i)) \<noteq> NullInfo"
    using no_null_reachable [OF assms(2) no_null_init] assms(1) i(1) len
    by (auto simp: ready_pool_def no_null_def)
  ultimately have "worker_step s ops i m \<noteq> None"
    using i(2) assms(5)
    by (simp add: returning_def worker_step_def Let_def split: worker_pc.splits option.splits)
  then show ?thesis using i(1) len by (auto simp: active_step_def)
qed

section \<open>One worker alone\<close>

text \<open>The machine but for worker \<open>i\<close>, its queue and what it writes.\<close>

definition same_rest :: "nat \<Rightarrow> 'm machine \<Rightarrow> 'm machine \<Rightarrow> bool" where
  "same_rest i m m' \<longleftrightarrow> (\<exists>w'. mc_workers m' = (mc_workers m)[i := w'] \<and> cleanedUp w' = cleanedUp (mc_workers m ! i))
     \<and> mc_next m' = mc_next m \<and> mc_waiting m' = mc_waiting m
     \<and> quitRequestedFlag (mc_pool m') = quitRequestedFlag (mc_pool m)
     \<and> nJobs (mc_pool m') = nJobs (mc_pool m) \<and> allDoneEvent (mc_pool m') = allDoneEvent (mc_pool m)"

lemma same_rest_trans: "same_rest i a b \<Longrightarrow> same_rest i b c \<Longrightarrow> i < length (mc_workers a) \<Longrightarrow> same_rest i a c"
  by (auto simp: same_rest_def)

text \<open>From the test of the loop to the next test, with one file.\<close>

lemma one_round:
  assumes "returning s" and "no_null m" and i: "i < length (mc_workers m)"
    and "w_pc (mc_workers m ! i) = Checking" and "\<not> quitRequestedFlag (mc_pool m)"
    and "itemList (mc_pool m) \<noteq> []"
  obtains m' where "(active_step s ops)\<^sup>*\<^sup>* m m'" and "w_pc (mc_workers m' ! i) = Checking"
    and "same_rest i m m'" and "length (itemList (mc_pool m')) < length (itemList (mc_pool m))"
proof -
  have step: "worker_step s ops i a = Some b \<Longrightarrow> length (mc_workers a) = length (mc_workers m) \<Longrightarrow>
      active_step s ops a b" for a b
    using i by (auto simp: active_step_def)
  define a1 where "a1 = goto i Fetching m"
  obtain e p' where q: "wq.take_end (isBackwards (mc_workers m ! i)) (mc_pool m) = Some (e, p')"
    using assms(6) wq.take_empty [of "isBackwards (mc_workers m ! i)" "mc_pool m"] by fastforce
  define a2 where "a2 = upd_worker i (\<lambda>w. w\<lparr>w_entry := assign_entry (w_entry w) e, w_pc := Got\<rparr>) (a1\<lparr>mc_pool := p'\<rparr>)"
  define a3 where "a3 = goto i Busy (a2\<lparr>mc_pool := p'\<lparr>nProcessing := nProcessing p' + 1\<rparr>\<rparr>)"
  have len: "length (mc_workers a1) = length (mc_workers m)" "length (mc_workers a2) = length (mc_workers m)"
    "length (mc_workers a3) = length (mc_workers m)"
    by (simp_all add: a1_def a2_def a3_def goto_def upd_worker_def)
  have s1: "active_step s ops m a1"
    by (rule step) (use assms in \<open>simp_all add: worker_step_def Let_def a1_def\<close>)
  have s2w: "worker_step s ops i a1 = Some a2"
    using i q by (simp add: worker_step_def Let_def a1_def a2_def goto_def upd_worker_def wq.take_end_def)
  have s2: "active_step s ops a1 a2" by (rule step [OF s2w len(1)])
  have s3w: "worker_step s ops i a2 = Some a3"
    using i by (simp add: worker_step_def Let_def a2_def a3_def goto_def upd_worker_def a1_def)
  have s3: "active_step s ops a2 a3" by (rule step [OF s3w len(2)])
  have "no_null a1" using assms(2) unfolding a1_def goto_def by (intro no_null_upd) simp_all
  then have "no_null a3"
    using no_null_worker [OF no_null_worker [OF _ s2w] s3w] i len by simp
  moreover have pc3: "w_pc (mc_workers a3 ! i) = Busy" using i by (simp add: a3_def goto_def upd_worker_def len)
  ultimately have "folderInfo (w_entry (mc_workers a3 ! i)) \<noteq> NullInfo"
    using i len by (auto simp: no_null_def)
  with pc3 assms(1) obtain a4 where s4w: "worker_step s ops i a3 = Some a4"
    by (simp add: worker_step_def Let_def returning_def)
  have a4: "w_pc (mc_workers a4 ! i) = Packed" "same_rest i a3 a4"
    "itemList (mc_pool a4) = itemList (mc_pool a3)" "length (mc_workers a4) = length (mc_workers m)"
    using s4w pc3 i len
    by (auto simp: worker_step_def Let_def upd_worker_def same_rest_def split: if_splits)
  define a5 where "a5 = goto i Counting (a4\<lparr>mc_pool := (mc_pool a4)\<lparr>nProcessing := nProcessing (mc_pool a4) - 1\<rparr>\<rparr>)"
  define a6 where "a6 = goto i Tidying (a5\<lparr>mc_pool := (mc_pool a5)\<lparr>nProcessed := nProcessed (mc_pool a5) + 1\<rparr>\<rparr>)"
  define a7 where "a7 = goto i Checking (upd_worker i account_entry (a6\<lparr>mc_pool := (mc_pool a6)\<lparr>itemMapForName :=
    h_erase ops (itemMapForName (mc_pool a6)) (fileName (w_entry (mc_workers a6 ! i)))\<rparr>\<rparr>))"
  have s4: "active_step s ops a3 a4" by (rule step [OF s4w len(3)])
  have s5: "active_step s ops a4 a5"
    by (rule step) (simp_all add: worker_step_def Let_def a4 a5_def)
  have s6: "active_step s ops a5 a6"
    by (rule step) (use i a4 in \<open>simp_all add: worker_step_def Let_def a5_def a6_def goto_def upd_worker_def\<close>)
  have s7: "active_step s ops a6 a7"
    by (rule step) (use i a4 in \<open>simp_all add: worker_step_def Let_def a5_def a6_def a7_def goto_def upd_worker_def\<close>)
  have fr: "nJobs p' = nJobs (mc_pool m)" "allDoneEvent p' = allDoneEvent (mc_pool m)"
    "quitRequestedFlag p' = quitRequestedFlag (mc_pool m)"
    using q by (auto simp: wq.take_end_def getFront_def getBack_def split: list.splits if_splits)
  have "same_rest i m a3"
    using i by (auto simp: same_rest_def a1_def a2_def a3_def goto_def upd_worker_def fr)
  moreover have "same_rest i a4 a7"
    using i a4 by (auto simp: same_rest_def a5_def a6_def a7_def goto_def upd_worker_def account_entry_def)
  ultimately have "same_rest i m a7" using a4(2) i len a4(4) by (metis same_rest_trans)
  moreover have "w_pc (mc_workers a7 ! i) = Checking"
    using i a4 by (simp add: a5_def a6_def a7_def goto_def upd_worker_def)
  moreover have "length (itemList (mc_pool a7)) < length (itemList (mc_pool m))"
    using wq.take_length [OF q] a4(3)
    by (simp add: a5_def a6_def a7_def a1_def a2_def a3_def goto_def upd_worker_def)
  moreover have "(active_step s ops)\<^sup>*\<^sup>* m a7"
    using s1 s2 s3 s4 s5 s6 s7 by (meson converse_rtranclp_into_rtranclp rtranclp.rtrancl_refl)
  ultimately show thesis using that by blast
qed

lemma active_pool_step: "active_step s ops m m' \<Longrightarrow> pool_step s ops m m'"
  by (auto simp: active_step_def intro: pool_step.intros)

lemma active_pool_steps: "(active_step s ops)\<^sup>*\<^sup>* m m' \<Longrightarrow> (pool_step s ops)\<^sup>*\<^sup>* m m'"
  by (induction rule: rtranclp_induct) (auto intro: active_pool_step rtranclp.rtrancl_into_rtrancl)

text \<open>One worker can empty the queue and leave.\<close>

lemma drain:
  assumes "returning s" and "no_null m" and "i < length (mc_workers m)"
    and "w_pc (mc_workers m ! i) = Checking" and "\<not> quitRequestedFlag (mc_pool m)"
  shows "\<exists>m'. (active_step s ops)\<^sup>*\<^sup>* m m' \<and> w_pc (mc_workers m' ! i) = Cleaning \<and> same_rest i m m'"
  using assms
proof (induction "length (itemList (mc_pool m))" arbitrary: m rule: less_induct)
  case less
  show ?case
  proof (cases "itemList (mc_pool m) = []")
    case True
    define a where "a = goto i Fetching m"
    define b where "b = goto i Cleaning a"
    have a: "length (mc_workers a) = length (mc_workers m)" by (simp add: a_def goto_def upd_worker_def)
    have "worker_step s ops i m = Some a"
      using less.prems by (simp add: worker_step_def Let_def a_def)
    moreover have "worker_step s ops i a = Some b"
      using less.prems True
      by (simp add: worker_step_def Let_def a_def b_def goto_def upd_worker_def getFront_def getBack_def)
    ultimately have "(active_step s ops)\<^sup>*\<^sup>* m b"
      using less.prems(3) a unfolding active_step_def
      by (metis (mono_tags, lifting) rtranclp.rtrancl_into_rtrancl rtranclp.rtrancl_refl)
    moreover have "w_pc (mc_workers b ! i) = Cleaning" "same_rest i m b"
      using less.prems(3) by (auto simp: a_def b_def goto_def upd_worker_def same_rest_def)
    ultimately show ?thesis by blast
  next
    case False
    obtain m1 where m1: "(active_step s ops)\<^sup>*\<^sup>* m m1" "w_pc (mc_workers m1 ! i) = Checking"
      "same_rest i m m1" "length (itemList (mc_pool m1)) < length (itemList (mc_pool m))"
      by (rule one_round [OF less.prems False])
    have "no_null m1" by (rule no_null_reachable [OF active_pool_steps [OF m1(1)] less.prems(2)])
    moreover have "i < length (mc_workers m1)" "\<not> quitRequestedFlag (mc_pool m1)"
      using m1(3) less.prems by (auto simp: same_rest_def)
    ultimately obtain m' where "(active_step s ops)\<^sup>*\<^sup>* m1 m'" "w_pc (mc_workers m' ! i) = Cleaning" "same_rest i m1 m'"
      using less.hyps [OF m1(4) less.prems(1)] m1(2) by blast
    with m1 less.prems(3) show ?thesis by (meson rtranclp_trans same_rest_trans)
  qed
qed

text \<open>The first worker is started and does everything before the next one is looked at.\<close>

lemma first_worker_alone:
  assumes p: "ready_pool p" "\<not> quitRequestedFlag p" and s: "returning s"
  obtains m where "(active_step s ops)\<^sup>*\<^sup>* (run_init p shared dk) m"
    and "w_pc (mc_workers m ! 0) = Gone" and "mc_next m = 1" and "\<not> mc_waiting m"
    and "\<not> quitRequestedFlag (mc_pool m)" and "nJobs (mc_pool m) = nJobs p - 1"
    and "length (mc_workers m) = nat (nJobs p)"
    and "allDoneEvent (mc_pool m) = Some (nJobs (mc_pool m) \<le> 0)"
proof -
  let ?m0 = "run_init p shared dk"
  define m1 where "m1 = upd_worker 0 (\<lambda>w. w\<lparr>w_pc := Checking, w_nProcessed := 0\<rparr>) (?m0\<lparr>mc_next := 1\<rparr>)"
  have n: "0 < nJobs p" "0 < length (mc_workers ?m0)" using p by (auto simp: ready_pool_def run_init_def)
  have s1: "active_step s ops ?m0 m1"
    using n by (simp add: active_step_def start_step_def m1_def run_init_def)
  have m1: "w_pc (mc_workers m1 ! 0) = Checking" "\<not> quitRequestedFlag (mc_pool m1)" "0 < length (mc_workers m1)"
    "mc_next m1 = 1" "\<not> mc_waiting m1" "nJobs (mc_pool m1) = nJobs p" "length (mc_workers m1) = nat (nJobs p)"
    "\<not> cleanedUp (mc_workers m1 ! 0)"
    using n p by (simp_all add: m1_def run_init_def upd_worker_def new_worker_def)
  have "no_null ?m0" using p by (intro no_null_init) (simp add: ready_pool_def)
  then have "no_null m1" by (rule no_null_step [OF active_pool_step [OF s1]])
  from drain [OF s this m1(3,1,2)] obtain m2 where
    m2: "(active_step s ops)\<^sup>*\<^sup>* m1 m2" "w_pc (mc_workers m2 ! 0) = Cleaning" "same_rest 0 m1 m2" by blast
  obtain w' where w': "mc_workers m2 = (mc_workers m1)[0 := w']" "\<not> cleanedUp w'"
    using m2(3) m1(8) by (auto simp: same_rest_def)
  then have l2: "0 < length (mc_workers m2)" "\<not> cleanedUp (mc_workers m2 ! 0)"
    using m1(3) by simp_all
  obtain m3 where w3: "worker_step s ops 0 m2 = Some m3"
    using m2(2) by (simp add: worker_step_def Let_def)
  have r: "(active_step s ops)\<^sup>*\<^sup>* ?m0 m3"
  proof -
    have "active_step s ops m2 m3" using w3 l2(1) by (auto simp: active_step_def)
    with s1 m2(1) show ?thesis by (meson converse_rtranclp_into_rtranclp rtranclp.rtrancl_into_rtrancl)
  qed
  have "pool_inv (queued_names p) (nat (nJobs p)) m3"
    by (rule ready_inv [OF p(1) active_pool_steps [OF r]])
  then have "allDoneEvent (mc_pool m3) = Some (nJobs (mc_pool m3) \<le> 0)" by (simp add: pool_inv_def)
  moreover have "w_pc (mc_workers m3 ! 0) = Gone" "mc_next m3 = 1" "\<not> mc_waiting m3"
    "\<not> quitRequestedFlag (mc_pool m3)" "nJobs (mc_pool m3) = nJobs p - 1"
    "length (mc_workers m3) = nat (nJobs p)"
    using w3 m2(2,3) l2 m1
    by (auto simp: worker_step_def Let_def goto_def upd_worker_def CleanupThread_def same_rest_def)
  ultimately show thesis using r that by blast
qed

text \<open>C31: with two workers the first one can finish the whole queue before the start loop looks at
  the number of jobs again: that number is then 1, the second worker is never started, nobody
  sets the event, and the run waits for ever although every file has been handled.\<close>

theorem pool_start_race:
  assumes "ready_pool p" and "nJobs p = 2" and "\<not> quitRequestedFlag p" and "returning s"
  shows "\<exists>m. (pool_step s ops)\<^sup>*\<^sup>* (run_init p shared dk) m \<and> mc_waiting m \<and> \<not> wait_over m
    \<and> (\<forall>m'. \<not> active_step s ops m m') \<and> handled_names m = queued_names p"
proof -
  obtain m where m: "(active_step s ops)\<^sup>*\<^sup>* (run_init p shared dk) m"
    "w_pc (mc_workers m ! 0) = Gone" "mc_next m = 1" "\<not> mc_waiting m" "\<not> quitRequestedFlag (mc_pool m)"
    "nJobs (mc_pool m) = nJobs p - 1" "length (mc_workers m) = nat (nJobs p)"
    "allDoneEvent (mc_pool m) = Some (nJobs (mc_pool m) \<le> 0)"
    by (rule first_worker_alone [OF assms(1,3,4)])
  define m' where "m' = m\<lparr>mc_waiting := True\<rparr>"
  have "active_step s ops m m'" using m assms(2) by (simp add: active_step_def start_step_def m'_def)
  with m(1) have r: "(active_step s ops)\<^sup>*\<^sup>* (run_init p shared dk) m'" by (rule rtranclp.rtrancl_into_rtrancl)
  have inv: "pool_inv (queued_names p) 2 m'"
    using ready_inv [OF assms(1) active_pool_steps [OF r]] assms(2) by simp
  have pcs: "w_pc (mc_workers m' ! 0) = Gone" "w_pc (mc_workers m' ! 1) = NotStarted"
  proof -
    have "\<forall>i < 2. mc_next m' \<le> i \<longleftrightarrow> w_pc (mc_workers m' ! i) = NotStarted"
      using inv unfolding pool_inv_def by blast
    then have "mc_next m' \<le> 1 \<longleftrightarrow> w_pc (mc_workers m' ! 1) = NotStarted" by simp
    with m(2,3) show "w_pc (mc_workers m' ! 0) = Gone" "w_pc (mc_workers m' ! 1) = NotStarted"
      by (simp_all add: m'_def)
  qed
  obtain a b where ws: "mc_workers m' = [a, b]"
    using m(7) assms(2) by (auto simp: m'_def length_Suc_conv numeral_2_eq_2)
  have none: "worker_step s ops i m' = None" if "i < 2" for i
  proof -
    from that have "i = 0 \<or> i = 1" by auto
    then show ?thesis using pcs by (auto simp: worker_step_def Let_def)
  qed
  have "\<not> active_step s ops m' m''" for m''
    using none ws by (auto simp: active_step_def start_step_def m'_def)
  moreover have "itemList (mc_pool m') = []"
    using inv pcs m(5) by (auto simp: pool_inv_def m'_def)
  then have "handled_names m' = queued_names p"
    using inv pcs ws by (simp add: pool_inv_def handled_names_def wsum_def held_names_def)
  moreover have "\<not> wait_over m'" "mc_waiting m'"
    using m assms(2) by (simp_all add: wait_over_def m'_def)
  ultimately show ?thesis using active_pool_steps [OF r] by blast
qed

section \<open>A run with one file\<close>

text \<open>A volume that cannot be asked: \<open>compressFile\<close> comes back at once.\<close>

definition quick_sys :: sys where
  "quick_sys = sample_sys\<lparr>sy_env := (\<lambda>_. sample_env\<lparr>vol := (vol sample_env)\<lparr>statfs_ok := False\<rparr>\<rparr>)\<rparr>"

lemma quick_returning: "returning quick_sys"
proof -
  have "fst (compress_on_disk quick_sys True st fi dk) = Returned" for st fi dk
    by (simp add: compress_on_disk_def Let_def compressFile_def cf_body_def cf_entry_def quick_sys_def
        sample_sys_def sample_env_def fileIsCompressable_def)
  then show ?thesis
    by (auto simp: returning_def FileEntry_compress_def Let_def split: info_ref.splits)
qed

definition sample_pool :: "int \<Rightarrow> (string \<rightharpoonup> unit) pool" where
  "sample_pool n = (createParallelProcessor map_ops n 0 0)\<lparr>itemList := [FileEntry ''a'' (linked_stat 5 1) empty_info False]\<rparr>"

lemma sample_pool_ready: "0 < n \<Longrightarrow> ready_pool (sample_pool n)" "\<not> quitRequestedFlag (sample_pool n)"
  "nJobs (sample_pool n) = n" "queued_names (sample_pool n) = {#''a''#}"
  "distinct (map fileName (itemList (sample_pool n)))" "length (itemList (sample_pool n)) = 1"
  by (simp_all add: ready_pool_def sample_pool_def createParallelProcessor_def FileEntry_def queued_names_def)

abbreviation sample_start :: "int \<Rightarrow> (string \<rightharpoonup> unit) machine" where
  "sample_start n \<equiv> run_init (sample_pool n) empty_info sample_disk"

lemma sample_run:
  obtains m where "(active_step quick_sys map_ops)\<^sup>*\<^sup>* (sample_start 1) m"
    and "w_pc (mc_workers m ! 0) = Gone" and "mc_next m = length (mc_workers m)" and "\<not> mc_waiting m"
    and "\<not> quitRequestedFlag (mc_pool m)" and "allDoneEvent (mc_pool m) = Some True"
proof -
  have r: "ready_pool (sample_pool 1)" by (simp add: sample_pool_ready)
  obtain m where m: "(active_step quick_sys map_ops)\<^sup>*\<^sup>* (sample_start 1) m"
    "w_pc (mc_workers m ! 0) = Gone" "mc_next m = 1" "\<not> mc_waiting m" "\<not> quitRequestedFlag (mc_pool m)"
    "nJobs (mc_pool m) = nJobs (sample_pool 1) - 1"
    "length (mc_workers m) = nat (nJobs (sample_pool 1))"
    "allDoneEvent (mc_pool m) = Some (nJobs (mc_pool m) \<le> 0)"
    by (rule first_worker_alone [OF r sample_pool_ready(2) quick_returning])
  then show thesis by (intro that [of m]) (simp_all add: sample_pool_ready)
qed

theorem pool_accounts_for_files_witness:
  "\<exists>m. w_pc (mc_workers m ! 0) = Gone \<and> handled_names m \<subseteq># {#''a''#} \<and> distinct (map snd (mc_log m))
     \<and> (pool_step quick_sys map_ops)\<^sup>*\<^sup>* (sample_start 1) m"
proof -
  have r: "ready_pool (sample_pool 1)" by (simp add: sample_pool_ready)
  obtain m where m: "(active_step quick_sys map_ops)\<^sup>*\<^sup>* (sample_start 1) m" "w_pc (mc_workers m ! 0) = Gone"
    by (rule sample_run)
  from pool_accounts_for_files [OF r active_pool_steps [OF m(1)]] m sample_pool_ready(5) [of 1]
  show ?thesis unfolding sample_pool_ready(4) by (metis active_pool_steps)
qed

theorem pool_handles_all_witness:
  "\<exists>m. (pool_step quick_sys map_ops)\<^sup>*\<^sup>* (sample_start 1) m \<and> allDoneEvent (mc_pool m) = Some True
     \<and> handled_names m = {#''a''#} \<and> nProcessed (mc_pool m) = 1"
proof -
  have r: "ready_pool (sample_pool 1)" by (simp add: sample_pool_ready)
  obtain m where m: "(active_step quick_sys map_ops)\<^sup>*\<^sup>* (sample_start 1) m" "\<not> quitRequestedFlag (mc_pool m)"
    "allDoneEvent (mc_pool m) = Some True"
    by (rule sample_run)
  from pool_handles_all [OF r active_pool_steps [OF m(1)] m(3,2)] m(3) active_pool_steps [OF m(1)]
  show ?thesis unfolding sample_pool_ready(4,6) by auto
qed

theorem pool_terminates_witness:
  "\<exists>k m. (active_step quick_sys map_ops ^^ k) (sample_start 1) m \<and> w_pc (mc_workers m ! 0) = Gone \<and> k \<le> 12"
proof -
  have r: "ready_pool (sample_pool 1)" by (simp add: sample_pool_ready)
  obtain m where m: "(active_step quick_sys map_ops)\<^sup>*\<^sup>* (sample_start 1) m" "w_pc (mc_workers m ! 0) = Gone"
    by (rule sample_run)
  then obtain k where k: "(active_step quick_sys map_ops ^^ k) (sample_start 1) m"
    by (auto simp: rtranclp_power)
  from pool_terminates [OF r k] k m(2) show ?thesis by (auto simp: sample_pool_ready)
qed

theorem pool_progress_witness:
  "\<exists>m m'. (pool_step quick_sys map_ops)\<^sup>*\<^sup>* (sample_start 1) m \<and> active_step quick_sys map_ops m m'"
proof -
  have r: "ready_pool (sample_pool 1)" by (simp add: sample_pool_ready)
  obtain m where m: "(active_step quick_sys map_ops)\<^sup>*\<^sup>* (sample_start 1) m" "mc_next m = length (mc_workers m)"
    "\<not> mc_waiting m"
    by (rule sample_run)
  then show ?thesis
    using pool_progress [OF r active_pool_steps [OF m(1)] m(2) _ quick_returning] active_pool_steps [OF m(1)]
    by (auto simp: wait_over_def)
qed

theorem pool_start_race_witness:
  "\<exists>m. (pool_step quick_sys map_ops)\<^sup>*\<^sup>* (sample_start 2) m \<and> \<not> wait_over m \<and> handled_names m = {#''a''#}"
  using pool_start_race [OF sample_pool_ready(1) sample_pool_ready(3) sample_pool_ready(2) quick_returning]
  unfolding sample_pool_ready(4) by fastforce

end
