(* ===== verification/FolderWalk.thy ===== *)
theory FolderWalk
  imports WorkerPool
begin

text \<open>
  \<open>process_folder\<close> (src/afsctool.c): the walk over a folder. What \<open>fts_read\<close> returns is a list of
  entries in the order of the traversal (a folder before and after its contents, with its
  level); \<open>FTS_SKIP\<close> drops the entries below a folder. Each entry updates the statistics, the
  hard link table and, when compressing, the disk or (with workers) the queue.
\<close>

section \<open>The traversal\<close>

record fts_entry =
  fts_path :: string
  fts_level :: nat
  fts_info :: nat
  fts_ino :: nat
  fts_statp :: stat

definition FTS_D :: nat where "FTS_D = 1"

record ('m, 'h) walk =
  wk_info :: folder_info
  wk_links :: "'h link_state"
  wk_disk :: disk
  wk_pool :: "'m pool option"
  wk_stuck :: bool

definition volume_search :: "string \<Rightarrow> bool" where
  "volume_search path \<longleftrightarrow> strncasecmp_eq ''/Volumes/'' path 9 \<and> length path \<ge> 8"

definition in_scope :: "bool \<Rightarrow> string \<Rightarrow> bool" where
  "in_scope vs path \<longleftrightarrow>
     (vs \<or> \<not> strncasecmp_eq ''/Volumes/'' path 9 \<or> length path < 9)
     \<and> (\<not> strncasecmp_eq ''/dev/'' path 5 \<or> length path < 5)"

definition is_folder :: "fts_entry \<Rightarrow> bool" where
  "is_folder e \<longleftrightarrow> S_ISDIR (st_mode (fts_statp e)) \<and> fts_ino e \<noteq> 2"

definition is_file :: "fts_entry \<Rightarrow> bool" where
  "is_file e \<longleftrightarrow> \<not> is_folder e \<and> (S_ISREG (st_mode (fts_statp e)) \<or> S_ISLNK (st_mode (fts_statp e)))"

text \<open>Preorder visit of a folder: \<open>fts_info & FTS_D\<close>.\<close>

definition entering :: "fts_entry \<Rightarrow> bool" where
  "entering e \<longleftrightarrow> fts_info e AND FTS_D \<noteq> 0"

section \<open>A folder\<close>

text \<open>The number and the total size of its extended attributes; an attribute that cannot be read is
  left out, \<open>None\<close> is a failing listing.\<close>

definition folder_xattrs :: "listing_fault \<Rightarrow> xattrs \<Rightarrow> (int \<times> int) option" where
  "folder_xattrs lf xs =
     (if lf_size lf \<or> xs = [] then Some (0, 0)
      else if lf_malloc lf \<or> lf_list lf then None
      else
        let ys = filter (\<lambda>x. \<not> lf_get lf (fst x)) xs
        in Some (int (length ys), sum_list (map (\<lambda>x. int (length (snd x))) ys)))"

definition link_check ::
    "'h link_ops \<Rightarrow> fts_entry \<Rightarrow> ('m, 'h) walk \<Rightarrow> bool \<times> 'h link_state" where
  "link_check lops e w =
     (if \<not> check_hard_links (wk_info w) then (False, wk_links w)
      else checkForHardLink lops (Some (fts_path e, fts_statp e)) (wk_links w))"

text \<open>The new state, and whether the contents of the folder are skipped.\<close>

definition visit_folder ::
    "sys \<Rightarrow> 'h link_ops \<Rightarrow> fts_entry \<Rightarrow> ('m, 'h) walk \<Rightarrow> ('m, 'h) walk \<times> bool" where
  "visit_folder s lops e w =
     (if \<not> entering e then (w, False)
      else
        let lc = link_check lops e w; fi = wk_info w; w1 = w\<lparr>wk_links := snd lc\<rparr> in
        if \<not> fst lc then
          (case folder_xattrs (sy_listing s (fts_path e)) (f_xattrs (dk_nodes (wk_disk w) (st_ino (fts_statp e)))) of
             None \<Rightarrow> (w1, False)
           | Some (n, bytes) \<Rightarrow>
               (w1\<lparr>wk_info := fi\<lparr>total_size := total_size fi + bytes
                    + (if onAPFS fi then 0 else n * sizeof_HFSPlusAttrKey s + sizeof_HFSPlusCatalogFolder s),
                  num_folders := num_folders fi + 1\<rparr>\<rparr>, False))
        else
          (w1\<lparr>wk_info := fi\<lparr>num_hard_link_folders := num_hard_link_folders fi + 1,
             num_folders := num_folders fi + 1,
             total_size := total_size fi + (if onAPFS fi then 0 else sizeof_HFSPlusCatalogFolder s)\<rparr>\<rparr>, True))"

section \<open>A file\<close>

definition walk_filetype :: "sys \<Rightarrow> fts_entry \<Rightarrow> folder_info \<Rightarrow> string option" where
  "walk_filetype s e fi =
     (case filetypeslist fi of None \<Rightarrow> None
      | Some _ \<Rightarrow> Some (case sy_getFileType s (fts_path e) of None \<Rightarrow> ''UNDEFINED'' | Some t \<Rightarrow> t))"

definition walk_type_found :: "string option \<Rightarrow> fts_entry \<Rightarrow> folder_info \<Rightarrow> bool" where
  "walk_type_found ftype e fi =
     (case (ftype, filetypeslist fi) of
        (Some t, Some ts) \<Rightarrow>
          (let found = type_matches t (folder_file_extension (fts_path e)) ts
           in if invert_filetypelist fi then \<not> found else found)
      | _ \<Rightarrow> False)"

text \<open>Compressing a file of the walk, at once or by queueing it for the workers.\<close>

definition compress_entry ::
    "sys \<Rightarrow> 'm name_ops \<Rightarrow> int \<Rightarrow> fts_entry \<Rightarrow> ('m, 'h) walk \<Rightarrow> ('m, 'h) walk" where
  "compress_entry s nops old e w =
     (let st = fts_statp e; fi = wk_info w in
      case wk_pool w of
        Some p \<Rightarrow>
          (let r = fileIsCompressable (sy_env s (st_ino st)) st (compressiontype fi);
               fi1 = fi\<lparr>onAPFS := snd r\<rparr>
           in if fst r then
                w\<lparr>wk_info := fi1,
                  wk_pool := Some (snd (addFileToParallelProcessor nops old (fts_path e) st fi1 False p))\<rparr>
              else
                w\<lparr>wk_info := fi1,
                  wk_pool := Some (p\<lparr>jobInfo := snd (process_file_info s (fts_path e) None st
                     (f_xattrs (dk_nodes (wk_disk w) (st_ino st))) (jobInfo p))\<rparr>)\<rparr>)
      | None \<Rightarrow>
          (let r = compress_on_disk s False st fi (wk_disk w)
           in w\<lparr>wk_info := fst (snd (snd r)), wk_disk := snd (snd (snd r)), wk_stuck := (fst r \<noteq> Returned)\<rparr>))"

definition visit_file ::
    "sys \<Rightarrow> 'h link_ops \<Rightarrow> 'm name_ops \<Rightarrow> int \<Rightarrow> fts_entry \<Rightarrow> ('m, 'h) walk \<Rightarrow> ('m, 'h) walk" where
  "visit_file s lops nops old e w =
     (let fi = wk_info w;
          ftype = walk_filetype s e fi;
          filetype_found = walk_type_found ftype e fi;
          lc = link_check lops e w;
          w1 = w\<lparr>wk_links := snd lc\<rparr>
      in
      if \<not> fst lc then
        let compressing = compress_files fi \<and> S_ISREG (st_mode (fts_statp e));
            w2 = (if compressing \<and> (filetypeslist fi = None \<or> filetype_found)
                  then compress_entry s nops old e w1 else w1);
            st = (if compressing then disk_lstat s (fts_statp e) (wk_disk w2) else fts_statp e)
        in if wk_stuck w2 then w2
           else w2\<lparr>wk_info := snd (process_file_info s (fts_path e) ftype st
                     (f_xattrs (dk_nodes (wk_disk w2) (st_ino st))) (wk_info w2))\<rparr>
      else
        let fi1 = fi\<lparr>num_hard_link_files := num_hard_link_files fi + 1, num_files := num_files fi + 1,
              total_size := total_size fi + (if onAPFS fi then 0 else sizeof_HFSPlusCatalogFile s)\<rparr>;
            ti = (if filetype_found then getFileTypeInfo (fts_path e) ftype fi1 else (None, fi1))
        in w1\<lparr>wk_info := upd_type (fst ti) (\<lambda>ft. ft\<lparr>
             ft_num_hard_link_files := ft_num_hard_link_files ft + 1, ft_num_files := ft_num_files ft + 1,
             ft_total_size := ft_total_size ft
               + (if onAPFS fi then 0 else sizeof_HFSPlusCatalogFile s)\<rparr>) (snd ti)\<rparr>)"

section \<open>The loop\<close>

definition visit_entry ::
    "sys \<Rightarrow> 'h link_ops \<Rightarrow> 'm name_ops \<Rightarrow> int \<Rightarrow> bool \<Rightarrow> fts_entry \<Rightarrow> ('m, 'h) walk \<Rightarrow> ('m, 'h) walk \<times> bool" where
  "visit_entry s lops nops old vs e w =
     (if \<not> sy_quit s At_entry (fts_path e) \<and> in_scope vs (fts_path e) then
        if is_folder e then visit_folder s lops e w
        else if is_file e then (visit_file s lops nops old e w, False)
        else (w, False)
      else (w, True))"

definition skip_below :: "fts_entry \<Rightarrow> fts_entry list \<Rightarrow> fts_entry list" where
  "skip_below e es = dropWhile (\<lambda>x. fts_level x > fts_level e) es"

lemma length_skip_below: "length (skip_below e es) \<le> length es"
  by (simp add: skip_below_def length_dropWhile_le)

function walk_loop ::
    "sys \<Rightarrow> 'h link_ops \<Rightarrow> 'm name_ops \<Rightarrow> int \<Rightarrow> bool \<Rightarrow> fts_entry list \<Rightarrow> ('m, 'h) walk \<Rightarrow> ('m, 'h) walk" where
  "walk_loop s lops nops old vs [] w = w"
| "walk_loop s lops nops old vs (e # es) w =
     (let r = visit_entry s lops nops old vs e w in
      if wk_stuck (fst r) \<or> sy_quit s At_next (fts_path e) then fst r
      else walk_loop s lops nops old vs (if snd r then skip_below e es else es) (fst r))"
  by pat_completeness auto
termination
  by (relation "measure (\<lambda>(s, lops, nops, old, vs, es, w). length es)")
    (auto simp: less_Suc_eq_le length_skip_below)

definition process_folder ::
    "sys \<Rightarrow> 'h link_ops \<Rightarrow> 'm name_ops \<Rightarrow> int \<Rightarrow> fts_entry list \<Rightarrow> ('m, 'h) walk \<Rightarrow> ('m, 'h) walk" where
  "process_folder s lops nops old es w =
     (case es of [] \<Rightarrow> w
      | e # _ \<Rightarrow>
          let w1 = walk_loop s lops nops old (volume_search (fts_path e)) es w
          in if wk_stuck w1 then w1 else w1\<lparr>wk_links := snd (checkForHardLink lops None (wk_links w1))\<rparr>)"

section \<open>What is visited\<close>

text \<open>The entries the walk looks at when nobody asks to stop: those out of scope are skipped with
  everything below them.\<close>

function visited :: "bool \<Rightarrow> fts_entry list \<Rightarrow> fts_entry list" where
  "visited vs [] = []"
| "visited vs (e # es) =
     (if in_scope vs (fts_path e) then e # visited vs es else visited vs (skip_below e es))"
  by pat_completeness auto
termination
  by (relation "measure (\<lambda>(vs, es). length es)") (auto simp: less_Suc_eq_le length_skip_below)

lemma folder_has_no_links: "is_folder e \<Longrightarrow> \<not> has_links (fts_statp e)"
  by (auto simp: is_folder_def has_links_def S_ISDIR_def S_ISREG_def S_IFDIR_def S_IFREG_def)

lemma no_link_check: "\<not> has_links (fts_statp e) \<Longrightarrow> \<not> fst (link_check lops e w)"
  by (simp add: link_check_def checkForHardLink_def Let_def)

text \<open>The settings that do not change.\<close>

definition settings :: "folder_info \<Rightarrow> bool \<times> bool \<times> bool \<times> string list option \<times> bool \<times> compression_type" where
  "settings fi = (check_files fi, compress_files fi, check_hard_links fi, filetypeslist fi,
     invert_filetypelist fi, compressiontype fi)"

lemma settings_charge [simp]: "settings (charge_folder c fi) = settings fi"
  by (simp add: settings_def charge_folder_def)

lemma settings_upd_type [simp]: "settings (upd_type i f fi) = settings fi"
  by (simp add: settings_def upd_type_def split: option.splits)

lemma settings_getFileTypeInfo [simp]: "settings (snd (getFileTypeInfo path ftype fi)) = settings fi"
  by (auto simp: settings_def getFileTypeInfo_def Let_def split: option.splits sum.splits)

lemma settings_process_file_info [simp]:
  "settings (snd (process_file_info s path ftype st xs fi)) = settings fi"
proof -
  have "settings (fi\<lparr>num_files := n\<rparr>) = settings fi" for n by (simp add: settings_def)
  then show ?thesis
    by (simp add: process_file_info_def find_type_def Let_def split: option.splits)
qed

lemma settings_compress_entry [simp]:
  "settings (wk_info (compress_entry s nops old e w)) = settings (wk_info w)"
  by (auto simp: compress_entry_def Let_def settings_def compress_on_disk_def split: option.splits)

lemma settings_visit [simp]:
  "settings (wk_info (fst (visit_entry s lops nops old vs e w))) = settings (wk_info w)"
  by (auto simp: visit_entry_def visit_folder_def visit_file_def Let_def split: option.splits)
    (auto simp: settings_def)

end
