(* ===== verification/FolderProperties.thy ===== *)
theory FolderProperties
  imports FolderWalk
begin

text \<open>
  What a walk over a folder does: the counters of files, folders and hard links count the visited
  entries, the type tables stay sorted and within the totals, and a compressing walk leaves what
  a reader of any file sees unchanged.
\<close>

text \<open>Nobody asks to stop and every listing of attributes works.\<close>

definition quiet :: "sys \<Rightarrow> bool" where
  "quiet s \<longleftrightarrow> (\<forall>k p. \<not> sy_quit s k p) \<and> (\<forall>p. sy_listing s p = quiet_fault)"

lemma quiet_xattrs:
  assumes "quiet s"
  obtains t where "sum_xattrs (sy_listing s p) xs = Some t"
proof (rule that)
  have l: "sy_listing s p = quiet_fault" using assms by (simp add: quiet_def)
  show "sum_xattrs (sy_listing s p) xs = Some (if xs = [] then no_xattrs else fold add_xattr xs no_xattrs)"
    unfolding l by (simp add: quiet_fault_def sum_xattrs_def list_ex_iff)
qed

lemma quiet_folder_xattrs:
  assumes "quiet s"
  obtains n b where "folder_xattrs (sy_listing s p) xs = Some (n, b)"
proof -
  have l: "sy_listing s p = quiet_fault" using assms by (simp add: quiet_def)
  show thesis
    using that unfolding l by (cases "xs = []") (simp_all add: quiet_fault_def folder_xattrs_def Let_def)
qed

text \<open>What one entry adds to the counters.\<close>

definition counts_ok :: "folder_info \<Rightarrow> folder_info \<Rightarrow> int \<Rightarrow> int \<Rightarrow> bool" where
  "counts_ok fi fi' files folders \<longleftrightarrow> type_table_ok fi'
     \<and> num_files fi' = num_files fi + files \<and> num_folders fi' = num_folders fi + folders
     \<and> num_hard_link_folders fi' = num_hard_link_folders fi
     \<and> type_sum ft_num_files fi \<le> type_sum ft_num_files fi'
     \<and> type_sum ft_num_files fi' \<le> type_sum ft_num_files fi + files"

lemma counts_ok_refl: "type_table_ok fi \<Longrightarrow> counts_ok fi fi 0 0"
  by (simp add: counts_ok_def)

lemma counts_ok_trans:
  "counts_ok a b m n \<Longrightarrow> counts_ok b c k l \<Longrightarrow> counts_ok a c (m + k) (n + l)"
  by (simp add: counts_ok_def)

lemma process_file_info_folders [simp]:
  "num_folders (snd (process_file_info s path ftype st xs fi)) = num_folders fi"
  "num_hard_link_folders (snd (process_file_info s path ftype st xs fi)) = num_hard_link_folders fi"
  "num_hard_link_files (snd (process_file_info s path ftype st xs fi)) = num_hard_link_files fi"
  by (simp_all add: process_file_info_def Let_def split: option.splits)

lemma process_file_info_counts_ok:
  assumes "quiet s" and "type_table_ok fi"
  shows "counts_ok fi (snd (process_file_info s path ftype st xs fi)) 1 0"
proof -
  obtain t where t: "sum_xattrs (sy_listing s path) xs = Some t" by (rule quiet_xattrs [OF assms(1)])
  have q: "\<not> sy_quit s In_info path" using assms(1) by (simp add: quiet_def)
  note e = process_file_info_effect [OF assms(2) q t, of ftype st]
  show ?thesis using e(1,2,7) by (simp add: counts_ok_def of_bool_def)
qed

lemma compress_entry_info:
  obtains a z where "wk_info (compress_entry s nops old e w)
      = (wk_info w)\<lparr>onAPFS := a, data_compressed_size := z\<rparr>"
    and "wk_links (compress_entry s nops old e w) = wk_links w"
proof (cases "wk_pool w")
  case None
  then show ?thesis
    by (intro that) (auto simp: compress_entry_def Let_def compress_on_disk_def)
next
  case (Some p)
  then show ?thesis
    by (intro that [where a = "snd (fileIsCompressable (sy_env s (st_ino (fts_statp e))) (fts_statp e)
        (compressiontype (wk_info w)))" and z = "data_compressed_size (wk_info w)"])
      (auto simp: compress_entry_def Let_def)
qed

lemma counts_ok_settings:
  "type_table_ok fi \<Longrightarrow> counts_ok fi (fi\<lparr>onAPFS := a, data_compressed_size := z\<rparr>) 0 0"
  by (simp add: counts_ok_def type_table_ok_def type_sum_def)

lemma linked_file_counts_ok:
  assumes ok: "type_table_ok fi"
    and fi1: "fi1 = fi\<lparr>num_hard_link_files := k, num_files := num_files fi + 1, total_size := z\<rparr>"
    and ti: "ti = (if found then getFileTypeInfo path (Some t) fi1 else (None, fi1))"
  shows "counts_ok fi (upd_type (fst ti) (\<lambda>ft. ft\<lparr>
      ft_num_hard_link_files := ft_num_hard_link_files ft + 1, ft_num_files := ft_num_files ft + 1,
      ft_total_size := ft_total_size ft + y\<rparr>) (snd ti)) 1 0"
    and "num_hard_link_files (snd ti) = k"
proof -
  have ok1: "type_table_ok fi1" using ok by (simp add: fi1 type_table_ok_def)
  have s1: "type_sum ft_num_files fi1 = type_sum ft_num_files fi" by (simp add: fi1 type_sum_def)
  have f1: "num_files fi1 = num_files fi + 1" "num_folders fi1 = num_folders fi"
    "num_hard_link_folders fi1 = num_hard_link_folders fi" "num_hard_link_files fi1 = k"
    by (simp_all add: fi1)
  show "num_hard_link_files (snd ti) = k" by (simp add: ti f1)
  show "counts_ok fi (upd_type (fst ti) (\<lambda>ft. ft\<lparr>
      ft_num_hard_link_files := ft_num_hard_link_files ft + 1, ft_num_files := ft_num_files ft + 1,
      ft_total_size := ft_total_size ft + y\<rparr>) (snd ti)) 1 0"
  proof (cases found)
    case False
    then show ?thesis using ok1 s1 f1 by (simp add: ti counts_ok_def)
  next
    case True
    obtain r fi2 where r: "getFileTypeInfo path (Some t) fi1 = (r, fi2)" by (cases "getFileTypeInfo path (Some t) fi1")
    obtain i where i: "r = Some i" "i < length (filetypes fi2)"
      using getFileTypeInfo_index [OF ok1 r] by metis
    have fr: "num_files fi2 = num_files fi1" "num_folders fi2 = num_folders fi1"
      "num_hard_link_folders fi2 = num_hard_link_folders fi1"
      using getFileTypeInfo_frame(1-4) [of path "Some t" fi1] r by simp_all
    have ok2: "type_table_ok fi2" "type_sum ft_num_files fi2 = type_sum ft_num_files fi1"
      using getFileTypeInfo_ok [OF ok1, of path "Some t"]
        getFileTypeInfo_sum [OF ok1, of ft_num_files path "Some t"] r by (simp_all add: counter_def)
    define f :: "filetype_info \<Rightarrow> filetype_info" where "f = (\<lambda>ft. ft\<lparr>
      ft_num_hard_link_files := ft_num_hard_link_files ft + 1, ft_num_files := ft_num_files ft + 1,
      ft_total_size := ft_total_size ft + y\<rparr>)"
    have "type_table_ok (upd_type r f fi2)"
      using i by (intro upd_type_ok [OF ok2(1)]) (auto simp: f_def)
    moreover have "type_sum ft_num_files (upd_type r f fi2) = type_sum ft_num_files fi2 + 1"
      unfolding i(1) using i(2) by (simp add: upd_type_sum f_def)
    ultimately show ?thesis
      using True r ok2 s1 f1 fr by (simp add: ti counts_ok_def f_def [symmetric])
  qed
qed

lemma walk_type_found_Some: "walk_type_found ftype e fi \<Longrightarrow> \<exists>t. ftype = Some t"
  by (auto simp: walk_type_found_def split: option.splits)

lemma visit_file_counts:
  assumes q: "quiet s" and ok: "type_table_ok (wk_info w)"
    and "\<not> wk_stuck (visit_file s lops nops old e w)"
  shows "counts_ok (wk_info w) (wk_info (visit_file s lops nops old e w)) 1 0"
    and "num_hard_link_files (wk_info (visit_file s lops nops old e w))
      = num_hard_link_files (wk_info w) + of_bool (fst (link_check lops e w))"
    and "wk_links (visit_file s lops nops old e w) = snd (link_check lops e w)"
proof -
  define w' where "w' = visit_file s lops nops old e w"
  define fi where "fi = wk_info w"
  define ftype where "ftype = walk_filetype s e fi"
  have "counts_ok fi (wk_info w') 1 0 \<and>
      num_hard_link_files (wk_info w') = num_hard_link_files fi + of_bool (fst (link_check lops e w))
      \<and> wk_links w' = snd (link_check lops e w)"
  proof (cases "fst (link_check lops e w)")
    case True
    define fi1 where "fi1 = fi\<lparr>num_hard_link_files := num_hard_link_files fi + 1, num_files := num_files fi + 1,
              total_size := total_size fi + (if onAPFS fi then 0 else sizeof_HFSPlusCatalogFile s)\<rparr>"
    define found where "found = walk_type_found ftype e fi"
    define ti where "ti = (if found then getFileTypeInfo (fts_path e) ftype fi1 else (None, fi1))"
    have ti': "ti = (if found then getFileTypeInfo (fts_path e) (Some (the ftype)) fi1 else (None, fi1))"
      using walk_type_found_Some [of ftype e fi] by (auto simp: ti_def found_def)
    have w': "w' = w\<lparr>wk_links := snd (link_check lops e w), wk_info := upd_type (fst ti) (\<lambda>ft. ft\<lparr>
             ft_num_hard_link_files := ft_num_hard_link_files ft + 1, ft_num_files := ft_num_files ft + 1,
             ft_total_size := ft_total_size ft
               + (if onAPFS fi then 0 else sizeof_HFSPlusCatalogFile s)\<rparr>) (snd ti)\<rparr>"
      using True by (simp add: w'_def visit_file_def Let_def fi_def fi1_def ftype_def found_def ti_def)
    show ?thesis
      using linked_file_counts_ok [OF ok [folded fi_def] fi1_def ti'] True by (simp add: w')
  next
    case False
    define w1 where "w1 = w\<lparr>wk_links := snd (link_check lops e w)\<rparr>"
    define b where "b \<longleftrightarrow> compress_files fi \<and> S_ISREG (st_mode (fts_statp e))
      \<and> (filetypeslist fi = None \<or> walk_type_found ftype e fi)"
    define w2 where "w2 = (if b then compress_entry s nops old e w1 else w1)"
    obtain a z where ce: "wk_info (compress_entry s nops old e w1) = (wk_info w1)\<lparr>onAPFS := a, data_compressed_size := z\<rparr>"
      "wk_links (compress_entry s nops old e w1) = wk_links w1"
      by (rule compress_entry_info)
    have w2: "counts_ok fi (wk_info w2) 0 0" "num_hard_link_files (wk_info w2) = num_hard_link_files fi"
      "wk_links w2 = snd (link_check lops e w)"
      using ok ce by (auto simp: w2_def w1_def fi_def counts_ok_settings counts_ok_refl)
    define st where "st = (if compress_files fi \<and> S_ISREG (st_mode (fts_statp e))
      then disk_lstat s (fts_statp e) (wk_disk w2) else fts_statp e)"
    have w': "w' = (if wk_stuck w2 then w2 else w2\<lparr>wk_info := snd (process_file_info s (fts_path e) ftype st
                     (f_xattrs (dk_nodes (wk_disk w2) (st_ino st))) (wk_info w2))\<rparr>)"
      unfolding w'_def visit_file_def Let_def st_def w2_def b_def w1_def ftype_def fi_def
      by (simp only: False not_False_eq_True if_True conj_assoc)
    have ok2: "type_table_ok (wk_info w2)" using w2(1) by (simp add: counts_ok_def)
    have "\<not> wk_stuck w2" using assms(3) w' by (auto simp: w'_def [symmetric])
    then show ?thesis
      using w2 counts_ok_trans [OF w2(1) process_file_info_counts_ok [OF q ok2]] False by (simp add: w')
  qed
  then show "counts_ok (wk_info w) (wk_info (visit_file s lops nops old e w)) 1 0"
    "num_hard_link_files (wk_info (visit_file s lops nops old e w))
      = num_hard_link_files (wk_info w) + of_bool (fst (link_check lops e w))"
    "wk_links (visit_file s lops nops old e w) = snd (link_check lops e w)"
    by (simp_all add: w'_def fi_def)
qed

lemma visit_folder_counts:
  assumes q: "quiet s" and ok: "type_table_ok (wk_info w)" and e: "is_folder e"
  shows "counts_ok (wk_info w) (wk_info (fst (visit_folder s lops e w))) 0 (of_bool (entering e))"
    and "num_hard_link_files (wk_info (fst (visit_folder s lops e w))) = num_hard_link_files (wk_info w)"
    and "wk_links (fst (visit_folder s lops e w)) = (if entering e then snd (link_check lops e w) else wk_links w)"
    and "\<not> snd (visit_folder s lops e w)" and "wk_stuck (fst (visit_folder s lops e w)) = wk_stuck w"
proof -
  have l: "\<not> fst (link_check lops e w)" using e by (intro no_link_check folder_has_no_links)
  obtain n b where x: "folder_xattrs (sy_listing s (fts_path e))
      (f_xattrs (dk_nodes (wk_disk w) (st_ino (fts_statp e)))) = Some (n, b)"
    by (rule quiet_folder_xattrs [OF q])
  show "counts_ok (wk_info w) (wk_info (fst (visit_folder s lops e w))) 0 (of_bool (entering e))"
    "num_hard_link_files (wk_info (fst (visit_folder s lops e w))) = num_hard_link_files (wk_info w)"
    "wk_links (fst (visit_folder s lops e w)) = (if entering e then snd (link_check lops e w) else wk_links w)"
    "\<not> snd (visit_folder s lops e w)" "wk_stuck (fst (visit_folder s lops e w)) = wk_stuck w"
    using l x ok
    by (simp_all add: visit_folder_def Let_def counts_ok_def type_table_ok_def type_sum_def)
qed

section \<open>Counting the visited entries\<close>

definition files_in :: "fts_entry list \<Rightarrow> int" where
  "files_in es = int (length (filter is_file es))"

definition folders_in :: "fts_entry list \<Rightarrow> int" where
  "folders_in es = int (length (filter (\<lambda>e. is_folder e \<and> entering e) es))"

lemma counting_simps [simp]:
  "files_in [] = 0" "folders_in [] = 0" "files_in (e # es) = of_bool (is_file e) + files_in es"
  "folders_in (e # es) = of_bool (is_folder e \<and> entering e) + folders_in es"
  by (simp_all add: files_in_def folders_in_def)

lemma file_not_folder: "is_file e \<Longrightarrow> \<not> is_folder e"
  by (simp add: is_file_def)

lemma visit_entry_counts:
  assumes q: "quiet s" and ok: "type_table_ok (wk_info w)" and sc: "in_scope vs (fts_path e)"
    and st: "\<not> wk_stuck (fst (visit_entry s lops nops old vs e w))"
  shows "counts_ok (wk_info w) (wk_info (fst (visit_entry s lops nops old vs e w)))
      (of_bool (is_file e)) (of_bool (is_folder e \<and> entering e))"
    and "\<not> snd (visit_entry s lops nops old vs e w)"
proof -
  have v: "visit_entry s lops nops old vs e w = (if is_folder e then visit_folder s lops e w
      else if is_file e then (visit_file s lops nops old e w, False) else (w, False))"
    using q sc by (simp add: visit_entry_def quiet_def)
  show "counts_ok (wk_info w) (wk_info (fst (visit_entry s lops nops old vs e w)))
      (of_bool (is_file e)) (of_bool (is_folder e \<and> entering e))"
    using visit_folder_counts(1) [OF q ok, of e lops] visit_file_counts(1) [OF q ok, of lops nops old e] st ok
    by (auto simp: v file_not_folder counts_ok_refl split: if_splits)
  show "\<not> snd (visit_entry s lops nops old vs e w)"
    using visit_folder_counts(4) [OF q ok, of e lops] by (simp add: v)
qed

lemma visit_out_of_scope:
  "\<not> in_scope vs (fts_path e) \<Longrightarrow> visit_entry s lops nops old vs e w = (w, True)"
  by (simp add: visit_entry_def)

lemma walk_loop_counts:
  assumes q: "quiet s" and "type_table_ok (wk_info w)" and "\<not> wk_stuck w"
    and "\<not> wk_stuck (walk_loop s lops nops old vs es w)"
  shows "counts_ok (wk_info w) (wk_info (walk_loop s lops nops old vs es w))
      (files_in (visited vs es)) (folders_in (visited vs es))"
  using assms(2-4)
proof (induction "length es" arbitrary: es w rule: less_induct)
  case less
  show ?case
  proof (cases es)
    case Nil
    with less.prems show ?thesis by (simp add: counts_ok_refl)
  next
    case (Cons e rest)
    define r where "r = visit_entry s lops nops old vs e w"
    define rest' where "rest' = (if snd r then skip_below e rest else rest)"
    have loop: "walk_loop s lops nops old vs es w
        = (if wk_stuck (fst r) then fst r else walk_loop s lops nops old vs rest' (fst r))"
      using q by (simp add: Cons r_def rest'_def quiet_def Let_def)
    with less.prems(3) have st: "\<not> wk_stuck (fst r)" "\<not> wk_stuck (walk_loop s lops nops old vs rest' (fst r))"
      by (auto split: if_splits)
    have len: "length rest' < length es"
      using length_skip_below [of e rest] by (simp add: rest'_def Cons)
    show ?thesis
    proof (cases "in_scope vs (fts_path e)")
      case True
      note v = visit_entry_counts [OF q less.prems(1) True, of lops nops old, folded r_def]
      have "type_table_ok (wk_info (fst r))" using v(1) st(1) by (simp add: counts_ok_def)
      from counts_ok_trans [OF v(1) [OF st(1)] less.hyps [OF len this st]] v(2) [OF st(1)] True loop st(1)
      show ?thesis by (simp add: Cons rest'_def)
    next
      case False
      then have "r = (w, True)" by (simp add: r_def visit_out_of_scope)
      with less.hyps [OF len, of w] less.prems st False loop show ?thesis
        by (simp add: Cons rest'_def)
    qed
  qed
qed

section \<open>Hard links\<close>

definition link_name :: "fts_entry \<Rightarrow> string \<times> stat" where
  "link_name e = (fts_path e, fts_statp e)"

definition file_names :: "fts_entry list \<Rightarrow> (string \<times> stat) list" where
  "file_names es = map link_name (filter is_file es)"

definition linked_names :: "(string \<times> stat) list \<Rightarrow> int" where
  "linked_names xs = int (length (filter (\<lambda>x. has_links (snd x)) xs))"

lemma names_simps [simp]:
  "file_names [] = []" "linked_names [] = 0"
  "file_names (e # es) = (if is_file e then link_name e # file_names es else file_names es)"
  "linked_names (x # xs) = of_bool (has_links (snd x)) + linked_names xs"
  by (simp_all add: file_names_def linked_names_def)

lemma unlinked_step:
  assumes "hash_laws ops (\<lambda>i. i \<noteq> 0)" and "links_of ops xs s" and "\<not> has_links st"
  shows "links_of ops xs (snd (checkForHardLink ops (Some (p, st)) s))"
proof (cases "numLinks s = -1")
  case True
  with assms(2) have "xs = []" by (auto simp: links_of_def)
  with True assms(3) show ?thesis
    by (simp add: checkForHardLink_def links_of_def hash_laws_simps(1) [OF assms(1)])
next
  case False
  with assms(2,3) show ?thesis by (simp add: checkForHardLink_def)
qed

lemma linked_step:
  assumes "hash_laws ops (\<lambda>i. i \<noteq> 0)" and "links_of ops xs s" and "st_ino st \<noteq> 0"
    and "p \<notin> fst ` set xs"
  shows "of_bool (fst (checkForHardLink ops (Some (p, st)) s)) + int (card (linked_inos (xs @ [(p, st)])))
    = int (card (linked_inos xs)) + of_bool (has_links st)"
proof -
  have "(\<exists>q. first_path xs (st_ino st) = Some q \<and> q \<noteq> p) \<longleftrightarrow> st_ino st \<in> linked_inos xs"
    using assms(4) by (auto simp: linked_inos_first_path dest: first_path_Some)
  then have "fst (checkForHardLink ops (Some (p, st)) s) \<longleftrightarrow> has_links st \<and> st_ino st \<in> linked_inos xs"
    using checkForHardLink_step(2) [OF assms(1-3), of p] by simp
  then show ?thesis by (auto simp: insert_absorb)
qed

lemma visit_entry_links:
  assumes q: "quiet s" and ok: "type_table_ok (wk_info w)" and sc: "in_scope vs (fts_path e)"
    and st: "\<not> wk_stuck (fst (visit_entry s lops nops old vs e w))"
    and laws: "hash_laws lops (\<lambda>i. i \<noteq> 0)" and c: "check_hard_links (wk_info w)"
    and l: "links_of lops xs (wk_links w)"
    and new: "is_file e \<Longrightarrow> fts_path e \<notin> fst ` set xs \<and> st_ino (fts_statp e) \<noteq> 0"
  shows "links_of lops (xs @ file_names [e]) (wk_links (fst (visit_entry s lops nops old vs e w)))"
    and "num_hard_link_files (wk_info (fst (visit_entry s lops nops old vs e w)))
        + int (card (linked_inos (xs @ file_names [e])))
      = num_hard_link_files (wk_info w) + int (card (linked_inos xs)) + linked_names (file_names [e])"
proof -
  have v: "visit_entry s lops nops old vs e w = (if is_folder e then visit_folder s lops e w
      else if is_file e then (visit_file s lops nops old e w, False) else (w, False))"
    using q sc by (simp add: visit_entry_def quiet_def)
  have lc: "link_check lops e w = checkForHardLink lops (Some (fts_path e, fts_statp e)) (wk_links w)"
    using c by (simp add: link_check_def)
  note fo = visit_folder_counts [OF q ok, of e lops]
  show "links_of lops (xs @ file_names [e]) (wk_links (fst (visit_entry s lops nops old vs e w)))"
    using fo(3) visit_file_counts(3) [OF q ok, of lops nops old e] st l new
      unlinked_step [OF laws l folder_has_no_links, of e "fts_path e"]
      checkForHardLink_step(1) [OF laws l, of "fts_statp e" "fts_path e"]
    by (auto simp: v file_not_folder lc link_name_def split: if_splits)
  show "num_hard_link_files (wk_info (fst (visit_entry s lops nops old vs e w)))
        + int (card (linked_inos (xs @ file_names [e])))
      = num_hard_link_files (wk_info w) + int (card (linked_inos xs)) + linked_names (file_names [e])"
    using fo(2) visit_file_counts(2) [OF q ok, of lops nops old e] st new
      linked_step [OF laws l, of "fts_statp e" "fts_path e"]
    by (auto simp: v file_not_folder lc link_name_def split: if_splits)
qed

lemma walk_loop_links:
  assumes q: "quiet s" and laws: "hash_laws lops (\<lambda>i. i \<noteq> 0)"
    and "type_table_ok (wk_info w)" and "\<not> wk_stuck w"
    and "\<not> wk_stuck (walk_loop s lops nops old vs es w)" and "check_hard_links (wk_info w)"
    and "links_of lops xs (wk_links w)"
    and "distinct (map fst (xs @ file_names (visited vs es)))"
    and "\<forall>x \<in> set (file_names (visited vs es)). st_ino (snd x) \<noteq> 0"
  defines "w' \<equiv> walk_loop s lops nops old vs es w" and "ys \<equiv> file_names (visited vs es)"
  shows "links_of lops (xs @ ys) (wk_links w') \<and>
    num_hard_link_files (wk_info w') + int (card (linked_inos (xs @ ys)))
      = num_hard_link_files (wk_info w) + int (card (linked_inos xs)) + linked_names ys"
  unfolding w'_def ys_def using assms(3-9)
proof (induction "length es" arbitrary: es w xs rule: less_induct)
  case less
  show ?case
  proof (cases es)
    case Nil
    with less.prems show ?thesis by simp
  next
    case (Cons e rest)
    define r where "r = visit_entry s lops nops old vs e w"
    define rest' where "rest' = (if snd r then skip_below e rest else rest)"
    have loop: "walk_loop s lops nops old vs es w
        = (if wk_stuck (fst r) then fst r else walk_loop s lops nops old vs rest' (fst r))"
      using q by (simp add: Cons r_def rest'_def quiet_def Let_def)
    with less.prems(3) have st: "\<not> wk_stuck (fst r)" "\<not> wk_stuck (walk_loop s lops nops old vs rest' (fst r))"
      by (auto split: if_splits)
    have len: "length rest' < length es"
      using length_skip_below [of e rest] by (simp add: rest'_def Cons)
    show ?thesis
    proof (cases "in_scope vs (fts_path e)")
      case True
      note v = visit_entry_counts [OF q less.prems(1) True, of lops nops old, folded r_def, OF st(1)]
      have r': "rest' = rest" using v(2) by (simp add: rest'_def)
      have ok: "type_table_ok (wk_info (fst r))" using v(1) by (simp add: counts_ok_def)
      have vis: "file_names (visited vs es) = file_names [e] @ file_names (visited vs rest')"
        using True by (simp add: Cons r')
      have new: "is_file e \<Longrightarrow> fts_path e \<notin> fst ` set xs \<and> st_ino (fts_statp e) \<noteq> 0"
        using less.prems(6,7) True by (auto simp: Cons link_name_def)
      note le = visit_entry_links [OF q less.prems(1) True _ laws less.prems(4,5) new,
          of nops old, folded r_def, OF st(1)]
      have ch: "check_hard_links (wk_info (fst r))"
        using settings_visit [of s lops nops old vs e w] less.prems(4) by (simp add: r_def settings_def)
      have d: "distinct (map fst ((xs @ file_names [e]) @ file_names (visited vs rest')))"
        "\<forall>x \<in> set (file_names (visited vs rest')). st_ino (snd x) \<noteq> 0"
        using less.prems(6,7) unfolding vis by (simp_all add: image_Un)
      have l: "linked_names (file_names [e] @ zs) = linked_names (file_names [e]) + linked_names zs" for zs
        by (simp add: linked_names_def)
      from less.hyps [OF len ok st ch le(1) d] le(2) loop st(1)
      show ?thesis unfolding vis l by simp
    next
      case False
      then have "r = (w, True)" by (simp add: r_def visit_out_of_scope)
      with less.hyps [OF len, of w xs] less.prems st False loop show ?thesis
        by (simp add: Cons rest'_def)
    qed
  qed
qed

section \<open>What readers see\<close>

definition is_reg :: "fts_entry \<Rightarrow> bool" where
  "is_reg e \<longleftrightarrow> S_ISREG (st_mode (fts_statp e))"

definition entry_safe :: "sys \<Rightarrow> disk \<Rightarrow> fts_entry \<Rightarrow> bool" where
  "entry_safe s dk e \<longleftrightarrow> agrees s (fts_statp e) dk
     \<and> safe_env (sy_env s (st_ino (fts_statp e))) (disk_reads s dk (st_ino (fts_statp e)))"

text \<open>A serial visit touches the node of its own file only.\<close>

lemma visit_entry_disk:
  assumes "wk_pool w = None" and "check_files (wk_info w)"
    and "is_reg e \<Longrightarrow> entry_safe s (wk_disk w) e"
    and w': "w' = fst (visit_entry s lops nops old vs e w)"
  shows "disk_reads s (wk_disk w') = disk_reads s (wk_disk w) \<and> wk_pool w' = None
    \<and> (\<forall>i. is_reg e \<and> i = st_ino (fts_statp e) \<or> dk_nodes (wk_disk w') i = dk_nodes (wk_disk w) i)"
proof -
  define v where "v = compress_entry s nops old e (w\<lparr>wk_links := snd (link_check lops e w)\<rparr>)"
  have keep: "\<not> is_reg e \<Longrightarrow> wk_disk w' = wk_disk w \<and> wk_pool w' = None"
    "wk_disk w' = wk_disk w \<or> wk_disk w' = wk_disk v" "wk_pool w' = None"
    using assms(1) unfolding w' v_def
    by (auto simp: visit_entry_def visit_folder_def visit_file_def is_reg_def Let_def compress_entry_def
        split: option.splits)
  show ?thesis
  proof (cases "is_reg e \<and> wk_disk w' \<noteq> wk_disk w")
    case False
    with keep show ?thesis by auto
  next
    case True
    define fi where "fi = wk_info w"
    obtain x st' fi' dk' where c: "compress_on_disk s False (fts_statp e) fi (wk_disk w) = (x, st', fi', dk')"
      by (metis prod_cases4)
    have "wk_disk v = dk'" using assms(1) c by (simp add: v_def compress_entry_def Let_def fi_def)
    with True keep(2) have d: "wk_disk w' = dk'" by simp
    have "disk_reads s dk' = disk_reads s (wk_disk w)"
      using assms(2,3) True
      by (intro compress_on_disk_reads [OF _ _ _ c]) (simp_all add: fi_def entry_safe_def)
    moreover have "dk_nodes dk' i = dk_nodes (wk_disk w) i" if "i \<noteq> st_ino (fts_statp e)" for i
      using c that by (auto simp: compress_on_disk_def Let_def)
    ultimately show ?thesis using d keep(3) True by auto
  qed
qed

lemma walk_loop_reads:
  assumes "wk_pool w = None" and "check_files (wk_info w)"
    and "\<forall>e \<in> set es. is_reg e \<longrightarrow> entry_safe s (wk_disk w) e"
    and "distinct (map (\<lambda>e. st_ino (fts_statp e)) (filter is_reg es))"
  shows "disk_reads s (wk_disk (walk_loop s lops nops old vs es w)) = disk_reads s (wk_disk w)"
  using assms
proof (induction "length es" arbitrary: es w rule: less_induct)
  case less
  show ?case
  proof (cases es)
    case Nil
    then show ?thesis by simp
  next
    case (Cons e rest)
    define r where "r = visit_entry s lops nops old vs e w"
    define rest' where "rest' = (if snd r then skip_below e rest else rest)"
    have loop: "walk_loop s lops nops old vs es w = (if wk_stuck (fst r) \<or> sy_quit s At_next (fts_path e)
        then fst r else walk_loop s lops nops old vs rest' (fst r))"
      by (simp add: Cons r_def rest'_def Let_def)
    have len: "length rest' < length es"
      using length_skip_below [of e rest] by (simp add: rest'_def Cons)
    have "\<exists>pre. rest = pre @ rest'"
      unfolding rest'_def skip_below_def by (metis append_Nil takeWhile_dropWhile_id)
    then obtain pre where pre: "rest = pre @ rest'" by blast
    have "disk_reads s (wk_disk (fst r)) = disk_reads s (wk_disk w) \<and> wk_pool (fst r) = None
      \<and> (\<forall>i. is_reg e \<and> i = st_ino (fts_statp e) \<or> dk_nodes (wk_disk (fst r)) i = dk_nodes (wk_disk w) i)"
      by (rule visit_entry_disk [OF less.prems(1,2)]) (use less.prems(3) in \<open>simp_all add: r_def Cons\<close>)
    then have v: "disk_reads s (wk_disk (fst r)) = disk_reads s (wk_disk w)" "wk_pool (fst r) = None"
      "\<And>i. is_reg e \<and> i = st_ino (fts_statp e) \<or> dk_nodes (wk_disk (fst r)) i = dk_nodes (wk_disk w) i"
      by auto
    have cf: "check_files (wk_info (fst r))"
      using settings_visit [of s lops nops old vs e w] less.prems(2) by (simp add: r_def settings_def)
    have sf: "\<forall>x \<in> set rest'. is_reg x \<longrightarrow> entry_safe s (wk_disk (fst r)) x"
    proof (intro ballI impI)
      fix x assume x: "x \<in> set rest'" "is_reg x"
      have "st_ino (fts_statp e) \<notin> (\<lambda>e. st_ino (fts_statp e)) ` set (filter is_reg rest)" if "is_reg e"
        using less.prems(4) that by (simp add: Cons)
      moreover have "x \<in> set (filter is_reg rest)" using x by (simp add: pre)
      ultimately have "\<not> (is_reg e \<and> st_ino (fts_statp x) = st_ino (fts_statp e))"
        by (metis (no_types, lifting) image_eqI)
      then have "dk_nodes (wk_disk (fst r)) (st_ino (fts_statp x)) = dk_nodes (wk_disk w) (st_ino (fts_statp x))"
        using v(3) [of "st_ino (fts_statp x)"] by auto
      moreover have "entry_safe s (wk_disk w) x" using less.prems(3) x by (simp add: Cons pre)
      ultimately show "entry_safe s (wk_disk (fst r)) x"
        by (simp add: entry_safe_def agrees_def v(1))
    qed
    have "distinct (map (\<lambda>e. st_ino (fts_statp e)) (filter is_reg rest'))"
      using less.prems(4) by (simp add: Cons pre split: if_splits)
    from less.hyps [OF len v(2) cf sf this] v(1) loop show ?thesis by simp
  qed
qed

section \<open>Properties\<close>

text \<open>The entries a walk looks at.\<close>

definition visited_from_start :: "fts_entry list \<Rightarrow> fts_entry list" where
  "visited_from_start es = (case es of [] \<Rightarrow> [] | e # _ \<Rightarrow> visited (volume_search (fts_path e)) es)"

text \<open>C32: an undisturbed walk counts every visited file and symbolic link once and every visited
  folder once (in preorder); the table of types stays sorted and its counts within the total. No
  folder is ever counted as a hard link: the check only looks at regular files.\<close>

theorem process_folder_counts:
  assumes "quiet s" and "type_table_ok (wk_info w)" and "\<not> wk_stuck w"
    and "w' = process_folder s lops nops old es w" and "\<not> wk_stuck w'"
    and "V = visited_from_start es"
  shows "num_files (wk_info w') = num_files (wk_info w) + int (length (filter is_file V))
    \<and> num_folders (wk_info w')
        = num_folders (wk_info w) + int (length (filter (\<lambda>e. is_folder e \<and> entering e) V))
    \<and> num_hard_link_folders (wk_info w') = num_hard_link_folders (wk_info w)
    \<and> type_table_ok (wk_info w')
    \<and> type_sum ft_num_files (wk_info w') - type_sum ft_num_files (wk_info w)
        \<le> num_files (wk_info w') - num_files (wk_info w)"
proof (cases es)
  case Nil
  with assms show ?thesis by (simp add: process_folder_def visited_from_start_def)
next
  case (Cons e rest)
  define vs where "vs = volume_search (fts_path e)"
  define l where "l = walk_loop s lops nops old vs es w"
  have V: "V = visited vs es" by (simp add: assms(6) visited_from_start_def Cons vs_def)
  have w': "wk_info w' = wk_info l" "\<not> wk_stuck l"
    using assms(4,5) by (auto simp: process_folder_def Cons vs_def l_def Let_def split: if_splits)
  from walk_loop_counts [OF assms(1-3) w'(2) [unfolded l_def], folded l_def]
  show ?thesis by (simp add: w'(1) counts_ok_def files_in_def folders_in_def V)
qed

text \<open>With the hard link check on, the names counted as hard links are all names of files with
  several links but one for each inode; afterwards the table is empty again.\<close>

theorem process_folder_hard_links:
  assumes "quiet s" and "hash_laws lops (\<lambda>i. i \<noteq> 0)" and "type_table_ok (wk_info w)" and "\<not> wk_stuck w"
    and "check_hard_links (wk_info w)" and "links_of lops [] (wk_links w)"
    and "w' = process_folder s lops nops old es w" and "\<not> wk_stuck w'"
    and "N = file_names (visited_from_start es)"
    and "distinct (map fst N)" and "\<forall>x \<in> set N. st_ino (snd x) \<noteq> 0"
  shows "num_hard_link_files (wk_info w') = num_hard_link_files (wk_info w)
      + int (length (filter (\<lambda>x. has_links (snd x)) N)) - int (card (linked_inos N))
    \<and> links_of lops [] (wk_links w')"
proof (cases es)
  case Nil
  with assms show ?thesis by (simp add: process_folder_def visited_from_start_def)
next
  case (Cons e rest)
  define vs where "vs = volume_search (fts_path e)"
  define l where "l = walk_loop s lops nops old vs es w"
  have N: "N = file_names (visited vs es)" by (simp add: assms(9) visited_from_start_def Cons vs_def)
  have w': "w' = l\<lparr>wk_links := snd (checkForHardLink lops None (wk_links l))\<rparr>" "\<not> wk_stuck l"
    using assms(7,8) by (auto simp: process_folder_def Cons vs_def l_def Let_def split: if_splits)
  have "links_of lops ([] @ N) (wk_links l) \<and>
    num_hard_link_files (wk_info l) + int (card (linked_inos ([] @ N)))
      = num_hard_link_files (wk_info w) + int (card (linked_inos [])) + linked_names N"
    unfolding l_def N
    by (rule walk_loop_links [OF assms(1-4) w'(2) [unfolded l_def] assms(5,6)]) (use assms(10,11) in \<open>simp_all add: N\<close>)
  then show ?thesis
    using reset_links [OF assms(2), of N "wk_links l"] by (simp add: w'(1) linked_names_def)
qed

text \<open>A serial compressing walk with the file check changes no file as its readers see it, when
  the entries describe the files as they are, no two of them are the same file, and the calls
  named by \<open>safe_env\<close> work.\<close>

theorem process_folder_preserves_content:
  assumes "wk_pool w = None" and "check_files (wk_info w)"
    and "\<forall>e \<in> set es. is_reg e \<longrightarrow> entry_safe s (wk_disk w) e"
    and "distinct (map (\<lambda>e. st_ino (fts_statp e)) (filter is_reg es))"
  shows "disk_reads s (wk_disk (process_folder s lops nops old es w)) ino = disk_reads s (wk_disk w) ino"
proof (cases es)
  case Nil
  then show ?thesis by (simp add: process_folder_def)
next
  case (Cons e rest)
  with walk_loop_reads [OF assms, of lops nops old "volume_search (fts_path e)"]
  show ?thesis by (simp add: process_folder_def Let_def)
qed

section \<open>A small folder\<close>

definition sample_entry :: "string \<Rightarrow> nat \<Rightarrow> nat \<Rightarrow> stat \<Rightarrow> fts_entry" where
  "sample_entry path level kind st =
     \<lparr>fts_path = path, fts_level = level, fts_info = kind, fts_ino = st_ino st, fts_statp = st\<rparr>"

definition dir_stat :: stat where
  "dir_stat = (linked_stat 3 2)\<lparr>st_mode := 0x41ED\<rparr>"

text \<open>A folder with two names of one file, as it is read before and after its contents.\<close>

definition sample_tree :: "fts_entry list" where
  "sample_tree = [sample_entry ''d'' 0 1 dir_stat, sample_entry ''d/a'' 1 8 (linked_stat 5 2),
     sample_entry ''d/b'' 1 8 (linked_stat 5 2), sample_entry ''d'' 0 6 dir_stat]"

definition sample_walk :: "folder_info \<Rightarrow> (string \<rightharpoonup> unit, nat \<rightharpoonup> string) walk" where
  "sample_walk fi = \<lparr>wk_info = fi, wk_links = link_init map_ops, wk_disk = sample_disk, wk_pool = None,
     wk_stuck = False\<rparr>"

lemma sample_in_scope:
  "in_scope vs ''d''" "in_scope vs ''d/a''" "in_scope vs ''d/b''"
  by (simp_all add: in_scope_def strncasecmp_eq_def)

lemma sample_kinds:
  "is_folder (sample_entry p l k dir_stat)" "\<not> is_file (sample_entry p l k dir_stat)"
  "is_file (sample_entry p l k (linked_stat i n))" "\<not> is_folder (sample_entry p l k (linked_stat i n))"
  by (simp_all add: is_folder_def is_file_def sample_entry_def dir_stat_def linked_stat_def stat_bits)

lemma sample_visited: "visited_from_start sample_tree = sample_tree"
  by (simp add: visited_from_start_def sample_tree_def) (simp add: sample_entry_def sample_in_scope)

lemma sample_quiet: "quiet sample_sys"
  by (simp add: quiet_def sample_sys_def)

lemma not_compressing_walk:
  assumes "\<not> compress_files (wk_info w)" and "\<not> wk_stuck w"
  shows "\<not> wk_stuck (walk_loop s lops nops old vs es w)"
  using assms
proof (induction "length es" arbitrary: es w rule: less_induct)
  case less
  show ?case
  proof (cases es)
    case (Cons e rest)
    define r where "r = visit_entry s lops nops old vs e w"
    have "\<not> wk_stuck (fst r)"
      using less.prems by (auto simp: r_def visit_entry_def visit_folder_def visit_file_def Let_def split: option.splits)
    moreover have "\<not> compress_files (wk_info (fst r))"
      using settings_visit [of s lops nops old vs e w] less.prems(1) by (simp add: r_def settings_def)
    moreover have "length (if snd r then skip_below e rest else rest) < length es"
      using length_skip_below [of e rest] by (simp add: Cons)
    ultimately show ?thesis using less.hyps by (simp add: Cons Let_def r_def)
  qed (use less.prems in simp)
qed

lemma not_compressing_folder:
  "\<not> compress_files (wk_info w) \<Longrightarrow> \<not> wk_stuck w \<Longrightarrow> \<not> wk_stuck (process_folder s lops nops old es w)"
  using not_compressing_walk [of w s lops nops old _ es]
  by (cases es) (simp_all add: process_folder_def Let_def del: walk_loop.simps)

theorem process_folder_counts_witness:
  "num_files (wk_info (process_folder sample_sys map_ops map_ops 0 sample_tree (sample_walk empty_info))) = 2
   \<and> num_folders (wk_info (process_folder sample_sys map_ops map_ops 0 sample_tree (sample_walk empty_info))) = 1"
proof -
  let ?w = "sample_walk empty_info"
  have a: "type_table_ok (wk_info ?w)" "\<not> wk_stuck ?w" "\<not> compress_files (wk_info ?w)"
    "num_files (wk_info ?w) = 0" "num_folders (wk_info ?w) = 0"
    using empty_info_ok by (simp_all add: sample_walk_def) (simp_all add: empty_info_def)
  have "filter is_file sample_tree = [sample_entry ''d/a'' 1 8 (linked_stat 5 2), sample_entry ''d/b'' 1 8 (linked_stat 5 2)]"
    "filter (\<lambda>e. is_folder e \<and> entering e) sample_tree = [sample_entry ''d'' 0 1 dir_stat]"
    by (simp_all add: sample_tree_def sample_kinds) (simp_all add: entering_def FTS_D_def sample_entry_def)
  with process_folder_counts [OF sample_quiet a(1,2) refl not_compressing_folder [OF a(3,2)] refl, of map_ops map_ops 0 sample_tree]
  show ?thesis by (simp add: sample_visited a)
qed

theorem process_folder_hard_links_witness:
  "num_hard_link_files (wk_info (process_folder sample_sys map_ops map_ops 0 sample_tree
     (sample_walk (empty_info\<lparr>check_hard_links := True\<rparr>)))) = 1"
proof -
  let ?w = "sample_walk (empty_info\<lparr>check_hard_links := True\<rparr>)"
  have a: "type_table_ok (wk_info ?w)" "\<not> wk_stuck ?w" "\<not> compress_files (wk_info ?w)"
    "check_hard_links (wk_info ?w)" "links_of map_ops [] (wk_links ?w)"
    using empty_info_ok by (simp_all add: sample_walk_def links_of_init type_table_ok_def)
      (simp_all add: empty_info_def)
  have n: "num_hard_link_files (wk_info ?w) = 0" by (simp add: sample_walk_def empty_info_def)
  define N where "N = [(''d/a'', linked_stat 5 2), (''d/b'', linked_stat 5 2)]"
  have N: "N = file_names (visited_from_start sample_tree)"
    by (simp add: sample_visited N_def) (simp add: sample_tree_def sample_kinds link_name_def, simp add: sample_entry_def)
  have h: "has_links (linked_stat 5 2)" by (simp add: has_links_def linked_stat_def stat_bits)
  have i: "linked_inos N = {5}"
  proof -
    have "st_ino (linked_stat 5 2) = 5" by (simp add: linked_stat_def)
    then show ?thesis using h by (force simp: linked_inos_def N_def)
  qed
  have d: "distinct (map fst N)" "\<forall>x \<in> set N. st_ino (snd x) \<noteq> 0" by (simp_all add: N_def linked_stat_def)
  from process_folder_hard_links [OF sample_quiet map_ops_laws a(1,2,4,5) refl not_compressing_folder [OF a(3,2)] N d, of map_ops 0]
  show ?thesis by (simp add: n i) (simp add: N_def h)
qed

definition sample_file_stat :: stat where
  "sample_file_stat = sample_stat\<lparr>st_ino := 9\<rparr>"

theorem process_folder_preserves_content_witness:
  "disk_reads sample_sys (wk_disk (process_folder sample_sys map_ops map_ops 0
     [sample_entry ''f'' 0 8 sample_file_stat] (sample_walk sample_info))) 9 = sample_data"
proof -
  have e: "entry_safe sample_sys sample_disk (sample_entry ''f'' 0 8 sample_file_stat)"
    using sample_fresh
    by (simp add: entry_safe_def agrees_def disk_reads_def sample_sys_def sample_disk_def sample_entry_def
        sample_file_stat_def safe_env_def sample_env_def vfs_read_def fresh_file_def sample_world_def)
  have r: "disk_reads sample_sys (wk_disk (sample_walk sample_info)) 9 = sample_data"
    using sample_fresh
    by (simp add: disk_reads_def sample_sys_def sample_disk_def sample_walk_def vfs_read_def fresh_file_def sample_world_def)
  have w: "wk_pool (sample_walk sample_info) = None" "check_files (wk_info (sample_walk sample_info))"
    "wk_disk (sample_walk sample_info) = sample_disk"
    by (simp_all add: sample_walk_def sample_info_def)
  have "disk_reads sample_sys (wk_disk (process_folder sample_sys map_ops map_ops 0
     [sample_entry ''f'' 0 8 sample_file_stat] (sample_walk sample_info))) 9
     = disk_reads sample_sys (wk_disk (sample_walk sample_info)) 9"
    by (rule process_folder_preserves_content [OF w(1,2)]) (use e w(3) in simp_all)
  then show ?thesis by (simp only: r)
qed

end
