(* ===== verification/Archive.thy ===== *)
theory Archive
  imports FileRoundtrip
begin

text \<open>
  The archives of \<open>afsctool\<close> (src/afsctool.c, options -a and -x): the two compression attributes
  of a file and its mode, written to the data fork of another file, and the file made from them
  again. Each call whose failure the code handles has a site; a result is the way the loop over
  the arguments is left or continued, and the file as it is then.
\<close>

section \<open>The system\<close>

datatype afsc_site = Open_archive_out | Write_mode | List_size | Malloc_names | List_names
  | Getxattr_size string | Malloc_attr_buf string | Write_attr string
  | Open_archive_in | Open_dst | Malloc_attr_in | Setxattr_dst | Chflags_dst | Chmod_dst | Lstat_dst

text \<open>
  \<open>af_got\<close> is how many bytes \<open>getxattr\<close> stores for an attribute and a position (\<open>None\<close>: it
  fails), \<open>af_junk\<close> what \<open>malloc\<close> leaves in a buffer, \<open>af_mode\<close> and \<open>af_times\<close> what a new file has.
\<close>

record afsc_sys =
  af_fails :: "afsc_site \<Rightarrow> bool"
  af_got :: "string \<Rightarrow> nat \<Rightarrow> nat option"
  af_junk :: "nat \<Rightarrow> byte"
  af_mode :: uint16
  af_times :: "(int \<times> int) \<times> (int \<times> int)"

datatype arg_exit = Fell_through | Continued | Returned_error

definition new_file :: "afsc_sys \<Rightarrow> fnode" where
  "new_file s = \<lparr>f_data = [], f_xattrs = [], f_flags = 0, f_mode = af_mode s, f_times = af_times s\<rparr>"

section \<open>Creating an archive\<close>

definition archived_name :: "string \<Rightarrow> bool" where
  "archived_name n \<longleftrightarrow> strcmp n XATTR_RESOURCEFORK_NAME = 0 \<and> length n = 22
     \<or> strcmp n DECMPFS_XATTR_NAME = 0 \<and> length n = 17"

text \<open>The loop that reads one attribute, from a position on.\<close>

function read_attr :: "(nat \<Rightarrow> nat option) \<Rightarrow> byte list \<Rightarrow> nat \<Rightarrow> byte list \<Rightarrow> byte list option" where
  "read_attr got v xattrPos attr_buf =
     (case got xattrPos of
        None \<Rightarrow> None
      | Some g \<Rightarrow>
          let r = min g (length v - xattrPos);
              buf = poke xattrPos (take r (drop xattrPos v)) attr_buf
          in if xattrPos + r < length v \<and> 0 < r then read_attr got v (xattrPos + r) buf else Some buf)"
  by pat_completeness auto
termination by (relation "measure (\<lambda>(_, v, p, _). length v - p)") auto

declare read_attr.simps [simp del]

fun write_attrs :: "afsc_sys \<Rightarrow> (string \<times> byte list) list \<Rightarrow> byte list \<Rightarrow> arg_exit \<times> byte list" where
  "write_attrs s [] out = (Fell_through, out)"
| "write_attrs s ((n, v) # xs) out =
     (if af_fails s (Getxattr_size n) then (Returned_error, out)
      else if archived_name n \<and> v \<noteq> [] then
        if af_fails s (Malloc_attr_buf n) then (Returned_error, out)
        else
          (case read_attr (af_got s n) v 0 (malloc_bytes (af_junk s) (length v)) of
             None \<Rightarrow> (Returned_error, out)
           | Some attr_buf \<Rightarrow>
               let out1 = out @ name_bytes n @ [0]
               in if af_fails s (Write_attr n) then (Returned_error, out1)
                  else write_attrs s xs (out1 @ be_bytes 8 (length v) @ attr_buf))
      else write_attrs s xs out)"

definition afsc_magic :: "byte list" where
  "afsc_magic = name_bytes ''afsc''"

text \<open>The archive is \<open>None\<close> while it was not opened.\<close>

definition create_archive :: "afsc_sys \<Rightarrow> stat \<Rightarrow> fnode \<Rightarrow> arg_exit \<times> byte list option" where
  "create_archive s fileinfo nd =
     (if st_mode fileinfo AND S_IFDIR \<noteq> 0 then (Returned_error, None)
      else if \<not> is_flagged (st_flags fileinfo) then (Returned_error, None)
      else if af_fails s Open_archive_out then (Continued, None)
      else
        let out = afsc_magic @ be_bytes 2 (unat (st_mode fileinfo)) in
        if af_fails s Write_mode then (Returned_error, Some afsc_magic)
        else if af_fails s List_size \<or> f_xattrs nd = [] then (Fell_through, Some out)
        else if af_fails s Malloc_names \<or> af_fails s List_names then (Returned_error, Some out)
        else (fst (write_attrs s (f_xattrs nd) out), Some (snd (write_attrs s (f_xattrs nd) out))))"

section \<open>Extracting an archive\<close>

text \<open>
  A name is read into 23 bytes by \<open>getc\<close>, whose result is compared with \<open>EOF\<close> only after it was
  stored in a \<open>char\<close>: the byte 0xFF is taken for the end of the file.
\<close>

datatype name_read = Name "byte list" "byte list" | Hit_EOF | Too_long

fun read_name :: "nat \<Rightarrow> byte list \<Rightarrow> name_read" where
  "read_name 0 bs = Too_long"
| "read_name (Suc k) [] = Hit_EOF"
| "read_name (Suc k) (b # bs) =
     (if b = 0 then Name [] bs
      else if b = 0xFF then Hit_EOF
      else case read_name k bs of Name n rest \<Rightarrow> Name (b # n) rest | r \<Rightarrow> r)"

lemma read_name_shorter: "read_name k bs = Name n rest \<Longrightarrow> length rest < length bs"
  by (induction k bs arbitrary: n rule: read_name.induct)
    (force split: if_splits name_read.splits)+

text \<open>The loop over the entries; \<open>fread\<close> of an item of size 0 returns 0, which counts as an error.\<close>

function extract_attrs :: "afsc_sys \<Rightarrow> fnode \<Rightarrow> byte list \<Rightarrow> arg_exit \<times> fnode" where
  "extract_attrs s nd bs =
     (case read_name 23 bs of
        Hit_EOF \<Rightarrow> (Fell_through, nd)
      | Too_long \<Rightarrow> (Returned_error, nd)
      | Name nm r \<Rightarrow>
          if length r < 8 then (Returned_error, nd)
          else
            let xattrsize = be_val (take 8 r); r1 = drop 8 r; n = bytes_name nm in
            if af_fails s Malloc_attr_in \<or> 2 ^ 63 \<le> xattrsize then (Returned_error, nd)
            else if xattrsize = 0 \<or> length r1 < xattrsize then (Returned_error, nd)
            else if af_fails s Setxattr_dst \<or> map_of (f_xattrs nd) n \<noteq> None then (Returned_error, nd)
            else extract_attrs s (nd\<lparr>f_xattrs := f_xattrs nd @ [(n, take xattrsize r1)]\<rparr>) (drop xattrsize r1))"
  by pat_completeness auto
termination
  by (relation "measure (\<lambda>(_, _, bs). length bs)") (auto dest: read_name_shorter)

declare extract_attrs.simps [simp del]

text \<open>\<open>chmod\<close> sets the permission bits.\<close>

definition chmod_bits :: "uint16 \<Rightarrow> uint16 \<Rightarrow> uint16" where
  "chmod_bits old new = (old AND S_IFMT) OR (new AND NOT S_IFMT)"

definition extract_archive :: "afsc_sys \<Rightarrow> byte list \<Rightarrow> arg_exit \<times> fnode option" where
  "extract_archive s bs =
     (if af_fails s Open_archive_in then (Continued, None)
      else if length bs < 4 \<or> take 4 bs \<noteq> afsc_magic then (Returned_error, None)
      else if af_fails s Open_dst then (Continued, None)
      else if length bs < 6 then (Returned_error, Some (new_file s))
      else
        let outFileMode = word_of_nat (be_val (take 2 (drop 4 bs)));
            r = extract_attrs s (new_file s) (drop 6 bs); nd = snd r;
            nd1 = nd\<lparr>f_flags := UF_COMPRESSED\<rparr>
        in if fst r \<noteq> Fell_through then (fst r, Some nd)
           else if af_fails s Chflags_dst then (Returned_error, Some nd)
           else if af_fails s Chmod_dst then (Returned_error, Some nd1)
           else (Fell_through, Some (nd1\<lparr>f_mode := chmod_bits (f_mode nd1) outFileMode\<rparr>)))"

text \<open>With -d the extracted file is decompressed at once.\<close>

definition extract_and_decompress ::
    "afsc_sys \<Rightarrow> dfenv \<Rightarrow> world \<Rightarrow> byte list \<Rightarrow> arg_exit \<times> exit option \<times> fnode option" where
  "extract_and_decompress s e w bs =
     (case extract_archive s bs of
        (Fell_through, Some nd) \<Rightarrow>
          if af_fails s Lstat_dst then (Continued, None, Some nd)
          else
            let w1 = w\<lparr>wnode := nd, winfo := (winfo w)\<lparr>st_mode := f_mode nd, st_flags := f_flags nd\<rparr>\<rparr>;
                r = decompressFile e w1
            in (Fell_through, Some (fst r), Some (wnode (snd r)))
      | (x, nd) \<Rightarrow> (x, None, nd))"

section \<open>One attribute\<close>

lemma read_attr_all:
  assumes "\<And>p. \<exists>g > 0. got p = Some g" and "length buf = length v" and "p < length v"
    and "take p buf = take p v"
  shows "read_attr got v p buf = Some v"
  using assms(2-4)
proof (induction "length v - p" arbitrary: p buf rule: less_induct)
  case less
  obtain g where g: "0 < g" "got p = Some g" using assms(1) by blast
  define r where "r = min g (length v - p)"
  have r: "0 < r" "p + r \<le> length v" using g(1) less.prems(2) by (auto simp: r_def)
  define buf' where "buf' = poke p (take r (drop p v)) buf"
  have len: "length buf' = length v" using less.prems r by (simp add: buf'_def)
  have buf': "take (p + r) buf' = take (p + r) v"
    using less.prems r by (simp add: buf'_def poke_def take_add)
  show ?case
  proof (cases "p + r < length v")
    case True
    then have "read_attr got v (p + r) buf' = Some v"
      using r len buf' less.prems by (intro less.hyps) auto
    then show ?thesis
      using g r True by (simp add: read_attr.simps [of got v p] Let_def r_def [symmetric] buf'_def)
  next
    case False
    then have "buf' = v" using buf' len r by simp
    then show ?thesis
      using g False by (simp add: read_attr.simps [of got v p] Let_def r_def [symmetric] buf'_def)
  qed
qed

lemma read_name_entry:
  assumes "0 \<notin> set n" and "0xFF \<notin> set n" and "length n < k"
  shows "read_name k (n @ 0 # rest) = Name n rest"
  using assms
proof (induction n arbitrary: k)
  case Nil
  then show ?case by (cases k) auto
next
  case (Cons b n)
  then show ?case by (cases k) auto
qed

text \<open>The entry of an attribute, and what it takes for the reader to accept it.\<close>

definition entry_bytes :: "string \<times> byte list \<Rightarrow> byte list" where
  "entry_bytes x = name_bytes (fst x) @ [0] @ be_bytes 8 (length (snd x)) @ snd x"

definition archived :: "string \<times> byte list \<Rightarrow> bool" where
  "archived x \<longleftrightarrow> archived_name (fst x) \<and> snd x \<noteq> []"

lemma archived_name_iff: "archived_name n \<longleftrightarrow> n = XATTR_RESOURCEFORK_NAME \<or> n = DECMPFS_XATTR_NAME"
  by (auto simp: archived_name_def strcmp_eq_0 XATTR_RESOURCEFORK_NAME_def DECMPFS_XATTR_NAME_def)

lemma name_bytes_archived:
  assumes "archived_name n"
  shows "0 \<notin> set (name_bytes n)" and "0xFF \<notin> set (name_bytes n)" and "length (name_bytes n) < 23"
  using assms
  by (auto simp: archived_name_iff name_bytes_def byte_of_def
      XATTR_RESOURCEFORK_NAME_def DECMPFS_XATTR_NAME_def of_char_def)

section \<open>The whole archive\<close>

definition quiet_system :: "afsc_sys \<Rightarrow> bool" where
  "quiet_system s \<longleftrightarrow> (\<forall>x. \<not> af_fails s x) \<and> (\<forall>n p. \<exists>g > 0. af_got s n p = Some g)"

lemma write_attrs_ok:
  assumes "quiet_system s"
  shows "write_attrs s xs out = (Fell_through, out @ concat (map entry_bytes (filter archived xs)))"
proof (induction xs arbitrary: out)
  case Nil
  then show ?case by simp
next
  case (Cons x xs)
  obtain n v where x: "x = (n, v)" by (cases x)
  have "read_attr (af_got s n) v 0 (malloc_bytes (af_junk s) (length v)) = Some v" if "v \<noteq> []"
    using assms that by (intro read_attr_all) (auto simp: quiet_system_def)
  then show ?case
    using assms Cons.IH by (auto simp: x archived_def entry_bytes_def quiet_system_def Let_def)
qed

lemma extract_entry:
  assumes "quiet_system s" and "archived x" and "length (snd x) < 2 ^ 63"
    and "map_of (f_xattrs nd) (fst x) = None"
  shows "extract_attrs s nd (entry_bytes x @ rest)
    = extract_attrs s (nd\<lparr>f_xattrs := f_xattrs nd @ [x]\<rparr>) rest"
proof -
  have nm: "read_name 23 (entry_bytes x @ rest)
      = Name (name_bytes (fst x)) (be_bytes 8 (length (snd x)) @ snd x @ rest)"
    using assms(2) name_bytes_archived [of "fst x"]
    by (simp add: entry_bytes_def archived_def read_name_entry)
  show ?thesis
    using assms
    by (subst extract_attrs.simps)
      (simp add: nm Let_def be_val_be_bytes quiet_system_def archived_def)
qed

lemma extract_entries_then:
  assumes "quiet_system s" and "\<forall>x \<in> set xs. archived x \<and> length (snd x) < 2 ^ 63"
    and "distinct (map fst xs)" and "fst ` set xs \<inter> fst ` set (f_xattrs nd) = {}"
  shows "extract_attrs s nd (concat (map entry_bytes xs) @ rest)
    = extract_attrs s (nd\<lparr>f_xattrs := f_xattrs nd @ xs\<rparr>) rest"
  using assms(2-4)
proof (induction xs arbitrary: nd)
  case Nil
  then show ?case by simp
next
  case (Cons x xs)
  have "map_of (f_xattrs nd) (fst x) = None" using Cons.prems(3) by (auto simp: map_of_eq_None_iff)
  then show ?case
    using Cons.prems by (simp add: extract_entry [OF assms(1)] Cons.IH)
qed

lemma extract_entries:
  assumes "quiet_system s" and "\<forall>x \<in> set xs. archived x \<and> length (snd x) < 2 ^ 63"
    and "distinct (map fst xs)" and "fst ` set xs \<inter> fst ` set (f_xattrs nd) = {}"
  shows "extract_attrs s nd (concat (map entry_bytes xs))
    = (Fell_through, nd\<lparr>f_xattrs := f_xattrs nd @ xs\<rparr>)"
proof -
  have "read_name 23 [] = Hit_EOF" by (simp add: numeral_eq_Suc)
  then show ?thesis
    using extract_entries_then [OF assms, of "[]"] by (simp add: extract_attrs.simps)
qed

end
