(* ===== verification/ArchiveProperties.thy ===== *)
theory ArchiveProperties
  imports Archive FileSamples
begin

text \<open>
  What the archives of \<open>afsctool\<close> keep: the round trip of a file through an archive, and archives
  that were cut off.
\<close>

section \<open>Modes\<close>

lemma regular_not_folder: "S_ISREG m \<Longrightarrow> m AND S_IFDIR = 0"
proof -
  assume "S_ISREG m"
  then have "(m AND S_IFMT) AND S_IFDIR = S_IFREG AND S_IFDIR" by (simp add: S_ISREG_def)
  moreover have "S_IFMT AND S_IFDIR = S_IFDIR" "S_IFREG AND S_IFDIR = 0" by (simp_all add: stat_bits)
  ultimately show ?thesis by (simp add: and.assoc)
qed

lemma chmod_bits_same_type:
  assumes "old AND S_IFMT = new AND S_IFMT"
  shows "chmod_bits old new = new"
proof -
  have "(new AND S_IFMT) OR (new AND NOT S_IFMT) = new"
    by (rule bit_word_eqI) (auto simp: bit_simps)
  then show ?thesis by (simp add: chmod_bits_def assms)
qed

section \<open>A file through an archive\<close>

lemma create_archive_ok:
  assumes "quiet_system s" and "S_ISREG (st_mode fileinfo)" and "is_flagged (st_flags fileinfo)"
  shows "create_archive s fileinfo nd = (Fell_through, Some (afsc_magic @
    be_bytes 2 (unat (st_mode fileinfo)) @ concat (map entry_bytes (filter archived (f_xattrs nd)))))"
  using assms regular_not_folder [OF assms(2)]
  by (simp add: create_archive_def quiet_system_def Let_def write_attrs_ok)

lemma extract_archive_header:
  assumes "quiet_system s" and "S_ISREG m" and "S_ISREG (af_mode s)"
    and "extract_attrs s (new_file s) bs = (Fell_through, nd)" and "f_mode nd = af_mode s"
  shows "extract_archive s (afsc_magic @ be_bytes 2 (unat m) @ bs)
    = (Fell_through, Some (nd\<lparr>f_flags := UF_COMPRESSED, f_mode := m\<rparr>))"
proof -
  have magic: "length afsc_magic = 4" by (simp add: afsc_magic_def name_bytes_def)
  have "unat m < 2 ^ 16" using unsigned_less [of m] by simp
  then have mode: "word_of_nat (be_val (be_bytes 2 (unat m))) = m" by (simp add: be_val_be_bytes)
  have "chmod_bits (af_mode s) m = m"
    using assms(2,3) by (simp add: chmod_bits_same_type S_ISREG_def)
  then show ?thesis
    using assms by (simp add: extract_archive_def quiet_system_def Let_def magic mode)
qed

text \<open>The attributes \<open>compressFile\<close> stores have distinct names and a size that fits its field.\<close>

lemma stored_xattrs_names:
  assumes "distinct (map fst xs)" and "map_of xs DECMPFS_XATTR_NAME = None"
    and "map_of xs XATTR_RESOURCEFORK_NAME = None"
  shows "distinct (map fst (stored_xattrs hp fi d res xs))"
  using assms
  by (auto simp: stored_xattrs_def map_of_eq_None_iff split: option.splits chunk_result.splits sum.splits)

lemma stored_xattrs_sizes:
  assumes "zlib_contract cdc unc" and "size_supported (length d)" and "compressiontype fi = ZLIB"
    and "compress_data cdc hp fi d = Inr res" and "accepted hp fi d res"
    and "\<forall>x \<in> set xs. length (snd x) < 2 ^ 63"
  shows "\<forall>x \<in> set (stored_xattrs hp fi d res xs). length (snd x) < 2 ^ 63"
proof -
  have n: "numBlocks_of (length d) = chunk_count (length d)"
    using assms(2) by (rule size_supported_exact(1))
  have loop: "chunk_loop cdc hp fi ZLIB d (chunk_count (length d)) 0 0
      (chunk_init hp ZLIB (chunk_count (length d))) = Inr res"
    using assms(3,4) by (simp add: compress_data_def n Let_def del: chunk_init.simps)
  show ?thesis
  proof (cases res)
    case (StoreInXattr blk)
    have "length blk + sizeof_disk_header \<le> MAX_DECMPFS_XATTR_SIZE"
      using chunk_loop_xattr [OF loop [unfolded StoreInXattr]] by simp
    then show ?thesis
      using assms(3,6) StoreInXattr
      by (auto simp: stored_xattrs_def outdecmpfs_def cmp_codes MAX_DECMPFS_XATTR_SIZE_def)
  next
    case (NextChunk st)
    with assms(3,5) obtain st' where st': "zlib_finish hp st = Inr st'"
      by (auto simp: accepted_def finish_fork_def split: sum.splits)
    obtain blks where F: "fork_bytes ZLIB st' = zlib_fork (chunk_count (length d)) blks"
      and b: "map (chunk_block cdc hp fi ZLIB) (file_chunks d) = map Inr blks"
      using loop [unfolded NextChunk] st' by (rule zlib_loop_blocks)
    have "good_blocks unc d blks" using assms(1) b by (rule zlib_blocks_good)
    then have "length (fork_bytes ZLIB st') \<le> CMP_MAX_SUPPORTED_SIZE"
      unfolding F using assms(2) by (rule good_blocks_fork_size)
    then have fork: "length (fork_bytes ZLIB st') < 2 ^ 63" by (simp add: CMP_MAX_SUPPORTED_SIZE_def)
    have attr: "length (outdecmpfs codes (length d) res) < 2 ^ 63" for codes
      by (simp add: outdecmpfs_def NextChunk sizeof_disk_header_def)
    show ?thesis
      using assms(3,6) NextChunk st' fork attr
      by (auto simp: stored_xattrs_def finish_fork_def simp del: fork_bytes.simps split: option.splits)
  qed
qed

lemma map_of_archived:
  assumes "archived_name n" and "map_of xs n \<noteq> Some []" and "distinct (map fst xs)"
  shows "map_of (filter archived xs) n = map_of xs n"
  using assms(2,3)
proof (induction xs)
  case Nil
  then show ?case by simp
next
  case (Cons x xs)
  then show ?case
    using assms(1) by (cases x) (auto simp: archived_def map_of_eq_None_iff split: if_splits)
qed

lemma decodes_to_nonempty_fork:
  assumes "decodes_to e xs d" and "d \<noteq> []"
  shows "map_of xs XATTR_RESOURCEFORK_NAME \<noteq> Some []" and "map_of xs DECMPFS_XATTR_NAME \<noteq> Some []"
  using assms
  by (auto simp: decodes_to_def df_method_def sizeof_disk_header_def Let_def split: if_splits)

lemma decodes_to_archived:
  assumes "decodes_to e xs d" and "d \<noteq> []" and "distinct (map fst xs)"
  shows "decodes_to e (filter archived xs) d"
proof -
  have "map_of (filter archived xs) XATTR_RESOURCEFORK_NAME = map_of xs XATTR_RESOURCEFORK_NAME"
    "map_of (filter archived xs) DECMPFS_XATTR_NAME = map_of xs DECMPFS_XATTR_NAME"
    using decodes_to_nonempty_fork [OF assms(1,2)] assms(3)
    by (simp_all add: map_of_archived archived_name_iff)
  then show ?thesis using assms(1) by (simp add: decodes_to_def)
qed

lemma extract_decompress_run:
  assumes "quiet_system s" and "\<And>x. \<not> fails e x" and "\<not> quitRequested e"
    and "S_ISREG m" and "m AND S_IWUSR \<noteq> 0" and "m AND S_IRUSR \<noteq> 0" and "S_ISREG (af_mode s)"
    and "\<forall>x \<in> set xs. archived x \<and> length (snd x) < 2 ^ 63" and "distinct (map fst xs)"
    and "decodes_to e xs d" and "d \<noteq> []"
  shows "\<exists>nd. extract_and_decompress s e w
        (afsc_magic @ be_bytes 2 (unat m) @ concat (map entry_bytes xs)) = (Fell_through, Some Returned, Some nd)
    \<and> f_data nd = d \<and> f_xattrs nd = [] \<and> f_mode nd = m \<and> f_flags nd = 0"
proof -
  define nd where "nd = (new_file s)\<lparr>f_xattrs := xs, f_flags := UF_COMPRESSED, f_mode := m\<rparr>"
  have "extract_attrs s (new_file s) (concat (map entry_bytes xs))
      = (Fell_through, (new_file s)\<lparr>f_xattrs := xs\<rparr>)"
    using extract_entries [OF assms(1,8,9), of "new_file s"] by (simp add: new_file_def)
  then have x: "extract_archive s (afsc_magic @ be_bytes 2 (unat m) @ concat (map entry_bytes xs))
      = (Fell_through, Some nd)"
    using extract_archive_header [OF assms(1,4,7)] by (simp add: nd_def new_file_def)
  define w1 where "w1 = w\<lparr>wnode := nd, winfo := (winfo w)\<lparr>st_mode := m, st_flags := UF_COMPRESSED\<rparr>\<rparr>"
  have "is_flagged UF_COMPRESSED" by (simp add: is_flagged_def UF_COMPRESSED_def)
  then have r: "fst (decompressFile e w1) = Returned
    \<and> wnode (snd (decompressFile e w1)) = \<lparr>f_data = d,
        f_xattrs = filter (\<lambda>x. fst x \<noteq> DECMPFS_XATTR_NAME \<and> fst x \<noteq> XATTR_RESOURCEFORK_NAME) xs,
        f_flags = 0, f_mode = m, f_times = usec_times (winfo w1)\<rparr>"
    using decompress_run [OF assms(2,3), of w1 d] assms(4-6,10,11)
    by (simp add: w1_def nd_def new_file_def UF_COMPRESSED_def)
  have "filter (\<lambda>x. fst x \<noteq> DECMPFS_XATTR_NAME \<and> fst x \<noteq> XATTR_RESOURCEFORK_NAME) xs = []"
    using assms(8) by (auto simp: filter_empty_conv archived_def archived_name_iff)
  moreover have "af_fails s Lstat_dst = False" using assms(1) by (simp add: quiet_system_def)
  moreover have "f_mode nd = m" "f_flags nd = UF_COMPRESSED" by (simp_all add: nd_def)
  ultimately show ?thesis using r by (simp add: extract_and_decompress_def x Let_def w1_def)
qed

text \<open>C35: a file that was compressed with ZLIB, archived with -a, extracted and decompressed with
  -xd is a file with the data and the mode of the original, without flags and attributes.\<close>

theorem archive_roundtrip:
  assumes "ready e fi d w" and "\<And>x. \<not> fails e x"
    and "compressiontype fi = ZLIB" and "compress_data cdc hp fi d = Inr res" and "accepted hp fi d res"
    and "kread e [] (stored_xattrs hp fi d res (f_xattrs (wnode w))) = d"
    and "uses_mmap (length d) \<Longrightarrow> (\<And>nd. mapped e d nd = Some d)"
    and "w1 = snd (compressFile e cdc hp fi w)"
    and "S_ISREG (f_mode (wnode w))" and "st_mode (winfo w) = f_mode (wnode w)"
    and "st_mode fileinfo = f_mode (wnode w1)" and "st_flags fileinfo = f_flags (wnode w1)"
    and "distinct (map fst (f_xattrs (wnode w)))" and "\<forall>x \<in> set (f_xattrs (wnode w)). length (snd x) < 2 ^ 63"
    and "quiet_system s" and "quiet_system s'" and "S_ISREG (af_mode s')"
    and "\<And>x. \<not> fails e' x" and "\<not> quitRequested e'" and "zlib_contract cdc (uncompress e')"
  shows "\<exists>bs nd. create_archive s fileinfo (wnode w1) = (Fell_through, Some bs)
    \<and> extract_and_decompress s' e' w2 bs = (Fell_through, Some Returned, Some nd)
    \<and> f_data nd = d \<and> f_xattrs nd = [] \<and> f_mode nd = f_mode (wnode w) \<and> f_flags nd = 0"
proof -
  let ?xs = "stored_xattrs hp fi d res (f_xattrs (wnode w))"
  have rdy: "d \<noteq> []" "size_supported (length d)" "f_mode (wnode w) AND S_IWUSR \<noteq> 0"
      "f_mode (wnode w) AND S_IRUSR \<noteq> 0"
    and xs: "map_of (f_xattrs (wnode w)) DECMPFS_XATTR_NAME = None"
      "map_of (f_xattrs (wnode w)) XATTR_RESOURCEFORK_NAME = None"
    using assms(1,10) by (auto simp: ready_def no_cmp_xattrs_def)
  have nd: "f_xattrs (wnode w1) = ?xs" "f_mode (wnode w1) = f_mode (wnode w)"
      "f_flags (wnode w1) = UF_COMPRESSED OR f_flags (wnode w)"
    using compress_run [OF assms(1,2,4-7)] by (simp_all add: assms(8))
  have dist: "distinct (map fst ?xs)" using assms(13) xs by (rule stored_xattrs_names)
  have "decodes_to e' ?xs d"
    using assms(20) rdy(2,1) assms(3-5) xs by (rule zlib_stored_decodes)
  then have dec: "decodes_to e' (filter archived ?xs) d" using rdy(1) dist by (rule decodes_to_archived)
  have "\<forall>x \<in> set ?xs. length (snd x) < 2 ^ 63"
    using assms(20) rdy(2) assms(3-5,14) by (rule stored_xattrs_sizes)
  then have ok: "\<forall>x \<in> set (filter archived ?xs). archived x \<and> length (snd x) < 2 ^ 63" by simp
  have "create_archive s fileinfo (wnode w1) = (Fell_through, Some (afsc_magic @
      be_bytes 2 (unat (f_mode (wnode w))) @ concat (map entry_bytes (filter archived ?xs))))"
    using assms(9,11,12,15) by (simp add: create_archive_ok nd flagged_set)
  moreover note extract_decompress_run [OF assms(16,18,19,9) rdy(3,4) assms(17) ok _ dec rdy(1), of w2]
  ultimately show ?thesis using dist by (auto simp: distinct_map_filter)
qed

definition sample_system :: afsc_sys where
  "sample_system = \<lparr>af_fails = (\<lambda>_. False), af_got = (\<lambda>_ _. Some 4096), af_junk = (\<lambda>_. 0xAA),
     af_mode = 0x81A4, af_times = ((9, 0), (9, 0))\<rparr>"

lemma sample_system_quiet: "quiet_system sample_system" "S_ISREG (af_mode sample_system)"
  by (simp_all add: quiet_system_def sample_system_def stat_bits)

theorem archive_roundtrip_witness:
  "let w1 = snd (compressFile sample_env halving_codecs sample_heap sample_info sample_world);
       info = sample_stat\<lparr>st_mode := f_mode (wnode w1), st_flags := f_flags (wnode w1)\<rparr>
   in \<exists>bs nd. create_archive sample_system info (wnode w1) = (Fell_through, Some bs)
     \<and> extract_and_decompress sample_system sample_dfenv sample_world bs = (Fell_through, Some Returned, Some nd)
     \<and> f_data nd = sample_data"
proof -
  obtain st st' where st: "compress_data halving_codecs sample_heap sample_info sample_data = Inr (NextChunk st)"
    "\<not> savings_rejected sample_info (currBlock st + sizeof_disk_header + 50) (length sample_data)"
    "finish_fork sample_heap (compressiontype sample_info) st = Inr st'"
    by (rule sample_packs)
  then have acc: "accepted sample_heap sample_info sample_data (NextChunk st)"
    by (simp add: accepted_def)
  have zlib: "compressiontype sample_info = ZLIB" by (simp add: sample_info_def)
  have kr: "kread sample_env [] xs = sample_data" for xs by (simp add: sample_env_def)
  have mp: "mapped sample_env sample_data nd = Some sample_data" for nd by (simp add: sample_env_def)
  have e': "\<not> fails sample_dfenv s" "\<not> quitRequested sample_dfenv"
    "zlib_contract halving_codecs (uncompress sample_dfenv)" for s
    by (simp_all add: sample_dfenv_def env.extend_def sample_env_def halving_contract)
  have w: "S_ISREG (f_mode (wnode sample_world))" "st_mode (winfo sample_world) = f_mode (wnode sample_world)"
    "distinct (map fst (f_xattrs (wnode sample_world)))"
    "\<forall>x \<in> set (f_xattrs (wnode sample_world)). length (snd x) < 2 ^ 63"
    by (simp_all add: sample_world_def sample_node_def sample_stat_def stat_bits)
  define w1 where "w1 = snd (compressFile sample_env halving_codecs sample_heap sample_info sample_world)"
  define info where "info = sample_stat\<lparr>st_mode := f_mode (wnode w1), st_flags := f_flags (wnode w1)\<rparr>"
  have i: "st_mode info = f_mode (wnode w1)" "st_flags info = f_flags (wnode w1)"
    by (simp_all add: info_def)
  have "\<exists>bs nd. create_archive sample_system info (wnode w1) = (Fell_through, Some bs)
     \<and> extract_and_decompress sample_system sample_dfenv sample_world bs = (Fell_through, Some Returned, Some nd)
     \<and> f_data nd = sample_data"
    using archive_roundtrip [OF sample_ready' sample_no_faults zlib st(1) acc kr mp w1_def w(1,2) i w(3,4)
      sample_system_quiet(1) sample_system_quiet e', of sample_world] by blast
  then show ?thesis by (simp only: Let_def w1_def info_def)
qed

section \<open>Archives that were cut off\<close>

lemma read_name_cut:
  assumes "0 \<notin> set n" and "length n < k"
  shows "read_name k n = Hit_EOF"
  using assms
proof (induction n arbitrary: k)
  case Nil
  then show ?case by (cases k) auto
next
  case (Cons b n)
  then show ?case by (cases k) auto
qed

text \<open>The end of the archive is taken for its proper end inside a name too: an archive cut off
  in the name of an attribute is extracted without an error, and that attribute and those after it
  are silently missing.\<close>

theorem truncated_archive_accepted:
  assumes "quiet_system s" and "S_ISREG m" and "S_ISREG (af_mode s)"
    and "\<forall>x \<in> set (xs @ [y]). archived x \<and> length (snd x) < 2 ^ 63" and "distinct (map fst xs)"
    and "k \<le> length (fst y)"
    and "bs = afsc_magic @ be_bytes 2 (unat m) @ concat (map entry_bytes (xs @ y # ys))"
  shows "extract_archive s (take (6 + length (concat (map entry_bytes xs)) + k) bs)
    = (Fell_through, Some ((new_file s)\<lparr>f_xattrs := xs, f_flags := UF_COMPRESSED, f_mode := m\<rparr>))"
proof -
  define c where "c = concat (map entry_bytes xs)"
  define n where "n = take k (name_bytes (fst y))"
  have y: "archived_name (fst y)" using assms(4) by (simp add: archived_def)
  have magic: "length afsc_magic = 4" by (simp add: afsc_magic_def name_bytes_def)
  have cut: "take (6 + length c + k) bs = afsc_magic @ be_bytes 2 (unat m) @ c @ n"
    using assms(6) by (simp add: assms(7) magic c_def [symmetric] n_def entry_bytes_def name_bytes_def)
  have "0 \<notin> set n" "length n < 23"
    using name_bytes_archived [OF y] by (auto simp: n_def dest: in_set_takeD)
  then have "extract_attrs s nd n = (Fell_through, nd)" for nd
    by (simp add: extract_attrs.simps read_name_cut)
  then have "extract_attrs s (new_file s) (c @ n) = (Fell_through, (new_file s)\<lparr>f_xattrs := xs\<rparr>)"
    using extract_entries_then [OF assms(1) _ assms(5), of "new_file s" n] assms(4)
    by (simp add: c_def new_file_def)
  then show ?thesis
    using extract_archive_header [OF assms(1-3)] by (simp add: c_def [symmetric] cut new_file_def)
qed

theorem truncated_archive_accepted_witness:
  "extract_archive sample_system (take 9 (afsc_magic @ be_bytes 2 0x81A4 @ entry_bytes (DECMPFS_XATTR_NAME, [1])))
     = (Fell_through, Some ((new_file sample_system)\<lparr>f_flags := UF_COMPRESSED, f_mode := 0x81A4\<rparr>))"
  using truncated_archive_accepted [where s = sample_system and m = "0x81A4" and xs = "[]"
      and y = "(DECMPFS_XATTR_NAME, [1])" and k = 3 and ys = "[]", OF _ _ _ _ _ _ refl]
    sample_system_quiet
  by (simp add: archived_def archived_name_iff stat_bits DECMPFS_XATTR_NAME_def new_file_def)

end
