(* ===== verification/Decimal.thy ===== *)
theory Decimal
  imports CStrings
begin

text \<open>
  Decimal numbers in texts, as the C and C++ libraries print and read them: \<open>snprintf\<close> with %ld,
  \<open>std::stoul\<close> (its exceptions are \<open>None\<close>), \<open>sscanf\<close> with %lld and \<open>atoi\<close>.
\<close>

section \<open>Printing\<close>

definition digit_char :: "nat \<Rightarrow> char" where
  "digit_char d = char_of (48 + d)"

definition is_digit :: "char \<Rightarrow> bool" where
  "is_digit c \<longleftrightarrow> 48 \<le> byte_of c \<and> byte_of c \<le> 57"

fun decimal :: "nat \<Rightarrow> string" where
  "decimal n = (if n < 10 then [digit_char n] else decimal (n div 10) @ [digit_char (n mod 10)])"

declare decimal.simps [simp del]

definition print_ld :: "int \<Rightarrow> string" where
  "print_ld i = (if i < 0 then CHR ''-'' # decimal (nat (- i)) else decimal (nat i))"

fun digits_value :: "nat \<Rightarrow> string \<Rightarrow> nat" where
  "digits_value acc [] = acc"
| "digits_value acc (c # cs) = digits_value (10 * acc + (byte_of c - 48)) cs"

section \<open>Reading\<close>

definition is_space :: "char \<Rightarrow> bool" where
  "is_space c \<longleftrightarrow> byte_of c = 32 \<or> 9 \<le> byte_of c \<and> byte_of c \<le> 13"

text \<open>The prefix that is a number; a sign wraps the value around 2^64.\<close>

definition stoul :: "string \<Rightarrow> nat option" where
  "stoul s =
     (let t = dropWhile is_space s;
          neg = (t \<noteq> [] \<and> hd t = CHR ''-'');
          u = (if t \<noteq> [] \<and> (hd t = CHR ''-'' \<or> hd t = CHR ''+'') then tl t else t);
          ds = takeWhile is_digit u;
          v = digits_value 0 ds
      in if ds = [] \<or> 2 ^ 64 \<le> v then None
         else Some (if neg then (2 ^ 64 - v) mod 2 ^ 64 else v))"

text \<open>\<open>sscanf\<close> with %lld, which leaves the variable alone when nothing matches, and \<open>atoi\<close>.\<close>

definition scan_decimal :: "string \<Rightarrow> int option" where
  "scan_decimal s =
     (let t = dropWhile is_space s;
          neg = (t \<noteq> [] \<and> hd t = CHR ''-'');
          u = (if t \<noteq> [] \<and> (hd t = CHR ''-'' \<or> hd t = CHR ''+'') then tl t else t);
          ds = takeWhile is_digit u; v = int (digits_value 0 ds)
      in if ds = [] then None else Some (if neg then - v else v))"

definition scan_lld :: "string \<Rightarrow> int \<Rightarrow> int" where
  "scan_lld s old =
     (case scan_decimal s of None \<Rightarrow> old | Some v \<Rightarrow> max (- (2 ^ 63)) (min (2 ^ 63 - 1) v))"

definition atoi :: "string \<Rightarrow> int" where
  "atoi s = (case scan_decimal s of None \<Rightarrow> 0 | Some v \<Rightarrow> v)"

text \<open>The value of a \<open>long\<close> converted to \<open>unsigned long\<close>, as in a comparison with \<open>stoul\<close>.\<close>

definition to_ulong :: "int \<Rightarrow> nat" where
  "to_ulong i = nat (i mod 2 ^ 64)"

lemma byte_of_digit_char: "d < 10 \<Longrightarrow> byte_of (digit_char d) = 48 + d"
  by (simp add: digit_char_def byte_of_def)

lemma digits_value_append: "digits_value acc (xs @ [c]) = 10 * digits_value acc xs + (byte_of c - 48)"
  by (induction acc xs rule: digits_value.induct) auto

lemma decimal_digits: "\<forall>c \<in> set (decimal n). is_digit c"
proof (induction n rule: decimal.induct)
  case (1 n)
  then show ?case
    by (subst decimal.simps) (auto simp: is_digit_def byte_of_digit_char)
qed

lemma digits_value_decimal: "digits_value 0 (decimal n) = n"
proof (induction n rule: decimal.induct)
  case (1 n)
  then show ?case
    by (subst decimal.simps) (auto simp: digits_value_append byte_of_digit_char)
qed

lemma decimal_not_Nil [simp]: "decimal n \<noteq> []"
  by (subst decimal.simps) simp

lemma digit_not: "is_digit c \<Longrightarrow> \<not> is_space c \<and> c \<noteq> CHR ''-'' \<and> c \<noteq> CHR ''+'' \<and> c \<noteq> CHR '':'' \<and> c \<noteq> CHR ''@''"
  by (auto simp: is_digit_def is_space_def byte_of_def)

lemma stoul_decimal:
  assumes "n < 2 ^ 64"
  shows "stoul (decimal n) = Some n"
proof -
  obtain c cs where d: "decimal n = c # cs" by (cases "decimal n") auto
  have c: "is_digit c" "\<forall>x \<in> set cs. is_digit x" using decimal_digits [of n] by (auto simp: d)
  have tw: "takeWhile is_digit cs = cs" using c by (simp add: takeWhile_eq_all_conv)
  show ?thesis
    using assms c digits_value_decimal [of n] digit_not [OF c(1)]
    by (simp add: stoul_def Let_def d tw)
qed

lemma stoul_negative:
  assumes "n < 2 ^ 64"
  shows "stoul (CHR ''-'' # decimal n) = Some ((2 ^ 64 - n) mod 2 ^ 64)"
proof -
  have tw: "takeWhile is_digit (decimal n) = decimal n"
    using decimal_digits [of n] by (simp add: takeWhile_eq_all_conv)
  have "\<not> is_space (CHR ''-'')" by (simp add: is_space_def byte_of_def)
  then show ?thesis
    using assms by (simp add: stoul_def Let_def tw digits_value_decimal)
qed

text \<open>A \<open>long\<close> that was printed is read back.\<close>

lemma stoul_print_ld:
  assumes "- (2 ^ 63) \<le> i" and "i < 2 ^ 63"
  shows "stoul (print_ld i) = Some (to_ulong i)"
proof (cases "i < 0")
  case True
  define n where "n = nat (- i)"
  have n: "n < 2 ^ 64" "i = - int n" "0 < n" using assms True by (auto simp: n_def)
  have "to_ulong i = (2 ^ 64 - n) mod 2 ^ 64"
    using n by (simp add: to_ulong_def nat_mod_distrib zmod_zminus1_eq_if nat_diff_distrib)
  then show ?thesis using True n stoul_negative [OF n(1)] by (simp add: print_ld_def)
next
  case False
  then have "to_ulong i = nat i" "nat i < 2 ^ 64" using assms by (auto simp: to_ulong_def)
  then show ?thesis using False stoul_decimal by (simp add: print_ld_def)
qed

lemma print_ld_chars: "x \<in> set (print_ld i) \<Longrightarrow> x \<noteq> CHR '':'' \<and> x \<noteq> CHR ''@''"
  using decimal_digits [of "nat i"] decimal_digits [of "nat (- i)"] digit_not
  by (auto simp: print_ld_def split: if_splits)

lemma print_ld_not_Nil [simp]: "print_ld i \<noteq> []"
  by (simp add: print_ld_def)

lemma length_decimal: "n < 10 ^ k \<Longrightarrow> 0 < k \<Longrightarrow> length (decimal n) \<le> k"
proof (induction k arbitrary: n)
  case 0
  then show ?case by simp
next
  case (Suc k)
  show ?case
  proof (cases "n < 10")
    case True
    then show ?thesis by (simp add: decimal.simps [of n])
  next
    case False
    then have "0 < k" "n div 10 < 10 ^ k" using Suc.prems by (cases k, auto)
    then show ?thesis using Suc.IH [of "n div 10"] False by (simp add: decimal.simps [of n])
  qed
qed

lemma print_ld_length: "\<bar>i\<bar> < 10 ^ k \<Longrightarrow> 0 < k \<Longrightarrow> length (print_ld i) \<le> Suc k"
proof -
  assume i: "\<bar>i\<bar> < 10 ^ k" "0 < k"
  then have "nat \<bar>i\<bar> < 10 ^ k" by (simp add: nat_less_iff)
  then have "length (decimal (nat \<bar>i\<bar>)) \<le> k" using i(2) by (rule length_decimal)
  then show ?thesis by (cases "i < 0") (simp_all add: print_ld_def)
qed

lemma to_ulong_inject:
  assumes "- (2 ^ 63) \<le> i" and "i < 2 ^ 63" and "- (2 ^ 63) \<le> j" and "j < 2 ^ 63"
  shows "to_ulong i = to_ulong j \<longleftrightarrow> i = j"
proof
  assume "to_ulong i = to_ulong j"
  then have "i mod 2 ^ 64 = j mod 2 ^ 64"
    by (simp add: to_ulong_def eq_nat_nat_iff)
  then have "(2 :: int) ^ 64 dvd i - j" by (simp add: mod_eq_dvd_iff)
  then obtain k where k: "i - j = 2 ^ 64 * k" ..
  moreover have "\<bar>i - j\<bar> < 2 ^ 64" using assms by auto
  ultimately have "k = 0" by auto
  then show "i = j" using k by simp
qed simp

end
