(* ===== verification/Options.thy ===== *)
theory Options
  imports Decimal FsTypes OsVersion
begin

text \<open>
  The command line of \<open>afsctool\<close> (src/afsctool.c): the options, letter by letter, with the
  combinations that are refused, and the arguments that remain. An \<open>exit (EINVAL)\<close> is \<open>None\<close>. What
  \<open>sscanf\<close> reads with %lf is a parameter.
\<close>

record options =
  printDir :: bool
  opt_allowLargeBlocks :: bool
  printVerbose :: int
  decomp :: bool
  createfile :: bool
  extractfile :: bool
  applycomp :: bool
  fileCheck :: bool
  hardLinkCheck :: bool
  opt_compressionlevel :: int
  opt_maxSize :: int
  opt_minSavings :: real
  opt_filetypeslist :: "string list option"
  opt_compressiontype :: compression_type
  invert_list :: bool
  backupFile :: bool
  opt_exclusive_io :: bool
  opt_nJobs :: int
  opt_nReverse :: int
  sortQueue :: bool

definition default_options :: options where
  "default_options = \<lparr>printDir = False, opt_allowLargeBlocks = False, printVerbose = 0, decomp = False,
     createfile = False, extractfile = False, applycomp = False, fileCheck = True, hardLinkCheck = False,
     opt_compressionlevel = 5, opt_maxSize = 0, opt_minSavings = 0, opt_filetypeslist = None,
     opt_compressiontype = ZLIB, invert_list = False, backupFile = False, opt_exclusive_io = True,
     opt_nJobs = 0, opt_nReverse = 0, sortQueue = False\<rparr>"

record opt_env =
  oe_plist :: "os_version option"
  oe_globals :: os_version
  scan_lf :: "string \<Rightarrow> real option"

definition macos_at_least :: "opt_env \<Rightarrow> int \<Rightarrow> int \<Rightarrow> bool" where
  "macos_at_least e a b = fst (isMacOSVersionAtLeast (oe_plist e) (oe_globals e) a b 0)"

text \<open>
  What a letter does: go on with the next one, skip the rest of its argument, or take the next
  argument (the rest of its own must be empty).
\<close>

datatype letter_result = Refused | More options | Next_arg options | Took_arg options

definition unless :: "bool \<Rightarrow> letter_result \<Rightarrow> letter_result" where
  "unless refused r = (if refused then Refused else r)"

definition archive_or_decomp :: "options \<Rightarrow> bool" where
  "archive_or_decomp o' \<longleftrightarrow> createfile o' \<or> extractfile o' \<or> decomp o'"

text \<open>The letters without a value.\<close>

definition flag_letter :: "char \<Rightarrow> options \<Rightarrow> letter_result option" where
  "flag_letter c o' =
     (if c = CHR ''l'' then Some (unless (archive_or_decomp o') (More (o'\<lparr>printDir := True\<rparr>)))
      else if c = CHR ''L'' then
        Some (unless (archive_or_decomp o') (More (o'\<lparr>opt_allowLargeBlocks := True\<rparr>)))
      else if c = CHR ''v'' then Some (More (o'\<lparr>printVerbose := printVerbose o' + 1\<rparr>))
      else if c = CHR ''d'' then
        Some (unless (printDir o' \<or> applycomp o' \<or> hardLinkCheck o') (More (o'\<lparr>decomp := True\<rparr>)))
      else if c = CHR ''a'' then
        Some (unless (printDir o' \<or> extractfile o' \<or> applycomp o' \<or> hardLinkCheck o')
          (More (o'\<lparr>createfile := True\<rparr>)))
      else if c = CHR ''x'' then
        Some (unless (printDir o' \<or> createfile o' \<or> applycomp o' \<or> hardLinkCheck o')
          (More (o'\<lparr>extractfile := True\<rparr>)))
      else if c = CHR ''c'' then Some (unless (archive_or_decomp o') (More (o'\<lparr>applycomp := True\<rparr>)))
      else if c = CHR ''k'' then Some (More o')
      else if c = CHR ''n'' then Some (unless (archive_or_decomp o') (More (o'\<lparr>fileCheck := False\<rparr>)))
      else if c = CHR ''f'' then Some (unless (archive_or_decomp o') (More (o'\<lparr>hardLinkCheck := True\<rparr>)))
      else if byte_of (CHR ''1'') \<le> byte_of c \<and> byte_of c \<le> byte_of (CHR ''9'') then
        Some (unless (archive_or_decomp o')
          (More (o'\<lparr>opt_compressionlevel := int (byte_of c) - int (byte_of (CHR ''0''))\<rparr>)))
      else if c = CHR ''i'' then
        Some (unless (createfile o' \<or> extractfile o') (More (o'\<lparr>invert_list := True\<rparr>)))
      else if c = CHR ''b'' then Some (unless (\<not> applycomp o') (More (o'\<lparr>backupFile := True\<rparr>)))
      else None)"

definition compressor_option :: "opt_env \<Rightarrow> string \<Rightarrow> options \<Rightarrow> letter_result" where
  "compressor_option e arg o' =
     (if strcasecmp arg ''zlib'' = 0 then Took_arg (o'\<lparr>opt_compressiontype := ZLIB\<rparr>)
      else if strcasecmp arg ''lzvn'' = 0 then
        unless (\<not> macos_at_least e 10 9) (Took_arg (o'\<lparr>opt_compressiontype := LZVN\<rparr>))
      else if strcasecmp arg ''lzfse'' = 0 then
        unless (\<not> macos_at_least e 10 11) (Took_arg (o'\<lparr>opt_compressiontype := LZFSE\<rparr>))
      else Refused)"

definition type_option :: "string \<Rightarrow> options \<Rightarrow> options" where
  "type_option arg o' = o'\<lparr>opt_filetypeslist :=
     Some ((case opt_filetypeslist o' of None \<Rightarrow> [] | Some ts \<Rightarrow> ts) @ [arg])\<rparr>"

text \<open>The letters that take the next argument.\<close>

definition value_letter :: "opt_env \<Rightarrow> char \<Rightarrow> string \<Rightarrow> options \<Rightarrow> letter_result" where
  "value_letter e c arg o' =
     (if c = CHR ''m'' then Took_arg (o'\<lparr>opt_maxSize := scan_lld arg (opt_maxSize o')\<rparr>)
      else if c = CHR ''s'' then
        (let v = (case scan_lf e arg of None \<Rightarrow> opt_minSavings o' | Some v \<Rightarrow> v)
         in unless (99 < v \<or> v < 0) (Took_arg (o'\<lparr>opt_minSavings := v\<rparr>)))
      else if c = CHR ''t'' then Took_arg (type_option arg o')
      else compressor_option e arg o')"

text \<open>The letters whose value is the rest of their own argument; -S ignores that rest.\<close>

definition jobs_letter :: "char \<Rightarrow> string \<Rightarrow> options \<Rightarrow> letter_result" where
  "jobs_letter c rest o' =
     (if \<not> applycomp o' then Refused
      else if c = CHR ''S'' then Next_arg (o'\<lparr>sortQueue := True\<rparr>)
      else if c = CHR ''R'' then Next_arg (o'\<lparr>opt_nReverse := max 0 (atoi rest)\<rparr>)
      else
        let o1 = (if c = CHR ''J'' then o'\<lparr>opt_exclusive_io := False\<rparr> else o')
        in Next_arg (o1\<lparr>opt_nJobs := max 0 (atoi rest)\<rparr>))"

definition option_letter ::
    "opt_env \<Rightarrow> char \<Rightarrow> string \<Rightarrow> string list \<Rightarrow> options \<Rightarrow> letter_result" where
  "option_letter e c rest args o' =
     (case flag_letter c o' of
        Some r \<Rightarrow> r
      | None \<Rightarrow>
          if c = CHR ''m'' \<or> c = CHR ''s'' \<or> c = CHR ''t'' \<or> c = CHR ''T'' then
            if (c = CHR ''m'' \<or> c = CHR ''s'') \<and> archive_or_decomp o' \<or> rest \<noteq> [] \<or> args = [] then Refused
            else value_letter e c (hd args) o'
          else if c = CHR ''j'' \<or> c = CHR ''J'' \<or> c = CHR ''R'' \<or> c = CHR ''S'' then jobs_letter c rest o'
          else Refused)"

text \<open>The letters of an argument; the result has the arguments that follow.\<close>

fun parse_letters ::
    "opt_env \<Rightarrow> string \<Rightarrow> string list \<Rightarrow> options \<Rightarrow> (options \<times> string list) option" where
  "parse_letters e [] args o' = Some (o', args)"
| "parse_letters e (c # rest) args o' =
     (case option_letter e c rest args o' of
        Refused \<Rightarrow> None
      | More o1 \<Rightarrow> parse_letters e rest args o1
      | Next_arg o1 \<Rightarrow> Some (o1, args)
      | Took_arg o1 \<Rightarrow> Some (o1, tl args))"

lemma parse_letters_shorter: "parse_letters e cs args o' = Some (o1, args') \<Longrightarrow> length args' \<le> length args"
  by (induction e cs args o' rule: parse_letters.induct) (auto split: letter_result.splits)

function parse_options ::
    "opt_env \<Rightarrow> string list \<Rightarrow> options \<Rightarrow> (options \<times> string list) option" where
  "parse_options e [] o' = Some (o', [])"
| "parse_options e (arg # args) o' =
     (if arg = [] \<or> hd arg \<noteq> CHR ''-'' then Some (o', arg # args)
      else case parse_letters e (tl arg) args o' of
          None \<Rightarrow> None
        | Some (o1, args1) \<Rightarrow> parse_options e args1 o1)"
  by pat_completeness auto
termination
  by (relation "measure (\<lambda>(_, args, _). length args)")
    (auto dest: parse_letters_shorter simp: less_Suc_eq_le)

text \<open>The whole command line, without the name of the program.\<close>

definition parse_command_line :: "opt_env \<Rightarrow> string list \<Rightarrow> (options \<times> string list) option" where
  "parse_command_line e argv =
     (if argv = [] then None
      else case parse_options e argv default_options of
          None \<Rightarrow> None
        | Some (o', rest) \<Rightarrow>
            if rest = [] \<or> (createfile o' \<or> extractfile o') \<and> length rest < 2 then None
            else Some (if 0 < opt_nJobs o' \<and> opt_nReverse o' \<noteq> 0 \<and> \<not> sortQueue o'
                       then o'\<lparr>opt_nReverse := 0\<rparr> else o', rest))"

section \<open>What the accepted options have in common\<close>

definition modes_exclusive :: "options \<Rightarrow> bool" where
  "modes_exclusive o' \<longleftrightarrow> \<not> (createfile o' \<and> extractfile o')
     \<and> (applycomp o' \<or> printDir o' \<or> hardLinkCheck o' \<longrightarrow> \<not> archive_or_decomp o')
     \<and> (backupFile o' \<or> sortQueue o' \<or> opt_nJobs o' \<noteq> 0 \<or> opt_nReverse o' \<noteq> 0 \<or> \<not> opt_exclusive_io o'
          \<longrightarrow> applycomp o')"

definition values_in_range :: "opt_env \<Rightarrow> options \<Rightarrow> bool" where
  "values_in_range e o' \<longleftrightarrow> 1 \<le> opt_compressionlevel o' \<and> opt_compressionlevel o' \<le> 9
     \<and> 0 \<le> opt_minSavings o' \<and> opt_minSavings o' \<le> 99 \<and> 0 \<le> opt_nJobs o' \<and> 0 \<le> opt_nReverse o'
     \<and> (case opt_compressiontype o' of ZLIB \<Rightarrow> True | LZVN \<Rightarrow> macos_at_least e 10 9
         | LZFSE \<Rightarrow> macos_at_least e 10 11 | _ \<Rightarrow> False)"

definition consistent :: "opt_env \<Rightarrow> options \<Rightarrow> bool" where
  "consistent e o' \<longleftrightarrow> modes_exclusive o' \<and> values_in_range e o'"

fun letter_all :: "(options \<Rightarrow> bool) \<Rightarrow> letter_result \<Rightarrow> bool" where
  "letter_all P Refused = True"
| "letter_all P (More o') = P o'"
| "letter_all P (Next_arg o') = P o'"
| "letter_all P (Took_arg o') = P o'"

lemma letter_all_unless: "letter_all P (unless b r) \<longleftrightarrow> (\<not> b \<longrightarrow> letter_all P r)"
  by (simp add: unless_def)

lemmas consistent_defs = consistent_def modes_exclusive_def values_in_range_def archive_or_decomp_def

lemma consistent_flags:
  assumes "consistent e o'"
  shows "\<not> archive_or_decomp o' \<Longrightarrow> consistent e (o'\<lparr>printDir := True\<rparr>)"
    and "consistent e (o'\<lparr>opt_allowLargeBlocks := b\<rparr>)"
    and "consistent e (o'\<lparr>printVerbose := i\<rparr>)"
    and "\<not> printDir o' \<Longrightarrow> \<not> applycomp o' \<Longrightarrow> \<not> hardLinkCheck o' \<Longrightarrow> consistent e (o'\<lparr>decomp := True\<rparr>)"
    and "\<not> printDir o' \<Longrightarrow> \<not> extractfile o' \<Longrightarrow> \<not> applycomp o' \<Longrightarrow> \<not> hardLinkCheck o'
      \<Longrightarrow> consistent e (o'\<lparr>createfile := True\<rparr>)"
    and "\<not> printDir o' \<Longrightarrow> \<not> createfile o' \<Longrightarrow> \<not> applycomp o' \<Longrightarrow> \<not> hardLinkCheck o'
      \<Longrightarrow> consistent e (o'\<lparr>extractfile := True\<rparr>)"
    and "\<not> archive_or_decomp o' \<Longrightarrow> consistent e (o'\<lparr>applycomp := True\<rparr>)"
    and "consistent e (o'\<lparr>fileCheck := b\<rparr>)"
    and "\<not> archive_or_decomp o' \<Longrightarrow> consistent e (o'\<lparr>hardLinkCheck := True\<rparr>)"
    and "1 \<le> i \<Longrightarrow> i \<le> 9 \<Longrightarrow> consistent e (o'\<lparr>opt_compressionlevel := i\<rparr>)"
    and "consistent e (o'\<lparr>invert_list := b\<rparr>)"
    and "applycomp o' \<Longrightarrow> consistent e (o'\<lparr>backupFile := True\<rparr>)"
  using assms by (simp_all add: consistent_defs)

lemma digit_level:
  "byte_of (CHR ''1'') \<le> byte_of c \<Longrightarrow> byte_of c \<le> byte_of (CHR ''9'')
   \<Longrightarrow> 1 \<le> int (byte_of c) - int (byte_of (CHR ''0'')) \<and> int (byte_of c) - int (byte_of (CHR ''0'')) \<le> 9"
  by (simp add: byte_of_def)

lemma flag_letter_all:
  assumes "consistent e o'"
  shows "case flag_letter c o' of None \<Rightarrow> True | Some r \<Rightarrow> letter_all (consistent e) r"
  by (simp add: flag_letter_def letter_all_unless consistent_flags [OF assms] digit_level assms)

lemma flag_letter_consistent:
  "consistent e o' \<Longrightarrow> flag_letter c o' = Some r \<Longrightarrow> letter_all (consistent e) r"
  using flag_letter_all [of e o' c] by simp

lemma value_letter_consistent: "consistent e o' \<Longrightarrow> letter_all (consistent e) (value_letter e c arg o')"
  by (auto simp: value_letter_def compressor_option_def type_option_def letter_all_unless consistent_defs Let_def
      split: option.splits)

lemma jobs_letter_consistent: "consistent e o' \<Longrightarrow> letter_all (consistent e) (jobs_letter c rest o')"
proof -
  assume o': "consistent e o'"
  have "applycomp o' \<Longrightarrow> consistent e (o'\<lparr>sortQueue := True\<rparr>)"
    "applycomp o' \<Longrightarrow> 0 \<le> i \<Longrightarrow> consistent e (o'\<lparr>opt_nReverse := i\<rparr>)"
    "applycomp o' \<Longrightarrow> 0 \<le> i \<Longrightarrow> consistent e (o'\<lparr>opt_nJobs := i\<rparr>)"
    "applycomp o' \<Longrightarrow> 0 \<le> i \<Longrightarrow> consistent e (o'\<lparr>opt_exclusive_io := False, opt_nJobs := i\<rparr>)" for i
    using o' by (simp_all add: consistent_defs)
  then show ?thesis by (simp add: jobs_letter_def Let_def)
qed

lemma option_letter_consistent:
  "consistent e o' \<Longrightarrow> letter_all (consistent e) (option_letter e c rest args o')"
proof -
  assume o': "consistent e o'"
  have "letter_all (consistent e) (if b then Refused else value_letter e c a o')"
    "letter_all (consistent e) (jobs_letter c rest o')" for a b
    using o' by (simp_all add: value_letter_consistent jobs_letter_consistent)
  then have "letter_all (consistent e) (if b1 then (if b2 then Refused else value_letter e c a o')
      else if b3 then jobs_letter c rest o' else Refused)" for a b1 b2 b3
    by (cases b1; cases b3) (simp_all only: if_True if_False letter_all.simps simp_thms)
  then show ?thesis
    using flag_letter_consistent [OF o'] unfolding option_letter_def by (cases "flag_letter c o'") auto
qed

lemma parse_letters_consistent:
  "consistent e o' \<Longrightarrow> parse_letters e cs args o' = Some (o1, args') \<Longrightarrow> consistent e o1"
proof (induction e cs args o' rule: parse_letters.induct)
  case (1 e args o')
  then show ?case by simp
next
  case (2 e c rest args o')
  then show ?case
    using option_letter_consistent [OF "2.prems"(1), of c rest args]
    by (auto split: letter_result.splits)
qed

lemma parse_options_consistent:
  "consistent e o' \<Longrightarrow> parse_options e args o' = Some (o1, rest) \<Longrightarrow> consistent e o1"
  by (induction e args o' rule: parse_options.induct)
    (auto split: if_splits option.splits prod.splits dest: parse_letters_consistent)

lemma default_consistent: "consistent e default_options"
  by (simp add: consistent_defs default_options_def)



end
