(* ===== verification/Report.thy ===== *)
theory Report
  imports FileStats
begin

text \<open>
  What \<open>afsctool\<close> prints about a file and about a folder (src/afsctool.c: \<open>printFileInfo\<close>,
  \<open>printFolderInfo\<close>, the part of the main loop that reports the types of a folder): a report is the
  list of its lines, a line its label with the values printed in it. Values are kept as numbers;
  a percentage is \<open>None\<close> where the code divides by zero.
\<close>

datatype report_line = Line string | Name string string | Names string "string list" | Num string int | Size string size_str
  | Percent string "real option" | Savings "real option" int int bool | Files int int

text \<open>\<open>rp_reread\<close>: the attribute is read a second time and that fails; \<open>rp_past\<close>: the memory behind
  the buffer it is read into.\<close>

record report_env =
  rp_sys :: sys
  rp_legacy :: bool
  rp_reread :: "string \<Rightarrow> bool"
  rp_past :: "byte list"

definition savings :: "int \<Rightarrow> int \<Rightarrow> real option" where
  "savings compressed uncompressed =
     (if uncompressed = 0 then None
      else Some ((1 - real_of_int compressed / real_of_int uncompressed) * 100))"

section \<open>A file\<close>

text \<open>The compression type and the size in the decmpfs attribute; of a short attribute the header is
  read beyond its end. A size of 2^63 or more is negative.\<close>

definition decmpfs_info :: "report_env \<Rightarrow> string \<Rightarrow> xattrs \<Rightarrow> nat \<times> int" where
  "decmpfs_info rp filepath xs =
     (case map_of xs DECMPFS_XATTR_NAME of
        None \<Rightarrow> (0, 0)
      | Some v \<Rightarrow>
          if v = [] \<or> rp_reread rp filepath then (0, 0)
          else
            let h = read_disk_header (v @ rp_past rp); n = header_uncompressed_size h
            in (compression_type h, if n < 2 ^ 63 then int n else int n - 2 ^ 64))"

text \<open>A \<open>bool\<close> made from an \<open>int\<close>, and read as one.\<close>

definition bool_of_int :: "int \<Rightarrow> bool" where "bool_of_int i \<longleftrightarrow> i \<noteq> 0"
definition int_of_bool :: "bool \<Rightarrow> int" where "int_of_bool b = (if b then 1 else 0)"

definition hidden_xattr :: "string \<Rightarrow> bool" where
  "hidden_xattr n \<longleftrightarrow> n = XATTR_RESOURCEFORK_NAME \<and> length n = 22 \<or> n = DECMPFS_XATTR_NAME \<and> length n = 17"

text \<open>A file without the compression flag.\<close>

definition plain_file_lines ::
    "report_env \<Rightarrow> int \<Rightarrow> bool \<Rightarrow> bool \<Rightarrow> string \<Rightarrow> stat \<Rightarrow> xattrs \<Rightarrow> xattr_totals \<Rightarrow> report_line list" where
  "plain_file_lines rp printVerbose appliedcomp apfs filepath st xs t =
     (let hasRF = list_ex (\<lambda>x. fst x = XATTR_RESOURCEFORK_NAME \<and> length (fst x) = 22) xs;
          numhiddenattr = int (length (filter (\<lambda>x. hidden_xattr (fst x)) xs));
          decmpfs = (if compattrsize t \<noteq> 0 \<and> printVerbose > 2
            then [Num ''File DECMPFS attribute size'' (compattrsize t)] else []);
          rounded = roundToBlkSize (st_size st) st;
          filesize = roundToBlkSize (rounded + RFsize t) st + compattrsize t + xattrssize t;
          overhead = numxattrs t * sizeof_HFSPlusAttrKey (rp_sys rp);
          total = (if apfs then filesize else filesize + overhead + sizeof_HFSPlusCatalogFile (rp_sys rp))
      in [Line (if appliedcomp then ''Unable to compress file.'' else ''File is not HFS+/APFS compressed.'')]
       @ (case sy_getFileType (rp_sys rp) filepath of None \<Rightarrow> [] | Some ty \<Rightarrow> [Name ''File content type'' ty])
       @ (if hasRF then
            [Num ''File data fork size'' (st_size st), Num ''File resource fork size'' (RFsize t)] @ decmpfs
            @ [Size ''File size (data fork + resource fork; reported size by Mac OS X Finder)''
                 (getSizeStr (st_size st + RFsize t) (roundToBlkSize (rounded + RFsize t) st) True)]
          else
            decmpfs @ [Size ''File data fork size (reported size by Mac OS X Finder)''
              (getSizeStr (st_size st) rounded True)])
       @ [Num ''Number of extended attributes'' (numxattrs t - numhiddenattr),
          Num ''Total size of extended attribute data'' (xattrssize t)]
       @ (if apfs then [] else [Num ''Approximate overhead of extended HFS+ attributes'' overhead])
       @ [Size ''Approximate total file size (data fork + resource fork + EA + EA overhead + file overhead)''
            (getSizeStr total total False)])"

text \<open>A file with the flag.\<close>

definition compressed_file_lines ::
    "report_env \<Rightarrow> int \<Rightarrow> bool \<Rightarrow> bool \<Rightarrow> string \<Rightarrow> stat \<Rightarrow> xattrs \<Rightarrow> xattr_totals \<Rightarrow> report_line list" where
  "compressed_file_lines rp printVerbose appliedcomp apfs filepath st xs t =
     (let numhiddenattr = int (length (filter (\<lambda>x. hidden_xattr (fst x)) xs));
          di = decmpfs_info rp filepath xs; compressionType = fst di; filesize_reported = snd di;
          blocks = st_blocks st * S_BLKSIZE
      in (if appliedcomp then [] else [Line ''File is HFS+/APFS compressed.''])
       @ [if compressionType \<in> {CMP_ZLIB_XATTR, CMP_ZLIB_RESOURCE_FORK, CMP_LZVN_XATTR, CMP_LZVN_RESOURCE_FORK,
             CMP_LZFSE_XATTR, CMP_LZFSE_RESOURCE_FORK}
          then Name ''Compression type'' (compressionTypeName compressionType)
          else Num ''Unknown compression type'' (int compressionType)]
       @ (case sy_getFileType (rp_sys rp) filepath of None \<Rightarrow> [] | Some ty \<Rightarrow> [Name ''File content type'' ty])
       @ (if printVerbose > 2 then
            (if RFsize t \<noteq> 0 then [Num ''File resource fork size'' (RFsize t)] else [])
            @ (if compattrsize t \<noteq> 0 then [Num ''File DECMPFS attribute size'' (compattrsize t)] else [])
          else [])
       @ [Size ''File size (uncompressed; reported size by Mac OS 10.6+ Finder)''
            (getSizeStr (st_size st) (st_size st) True)]
       @ (if rp_legacy rp then
            [Size ''File size (compressed data fork - decmpfs xattr; reported size by Mac OS 10.0-10.5 Finder)''
               (getSizeStr (RFsize t) (roundToBlkSize (RFsize t) st) True)]
          else [])
       @ [Size ''File size (compressed)'' (getSizeStr blocks (roundToBlkSize blocks st) False),
          Percent ''Compression savings'' (savings blocks (st_size st)),
          Num ''Number of extended attributes'' (numxattrs t - numhiddenattr),
          Num ''Total size of extended attribute data'' (xattrssize t)]
       @ (if apfs then []
          else [Num ''Approximate overhead of extended attributes''
                  (numxattrs t * sizeof_HFSPlusAttrKey (rp_sys rp))])
       @ (if filesize_reported \<noteq> 0
          then [Num ''Uncompressed file size reported in compressed header'' filesize_reported] else []))"

text \<open>The whole function; the name is printed before the attributes are listed. The caller that does
  not know the volume passes -1 for \<open>onAPFS\<close>.\<close>

definition printFileInfo ::
    "report_env \<Rightarrow> int \<Rightarrow> string \<Rightarrow> stat \<Rightarrow> xattrs \<Rightarrow> bool \<Rightarrow> bool \<Rightarrow> report_line list" where
  "printFileInfo rp printVerbose filepath st xs appliedcomp apfs =
     Line filepath #
     (case sum_xattrs (sy_listing (rp_sys rp) filepath) xs of
        None \<Rightarrow> []
      | Some t \<Rightarrow>
          let listed = (if lf_size (sy_listing (rp_sys rp) filepath) then [] else xs);
              vol_apfs = snd (fileIsCompressable (sy_env (rp_sys rp) (st_ino st)) st NONE);
              apfs1 = (if int_of_bool apfs = -1 then vol_apfs else apfs)
          in if \<not> is_flagged (st_flags st)
             then plain_file_lines rp printVerbose appliedcomp apfs1 filepath st listed t
             else compressed_file_lines rp printVerbose appliedcomp apfs1 filepath st listed t)"

section \<open>A folder\<close>

text \<open>\<open>num_skipped\<close> is printed where it is not 0.\<close>

definition printFolderInfo :: "report_env \<Rightarrow> int \<Rightarrow> bool \<Rightarrow> bool \<Rightarrow> folder_info \<Rightarrow> report_line list" where
  "printFolderInfo rp num_skipped parallel hlc fi =
     (let finder = (num_hard_link_files fi = 0 \<and> num_hard_link_folders fi = 0) \<or> \<not> hlc
      in [Files (num_files fi) num_skipped]
       @ (if hlc then [Num ''Total number of file hard links'' (num_hard_link_files fi)] else [])
       @ [Num ''Total number of folders'' (num_folders fi)]
       @ (if hlc then [Num ''Total number of folder hard links'' (num_hard_link_folders fi)] else [])
       @ [Num ''Total number of items (number of files + number of folders)'' (num_files fi + num_folders fi)]
       @ [Size (if finder then ''Folder size (uncompressed; reported size by Mac OS 10.6+ Finder)''
                else ''Folder size (uncompressed)'')
            (getSizeStr (uncompressed_size fi) (uncompressed_size_rounded fi) finder)]
       @ [if rp_legacy rp \<and> finder
          then Size ''Folder size (compressed; reported size by Mac OS 10.0-10.5 Finder)''
            (getSizeStr (compressed_size fi) (compressed_size_rounded fi) True)
          else Size ''Folder size (compressed)'' (getSizeStr (compressed_size fi) (compressed_size_rounded fi) False)]
       @ (if num_compressed fi \<noteq> 0
          then [Savings (savings (compressed_size fi) (uncompressed_size fi)) (num_compressed fi) (num_files fi) parallel]
          else [])
       @ [Size ''Approximate total folder size (files + file overhead + folder overhead)''
            (getSizeStr (total_size fi) (total_size fi) False)])"

section \<open>The types of a folder\<close>

text \<open>The lines the loop prints for a type, and again for their totals.\<close>

definition type_lines ::
    "report_env \<Rightarrow> int \<Rightarrow> int \<Rightarrow> int \<Rightarrow> bool \<Rightarrow> filetype_info \<Rightarrow> report_line list" where
  "type_lines rp num_skipped printVerbose jobs hlc ti =
     (let finder = ft_num_hard_link_files ti = 0 \<or> \<not> hlc;
          both = ft_compressed_size ti + ft_compattr_size ti
      in if 0 < printVerbose \<and> jobs = 0 then
           [Files (ft_num_files ti) num_skipped]
           @ (if hlc then [Num ''Total number of file hard links'' (ft_num_hard_link_files ti)] else [])
           @ [Size (if finder then ''File(s) size (uncompressed; reported size by Mac OS 10.6+ Finder)''
                    else ''File(s) size (uncompressed)'')
                (getSizeStr (ft_uncompressed_size ti) (ft_uncompressed_size_rounded ti) finder),
              if rp_legacy rp \<and> finder
              then Size ''File(s) size (compressed - decmpfs xattr; reported size by Mac OS 10.0-10.5 Finder)''
                (getSizeStr (ft_compressed_size ti) (ft_compressed_size_rounded ti) True)
              else Size ''File(s) size (compressed - decmpfs xattr)''
                (getSizeStr (ft_compressed_size ti) (ft_compressed_size_rounded ti) False),
              Size ''File(s) size (compressed)''
                (getSizeStr both (ft_compressed_size_rounded ti + ft_compattr_size ti) False),
              Percent ''Compression savings'' (savings both (ft_uncompressed_size ti)),
              Size ''Approximate total file(s) size (files + file overhead)''
                (getSizeStr (ft_total_size ti) (ft_total_size ti) False)]
         else [])"

definition type_report ::
    "report_env \<Rightarrow> int \<Rightarrow> int \<Rightarrow> int \<Rightarrow> bool \<Rightarrow> bool \<Rightarrow> filetype_info \<Rightarrow> report_line list" where
  "type_report rp num_skipped printVerbose jobs hlc invert ti =
     (if invert then []
      else [Name ''File content type'' (filetype ti)]
        @ (if extensions ti = [] then [] else [Names ''File extension(s)'' (extensions ti)])
        @ [Num ''Number of HFS+/APFS compressed files'' (ft_num_compressed ti)]
        @ type_lines rp num_skipped printVerbose jobs hlc ti)"

text \<open>\<open>alltypesinfo\<close>: the sums over the types, taken from the totals of the folder where the list of
  types was inverted.\<close>

definition add_type :: "filetype_info \<Rightarrow> filetype_info \<Rightarrow> filetype_info" where
  "add_type a ti = a\<lparr>
     ft_uncompressed_size := ft_uncompressed_size a + ft_uncompressed_size ti,
     ft_uncompressed_size_rounded := ft_uncompressed_size_rounded a + ft_uncompressed_size_rounded ti,
     ft_compressed_size := ft_compressed_size a + ft_compressed_size ti,
     ft_compressed_size_rounded := ft_compressed_size_rounded a + ft_compressed_size_rounded ti,
     ft_compattr_size := ft_compattr_size a + ft_compattr_size ti,
     ft_total_size := ft_total_size a + ft_total_size ti,
     ft_num_compressed := ft_num_compressed a + ft_num_compressed ti,
     ft_num_files := ft_num_files a + ft_num_files ti,
     ft_num_hard_link_files := ft_num_hard_link_files a + ft_num_hard_link_files ti\<rparr>"

definition inverted_type :: "folder_info \<Rightarrow> filetype_info \<Rightarrow> filetype_info" where
  "inverted_type fi a = a\<lparr>
     ft_uncompressed_size := uncompressed_size fi - ft_uncompressed_size a,
     ft_uncompressed_size_rounded := uncompressed_size_rounded fi - ft_uncompressed_size_rounded a,
     ft_compressed_size := compressed_size fi - ft_compressed_size a,
     ft_compressed_size_rounded := compressed_size_rounded fi - ft_compressed_size_rounded a,
     ft_compattr_size := compattr_size fi - ft_compattr_size a,
     ft_total_size := total_size fi - ft_total_size a,
     ft_num_compressed := num_compressed fi - ft_num_compressed a,
     ft_num_files := num_files fi - ft_num_files a,
     ft_num_hard_link_files := num_hard_link_files fi - ft_num_hard_link_files a\<rparr>"

definition alltypesinfo :: "folder_info \<Rightarrow> filetype_info" where
  "alltypesinfo fi =
     (let a = fold (\<lambda>ti a. add_type a ti) (filetypes fi) (new_filetype_info '''')
      in if invert_filetypelist fi then inverted_type fi a else a)"

definition types_report ::
    "report_env \<Rightarrow> int \<Rightarrow> int \<Rightarrow> int \<Rightarrow> bool \<Rightarrow> folder_info \<Rightarrow> report_line list" where
  "types_report rp num_skipped printVerbose jobs hlc fi =
     concat (map (type_report rp num_skipped printVerbose jobs hlc (invert_filetypelist fi)) (filetypes fi))
     @ (if 1 < length (filetypes fi) \<or> invert_filetypelist fi then
          [Line ''Totals of file content types'',
           Num ''Number of HFS+/APFS compressed files'' (ft_num_compressed (alltypesinfo fi))]
          @ type_lines rp num_skipped printVerbose jobs hlc (alltypesinfo fi)
        else [])"

text \<open>The report of a folder argument.\<close>

definition folder_report ::
    "report_env \<Rightarrow> int \<Rightarrow> int \<Rightarrow> int \<Rightarrow> bool \<Rightarrow> bool \<Rightarrow> bool \<Rightarrow> bool \<Rightarrow> string \<Rightarrow> folder_info \<Rightarrow> report_line list" where
  "folder_report rp num_skipped printVerbose jobs listed hlc applied parallel path fi =
     (if 0 < printVerbose \<or> \<not> listed then
        [if jobs = 0 then Line path else Name ''Adding to queue'' path]
        @ (if filetypes fi \<noteq> [] then types_report rp num_skipped printVerbose jobs hlc fi else [])
        @ (if jobs = 0 then
             [if num_compressed fi = 0
              then Line (if applied then ''No compressable files in folder'' else ''Folder contains no compressed files'')
              else Num ''Number of HFS+/APFS compressed files'' (num_compressed fi)]
             @ (if 0 < printVerbose then printFolderInfo rp num_skipped parallel hlc fi else [])
           else [])
      else [])"

section \<open>What the reports agree with\<close>

text \<open>The sizes reported for a file are those \<open>process_file_info\<close> charges to its folder.\<close>

theorem report_matches_accounting:
  assumes "sum_xattrs (sy_listing (rp_sys rp) path) xs = Some t"
    and "c = file_charge (rp_sys rp) apfs st t"
  shows "(if is_flagged (st_flags st)
      then Size ''File size (compressed)'' (getSizeStr (ch_compressed c) (ch_compressed_rounded c) False)
      else Size ''Approximate total file size (data fork + resource fork + EA + EA overhead + file overhead)''
        (getSizeStr (ch_total c) (ch_total c) False))
    \<in> set (printFileInfo rp verbose path st xs applied apfs)"
proof -
  have "(int_of_bool apfs = -1) = False" by (simp add: int_of_bool_def)
  moreover have "(if apfs then a else a + b + c) = a + (if apfs then 0 else b + c)" for a b c :: int by simp
  ultimately show ?thesis
    unfolding printFileInfo_def assms(1)
    by (cases "is_flagged (st_flags st)")
      (simp_all add: assms(2) file_charge_def plain_charge_def compressed_charge_def plain_file_lines_def
        compressed_file_lines_def Let_def)
qed

text \<open>A \<open>bool\<close> is never -1: the caller that passes -1 gets the report of a file on APFS.\<close>

theorem unknown_volume_reported_as_APFS:
  "printFileInfo rp verbose path st xs applied (bool_of_int (- 1))
     = printFileInfo rp verbose path st xs applied True"
  by (simp add: bool_of_int_def)

text \<open>The totals over the types are the sums, or what the sums leave of the folder.\<close>

definition folder_counter :: "(filetype_info \<Rightarrow> int) \<Rightarrow> (folder_info \<Rightarrow> int) \<Rightarrow> bool" where
  "folder_counter g h \<longleftrightarrow> (g, h) \<in> {(ft_uncompressed_size, uncompressed_size),
     (ft_uncompressed_size_rounded, uncompressed_size_rounded), (ft_compressed_size, compressed_size),
     (ft_compressed_size_rounded, compressed_size_rounded), (ft_compattr_size, compattr_size),
     (ft_total_size, total_size), (ft_num_compressed, num_compressed), (ft_num_files, num_files),
     (ft_num_hard_link_files, num_hard_link_files)}"

lemma fold_add_type:
  assumes "folder_counter g h"
  shows "g (fold (\<lambda>ti a. add_type a ti) tis a) = g a + sum_list (map g tis)"
proof (induction tis arbitrary: a)
  case (Cons ti tis)
  have "g (add_type a ti) = g a + g ti" using assms by (auto simp: folder_counter_def add_type_def)
  with Cons show ?case by simp
qed simp

theorem alltypesinfo_totals:
  assumes "folder_counter g h"
  shows "g (alltypesinfo fi) = (if invert_filetypelist fi then h fi - type_sum g fi else type_sum g fi)"
proof -
  have "g (fold (\<lambda>ti a. add_type a ti) (filetypes fi) (new_filetype_info '''')) = type_sum g fi"
    using assms by (simp add: fold_add_type [OF assms] type_sum_def) (auto simp: folder_counter_def new_filetype_info_def)
  moreover have "g (inverted_type fi a) = h fi - g a" for a
    using assms by (auto simp: folder_counter_def inverted_type_def)
  ultimately show ?thesis by (simp add: alltypesinfo_def Let_def)
qed

end
