(* ===== verification/AfscMain.thy ===== *)
theory AfscMain
  imports FolderProperties Archive Options Report
begin

text \<open>
  \<open>afsctool\<close> as a whole (src/afsctool.c, \<open>afsctool\<close>): the options, the loop over the arguments with
  what it does for a file, a folder and a pair of archive and file, the reports it prints, and the
  end where the queue is given to the workers. The variables the code shares between arguments
  (the index of the loop, \<open>fullpathdst\<close>, \<open>folderinfo\<close>) are part of the state. Blank lines and
  messages on the error output are left out.
\<close>

text \<open>
  \<open>ae_lstat\<close>: the status of a path, given the files made so far and the disk; \<open>ae_fts\<close>: the entries
  below a folder (\<open>None\<close>: it cannot be opened); \<open>ae_new_ino\<close>: the inode of a file made at a path;
  \<open>ae_info\<close>, \<open>ae_fi\<close>, \<open>ae_old\<close>: uninitialised memory (\<open>folderinfo\<close>, \<open>fi\<close>, a new entry).
\<close>

record afsc_env =
  ae_opt :: opt_env
  ae_rp :: report_env
  ae_getcwd :: "string option"
  ae_lstat :: "string \<Rightarrow> (string \<times> nat) list \<Rightarrow> disk \<Rightarrow> stat option"
  ae_fts :: "string \<Rightarrow> disk \<Rightarrow> fts_entry list option"
  ae_decomp :: "nat \<Rightarrow> dfenv"
  ae_archive :: "string \<Rightarrow> afsc_sys"
  ae_new_ino :: "string \<Rightarrow> nat"
  ae_info :: folder_info
  ae_fi :: folder_info
  ae_old :: int

text \<open>\<open>ar_dst\<close> is \<open>fullpathdst\<close>: NULL or an argument of the program.\<close>

record ('m, 'h) afsc_run =
  ar_walk :: "('m, 'h) walk"
  ar_lines :: "report_line list"
  ar_created :: "(string \<times> nat) list"
  ar_dst :: "string option"
  ar_free_dst :: bool
  ar_jobs_set :: bool

text \<open>How an argument ends: the loop goes on from an index, the program returns an error or exits, or
  it crashes or hangs.\<close>

datatype arg_end = Next_from int | Failed | Died

section \<open>The settings\<close>

definition sys_of :: "options \<Rightarrow> sys \<Rightarrow> sys" where
  "sys_of o' s = s\<lparr>sy_env := (\<lambda>i. (sy_env s i)\<lparr>exclusive_io := opt_exclusive_io o'\<rparr>)\<rparr>"

definition main_sys :: "afsc_env \<Rightarrow> options \<Rightarrow> sys" where
  "main_sys e o' = sys_of o' (rp_sys (ae_rp e))"

definition file_settings :: "options \<Rightarrow> folder_info \<Rightarrow> folder_info" where
  "file_settings o' fi = fi\<lparr>maxSize := opt_maxSize o', compressionlevel := opt_compressionlevel o',
     compressiontype := opt_compressiontype o', allowLargeBlocks := opt_allowLargeBlocks o',
     minSavings := opt_minSavings o', check_files := fileCheck o', backup_file := backupFile o'\<rparr>"

definition folder_settings :: "options \<Rightarrow> folder_info \<Rightarrow> folder_info" where
  "folder_settings o' fi = fi\<lparr>uncompressed_size := 0, uncompressed_size_rounded := 0, compressed_size := 0,
     compressed_size_rounded := 0, compattr_size := 0, total_size := 0, num_compressed := 0, num_files := 0,
     num_hard_link_files := 0, num_folders := 0, num_hard_link_folders := 0,
     print_info := (if opt_nJobs o' \<noteq> 0 then 0 else printVerbose o'),
     print_files := (opt_nJobs o' = 0 \<and> printDir o'), compress_files := applycomp o',
     check_files := fileCheck o', allowLargeBlocks := opt_allowLargeBlocks o',
     compressionlevel := opt_compressionlevel o', compressiontype := opt_compressiontype o',
     minSavings := opt_minSavings o', maxSize := opt_maxSize o', check_hard_links := hardLinkCheck o',
     filetypes := [], filetypessize := 0, invert_filetypelist := invert_list o', backup_file := backupFile o'\<rparr>"

text \<open>What the job information of the workers is set to.\<close>

definition afsc_job_info :: "folder_info \<Rightarrow> folder_info" where
  "afsc_job_info fi = fi\<lparr>num_files := 0, num_compressed := 0, uncompressed_size := 0,
     uncompressed_size_rounded := 0, compressed_size := 0, compressed_size_rounded := 0, total_size := 0\<rparr>"

section \<open>Paths\<close>

text \<open>\<open>None\<close>: the working directory is unknown, the program exits.\<close>

definition absolute_path :: "afsc_env \<Rightarrow> string \<Rightarrow> string option" where
  "absolute_path e arg =
     (if arg \<noteq> [] \<and> hd arg = CHR ''/'' then Some arg
      else map_option (\<lambda>cwd. cwd @ ''/'' @ arg) (ae_getcwd e))"

definition archiving :: "options \<Rightarrow> bool" where
  "archiving o' \<longleftrightarrow> createfile o' \<or> extractfile o'"

text \<open>The second path of a pair: a relative one is not stored.\<close>

definition set_destination :: "afsc_env \<Rightarrow> string \<Rightarrow> ('m, 'h) afsc_run \<Rightarrow> ('m, 'h) afsc_run option" where
  "set_destination e arg r =
     (if arg \<noteq> [] \<and> hd arg = CHR ''/'' then Some (r\<lparr>ar_dst := Some arg\<rparr>)
      else if ae_getcwd e = None then None
      else Some (r\<lparr>ar_free_dst := True\<rparr>))"

section \<open>Steps on the state\<close>

definition upd_walk :: "(('m, 'h) walk \<Rightarrow> ('m, 'h) walk) \<Rightarrow> ('m, 'h) afsc_run \<Rightarrow> ('m, 'h) afsc_run" where
  "upd_walk f r = r\<lparr>ar_walk := f (ar_walk r)\<rparr>"

definition say :: "report_line list \<Rightarrow> ('m, 'h) afsc_run \<Rightarrow> ('m, 'h) afsc_run" where
  "say ls r = r\<lparr>ar_lines := ar_lines r @ ls\<rparr>"

definition run_disk :: "('m, 'h) afsc_run \<Rightarrow> disk" where
  "run_disk r = wk_disk (ar_walk r)"

definition set_disk :: "disk \<Rightarrow> ('m, 'h) afsc_run \<Rightarrow> ('m, 'h) afsc_run" where
  "set_disk dk = upd_walk (\<lambda>w. w\<lparr>wk_disk := dk\<rparr>)"

definition run_lstat :: "afsc_env \<Rightarrow> string \<Rightarrow> ('m, 'h) afsc_run \<Rightarrow> stat option" where
  "run_lstat e path r = ae_lstat e path (ar_created r) (run_disk r)"

text \<open>\<open>printFileInfo\<close> on a file as it is.\<close>

definition report_file ::
    "afsc_env \<Rightarrow> options \<Rightarrow> string \<Rightarrow> stat \<Rightarrow> bool \<Rightarrow> bool \<Rightarrow> ('m, 'h) afsc_run \<Rightarrow> ('m, 'h) afsc_run" where
  "report_file e o' path st applied apfs r =
     say (printFileInfo (ae_rp e) (printVerbose o') path st (f_xattrs (dk_nodes (run_disk r) (st_ino st)))
       applied apfs) r"

text \<open>\<open>decompressFile\<close> with the report before it; the state is \<open>wk_stuck\<close> when it does not return.\<close>

definition decompress_run ::
    "afsc_env \<Rightarrow> options \<Rightarrow> string \<Rightarrow> stat \<Rightarrow> ('m, 'h) afsc_run \<Rightarrow> ('m, 'h) afsc_run" where
  "decompress_run e o' path st r =
     (let r1 = (if printVerbose o' > 1 then report_file e o' path st False (bool_of_int (- 1)) r else r);
          d = decompressFile (ae_decomp e (st_ino st)) (disk_world st (wk_info (ar_walk r1)) (run_disk r1));
          dk = run_disk r1
      in upd_walk (\<lambda>w. w\<lparr>wk_disk := dk\<lparr>dk_nodes := (dk_nodes dk)(st_ino st := wnode (snd d))\<rparr>,
                         wk_stuck := (fst d \<noteq> Returned)\<rparr>) r1)"

section \<open>A pair of a file and an archive\<close>

text \<open>A file made at the path of the destination.\<close>

definition make_file :: "afsc_env \<Rightarrow> string \<Rightarrow> fnode \<Rightarrow> ('m, 'h) afsc_run \<Rightarrow> ('m, 'h) afsc_run" where
  "make_file e path nd r =
     (let ino = ae_new_ino e path; dk = run_disk r
      in set_disk (dk\<lparr>dk_nodes := (dk_nodes dk)(ino := nd)\<rparr>) (r\<lparr>ar_created := (path, ino) # ar_created r\<rparr>))"

text \<open>Without a destination the calls that open it fail.\<close>

definition archive_sys :: "afsc_env \<Rightarrow> string \<Rightarrow> string option \<Rightarrow> afsc_sys" where
  "archive_sys e path dst =
     (let s = ae_archive e path in
      case dst of
        None \<Rightarrow> s\<lparr>af_fails := (\<lambda>x. x = Open_archive_out \<or> x = Open_dst \<or> af_fails s x)\<rparr>
      | Some _ \<Rightarrow> s)"

definition made :: "afsc_env \<Rightarrow> string option \<Rightarrow> fnode option \<Rightarrow> ('m, 'h) afsc_run \<Rightarrow> ('m, 'h) afsc_run" where
  "made e dst nd r = (case (dst, nd) of (Some p, Some x) \<Rightarrow> make_file e p x r | _ \<Rightarrow> r)"

text \<open>The result of a branch, and whether the end of the loop body is skipped (\<open>continue\<close>).\<close>

fun archive_end :: "arg_exit \<Rightarrow> int \<Rightarrow> arg_end \<times> bool" where
  "archive_end Fell_through i = (Next_from i, False)"
| "archive_end Continued i = (Next_from i, True)"
| "archive_end Returned_error i = (Failed, True)"

definition create_argument ::
    "afsc_env \<Rightarrow> options \<Rightarrow> string \<Rightarrow> stat \<Rightarrow> int \<Rightarrow> ('m, 'h) afsc_run \<Rightarrow> (arg_end \<times> bool) \<times> ('m, 'h) afsc_run" where
  "create_argument e o' path st i r =
     (let s = archive_sys e path (ar_dst r);
          c = create_archive s st (dk_nodes (run_disk r) (st_ino st));
          r1 = made e (ar_dst r) (map_option (\<lambda>bs. (new_file s)\<lparr>f_data := bs\<rparr>) (snd c)) r;
          r2 = (if fst c = Fell_through \<and> decomp o' then decompress_run e o' path st r1 else r1)
      in (archive_end (fst c) i, r2))"

definition extract_argument ::
    "afsc_env \<Rightarrow> options \<Rightarrow> string \<Rightarrow> stat \<Rightarrow> int \<Rightarrow> ('m, 'h) afsc_run \<Rightarrow> (arg_end \<times> bool) \<times> ('m, 'h) afsc_run" where
  "extract_argument e o' path st i r =
     (if st_mode st AND S_IFDIR \<noteq> 0 then ((Failed, True), r)
      else
        let c = extract_archive (archive_sys e path (ar_dst r)) (f_data (dk_nodes (run_disk r) (st_ino st)));
            r1 = made e (ar_dst r) (snd c) r
        in if fst c = Fell_through \<and> decomp o' then
             (case ar_dst r of
                None \<Rightarrow> (archive_end Continued i, r1)
              | Some dst \<Rightarrow>
                  (case run_lstat e dst r1 of
                     None \<Rightarrow> (archive_end Continued i, r1)
                   | Some dst_st \<Rightarrow> (archive_end Fell_through i, decompress_run e o' dst dst_st r1)))
           else (archive_end (fst c) i, r1))"

section \<open>A file\<close>

text \<open>Compressing it, at once or by queueing it; the settings are a variable of their own that is
  only partly set. Afterwards its status is read again.\<close>

definition compress_file_argument ::
    "afsc_env \<Rightarrow> options \<Rightarrow> 'm name_ops \<Rightarrow> string \<Rightarrow> stat \<Rightarrow> ('m, 'h) afsc_run \<Rightarrow> stat \<times> ('m, 'h) afsc_run" where
  "compress_file_argument e o' nops path st r =
     (let s = main_sys e o'; fi = file_settings o' (ae_fi e); w = ar_walk r in
      case wk_pool w of
        Some p \<Rightarrow>
          (let c = fileIsCompressable (sy_env s (st_ino st)) st (opt_compressiontype o');
               p' = (if fst c then snd (addFileToParallelProcessor nops (ae_old e) path st (fi\<lparr>onAPFS := snd c\<rparr>) True p)
                     else p\<lparr>jobInfo := snd (process_file_info s path None st
                       (f_xattrs (dk_nodes (wk_disk w) (st_ino st))) (jobInfo p))\<rparr>)
           in (st, r\<lparr>ar_walk := w\<lparr>wk_pool := Some p'\<rparr>\<rparr>))
      | None \<Rightarrow>
          (let c = compress_on_disk s False st fi (wk_disk w)
           in (fst (snd c),
               r\<lparr>ar_walk := w\<lparr>wk_disk := snd (snd (snd c)), wk_stuck := (fst c \<noteq> Returned)\<rparr>\<rparr>)))"

definition compress_then_stat ::
    "afsc_env \<Rightarrow> options \<Rightarrow> 'm name_ops \<Rightarrow> string \<Rightarrow> stat \<Rightarrow> ('m, 'h) afsc_run \<Rightarrow> stat \<times> ('m, 'h) afsc_run" where
  "compress_then_stat e o' nops path st r =
     (let c = compress_file_argument e o' nops path st r
      in (case run_lstat e path (snd c) of None \<Rightarrow> fst c | Some st' \<Rightarrow> st', snd c))"

text \<open>What is printed about a file that is neither archived nor decompressed.\<close>

definition show_file ::
    "afsc_env \<Rightarrow> options \<Rightarrow> string \<Rightarrow> stat \<Rightarrow> ('m, 'h) afsc_run \<Rightarrow> ('m, 'h) afsc_run" where
  "show_file e o' path st r =
     (if printVerbose o' = 0 then
        say (if applycomp o' then
               (if \<not> is_flagged (st_flags st) then [Name ''Unable to compress file'' path] else [])
             else [Name (if is_flagged (st_flags st) then ''is HFS+/APFS compressed'' else ''is not HFS+/APFS compressed'') path]) r
      else if 0 < printVerbose o' then
        report_file e o' path st (applycomp o')
          (snd (fileIsCompressable (sy_env (main_sys e o') (st_ino st)) st (opt_compressiontype o'))) r
      else r)"

section \<open>A folder\<close>

text \<open>Decompressing what is below it. The loop uses the index of the arguments for the list of types.\<close>

definition decompress_entry ::
    "afsc_env \<Rightarrow> options \<Rightarrow> fts_entry \<Rightarrow> ('m, 'h) afsc_run \<Rightarrow> ('m, 'h) afsc_run" where
  "decompress_entry e o' en r =
     (let wanted = (case opt_filetypeslist o' of
            None \<Rightarrow> True
          | Some ts \<Rightarrow>
              (let ftype = (case sy_getFileType (rp_sys (ae_rp e)) (fts_path en) of None \<Rightarrow> ''UNDEFINED'' | Some t \<Rightarrow> t);
                   found = type_matches ftype (folder_file_extension (fts_path en)) ts
               in if invert_list o' then \<not> found else found))
      in if st_mode (fts_statp en) AND S_IFDIR = 0 \<and> wanted
         then decompress_run e o' (fts_path en) (fts_statp en) r else r)"

fun decompress_entries ::
    "afsc_env \<Rightarrow> options \<Rightarrow> fts_entry list \<Rightarrow> ('m, 'h) afsc_run \<Rightarrow> ('m, 'h) afsc_run" where
  "decompress_entries e o' [] r = r"
| "decompress_entries e o' (en # es) r =
     (let r1 = decompress_entry e o' en r
      in if wk_stuck (ar_walk r1) then r1 else decompress_entries e o' es r1)"

definition decompress_folder ::
    "afsc_env \<Rightarrow> options \<Rightarrow> string \<Rightarrow> int \<Rightarrow> ('m, 'h) afsc_run \<Rightarrow> (arg_end \<times> bool) \<times> ('m, 'h) afsc_run" where
  "decompress_folder e o' path i r =
     (case ae_fts e path (run_disk r) of
        None \<Rightarrow> ((Next_from i, True), r)
      | Some es \<Rightarrow>
          ((Next_from (if es = [] then i
              else (case opt_filetypeslist o' of None \<Rightarrow> i | Some ts \<Rightarrow> int (length ts))), False),
           decompress_entries e o' es r))"

text \<open>Walking it. The report of the types uses the index of the arguments too.\<close>

definition show_folder ::
    "afsc_env \<Rightarrow> options \<Rightarrow> string \<Rightarrow> ('m, 'h) afsc_run \<Rightarrow> ('m, 'h) afsc_run" where
  "show_folder e o' path r =
     say (folder_report (ae_rp e) (dk_skipped (run_disk r)) (printVerbose o') (opt_nJobs o') (printDir o')
       (hardLinkCheck o') (applycomp o') (wk_pool (ar_walk r) \<noteq> None) path (wk_info (ar_walk r))) r"

definition index_after_report :: "options \<Rightarrow> folder_info \<Rightarrow> int \<Rightarrow> int" where
  "index_after_report o' fi i =
     (if (0 < printVerbose o' \<or> \<not> printDir o') \<and> filetypes fi \<noteq> [] then int (length (filetypes fi)) else i)"

definition share_jobs :: "options \<Rightarrow> ('m, 'h) afsc_run \<Rightarrow> ('m, 'h) afsc_run" where
  "share_jobs o' r =
     (case wk_pool (ar_walk r) of
        None \<Rightarrow> r
      | Some p \<Rightarrow>
          if 0 < opt_nJobs o' then
            upd_walk (\<lambda>w. w\<lparr>wk_pool := Some (p\<lparr>jobInfo := afsc_job_info (wk_info w)\<rparr>)\<rparr>) (r\<lparr>ar_jobs_set := True\<rparr>)
          else r)"

definition walk_folder ::
    "afsc_env \<Rightarrow> options \<Rightarrow> 'h link_ops \<Rightarrow> 'm name_ops \<Rightarrow> string \<Rightarrow> int \<Rightarrow> ('m, 'h) afsc_run
     \<Rightarrow> (arg_end \<times> bool) \<times> ('m, 'h) afsc_run" where
  "walk_folder e o' lops nops path i r =
     (case ae_fts e path (run_disk r) of
        None \<Rightarrow> ((Next_from i, True), r)
      | Some es \<Rightarrow>
          let w = ar_walk r;
              w1 = process_folder (main_sys e o') lops nops (ae_old e) es (w\<lparr>wk_info := folder_settings o' (wk_info w)\<rparr>);
              fi = (wk_info w1)\<lparr>num_folders := num_folders (wk_info w1) - 1\<rparr>;
              r1 = r\<lparr>ar_walk := w1\<lparr>wk_info := fi\<rparr>\<rparr>
          in if wk_stuck w1 then ((Died, True), r\<lparr>ar_walk := w1\<rparr>)
             else ((Next_from (index_after_report o' fi i), False), share_jobs o' (show_folder e o' path r1)))"

section \<open>An argument\<close>

definition handle_argument ::
    "afsc_env \<Rightarrow> options \<Rightarrow> 'h link_ops \<Rightarrow> 'm name_ops \<Rightarrow> string \<Rightarrow> stat \<Rightarrow> int \<Rightarrow> ('m, 'h) afsc_run
     \<Rightarrow> (arg_end \<times> bool) \<times> ('m, 'h) afsc_run" where
  "handle_argument e o' lops nops path st i r =
     (let argIsFile = (st_mode st AND S_IFDIR = 0) in
      if createfile o' then create_argument e o' path st i r
      else if extractfile o' then extract_argument e o' path st i r
      else if decomp o' \<and> argIsFile then ((Next_from i, False), decompress_run e o' path st r)
      else if decomp o' then decompress_folder e o' path i r
      else if argIsFile then ((Next_from i, False), show_file e o' path st r)
      else walk_folder e o' lops nops path i r)"

text \<open>The end of the loop body frees \<open>fullpathdst\<close> where it was to be allocated: it never is, so an
  argument of the program is freed, which \<open>free\<close> does not survive.\<close>

definition end_of_argument :: "arg_end \<times> bool \<Rightarrow> ('m, 'h) afsc_run \<Rightarrow> arg_end \<times> ('m, 'h) afsc_run" where
  "end_of_argument x r =
     (if wk_stuck (ar_walk r) then (Died, r)
      else if fst x = Failed \<or> snd x \<or> \<not> ar_free_dst r then (fst x, r)
      else if ar_dst r \<noteq> None then (Died, r)
      else (fst x, r\<lparr>ar_free_dst := False\<rparr>))"

definition afsc_argument ::
    "afsc_env \<Rightarrow> options \<Rightarrow> 'h link_ops \<Rightarrow> 'm name_ops \<Rightarrow> string list \<Rightarrow> int \<Rightarrow> ('m, 'h) afsc_run
     \<Rightarrow> arg_end \<times> ('m, 'h) afsc_run" where
  "afsc_argument e o' lops nops argv i r =
     (case (if archiving o' then set_destination e (argv ! nat (i + 1)) r else Some r) of
        None \<Rightarrow> (Failed, r)
      | Some r1 \<Rightarrow>
          (case absolute_path e (argv ! nat i) of
             None \<Rightarrow> (Failed, r1)
           | Some path \<Rightarrow>
               (case run_lstat e path r1 of
                  None \<Rightarrow> (Next_from i, r1)
                | Some st \<Rightarrow>
                    if archiving o' \<and> (case ar_dst r1 of None \<Rightarrow> False | Some dst \<Rightarrow> run_lstat e dst r1 \<noteq> None)
                    then (Next_from i, r1)
                    else
                      let c = (if applycomp o' \<and> st_mode st AND S_IFDIR = 0
                               then compress_then_stat e o' nops path st r1 else (st, r1))
                      in if wk_stuck (ar_walk (snd c)) then (Died, snd c)
                         else
                           let h = handle_argument e o' lops nops path (fst c) i (snd c)
                           in end_of_argument (fst h) (snd h))))"

section \<open>The loop and the end\<close>

text \<open>\<open>fuel\<close> bounds the number of turns; \<open>None\<close>: the loop is still going on.\<close>

fun afsc_loop ::
    "afsc_env \<Rightarrow> options \<Rightarrow> 'h link_ops \<Rightarrow> 'm name_ops \<Rightarrow> string list \<Rightarrow> nat \<Rightarrow> int \<Rightarrow> ('m, 'h) afsc_run
     \<Rightarrow> (arg_end \<times> ('m, 'h) afsc_run) option" where
  "afsc_loop e o' lops nops argv 0 i r = None"
| "afsc_loop e o' lops nops argv (Suc fuel) i r =
     (if i < (if archiving o' then int (length argv) - 1 else int (length argv)) then
        (case afsc_argument e o' lops nops argv i r of
           (Next_from i', r') \<Rightarrow>
             afsc_loop e o' lops nops argv fuel (i' + (if archiving o' then 2 else 1)) r'
         | x \<Rightarrow> Some x)
      else Some (Next_from i, r))"

definition prepare_jobs ::
    "(file_entry list \<Rightarrow> file_entry list) \<Rightarrow> options \<Rightarrow> bool \<Rightarrow> folder_info \<Rightarrow> 'm pool \<Rightarrow> 'm pool" where
  "prepare_jobs std_sort o' jobs_set fi p =
     (let p1 = (if 0 < opt_nJobs o' \<and> \<not> jobs_set then p\<lparr>jobInfo := afsc_job_info fi\<rparr> else p);
          p2 = (if sortQueue o' then snd (sortFilesInParallelProcessorBySize std_sort p1) else p1);
          nFiles = int (filesInParallelProcessor p2)
      in if nFiles \<noteq> 0 \<and> nFiles < opt_nJobs o'
         then snd (setJobs True nFiles (if nFiles < opt_nReverse o' then nFiles else opt_nReverse o') p2)
         else p2)"

text \<open>\<open>A_workers\<close>: the queue is not empty and the workers are started.\<close>

datatype ('r, 'p) afsc_result = A_usage | A_failed 'r | A_died 'r | A_workers 'p 'r | A_done 'r

definition afsc_start ::
    "afsc_env \<Rightarrow> options \<Rightarrow> 'h link_ops \<Rightarrow> 'm name_ops \<Rightarrow> disk \<Rightarrow> ('m, 'h) afsc_run" where
  "afsc_start e o' lops nops dk =
     \<lparr>ar_walk = \<lparr>wk_info = (ae_info e)\<lparr>filetypeslist := opt_filetypeslist o'\<rparr>, wk_links = link_init lops,
        wk_disk = dk,
        wk_pool = (if 0 < opt_nJobs o'
                   then Some (createParallelProcessor nops (opt_nJobs o') (opt_nReverse o') (printVerbose o'))
                   else None),
        wk_stuck = False\<rparr>,
      ar_lines = [], ar_created = [], ar_dst = None, ar_free_dst = False, ar_jobs_set = False\<rparr>"

definition afsc_finish ::
    "(file_entry list \<Rightarrow> file_entry list) \<Rightarrow> options \<Rightarrow> ('m, 'h) afsc_run
     \<Rightarrow> (('m, 'h) afsc_run, 'm pool) afsc_result" where
  "afsc_finish std_sort o' r =
     (case wk_pool (ar_walk r) of
        None \<Rightarrow> A_done r
      | Some p \<Rightarrow>
          (let p' = prepare_jobs std_sort o' (ar_jobs_set r) (wk_info (ar_walk r)) p
           in if itemList p' \<noteq> [] then A_workers p' r else A_done r))"

text \<open>What is printed when the workers are done.\<close>

definition report_jobs :: "afsc_env \<Rightarrow> options \<Rightarrow> 'm machine \<Rightarrow> report_line list" where
  "report_jobs e o' m =
     (if 0 < printVerbose o' \<and> 0 < num_files (jobInfo (mc_pool m))
      then printFolderInfo (ae_rp e) (dk_skipped (mc_disk m)) True (hardLinkCheck o') (jobInfo (mc_pool m))
      else [])"

text \<open>The name of the program is the first argument, and the arguments that remain end the list.\<close>

definition afsctool ::
    "afsc_env \<Rightarrow> 'h link_ops \<Rightarrow> 'm name_ops \<Rightarrow> (file_entry list \<Rightarrow> file_entry list) \<Rightarrow> nat \<Rightarrow> string list \<Rightarrow> disk
     \<Rightarrow> (('m, 'h) afsc_run, 'm pool) afsc_result option" where
  "afsctool e lops nops std_sort fuel argv dk =
     (case parse_command_line (ae_opt e) (tl argv) of
        None \<Rightarrow> Some A_usage
      | Some (o', args) \<Rightarrow>
          map_option (\<lambda>(x, r).
              case x of Failed \<Rightarrow> A_failed r | Died \<Rightarrow> A_died r | Next_from _ \<Rightarrow> afsc_finish std_sort o' r)
            (afsc_loop e o' lops nops argv fuel (int (length argv) - int (length args)) (afsc_start e o' lops nops dk)))"

end
