(* ===== verification/AfscMainProperties.thy ===== *)
theory AfscMainProperties
  imports AfscMain PoolProperties
begin

text \<open>
  Runs of \<open>afsctool\<close> from the command line to the end: a compressing run without workers changes no
  file as its readers see it; without -t the loop over the arguments comes to its end; with -d and
  -t on a folder it can go on for ever; with -j the workers are given each file once.
\<close>

section \<open>What the steps keep, the loops keep\<close>

lemma afsc_walk_loop_keeps:
  assumes "P w" and "\<And>e w. e \<in> set es \<Longrightarrow> P w \<Longrightarrow> P (fst (visit_entry s lops nops old vs e w))"
  shows "P (walk_loop s lops nops old vs es w)"
  using assms
proof (induction "length es" arbitrary: es w rule: less_induct)
  case less
  show ?case
  proof (cases es)
    case Nil
    then show ?thesis using less.prems(1) by simp
  next
    case (Cons e rest)
    define r where "r = visit_entry s lops nops old vs e w"
    define rest' where "rest' = (if snd r then skip_below e rest else rest)"
    have P: "P (fst r)" unfolding r_def by (rule less.prems(2)) (use less.prems(1) Cons in simp_all)
    have sub: "length rest' < length es" "set rest' \<subseteq> set es"
      using length_skip_below [of e rest] by (auto simp: rest'_def Cons skip_below_def dest: set_dropWhileD)
    have "P (walk_loop s lops nops old vs rest' (fst r))"
      by (rule less.hyps [OF sub(1) P]) (use less.prems(2) sub(2) in blast)
    then show ?thesis using P by (simp add: Cons Let_def r_def rest'_def)
  qed
qed

lemma afsc_folder_keeps:
  assumes "P w" and "\<And>e w vs. e \<in> set es \<Longrightarrow> P w \<Longrightarrow> P (fst (visit_entry s lops nops old vs e w))"
    and "\<And>w l. P w \<Longrightarrow> P (w\<lparr>wk_links := l\<rparr>)"
  shows "P (process_folder s lops nops old es w)"
proof (cases es)
  case Nil
  then show ?thesis using assms(1) by (simp add: process_folder_def)
next
  case (Cons e rest)
  have "P (walk_loop s lops nops old vs es w)" for vs
    by (rule afsc_walk_loop_keeps [where P = P, OF assms(1) assms(2)])
  then show ?thesis using assms(3) by (simp add: Cons process_folder_def Let_def del: walk_loop.simps)
qed

lemma afsc_loop_keeps:
  assumes "\<And>i r. P r \<Longrightarrow> P (snd (afsc_argument e o' lops nops argv i r))"
    and "P r" and "afsc_loop e o' lops nops argv fuel i r = Some (x, r')"
  shows "P r'"
  using assms(2,3)
proof (induction fuel arbitrary: i r)
  case (Suc fuel)
  obtain y r1 where a: "afsc_argument e o' lops nops argv i r = (y, r1)"
    by (cases "afsc_argument e o' lops nops argv i r")
  have "P r1" using assms(1) [OF Suc.prems(1), of i] by (simp add: a)
  then show ?case
    using Suc.prems Suc.IH by (auto simp: a split: if_splits arg_end.splits)
qed simp

text \<open>What the parts of an argument keep, the argument keeps.\<close>

lemma afsc_argument_keeps:
  assumes "P r"
    and compress: "\<And>path st r. path \<noteq> [] \<Longrightarrow> run_lstat e path r = Some st \<Longrightarrow> P r \<Longrightarrow>
      P (snd (compress_file_argument e o' nops path st r))"
    and say: "\<And>r ls. P r \<Longrightarrow> P (say ls r)"
    and walk: "\<And>path es r w1. ae_fts e path (run_disk r) = Some es \<Longrightarrow> P r \<Longrightarrow>
      w1 = process_folder (main_sys e o') lops nops (ae_old e) es
        ((ar_walk r)\<lparr>wk_info := folder_settings o' (wk_info (ar_walk r))\<rparr>) \<Longrightarrow>
      P (r\<lparr>ar_walk := w1\<rparr>) \<and> (\<forall>k. P (r\<lparr>ar_walk := w1\<lparr>wk_info := (wk_info w1)\<lparr>num_folders := k\<rparr>\<rparr>\<rparr>))"
    and share: "\<And>r. P r \<Longrightarrow> P (share_jobs o' r)"
    and free: "\<And>r b. P r \<Longrightarrow> P (r\<lparr>ar_free_dst := b\<rparr>)"
    and dst: "\<And>r d. P r \<Longrightarrow> P (r\<lparr>ar_dst := d\<rparr>)"
    and decompress: "\<And>path st r. archive_or_decomp o' \<Longrightarrow> P r \<Longrightarrow> P (decompress_run e o' path st r)"
    and make: "\<And>path nd r. archive_or_decomp o' \<Longrightarrow> P r \<Longrightarrow> P (make_file e path nd r)"
  shows "P (snd (afsc_argument e o' lops nops argv i r))"
proof -
  have made: "archive_or_decomp o' \<Longrightarrow> P r \<Longrightarrow> P (made e d nd r)" for d nd r
    by (auto simp: made_def make split: option.splits)
  have fin: "P r \<Longrightarrow> P (snd (end_of_argument x r))" for x r
    by (simp add: end_of_argument_def free)
  have entries: "archive_or_decomp o' \<Longrightarrow> P r \<Longrightarrow> P (decompress_entries e o' es r)" for es r
    by (induction es arbitrary: r) (auto simp: decompress_entry_def Let_def decompress)
  have folder: "P r \<Longrightarrow> P (snd (walk_folder e o' lops nops path i r))" for path r
  proof (cases "ae_fts e path (run_disk r)")
    case (Some es)
    moreover assume "P r"
    note walk [OF Some this refl]
    ultimately show ?thesis by (auto simp: walk_folder_def Let_def show_folder_def intro!: share say)
  qed (simp add: walk_folder_def)
  have shown: "P r \<Longrightarrow> P (show_file e o' path st r)" for path st r
    by (simp add: show_file_def report_file_def say)
  have created: "createfile o' \<Longrightarrow> P r \<Longrightarrow> P (snd (create_argument e o' path st i r))" for path st r
    by (simp add: create_argument_def Let_def made decompress archive_or_decomp_def)
  have extracted: "extractfile o' \<Longrightarrow> P r \<Longrightarrow> P (snd (extract_argument e o' path st i r))" for path st r
    by (simp add: extract_argument_def Let_def made decompress archive_or_decomp_def split: option.split)
  have opened: "decomp o' \<Longrightarrow> P r \<Longrightarrow> P (snd (decompress_folder e o' path i r))" for path r
    by (simp add: decompress_folder_def entries archive_or_decomp_def split: option.split)
  have handled: "P r \<Longrightarrow> P (snd (handle_argument e o' lops nops path st i r))" for path st r
    by (simp add: handle_argument_def Let_def created extracted opened shown folder decompress archive_or_decomp_def)
  show ?thesis
  proof (cases "if archiving o' then set_destination e (argv ! nat (i + 1)) r else Some r")
    case None
    then show ?thesis using assms(1) by (simp add: afsc_argument_def)
  next
    case (Some r1)
    then have r1: "P r1" using assms(1) by (auto simp: set_destination_def intro: dst free split: if_splits)
    show ?thesis
    proof (cases "absolute_path e (argv ! nat i)")
      case None
      then show ?thesis using r1 Some by (simp add: afsc_argument_def)
    next
      case path: (Some path)
      then have ne: "path \<noteq> []" by (auto simp: absolute_path_def split: if_splits)
      show ?thesis
      proof (cases "run_lstat e path r1")
        case None
        then show ?thesis using r1 Some path by (simp add: afsc_argument_def)
      next
        case st: (Some st)
        define c where "c = (if applycomp o' \<and> st_mode st AND S_IFDIR = 0
          then compress_then_stat e o' nops path st r1 else (st, r1))"
        have c: "P (snd c)" using compress [OF ne st r1] r1 by (auto simp: c_def compress_then_stat_def Let_def)
        then show ?thesis
          unfolding afsc_argument_def Some option.case path st c_def [symmetric] Let_def
          using r1 handled fin by simp
      qed
    qed
  qed
qed

section \<open>The loop returns where no types are given\<close>

lemma keeps_info [simp]:
  "wk_info (ar_walk (say ls r)) = wk_info (ar_walk r)"
  "wk_info (ar_walk (set_disk dk r)) = wk_info (ar_walk r)"
  "wk_info (ar_walk (make_file e path nd r)) = wk_info (ar_walk r)"
  "wk_info (ar_walk (made e dst onode r)) = wk_info (ar_walk r)"
  "wk_info (ar_walk (report_file e o' path st applied apfs r)) = wk_info (ar_walk r)"
  "wk_info (ar_walk (decompress_run e o' path st r)) = wk_info (ar_walk r)"
  "wk_info (ar_walk (show_file e o' path st r)) = wk_info (ar_walk r)"
  "wk_info (ar_walk (show_folder e o' path r)) = wk_info (ar_walk r)"
  "wk_info (ar_walk (share_jobs o' r)) = wk_info (ar_walk r)"
  by (simp_all add: say_def set_disk_def upd_walk_def make_file_def made_def report_file_def decompress_run_def
      show_file_def show_folder_def share_jobs_def Let_def split: option.splits)

lemma decompress_entries_info [simp]:
  "wk_info (ar_walk (decompress_entries e o' es r)) = wk_info (ar_walk r)"
proof (induction es arbitrary: r)
  case (Cons en es)
  have "wk_info (ar_walk (decompress_entry e o' en r)) = wk_info (ar_walk r)"
    by (simp add: decompress_entry_def Let_def)
  with Cons show ?case by (simp add: Let_def)
qed simp

lemma compress_info [simp]:
  "wk_info (ar_walk (snd (compress_then_stat e o' nops path st r))) = wk_info (ar_walk r)"
  by (simp add: compress_then_stat_def compress_file_argument_def Let_def split: option.splits)

definition untyped :: "folder_info \<Rightarrow> bool" where
  "untyped fi \<longleftrightarrow> filetypeslist fi = None \<and> filetypes fi = []"

lemma untyped_folder: "untyped (wk_info w) \<Longrightarrow> untyped (wk_info (process_folder s lops nops old es w))"
proof (rule afsc_folder_keeps [where P = "\<lambda>w. untyped (wk_info w)"])
  fix e and w :: "('a, 'b) walk" and vs
  assume u: "untyped (wk_info w)"
  have p: "untyped (snd (process_file_info s path ftype st xs fi))" if "untyped fi" for path ftype st xs fi
    using that by (auto simp: untyped_def process_file_info_def find_type_def type_requested_def upd_type_def
        charge_folder_def Let_def split: option.splits)
  have c: "untyped (wk_info (compress_entry s nops old e w))" if "untyped (wk_info w)" for w :: "('a, 'b) walk"
    using that by (auto simp: untyped_def compress_entry_def compress_on_disk_def Let_def split: option.splits)
  have "walk_type_found (walk_filetype s e (wk_info w)) e (wk_info w) = False"
    using u by (simp add: untyped_def walk_type_found_def split: option.splits)
  moreover have "untyped (wk_info (w\<lparr>wk_links := l\<rparr>))" for l using u by simp
  ultimately show "untyped (wk_info (fst (visit_entry s lops nops old vs e w)))"
    using u c p by (auto simp: visit_entry_def visit_folder_def visit_file_def upd_type_def Let_def split: option.splits)
      (auto simp: untyped_def)
qed simp_all

lemma untyped_argument:
  assumes "opt_filetypeslist o' = None" and "filetypeslist (wk_info (ar_walk r)) = None"
    and "afsc_argument e o' lops nops argv i r = (x, r')"
  shows "filetypeslist (wk_info (ar_walk r')) = None \<and> (\<forall>i'. x = Next_from i' \<longrightarrow> i' = i)"
proof -
  have walk: "(\<forall>i' b. fst (walk_folder e o' lops nops path i r) = (Next_from i', b) \<longrightarrow> i' = i)
      \<and> filetypeslist (wk_info (ar_walk (snd (walk_folder e o' lops nops path i r)))) = None"
    if "filetypeslist (wk_info (ar_walk r)) = None" for path r
  proof (cases "ae_fts e path (run_disk r)")
    case None
    then show ?thesis using that by (simp add: walk_folder_def)
  next
    case (Some es)
    define w where "w = (ar_walk r)\<lparr>wk_info := folder_settings o' (wk_info (ar_walk r))\<rparr>"
    define w1 where "w1 = process_folder (main_sys e o') lops nops (ae_old e) es w"
    have "untyped (wk_info w)" using that by (simp add: w_def untyped_def folder_settings_def)
    then have "untyped (wk_info w1)" unfolding w1_def by (rule untyped_folder)
    then show ?thesis
      by (auto simp: walk_folder_def Some Let_def w_def [symmetric] w1_def [symmetric] untyped_def
          index_after_report_def)
  qed
  have "fst (archive_end ex i) = Next_from i' \<Longrightarrow> i' = i" for ex i' by (cases ex) auto
  then have "(\<forall>i'. fst (fst (handle_argument e o' lops nops path st i r)) = Next_from i' \<longrightarrow> i' = i)
      \<and> filetypeslist (wk_info (ar_walk (snd (handle_argument e o' lops nops path st i r)))) = None"
    if "filetypeslist (wk_info (ar_walk r)) = None" for path st r
    using walk [OF that, of path] that assms(1)
    by (auto simp: handle_argument_def create_argument_def extract_argument_def decompress_folder_def Let_def
        split: option.splits if_splits) (metis prod.collapse)+
  note h = this
  have e: "(\<forall>i'. fst (end_of_argument y r) = Next_from i' \<longrightarrow> fst y = Next_from i')
      \<and> wk_info (ar_walk (snd (end_of_argument y r))) = wk_info (ar_walk r)" for y r
    by (auto simp: end_of_argument_def)
  have d: "wk_info (ar_walk r1) = wk_info (ar_walk r)" if "set_destination e arg r = Some r1" for arg r1
    using that by (auto simp: set_destination_def split: if_splits)
  show ?thesis
  proof (cases "if archiving o' then set_destination e (argv ! nat (i + 1)) r else Some r")
    case None
    then show ?thesis using assms(2,3) by (auto simp: afsc_argument_def)
  next
    case (Some r1)
    then have r1: "filetypeslist (wk_info (ar_walk r1)) = None" using assms(2) d by (auto split: if_splits)
    note start = assms(3) [unfolded afsc_argument_def Some option.case]
    show ?thesis
    proof (cases "absolute_path e (argv ! nat i)")
      case None
      then show ?thesis using start r1 by auto
    next
      case path: (Some path)
      show ?thesis
      proof (cases "run_lstat e path r1")
        case None
        then show ?thesis using start r1 path by auto
      next
        case st: (Some st)
        define c where "c = (if applycomp o' \<and> st_mode st AND S_IFDIR = 0
          then compress_then_stat e o' nops path st r1 else (st, r1))"
        have c: "filetypeslist (wk_info (ar_walk (snd c))) = None" using r1 by (simp add: c_def)
        define hd' where "hd' = handle_argument e o' lops nops path (fst c) i (snd c)"
        note hd' = h [OF c, of path "fst c", folded hd'_def]
        show ?thesis
          using start r1 c hd' e [of "fst hd'" "snd hd'"]
          unfolding path st option.case c_def [symmetric] Let_def hd'_def [symmetric]
          by (auto split: if_splits)
      qed
    qed
  qed
qed

text \<open>Without -t each turn takes the next argument, so that the loop ends with the arguments.\<close>

lemma loop_returns:
  assumes "opt_filetypeslist o' = None" and "filetypeslist (wk_info (ar_walk r)) = None"
    and "int (length argv) - i < int fuel" and "0 < fuel"
  shows "afsc_loop e o' lops nops argv fuel i r \<noteq> None"
  using assms(2-4)
proof (induction fuel arbitrary: i r)
  case (Suc fuel)
  obtain x r1 where a: "afsc_argument e o' lops nops argv i r = (x, r1)"
    by (cases "afsc_argument e o' lops nops argv i r")
  note u = untyped_argument [OF assms(1) Suc.prems(1) a]
  have "afsc_loop e o' lops nops argv fuel (i + k) r1 \<noteq> None" if "0 < k" "i < int (length argv)" for k
    by (rule Suc.IH) (use u Suc.prems(2) that in simp_all)
  then show ?case using u by (auto simp: a split: arg_end.splits)
qed simp

fun result_run :: "('r, 'p) afsc_result \<Rightarrow> 'r option" where
  "result_run A_usage = None"
| "result_run (A_failed r) = Some r"
| "result_run (A_died r) = Some r"
| "result_run (A_workers p r) = Some r"
| "result_run (A_done r) = Some r"

lemma afsctool_result:
  assumes "parse_command_line (ae_opt e) (tl argv) = Some (o', args)" and "opt_filetypeslist o' = None"
    and "length args < fuel"
  obtains res r where "afsctool e lops nops std_sort fuel argv dk = Some res" and "result_run res = Some r"
proof -
  have "afsc_loop e o' lops nops argv fuel (int (length argv) - int (length args)) (afsc_start e o' lops nops dk) \<noteq> None"
    by (rule loop_returns) (use assms in \<open>simp_all add: afsc_start_def\<close>)
  then obtain x r where l: "afsc_loop e o' lops nops argv fuel (int (length argv) - int (length args))
      (afsc_start e o' lops nops dk) = Some (x, r)" by auto
  have "result_run (case x of Failed \<Rightarrow> A_failed r | Died \<Rightarrow> A_died r | Next_from _ \<Rightarrow> afsc_finish std_sort o' r) = Some r"
    by (auto simp: afsc_finish_def Let_def split: arg_end.split option.split)
  with that show thesis by (simp add: afsctool_def assms(1) l)
qed


section \<open>A run that never returns\<close>

text \<open>With -t the index of the loop is overwritten by the length of the list of types when a folder
  is decompressed: where that is smaller than the index of the folder, the loop comes back to it.\<close>

lemma loop_goes_round:
  assumes turn: "\<And>i r. lo \<le> i \<Longrightarrow> i \<le> hi \<Longrightarrow> P r \<Longrightarrow> \<exists>r'. P r'
      \<and> afsc_argument e o' lops nops argv i r = (Next_from (if i = hi then lo - 1 else i), r')"
    and "\<not> archiving o'" and "hi < int (length argv)"
  shows "lo \<le> i \<Longrightarrow> i \<le> hi \<Longrightarrow> P r \<Longrightarrow> afsc_loop e o' lops nops argv fuel i r = None"
proof (induction fuel arbitrary: i r)
  case (Suc fuel)
  from turn [OF Suc.prems] obtain r' where r': "P r'"
    "afsc_argument e o' lops nops argv i r = (Next_from (if i = hi then lo - 1 else i), r')" by blast
  have "afsc_loop e o' lops nops argv fuel (if i = hi then lo else i + 1) r' = None"
    by (rule Suc.IH) (use Suc.prems r'(1) in auto)
  then show ?case using assms(2,3) Suc.prems r'(2) by (cases "i = hi") simp_all
qed simp

text \<open>A folder below which there is nothing but folders.\<close>

definition only_folders :: "fts_entry list \<Rightarrow> bool" where
  "only_folders es \<longleftrightarrow> es \<noteq> [] \<and> (\<forall>en\<in>set es. st_mode (fts_statp en) AND S_IFDIR \<noteq> 0)"

lemma decompress_only_folders: "only_folders es \<Longrightarrow> \<not> wk_stuck (ar_walk r) \<Longrightarrow> decompress_entries e o' es r = r"
proof -
  have "(\<forall>en\<in>set es. st_mode (fts_statp en) AND S_IFDIR \<noteq> 0) \<Longrightarrow> \<not> wk_stuck (ar_walk r) \<Longrightarrow>
      decompress_entries e o' es r = r"
    by (induction es) (simp_all add: decompress_entry_def Let_def)
  then show "only_folders es \<Longrightarrow> \<not> wk_stuck (ar_walk r) \<Longrightarrow> decompress_entries e o' es r = r"
    by (simp add: only_folders_def)
qed

lemma decompress_folder_argument:
  assumes "decomp o'" and "\<not> archiving o'" and "\<not> applycomp o'" and "opt_filetypeslist o' = Some ts"
    and "absolute_path e (argv ! nat i) = Some path" and "run_lstat e path r = Some st"
    and "st_mode st AND S_IFDIR \<noteq> 0" and "ae_fts e path (run_disk r) = Some es" and "only_folders es"
    and "\<not> wk_stuck (ar_walk r)" and "\<not> ar_free_dst r"
  shows "afsc_argument e o' lops nops argv i r = (Next_from (int (length ts)), r)"
  using assms decompress_only_folders [OF assms(9,10), of e o']
  by (simp add: afsc_argument_def handle_argument_def decompress_folder_def end_of_argument_def archiving_def
      only_folders_def Let_def)


text \<open>The arguments that remain end the command line.\<close>

lemma parse_letters_suffix: "parse_letters e cs args o' = Some (o1, rest) \<Longrightarrow> \<exists>pre. args = pre @ rest"
proof (induction e cs args o' rule: parse_letters.induct)
  case (2 e c rest' args o')
  have "args = [] @ args" by simp
  moreover have "args = take 1 args @ tl args" by (cases args) simp_all
  ultimately have "\<exists>pre. args = pre @ args" "\<exists>pre. args = pre @ tl args" by blast+
  with 2 show ?case by (auto split: letter_result.splits)
qed auto

lemma parse_options_suffix: "parse_options e args o' = Some (o1, rest) \<Longrightarrow> \<exists>pre. args = pre @ rest"
proof (induction e args o' rule: parse_options.induct)
  case (2 e arg args o')
  show ?case
  proof (cases "arg = [] \<or> hd arg \<noteq> CHR ''-''")
    case True
    with "2.prems" show ?thesis by auto
  next
    case False
    with "2.prems" obtain o2 args1 where p: "parse_letters e (tl arg) args o' = Some (o2, args1)"
      "parse_options e args1 o2 = Some (o1, rest)" by (auto split: option.splits)
    from "2.IH" [OF False p(1) refl p(2)] parse_letters_suffix [OF p(1)] show ?thesis
      by (metis Cons_eq_appendI append.assoc)
  qed
qed auto

lemma accepted_consistent:
  assumes "parse_command_line e argv = Some (o', args)"
  shows "consistent e o'"
proof -
  obtain o1 where p: "parse_options e argv default_options = Some (o1, args)"
    and o': "o' = (if 0 < opt_nJobs o1 \<and> opt_nReverse o1 \<noteq> 0 \<and> \<not> sortQueue o1
                   then o1\<lparr>opt_nReverse := 0\<rparr> else o1)"
    using assms by (auto simp: parse_command_line_def split: if_splits option.splits)
  from parse_options_consistent [OF default_consistent p] show ?thesis by (auto simp: o' consistent_defs)
qed

lemma remaining_argument:
  assumes "parse_command_line e (tl argv) = Some (o', arg # rest)"
  shows "argv ! (length argv - length (arg # rest)) = arg" and "length (arg # rest) < length argv"
proof -
  obtain o1 where p: "parse_options e (tl argv) default_options = Some (o1, arg # rest)"
    using assms by (auto simp: parse_command_line_def split: if_splits option.splits)
  obtain pre where "tl argv = pre @ arg # rest" using parse_options_suffix [OF p] by blast
  then have "argv = (hd argv # pre) @ arg # rest" by (cases argv) auto
  then show "argv ! (length argv - length (arg # rest)) = arg" "length (arg # rest) < length argv"
    by (metis add_diff_cancel_right' length_append nth_append_length,
        metis length_append length_greater_0_conv less_add_same_cancel2 list.distinct(1))
qed

text \<open>C12: \<open>afsctool -d -t\<close> on a folder does not return when the folder is reached at an index above
  the number of types and the words between the two name no files: the loop over the arguments
  goes back to them and to the folder again and again.\<close>

theorem afsctool_never_returns:
  assumes "parse_command_line (ae_opt e) (tl argv) = Some (o', arg # rest)"
    and "decomp o'" and "\<not> archiving o'" and "opt_filetypeslist o' = Some ts"
    and "hi = length argv - length (arg # rest)" and "length ts < hi"
    and "absolute_path e arg = Some path" and "ae_lstat e path [] dk = Some st" and "st_mode st AND S_IFDIR \<noteq> 0"
    and "ae_fts e path dk = Some es" and "only_folders es"
    and "\<forall>i. length ts < i \<and> i < hi \<longrightarrow>
      (\<exists>p. absolute_path e (argv ! i) = Some p \<and> ae_lstat e p [] dk = None)"
  shows "afsctool e lops nops std_sort fuel argv dk = None"
proof -
  note arg = remaining_argument [OF assms(1)]
  have c: "\<not> applycomp o'" using accepted_consistent [OF assms(1)] assms(2) by (auto simp: consistent_defs)
  define P :: "('a, 'b) afsc_run \<Rightarrow> bool" where
    "P r \<longleftrightarrow> ar_created r = [] \<and> run_disk r = dk \<and> \<not> wk_stuck (ar_walk r) \<and> \<not> ar_free_dst r" for r
  define lo where "lo = int (length ts) + 1"
  have "\<exists>r'. P r' \<and> afsc_argument e o' lops nops argv i r = (Next_from (if i = int hi then lo - 1 else i), r')"
    if i: "lo \<le> i" "i \<le> int hi" and P: "P r" for i r
  proof (cases "i = int hi")
    case True
    have "argv ! nat i = arg" using arg(1) assms(5) True by simp
    then have "afsc_argument e o' lops nops argv i r = (Next_from (int (length ts)), r)"
      by (intro decompress_folder_argument [OF assms(2,3) c assms(4), of e argv i path r st es])
        (use P assms(7-11) in \<open>simp_all add: P_def run_lstat_def\<close>)
    with True P show ?thesis by (auto simp: lo_def)
  next
    case False
    then have "length ts < nat i" "nat i < hi" using i by (auto simp: lo_def)
    with assms(12) obtain p where "absolute_path e (argv ! nat i) = Some p" "ae_lstat e p [] dk = None" by blast
    with P False show ?thesis
      by (auto simp: afsc_argument_def assms(3) run_lstat_def P_def)
  qed
  note round = loop_goes_round [OF this assms(3)]
  have "P (afsc_start e o' lops nops dk)" by (simp add: P_def afsc_start_def run_disk_def)
  then have "afsc_loop e o' lops nops argv fuel (int hi) (afsc_start e o' lops nops dk) = None"
    by (intro round) (use assms(5,6) arg(2) in \<open>auto simp: lo_def\<close>)
  then show ?thesis using arg(2) by (simp add: afsctool_def assms(1,5) of_nat_diff)
qed

section \<open>The contents of the files\<close>

lemma compress_on_disk_other:
  assumes "\<not> S_ISREG (st_mode st)" and "compress_on_disk s has_w st fi dk = (x, st', fi', dk')"
  shows "disk_reads s dk' = disk_reads s dk"
proof -
  define e where "e = (sy_env s (st_ino st))\<lparr>has_worker := has_w\<rparr>"
  define w where "w = disk_world st fi dk"
  have "\<not> fst (fileIsCompressable e (winfo w) (compressiontype fi))"
    using assms(1) by (simp add: fileIsCompressable_def Let_def w_def disk_world_def)
  then have "cf_entry e fi w = Inl (Returned, if quitRequested e then w
      else w\<lparr>wAPFS := snd (fileIsCompressable e (winfo w) (compressiontype fi))\<rparr>)"
    by (simp add: cf_entry_def Let_def)
  then have "wnode (snd (compressFile e (sy_codecs s) (sy_heap s) fi w)) = wnode w"
    by (simp add: compressFile_def cf_body_def Let_def)
  then have "dk_nodes dk' = dk_nodes dk"
    using assms(2) by (auto simp: compress_on_disk_def Let_def e_def w_def disk_world_def)
  then show ?thesis by (simp add: disk_reads_def fun_eq_iff)
qed

text \<open>
  The system as the run relies on it: while the contents of the files are those of \<open>dk\<close>, what
  \<open>lstat\<close> and \<open>fts_read\<close> say of a regular file agrees with it, no regular file is met twice in a
  folder, and the calls \<open>safe_env\<close> names work for every file.
\<close>

definition truthful :: "afsc_env \<Rightarrow> sys \<Rightarrow> disk \<Rightarrow> bool" where
  "truthful e s dk \<longleftrightarrow> (\<forall>ino. safe_env (sy_env s ino) (disk_reads s dk ino))
     \<and> (\<forall>d. disk_reads s d = disk_reads s dk \<longrightarrow>
          (\<forall>path cr st. ae_lstat e path cr d = Some st \<longrightarrow> S_ISREG (st_mode st) \<longrightarrow> agrees s st d)
        \<and> (\<forall>path es. ae_fts e path d = Some es \<longrightarrow>
             (\<forall>en \<in> set es. is_reg en \<longrightarrow> agrees s (fts_statp en) d)
             \<and> distinct (map (\<lambda>en. st_ino (fts_statp en)) (filter is_reg es))))"

lemma process_folder_serial:
  "wk_pool w = None \<Longrightarrow> wk_pool (process_folder s lops nops old es w) = None"
  by (rule afsc_folder_keeps [where P = "\<lambda>w. wk_pool w = None"])
    (auto simp: visit_entry_def visit_folder_def visit_file_def compress_entry_def Let_def split: option.splits)

lemma process_folder_reads:
  assumes "wk_pool w = None" and "check_files (wk_info w)"
    and "\<forall>e \<in> set es. is_reg e \<longrightarrow> entry_safe s (wk_disk w) e"
    and "distinct (map (\<lambda>e. st_ino (fts_statp e)) (filter is_reg es))"
  shows "disk_reads s (wk_disk (process_folder s lops nops old es w)) = disk_reads s (wk_disk w)"
  using walk_loop_reads [OF assms] by (cases es) (simp_all add: process_folder_def Let_def del: walk_loop.simps)

definition keeps_content :: "sys \<Rightarrow> disk \<Rightarrow> ('m, 'h) afsc_run \<Rightarrow> bool" where
  "keeps_content s dk r \<longleftrightarrow> wk_pool (ar_walk r) = None \<and> disk_reads s (run_disk r) = disk_reads s dk"

lemma argument_keeps_content:
  assumes "\<not> archive_or_decomp o'" and "fileCheck o'" and "truthful e (main_sys e o') dk"
    and "keeps_content (main_sys e o') dk r"
  shows "keeps_content (main_sys e o') dk (snd (afsc_argument e o' lops nops argv i r))"
proof -
  define s where "s = main_sys e o'"
  have t: "truthful e s dk" using assms(3) by (simp add: s_def)
  have "keeps_content s dk (snd (afsc_argument e o' lops nops argv i r))"
  proof (rule afsc_argument_keeps [where P = "keeps_content s dk"])
    show "keeps_content s dk r" using assms(4) by (simp add: s_def)
  next
    fix path st and r :: "('a, 'b) afsc_run"
    assume l: "run_lstat e path r = Some st" and k: "keeps_content s dk r"
    define fi where "fi = file_settings o' (ae_fi e)"
    obtain x st' fi' dk' where c: "compress_on_disk s False st fi (run_disk r) = (x, st', fi', dk')"
      by (metis prod_cases4)
    have chk: "check_files fi" using assms(2) by (simp add: fi_def file_settings_def)
    have "disk_reads s dk' = disk_reads s (run_disk r)"
    proof (cases "S_ISREG (st_mode st)")
      case True
      have "agrees s st (run_disk r)" "safe_env (sy_env s (st_ino st)) (disk_reads s (run_disk r) (st_ino st))"
        using t k l True by (auto simp: truthful_def keeps_content_def run_lstat_def)
      then show ?thesis by (rule compress_on_disk_reads [OF chk _ _ c])
    qed (rule compress_on_disk_other [OF _ c])
    then show "keeps_content s dk (snd (compress_file_argument e o' nops path st r))"
      using k c by (simp add: compress_file_argument_def keeps_content_def s_def [symmetric] fi_def [symmetric] run_disk_def)
  next
    fix path es w1 and r :: "('a, 'b) afsc_run"
    assume f: "ae_fts e path (run_disk r) = Some es" and k: "keeps_content s dk r"
      and w1: "w1 = process_folder (main_sys e o') lops nops (ae_old e) es
        ((ar_walk r)\<lparr>wk_info := folder_settings o' (wk_info (ar_walk r))\<rparr>)"
    define w where "w = (ar_walk r)\<lparr>wk_info := folder_settings o' (wk_info (ar_walk r))\<rparr>"
    have w: "wk_pool w = None" "check_files (wk_info w)" "wk_disk w = run_disk r"
      using k assms(2) by (simp_all add: w_def keeps_content_def folder_settings_def run_disk_def)
    have e: "\<forall>en \<in> set es. is_reg en \<longrightarrow> entry_safe s (wk_disk w) en"
      "distinct (map (\<lambda>e. st_ino (fts_statp e)) (filter is_reg es))"
      using t k f by (auto simp: truthful_def keeps_content_def w(3) entry_safe_def)
    have "wk_pool w1 = None" "disk_reads s (wk_disk w1) = disk_reads s dk"
      using process_folder_serial [OF w(1)] process_folder_reads [OF w(1,2) e] k
      by (simp_all add: w1 w_def [symmetric] s_def [symmetric] w(3) keeps_content_def)
    then show "keeps_content s dk (r\<lparr>ar_walk := w1\<rparr>)
      \<and> (\<forall>k. keeps_content s dk (r\<lparr>ar_walk := w1\<lparr>wk_info := (wk_info w1)\<lparr>num_folders := k\<rparr>\<rparr>\<rparr>))"
      by (simp add: keeps_content_def run_disk_def)
  qed (use assms(1) in \<open>simp_all add: keeps_content_def run_disk_def say_def share_jobs_def\<close>)
  then show ?thesis by (simp add: s_def)
qed


section \<open>The queue given to the workers\<close>

definition filled :: "'m name_ops \<Rightarrow> int \<Rightarrow> 'm pool option \<Rightarrow> bool" where
  "filled nops n po \<longleftrightarrow>
     (case po of
        None \<Rightarrow> True
      | Some p \<Rightarrow> 0 < n \<and> nJobs p = n \<and> nProcessing p = 0 \<and> nProcessed p = 0 \<and> \<not> quitRequestedFlag p
          \<and> (\<forall>en \<in> set (itemList p). folderInfo en \<noteq> NullInfo) \<and> registered nops p)"

text \<open>No path of a regular file is one of the reserved keys of the registry.\<close>

definition sane_paths :: "afsc_env \<Rightarrow> bool" where
  "sane_paths e \<longleftrightarrow>
     (\<forall>cr d st. ae_lstat e ''/dev/null'' cr d = Some st \<longrightarrow> \<not> S_ISREG (st_mode st))
   \<and> (\<forall>path d es. ae_fts e path d = Some es \<longrightarrow> (\<forall>en \<in> set es. is_reg en \<longrightarrow> valid_name (fts_path en)))"

lemma filled_add:
  assumes "hash_laws nops valid_name" and "filled nops n (Some p)" and "valid_name name"
  shows "filled nops n (Some (snd (addFileToParallelProcessor nops old name st fi own p)))"
  using assms(2) registered_add(1) [OF assms(1) _ assms(3), of p old st fi own]
  by (auto simp: filled_def addFileToParallelProcessor_def Let_def FileEntry_def copy_entry_def assign_entry_def)

lemma filled_job_info: "filled nops n (Some (p\<lparr>jobInfo := j\<rparr>)) = filled nops n (Some p)"
  by (simp add: filled_def registered_def)

lemma filled_compress_entry:
  assumes "hash_laws nops valid_name" and "filled nops n (wk_pool w)" and "valid_name (fts_path e)"
  shows "filled nops n (wk_pool (compress_entry s nops old e w))"
proof (cases "wk_pool w")
  case None
  then show ?thesis by (simp add: compress_entry_def Let_def filled_def)
next
  case (Some p)
  then show ?thesis
    using assms filled_add [OF assms(1), of n p "fts_path e"]
    by (simp add: compress_entry_def Let_def filled_job_info)
qed

lemma filled_folder:
  assumes "hash_laws nops valid_name" and "filled nops n (wk_pool w)"
    and "\<forall>en \<in> set es. is_reg en \<longrightarrow> valid_name (fts_path en)"
  shows "filled nops n (wk_pool (process_folder s lops nops old es w))"
proof (rule afsc_folder_keeps [where P = "\<lambda>w. filled nops n (wk_pool w)", OF assms(2)])
  fix en and w :: "('a, 'b) walk" and vs
  assume "en \<in> set es" and f: "filled nops n (wk_pool w)"
  then have v: "is_reg en \<Longrightarrow> valid_name (fts_path en)" using assms(3) by blast
  have "is_reg en \<Longrightarrow> filled nops n (wk_pool (compress_entry s nops old en (w\<lparr>wk_links := l\<rparr>)))" for l
    by (rule filled_compress_entry [OF assms(1) _ v]) (use f in simp_all)
  then show "filled nops n (wk_pool (fst (visit_entry s lops nops old vs en w)))"
    using f by (auto simp: visit_entry_def visit_folder_def visit_file_def Let_def is_reg_def split: option.splits)
qed simp

lemma argument_fills:
  assumes "hash_laws nops valid_name" and "sane_paths e" and "filled nops n (wk_pool (ar_walk r))"
  shows "filled nops n (wk_pool (ar_walk (snd (afsc_argument e o' lops nops argv i r))))"
proof (rule afsc_argument_keeps [where P = "\<lambda>r. filled nops n (wk_pool (ar_walk r))", OF assms(3)])
  fix path st and r :: "('a, 'b) afsc_run"
  assume ne: "path \<noteq> []" and l: "run_lstat e path r = Some st" and f: "filled nops n (wk_pool (ar_walk r))"
  define s where "s = main_sys e o'"
  have v: "valid_name path" if "fst (fileIsCompressable (sy_env s (st_ino st)) st (opt_compressiontype o'))"
    using that ne l assms(2)
    by (auto simp: valid_name_def fileIsCompressable_def Let_def sane_paths_def run_lstat_def split: if_splits)
  show "filled nops n (wk_pool (ar_walk (snd (compress_file_argument e o' nops path st r))))"
    using f v filled_add [OF assms(1)]
    by (auto simp: compress_file_argument_def Let_def s_def [symmetric] filled_job_info split: option.splits)
next
  fix path es w1 and r :: "('a, 'b) afsc_run"
  assume es: "ae_fts e path (run_disk r) = Some es" and f: "filled nops n (wk_pool (ar_walk r))"
    and w1: "w1 = process_folder (main_sys e o') lops nops (ae_old e) es
        ((ar_walk r)\<lparr>wk_info := folder_settings o' (wk_info (ar_walk r))\<rparr>)"
  have "\<forall>en \<in> set es. is_reg en \<longrightarrow> valid_name (fts_path en)" using assms(2) es by (simp add: sane_paths_def)
  then have "filled nops n (wk_pool w1)" unfolding w1 by (intro filled_folder [OF assms(1)]) (use f in simp_all)
  then show "filled nops n (wk_pool (ar_walk (r\<lparr>ar_walk := w1\<rparr>)))
    \<and> (\<forall>k. filled nops n (wk_pool (ar_walk (r\<lparr>ar_walk := w1\<lparr>wk_info := (wk_info w1)\<lparr>num_folders := k\<rparr>\<rparr>\<rparr>))))"
    by simp
qed (auto simp: say_def share_jobs_def upd_walk_def filled_job_info decompress_run_def report_file_def
    make_file_def set_disk_def Let_def split: option.splits)

lemma filled_sorted:
  assumes "filled nops n (Some p)" and "\<And>xs. mset (std_sort xs) = mset xs"
  shows "filled nops n (Some (snd (sortFilesInParallelProcessorBySize std_sort p)))"
    and "mset (itemList (snd (sortFilesInParallelProcessorBySize std_sort p))) = mset (itemList p)"
proof -
  have "set (std_sort xs) = set xs" for xs using assms(2) by (metis set_mset_mset)
  moreover have "distinct (map fileName (std_sort xs)) = distinct (map fileName xs)" for xs
    using assms(2) [of xs] by (metis mset_eq_imp_distinct_iff mset_map)
  ultimately show "filled nops n (Some (snd (sortFilesInParallelProcessorBySize std_sort p)))"
    using assms(1) by (auto simp: filled_def registered_def sortFilesInParallelProcessorBySize_def)
  show "mset (itemList (snd (sortFilesInParallelProcessorBySize std_sort p))) = mset (itemList p)"
    by (simp add: sortFilesInParallelProcessorBySize_def assms(2))
qed

lemma prepared_jobs:
  assumes "filled nops (opt_nJobs o') (Some p)" and "\<And>xs. mset (std_sort xs) = mset xs"
  shows "ready_pool (prepare_jobs std_sort o' jobs_set fi p)
    \<and> distinct (map fileName (itemList (prepare_jobs std_sort o' jobs_set fi p)))"
proof -
  define p1 where "p1 = (if 0 < opt_nJobs o' \<and> \<not> jobs_set then p\<lparr>jobInfo := afsc_job_info fi\<rparr> else p)"
  define p2 where "p2 = (if sortQueue o' then snd (sortFilesInParallelProcessorBySize std_sort p1) else p1)"
  have "filled nops (opt_nJobs o') (Some p1)" using assms(1) by (simp add: p1_def filled_job_info)
  then have p2: "filled nops (opt_nJobs o') (Some p2)" unfolding p2_def using filled_sorted(1) assms(2) by auto
  then have "ready_pool p2" "distinct (map fileName (itemList p2))"
    by (simp_all add: filled_def ready_pool_def registered_def)
  moreover have "ready_pool p2 \<Longrightarrow> 0 < n \<Longrightarrow> ready_pool (snd (setJobs True n k p2))
      \<and> itemList (snd (setJobs True n k p2)) = itemList p2" for n k
    by (simp add: setJobs_def ready_pool_def)
  ultimately show ?thesis
    by (simp add: prepare_jobs_def Let_def p1_def [symmetric] p2_def [symmetric] filesInParallelProcessor_def)
qed

text \<open>C17: with -j the run ends with a queue in which each file is once, and when the workers it is
  given to are done and nobody asked them to stop, each file of the queue was handled exactly once.\<close>

theorem afsctool_jobs_handled:
  assumes "hash_laws nops valid_name" and "sane_paths e" and "\<And>xs. mset (std_sort xs) = mset xs"
    and "parse_command_line (ae_opt e) (tl argv) = Some (o', args)"
    and "afsctool e lops nops std_sort fuel argv dk = Some (A_workers p r)"
    and "(pool_step (main_sys e o') nops)\<^sup>*\<^sup>* (run_init p (wk_info (ar_walk r)) (run_disk r)) m"
    and "allDoneEvent (mc_pool m) = Some True" and "\<not> quitRequestedFlag (mc_pool m)"
  shows "distinct (map fileName (itemList p)) \<and> handled_names m = queued_names p
    \<and> nProcessed (mc_pool m) = int (length (itemList p))"
proof -
  obtain x r1 where l: "afsc_loop e o' lops nops argv fuel (int (length argv) - int (length args))
      (afsc_start e o' lops nops dk) = Some (x, r1)"
    and res: "A_workers p r = (case x of Failed \<Rightarrow> A_failed r1 | Died \<Rightarrow> A_died r1 | Next_from _ \<Rightarrow> afsc_finish std_sort o' r1)"
    using assms(5) by (auto simp: afsctool_def assms(4))
  obtain p0 where p0: "wk_pool (ar_walk r1) = Some p0"
    "p = prepare_jobs std_sort o' (ar_jobs_set r1) (wk_info (ar_walk r1)) p0"
    using res by (auto simp: afsc_finish_def Let_def split: arg_end.splits option.splits if_splits)
  have "filled nops (opt_nJobs o') (wk_pool (ar_walk (afsc_start e o' lops nops dk)))"
    using registered_new [OF assms(1)]
    by (auto simp: afsc_start_def filled_def createParallelProcessor_def)
  note afsc_loop_keeps [where P = "\<lambda>r. filled nops (opt_nJobs o') (wk_pool (ar_walk r))",
      OF argument_fills [OF assms(1,2)] this l]
  then have f: "filled nops (opt_nJobs o') (Some p0)" by (simp add: p0(1))
  from prepared_jobs [where std_sort = std_sort, OF f assms(3)] pool_done [OF _ assms(6-8)] p0(2)
  show ?thesis by auto
qed

section \<open>A relative destination\<close>

lemma end_of_argument_frame [simp]:
  "ar_created (snd (end_of_argument y r)) = ar_created r" "run_disk (snd (end_of_argument y r)) = run_disk r"
  by (simp_all add: end_of_argument_def run_disk_def)

text \<open>The path of a relative destination is stored in the wrong variable: a first pair with one
  makes nothing, and once a destination was stored, a pair after it whose end is reached frees an
  argument of the program.\<close>

theorem relative_destination_makes_nothing:
  assumes "archiving o'" and "ar_dst r = None" and "\<not> wk_stuck (ar_walk r)" and "\<not> applycomp o'"
    and "argv ! nat (i + 1) = [] \<or> hd (argv ! nat (i + 1)) \<noteq> CHR ''/''"
  shows "ar_created (snd (afsc_argument e o' lops nops argv i r)) = ar_created r
    \<and> run_disk (snd (afsc_argument e o' lops nops argv i r)) = run_disk r"
proof -
  have d: "\<exists>b. \<forall>r1. set_destination e (argv ! nat (i + 1)) r = Some r1 \<longrightarrow> r1 = r\<lparr>ar_free_dst := b\<rparr>"
    using assms(5) by (auto simp: set_destination_def)
  have c: "fst (create_archive (archive_sys e path None) st nd) \<noteq> Fell_through" for path st nd
    by (simp add: create_archive_def archive_sys_def Let_def)
  have x: "fst (extract_archive (archive_sys e path None) bs) \<noteq> Fell_through" for path bs
    by (simp add: extract_archive_def archive_sys_def Let_def)
  have h: "ar_created (snd (handle_argument e o' lops nops path st i r)) = ar_created r
      \<and> run_disk (snd (handle_argument e o' lops nops path st i r)) = run_disk r"
    if "ar_dst r = None" for path st r
    using assms(1) that c x
    by (auto simp: handle_argument_def archiving_def create_argument_def extract_argument_def made_def Let_def
        split: option.splits)
  show ?thesis
  proof (cases "set_destination e (argv ! nat (i + 1)) r")
    case None
    then show ?thesis using assms(1) by (simp add: afsc_argument_def)
  next
    case (Some r1)
    with d obtain b where r1: "r1 = r\<lparr>ar_free_dst := b\<rparr>" by blast
    have "ar_created r1 = ar_created r" "run_disk r1 = run_disk r" "ar_dst r1 = None" "\<not> wk_stuck (ar_walk r1)"
      using assms(2,3) by (simp_all add: r1 run_disk_def)
    then show ?thesis
      using assms(1,4) Some h [of r1] by (simp add: afsc_argument_def Let_def split: option.split)
  qed
qed

lemma stored_destination_is_freed:
  assumes "ar_free_dst r" and "ar_dst r \<noteq> None"
  shows "fst (end_of_argument (Next_from i, False) r) = Died"
  using assms by (simp add: end_of_argument_def)

end
