(* ===== verification/AfscSamples.thy ===== *)
theory AfscSamples
  imports AfscMainProperties ArchiveProperties
begin

text \<open>Concrete runs of \<open>afsctool\<close>: an instance of each property of whole runs.\<close>

text \<open>A system with one file \<open>/f\<close> and one folder \<open>/d\<close> with nothing in it.\<close>

definition sample_afsc :: "sys \<Rightarrow> afsc_env" where
  "sample_afsc s =
     \<lparr>ae_opt = \<lparr>oe_plist = None, oe_globals = no_version, scan_lf = (\<lambda>_. None)\<rparr>,
      ae_rp = \<lparr>rp_sys = s, rp_legacy = False, rp_reread = (\<lambda>_. False), rp_past = []\<rparr>,
      ae_getcwd = Some ''/home'',
      ae_lstat = (\<lambda>path cr dk. if path = ''/f'' then Some (disk_lstat sample_sys sample_file_stat dk)
        else if path = ''/d'' then Some dir_stat else None),
      ae_fts = (\<lambda>path dk. if path = ''/d''
        then Some [sample_entry ''/d'' 0 1 dir_stat, sample_entry ''/d'' 0 6 dir_stat] else None),
      ae_decomp = (\<lambda>_. sample_dfenv), ae_archive = (\<lambda>_. sample_system), ae_new_ino = (\<lambda>_. 77),
      ae_info = empty_info, ae_fi = empty_info, ae_old = 0\<rparr>"

text \<open>The words of a command line.\<close>

definition never_argv :: "string list" where
  "never_argv = [''afsctool'', ''-d'', ''-t'', ''txt'', ''/d'']"

lemma never_parsed:
  "\<exists>o'. parse_command_line (ae_opt (sample_afsc s)) (tl never_argv) = Some (o', [''/d''])
     \<and> decomp o' \<and> \<not> archiving o' \<and> opt_filetypeslist o' = Some [''txt'']"
  by (simp add: never_argv_def sample_afsc_def parse_command_line_def default_options_def option_letter_def flag_letter_def
      value_letter_def type_option_def archive_or_decomp_def unless_def byte_of_def archiving_def)

lemma dir_stat_folder: "st_mode dir_stat AND S_IFDIR \<noteq> 0"
  by (simp add: dir_stat_def stat_bits)

theorem afsctool_never_returns_witness:
  "afsctool (sample_afsc sample_sys) map_ops map_ops (\<lambda>xs. xs) 1000000 never_argv sample_disk = None"
proof -
  obtain o' where o': "parse_command_line (ae_opt (sample_afsc sample_sys)) (tl never_argv) = Some (o', [''/d''])"
    "decomp o'" "\<not> archiving o'" "opt_filetypeslist o' = Some [''txt'']"
    using never_parsed by blast
  show ?thesis
  proof (rule afsctool_never_returns [OF o' refl])
    show "only_folders [sample_entry ''/d'' 0 1 dir_stat, sample_entry ''/d'' 0 6 dir_stat]"
      using dir_stat_folder by (simp add: only_folders_def sample_entry_def)
    show "\<forall>i. length [''txt''] < i \<and> i < length never_argv - length [''/d''] \<longrightarrow>
      (\<exists>p. absolute_path (sample_afsc sample_sys) (never_argv ! i) = Some p
        \<and> ae_lstat (sample_afsc sample_sys) p [] sample_disk = None)"
    proof (intro allI impI)
      fix i assume "length [''txt''] < i \<and> i < length never_argv - length [''/d'']"
      then have "i = 2 \<or> i = 3" by (auto simp: never_argv_def)
      then show "\<exists>p. absolute_path (sample_afsc sample_sys) (never_argv ! i) = Some p
        \<and> ae_lstat (sample_afsc sample_sys) p [] sample_disk = None"
        by (auto simp: absolute_path_def never_argv_def sample_afsc_def)
    qed
  qed (use dir_stat_folder in \<open>simp_all add: absolute_path_def sample_afsc_def never_argv_def\<close>)
qed

text \<open>Compressing the file.\<close>

definition compress_argv :: "string \<Rightarrow> string list" where
  "compress_argv flags = [''afsctool'', flags, ''/f'']"

lemma compress_parsed:
  "parse_command_line (ae_opt (sample_afsc s)) (tl (compress_argv ''-c''))
     = Some (default_options\<lparr>applycomp := True\<rparr>, [''/f''])"
  "parse_command_line (ae_opt (sample_afsc s)) (tl (compress_argv ''-cj1''))
     = Some (default_options\<lparr>applycomp := True, opt_nJobs := 1\<rparr>, [''/f''])"
  by (simp_all add: compress_argv_def sample_afsc_def parse_command_line_def default_options_def option_letter_def
      flag_letter_def jobs_letter_def archive_or_decomp_def unless_def byte_of_def atoi_def scan_decimal_def
      is_digit_def is_space_def)


lemma vfs_read_exclusive [simp]: "vfs_read (e\<lparr>exclusive_io := b\<rparr>) nd = vfs_read e nd"
  by (simp add: vfs_read_def)

lemma safe_env_exclusive [simp]: "safe_env (e\<lparr>exclusive_io := b\<rparr>) d = safe_env e d"
  by (simp add: safe_env_def)

lemma main_sys_env [simp]:
  "sy_env (main_sys (sample_afsc s) o') i = (sy_env s i)\<lparr>exclusive_io := opt_exclusive_io o'\<rparr>"
  by (simp add: main_sys_def sys_of_def sample_afsc_def)

lemma sample_afsc_simps:
  "ae_lstat (sample_afsc s) path cr dk = (if path = ''/f'' then Some (disk_lstat sample_sys sample_file_stat dk)
     else if path = ''/d'' then Some dir_stat else None)"
  "ae_fts (sample_afsc s) path dk = (if path = ''/d''
     then Some [sample_entry ''/d'' 0 1 dir_stat, sample_entry ''/d'' 0 6 dir_stat] else None)"
  by (simp_all add: sample_afsc_def)

lemma main_sys_reads: "disk_reads (main_sys (sample_afsc s) o') dk = disk_reads s dk"
  by (simp add: disk_reads_def fun_eq_iff)

lemma sample_reads: "disk_reads s dk ino = vfs_read (sy_env s ino) (dk_nodes dk ino)"
  by (simp add: disk_reads_def)

lemma disk_lstat_agrees: "agrees (main_sys (sample_afsc s) o') (disk_lstat s st d) d"
  by (simp add: agrees_def disk_lstat_def vfs_size_def sample_reads main_sys_reads Let_def)

lemma sample_truthful: "truthful (sample_afsc sample_sys) (main_sys (sample_afsc sample_sys) o') sample_disk"
proof -
  have "safe_env sample_env sample_data" "vfs_read sample_env sample_node = sample_data"
    using sample_fresh
    by (simp_all add: safe_env_def sample_env_def vfs_read_def fresh_file_def sample_world_def)
  then have safe: "safe_env (sy_env sample_sys ino) (disk_reads sample_sys sample_disk ino)" for ino
    by (simp add: sample_sys_def disk_reads_def sample_disk_def)
  have "\<not> S_ISREG (st_mode dir_stat)" by (simp add: dir_stat_def stat_bits)
  with safe show ?thesis
    by (auto simp: truthful_def main_sys_reads sample_afsc_simps disk_lstat_agrees is_reg_def sample_entry_def
        split: if_splits)
qed


text \<open>With a worker: a signal was caught, so that \<open>compressFile\<close> comes back at once.\<close>

definition jobs_sys :: sys where
  "jobs_sys = sample_sys\<lparr>sy_env := (\<lambda>_. sample_env\<lparr>quitRequested := True\<rparr>)\<rparr>"

lemma jobs_returning: "returning (main_sys (sample_afsc jobs_sys) o')"
proof -
  have "fst (compress_on_disk (main_sys (sample_afsc jobs_sys) o') True st fi dk) = Returned" for st fi dk
    by (simp add: compress_on_disk_def Let_def compressFile_def cf_body_def cf_entry_def jobs_sys_def)
  then show ?thesis
    by (auto simp: returning_def FileEntry_compress_def Let_def split: info_ref.splits)
qed

definition f_stat :: stat where
  "f_stat = disk_lstat sample_sys sample_file_stat sample_disk"

lemma f_stat_simps: "st_mode f_stat AND S_IFDIR = 0" "S_ISREG (st_mode f_stat)" "\<not> is_flagged (st_flags f_stat)"
  by (simp_all add: f_stat_def disk_lstat_def Let_def sample_disk_def sample_node_def stat_bits is_flagged_def)

lemma f_compressable:
  "fst (fileIsCompressable (sy_env (main_sys (sample_afsc jobs_sys) o') i) f_stat ZLIB)"
  by (simp add: fileIsCompressable_def Let_def f_stat_simps jobs_sys_def sample_env_def sample_volume_def
      MNTTYPE_ZFS_SUBTYPE_def)

lemma jobs_run:
  obtains p r where
    "afsctool (sample_afsc jobs_sys) map_ops map_ops (\<lambda>xs. xs) 2 (compress_argv ''-cj1'') sample_disk = Some (A_workers p r)"
    and "map fileName (itemList p) = [''/f'']" and "nJobs p = 1" and "\<not> quitRequestedFlag p" and "ready_pool p"
proof -
  define o' where "o' = default_options\<lparr>applycomp := True, opt_nJobs := 1\<rparr>"
  define e where "e = sample_afsc jobs_sys"
  define r0 :: "(string \<rightharpoonup> unit, nat \<rightharpoonup> string) afsc_run" where "r0 = afsc_start e o' map_ops map_ops sample_disk"
  have o': "opt_nJobs o' = 1" "opt_nReverse o' = 0" "printVerbose o' = 0" "applycomp o'" "opt_compressiontype o' = ZLIB"
    "\<not> archiving o'" "\<not> createfile o'" "\<not> extractfile o'" "\<not> decomp o'" "\<not> sortQueue o'"
    by (simp_all add: o'_def default_options_def archiving_def)
  have ls: "run_lstat e ''/f'' r = Some f_stat" if "run_disk r = sample_disk" for r :: "(string \<rightharpoonup> unit, nat \<rightharpoonup> string) afsc_run"
    using that by (simp add: run_lstat_def e_def sample_afsc_simps f_stat_def)
  define p0 :: "(string \<rightharpoonup> unit) pool" where "p0 = createParallelProcessor map_ops 1 0 0"
  define fi where "fi = (file_settings o' (ae_fi e))\<lparr>onAPFS := snd (fileIsCompressable
    (sy_env (main_sys e o') (st_ino f_stat)) f_stat ZLIB)\<rparr>"
  define p1 where "p1 = snd (addFileToParallelProcessor map_ops (ae_old e) ''/f'' f_stat fi True p0)"
  define r1 where "r1 = r0\<lparr>ar_walk := (ar_walk r0)\<lparr>wk_pool := Some p1\<rparr>\<rparr>"
  have "compress_file_argument e o' map_ops ''/f'' f_stat r0 = (f_stat, r1)"
    using f_compressable [of o' "st_ino f_stat", folded e_def]
    by (simp add: compress_file_argument_def r0_def afsc_start_def o' p0_def r1_def p1_def fi_def Let_def)
  moreover have "run_disk r0 = sample_disk" "run_disk r1 = sample_disk"
    by (simp_all add: r1_def run_disk_def r0_def afsc_start_def)
  ultimately have c: "compress_then_stat e o' map_ops ''/f'' f_stat r0 = (f_stat, r1)" "run_lstat e ''/f'' r0 = Some f_stat"
    using ls by (simp_all add: compress_then_stat_def)
  define r2 where "r2 = show_file e o' ''/f'' f_stat r1"
  have r2: "wk_pool (ar_walk r2) = Some p1" "\<not> wk_stuck (ar_walk r2)" "\<not> ar_free_dst r2" "\<not> wk_stuck (ar_walk r1)"
    by (simp_all add: r2_def show_file_def o' say_def r1_def r0_def afsc_start_def)
  have "afsc_argument e o' map_ops map_ops (compress_argv ''-cj1'') 2 r0 = (Next_from 2, r2)"
    using c r2 by (simp add: afsc_argument_def o' compress_argv_def absolute_path_def f_stat_simps handle_argument_def
        end_of_argument_def Let_def r2_def)
  then have "afsc_loop e o' map_ops map_ops (compress_argv ''-cj1'') 2 2 r0 = Some (Next_from 3, r2)"
    by (simp add: numeral_2_eq_2 o' compress_argv_def)
  moreover define p2 where "p2 = prepare_jobs (\<lambda>xs. xs) o' (ar_jobs_set r2) (wk_info (ar_walk r2)) p1"
  have p2: "map fileName (itemList p2) = [''/f'']" "nJobs p2 = 1" "\<not> quitRequestedFlag p2" "ready_pool p2"
    by (auto simp: p2_def prepare_jobs_def o' p1_def p0_def addFileToParallelProcessor_def createParallelProcessor_def
        map_ops_def FileEntry_def copy_entry_def assign_entry_def FileEntry0_def filesInParallelProcessor_def
        ready_pool_def Let_def)
  then have "afsc_finish (\<lambda>xs. xs) o' r2 = A_workers p2 r2"
    by (auto simp: afsc_finish_def r2 p2_def [symmetric])
  ultimately have "afsctool e map_ops map_ops (\<lambda>xs. xs) 2 (compress_argv ''-cj1'') sample_disk = Some (A_workers p2 r2)"
    using compress_parsed(2) [of jobs_sys, folded e_def o'_def]
    by (simp add: afsctool_def r0_def compress_argv_def)
  with that p2 show thesis by (simp add: e_def)
qed

theorem afsctool_jobs_handled_witness:
  "\<exists>p r m. afsctool (sample_afsc jobs_sys) map_ops map_ops (\<lambda>xs. xs) 2 (compress_argv ''-cj1'') sample_disk
       = Some (A_workers p r)
     \<and> (pool_step (main_sys (sample_afsc jobs_sys) (default_options\<lparr>applycomp := True, opt_nJobs := 1\<rparr>)) map_ops)\<^sup>*\<^sup>*
         (run_init p (wk_info (ar_walk r)) (run_disk r)) m
     \<and> handled_names m = {#''/f''#} \<and> nProcessed (mc_pool m) = 1"
proof -
  obtain p r where p: "afsctool (sample_afsc jobs_sys) map_ops map_ops (\<lambda>xs. xs) 2 (compress_argv ''-cj1'') sample_disk
      = Some (A_workers p r)" "map fileName (itemList p) = [''/f'']" "nJobs p = 1" "\<not> quitRequestedFlag p" "ready_pool p"
    by (rule jobs_run)
  define s where "s = main_sys (sample_afsc jobs_sys) (default_options\<lparr>applycomp := True, opt_nJobs := 1\<rparr>)"
  have "returning s" by (simp add: s_def jobs_returning)
  from first_worker_alone [OF p(5,4) this] obtain m where
    m: "(active_step s map_ops)\<^sup>*\<^sup>* (run_init p (wk_info (ar_walk r)) (run_disk r)) m"
      "\<not> quitRequestedFlag (mc_pool m)" "nJobs (mc_pool m) = nJobs p - 1"
      "allDoneEvent (mc_pool m) = Some (nJobs (mc_pool m) \<le> 0)" by metis
  then have e: "allDoneEvent (mc_pool m) = Some True" using p(3) by simp
  have sane: "sane_paths (sample_afsc jobs_sys)"
    by (auto simp: sane_paths_def sample_afsc_simps is_reg_def sample_entry_def dir_stat_def stat_bits split: if_splits)
  have "length (itemList p) = 1" using arg_cong [OF p(2), of length] by simp
  with afsctool_jobs_handled [OF map_ops_laws sane _ compress_parsed(2) p(1) active_pool_steps [OF m(1) [unfolded s_def]] e m(2)]
    active_pool_steps [OF m(1)] p(1,2)
  show ?thesis by (auto simp: queued_names_def s_def)
qed

end
