(* ===== verification/IoLock.thy ===== *)
theory IoLock
  imports Mutex
begin

text \<open>
  The I/O lock of the parallel tools (src/ParallelProcess.cpp): \<open>lockIO\<close> and \<open>unLockIO\<close> of the
  processor, \<open>lockScope\<close> and \<open>unLockScope\<close> of a worker. First each call in one piece (\<open>None\<close>: it
  blocks), then the calls of the workers interleaved, one step for each access to shared data;
  \<open>ioLockedFlag\<close> is such data, and the result of a call is read from it.
\<close>

record io_lock =
  ioLock :: mutex
  ioLockedFlag :: bool
  ioLockingThread :: nat

definition new_io_lock :: io_lock where
  "new_io_lock = \<lparr>ioLock = new_mutex, ioLockedFlag = False, ioLockingThread = 0\<rparr>"

definition count_conflict :: "bool \<Rightarrow> mutex \<Rightarrow> mutex" where
  "count_conflict wasLocked mx = (if wasLocked then mx\<lparr>lockCounter := lockCounter mx + 1\<rparr> else mx)"

section \<open>The calls one at a time\<close>

definition lockIO :: "nat \<Rightarrow> io_lock \<Rightarrow> (bool \<times> io_lock) option" where
  "lockIO pid io =
     (let wasLocked = mutex_IsLocked (ioLock io) \<and> ioLockingThread io \<noteq> pid in
      case mutex_Lock pid (ioLock io) of
        None \<Rightarrow> None
      | Some (mx, flag) \<Rightarrow>
          let io1 = io\<lparr>ioLock := count_conflict wasLocked mx, ioLockedFlag := flag\<rparr>
          in Some (flag, if flag then io1\<lparr>ioLockingThread := pid\<rparr> else io1))"

definition unLockIO :: "nat \<Rightarrow> io_lock \<Rightarrow> bool \<times> io_lock" where
  "unLockIO pid io =
     (let mx = mutex_Unlock (ioLockedFlag io) (ioLock io); flag = mutex_IsLocked mx;
          io1 = io\<lparr>ioLock := mx, ioLockedFlag := flag\<rparr>
      in (flag, if \<not> flag \<and> ioLockingThread io = pid then io1\<lparr>ioLockingThread := 0\<rparr> else io1))"

text \<open>A worker has a scope while it handles an entry.\<close>

definition lockScope :: "nat \<Rightarrow> scope option \<Rightarrow> io_lock \<Rightarrow> (bool \<times> scope option \<times> io_lock) option" where
  "lockScope tid scp io =
     (case scp of
        None \<Rightarrow> Some (ioLockedFlag io, None, io)
      | Some sc \<Rightarrow>
          let wasLocked = scope_IsLocked sc in
          (case scope_Lock tid sc (ioLock io) of
             None \<Rightarrow> None
           | Some (sc', mx) \<Rightarrow>
               Some (scope_IsLocked sc', Some sc',
                 io\<lparr>ioLock := count_conflict wasLocked mx, ioLockedFlag := scope_IsLocked sc'\<rparr>)))"

definition unLockScope :: "scope option \<Rightarrow> io_lock \<Rightarrow> bool \<times> scope option \<times> io_lock" where
  "unLockScope scp io =
     (case scp of
        None \<Rightarrow> (ioLockedFlag io, None, io)
      | Some sc \<Rightarrow>
          let r = scope_Unlock sc (ioLock io); flag = scope_IsLocked (fst r)
          in (flag, Some (fst r), io\<lparr>ioLock := snd r, ioLockedFlag := flag\<rparr>))"

text \<open>\<open>unLockIO\<close> does not ask who holds the lock: a thread that never locked it releases it.\<close>

lemma unLockIO_of_other:
  assumes "lockIO t new_io_lock = Some (r, io)"
  shows "r \<and> mx_owner (ioLock io) = Some t \<and> mx_owner (ioLock (snd (unLockIO u io))) = None"
  using assms
  by (auto simp: lockIO_def unLockIO_def new_io_lock_def scope_defs new_mutex_def count_conflict_def Let_def)

section \<open>The calls of the workers interleaved\<close>

text \<open>
  Where a worker is: without an entry; handling one, outside the calls; in \<open>lockScope\<close> before the
  scope is tested, before it is locked, before the shared flag is written, before the counter is
  and before the flag is read for the result; in \<open>unLockScope\<close> likewise. \<open>im_locked\<close> is the variable
  the caller stores the results in.
\<close>

datatype io_pc = No_entry | Handling | Lock_test | Lock_wait bool | Lock_flag bool | Lock_count bool
  | Lock_result | Unlock_scope | Unlock_flag | Unlock_result

record io_machine =
  im_io :: io_lock
  im_scope :: "nat \<Rightarrow> scope option"
  im_pc :: "nat \<Rightarrow> io_pc"
  im_locked :: "nat \<Rightarrow> bool"

definition io_start :: io_machine where
  "io_start = \<lparr>im_io = new_io_lock, im_scope = (\<lambda>_. None), im_pc = (\<lambda>_. No_entry), im_locked = (\<lambda>_. False)\<rparr>"

definition io_goto :: "nat \<Rightarrow> io_pc \<Rightarrow> io_machine \<Rightarrow> io_machine" where
  "io_goto i pc m = m\<lparr>im_pc := (im_pc m)(i := pc)\<rparr>"

definition io_scope :: "nat \<Rightarrow> scope option \<Rightarrow> mutex \<Rightarrow> io_machine \<Rightarrow> io_machine" where
  "io_scope i scp mx m = m\<lparr>im_scope := (im_scope m)(i := scp), im_io := (im_io m)\<lparr>ioLock := mx\<rparr>\<rparr>"

definition io_flag :: "bool \<Rightarrow> io_machine \<Rightarrow> io_machine" where
  "io_flag b m = m\<lparr>im_io := (im_io m)\<lparr>ioLockedFlag := b\<rparr>\<rparr>"

definition io_result :: "nat \<Rightarrow> io_machine \<Rightarrow> io_machine" where
  "io_result i m = m\<lparr>im_locked := (im_locked m)(i := ioLockedFlag (im_io m))\<rparr>"

text \<open>A worker may call \<open>lockScope\<close> and \<open>unLockScope\<close> as often and in the order it likes.\<close>

inductive io_step :: "io_machine \<Rightarrow> io_machine \<Rightarrow> bool" where
  enter: "im_pc m i = No_entry \<Longrightarrow> new_scope i 0 (ioLock (im_io m)) = Some (sc, mx) \<Longrightarrow>
    io_step m (io_goto i Handling (io_scope i (Some sc) mx m))"
| call_lock: "im_pc m i = Handling \<Longrightarrow> io_step m (io_goto i Lock_test m)"
| lock_test: "im_pc m i = Lock_test \<Longrightarrow> im_scope m i = Some sc \<Longrightarrow>
    io_step m (io_goto i (Lock_wait (scope_IsLocked sc)) m)"
| lock_wait: "im_pc m i = Lock_wait b \<Longrightarrow> im_scope m i = Some sc \<Longrightarrow>
    scope_Lock i sc (ioLock (im_io m)) = Some (sc', mx) \<Longrightarrow>
    io_step m (io_goto i (Lock_flag b) (io_scope i (Some sc') mx m))"
| lock_flag: "im_pc m i = Lock_flag b \<Longrightarrow> im_scope m i = Some sc \<Longrightarrow>
    io_step m (io_goto i (Lock_count b) (io_flag (scope_IsLocked sc) m))"
| lock_count: "im_pc m i = Lock_count b \<Longrightarrow>
    io_step m (io_goto i Lock_result (io_scope i (im_scope m i) (count_conflict b (ioLock (im_io m))) m))"
| lock_result: "im_pc m i = Lock_result \<Longrightarrow> io_step m (io_goto i Handling (io_result i m))"
| call_unlock: "im_pc m i = Handling \<Longrightarrow> io_step m (io_goto i Unlock_scope m)"
| unlock_scope: "im_pc m i = Unlock_scope \<Longrightarrow> im_scope m i = Some sc \<Longrightarrow>
    scope_Unlock sc (ioLock (im_io m)) = (sc', mx) \<Longrightarrow>
    io_step m (io_goto i Unlock_flag (io_scope i (Some sc') mx m))"
| unlock_flag: "im_pc m i = Unlock_flag \<Longrightarrow> im_scope m i = Some sc \<Longrightarrow>
    io_step m (io_goto i Unlock_result (io_flag (scope_IsLocked sc) m))"
| unlock_result: "im_pc m i = Unlock_result \<Longrightarrow> io_step m (io_goto i Handling (io_result i m))"
| leave: "im_pc m i = Handling \<Longrightarrow> im_scope m i = Some sc \<Longrightarrow>
    io_step m (io_goto i No_entry (io_scope i None (delete_scope sc (ioLock (im_io m))) m))"

lemmas io_defs = io_goto_def io_scope_def io_flag_def io_result_def

section \<open>The invariant\<close>

definition io_owner :: "io_machine \<Rightarrow> nat option" where
  "io_owner m = mx_owner (ioLock (im_io m))"

text \<open>What the scope of a worker is like where the worker is.\<close>

definition scope_where :: "io_pc \<Rightarrow> scope option \<Rightarrow> bool \<Rightarrow> bool" where
  "scope_where pc scp owns \<longleftrightarrow>
     (case scp of
        None \<Rightarrow> pc = No_entry \<and> \<not> owns
      | Some sc \<Rightarrow> pc \<noteq> No_entry \<and> m_bUnlockFlag sc = owns \<and> m_bLocked sc = owns \<and> \<not> scope_verbose sc)
     \<and> (case pc of Lock_wait b \<Rightarrow> b = owns | Lock_flag b \<Rightarrow> owns | Lock_count b \<Rightarrow> owns | Lock_result \<Rightarrow> owns
         | Unlock_flag \<Rightarrow> \<not> owns | Unlock_result \<Rightarrow> \<not> owns | _ \<Rightarrow> True)"

definition io_inv :: "io_machine \<Rightarrow> bool" where
  "io_inv m \<longleftrightarrow> \<not> bTimedOut (ioLock (im_io m))
     \<and> bIsLocked (ioLock (im_io m)) = (if io_owner m = None then 0 else 1)
     \<and> (\<forall>i. scope_where (im_pc m i) (im_scope m i) (io_owner m = Some i))"

lemma io_inv_start: "io_inv io_start"
  by (simp add: io_inv_def io_start_def new_io_lock_def new_mutex_def io_owner_def scope_where_def)

lemma count_conflict_simps [simp]:
  "mx_owner (count_conflict b mx) = mx_owner mx" "bIsLocked (count_conflict b mx) = bIsLocked mx"
  "bTimedOut (count_conflict b mx) = bTimedOut mx"
  by (simp_all add: count_conflict_def)

text \<open>A step changes one worker, and the owner only from or to that worker.\<close>

definition io_mutex_ok :: "io_machine \<Rightarrow> bool" where
  "io_mutex_ok m \<longleftrightarrow> \<not> bTimedOut (ioLock (im_io m))
     \<and> bIsLocked (ioLock (im_io m)) = (if io_owner m = None then 0 else 1)"

definition io_changes_only :: "nat \<Rightarrow> io_machine \<Rightarrow> io_machine \<Rightarrow> bool" where
  "io_changes_only i m m' \<longleftrightarrow> (\<forall>j. j \<noteq> i \<longrightarrow> im_pc m' j = im_pc m j \<and> im_scope m' j = im_scope m j
     \<and> (io_owner m' = Some j) = (io_owner m = Some j))"

lemma io_inv_goto:
  assumes "io_inv m"
    and "scope_where (im_pc m i) (im_scope m i) (io_owner m = Some i) \<Longrightarrow> io_mutex_ok m \<Longrightarrow>
      io_changes_only i m (io_goto i pc m1) \<and> io_mutex_ok m1
      \<and> scope_where pc (im_scope m1 i) (io_owner m1 = Some i)"
  shows "io_inv (io_goto i pc m1)"
proof -
  have "scope_where (im_pc m i) (im_scope m i) (io_owner m = Some i)" "io_mutex_ok m"
    using assms(1) by (simp_all add: io_inv_def io_mutex_ok_def)
  from assms(2) [OF this] have n: "io_changes_only i m (io_goto i pc m1)" "io_mutex_ok (io_goto i pc m1)"
    "scope_where (im_pc (io_goto i pc m1) i) (im_scope (io_goto i pc m1) i) (io_owner (io_goto i pc m1) = Some i)"
    by (simp_all add: io_goto_def io_mutex_ok_def io_owner_def)
  have "scope_where (im_pc (io_goto i pc m1) j) (im_scope (io_goto i pc m1) j) (io_owner (io_goto i pc m1) = Some j)" for j
    using assms(1) n by (cases "j = i") (simp_all add: io_inv_def io_changes_only_def)
  with n show ?thesis by (simp add: io_inv_def io_mutex_ok_def)
qed

lemmas io_step_simps = io_defs io_owner_def scope_defs io_mutex_ok_def io_changes_only_def scope_where_def

lemma io_step_inv: "io_step m m' \<Longrightarrow> io_inv m \<Longrightarrow> io_inv m'"
  by (induction rule: io_step.induct)
    (rule io_inv_goto, assumption, (auto simp: io_step_simps split: option.splits if_splits)[1])+

lemma io_inv_steps: "io_step\<^sup>*\<^sup>* m m' \<Longrightarrow> io_inv m \<Longrightarrow> io_inv m'"
  by (induction rule: rtranclp_induct) (auto intro: io_step_inv)

lemma io_inv_reachable: "io_step\<^sup>*\<^sup>* io_start m \<Longrightarrow> io_inv m"
  using io_inv_steps io_inv_start by blast

section \<open>Every worker can finish\<close>

text \<open>The steps a worker is away from the end of its entry, at least.\<close>

fun io_rank :: "io_pc \<Rightarrow> nat" where
  "io_rank No_entry = 0" | "io_rank Handling = 1"
| "io_rank Lock_test = 6" | "io_rank (Lock_wait b) = 5" | "io_rank (Lock_flag b) = 4"
| "io_rank (Lock_count b) = 3" | "io_rank Lock_result = 2"
| "io_rank Unlock_scope = 4" | "io_rank Unlock_flag = 3" | "io_rank Unlock_result = 2"

lemma io_rank_0: "io_rank pc = 0 \<longleftrightarrow> pc = No_entry"
  by (cases pc) simp_all

text \<open>A worker that is not kept from the mutex comes one step nearer.\<close>

lemma io_nearer:
  assumes "io_inv m" and "im_pc m i \<noteq> No_entry" and "io_owner m \<in> {None, Some i}"
  obtains m' where "io_step m m'" and "Suc (io_rank (im_pc m' i)) = io_rank (im_pc m i)"
    and "\<forall>j. j \<noteq> i \<longrightarrow> im_pc m' j = im_pc m j" and "io_owner m' \<in> {None, Some i}"
proof -
  have w: "scope_where (im_pc m i) (im_scope m i) (io_owner m = Some i)" "io_mutex_ok m"
    using assms(1) by (simp_all add: io_inv_def io_mutex_ok_def)
  then obtain sc where sc: "im_scope m i = Some sc" using assms(2) by (auto simp: scope_where_def split: option.splits)
  have lock: "\<exists>sc' mx. scope_Lock i sc (ioLock (im_io m)) = Some (sc', mx) \<and> mx_owner mx = Some i"
    using w assms(3) sc by (auto simp: io_owner_def scope_defs io_mutex_ok_def scope_where_def)
  have out: "mx_owner (delete_scope sc (ioLock (im_io m))) \<in> {None, Some i}"
    "mx_owner (snd (scope_Unlock sc (ioLock (im_io m)))) \<in> {None, Some i}"
    using assms(3) w sc by (auto simp: io_owner_def scope_defs scope_where_def Let_def)
  note simps = io_goto_def io_scope_def io_flag_def io_result_def io_owner_def
  show thesis
  proof (cases "im_pc m i")
    case Handling
    from io_step.leave [OF Handling sc] show thesis
      by (rule that) (use out Handling assms(3) in \<open>simp_all add: simps\<close>)
  next
    case Lock_test
    from io_step.lock_test [OF Lock_test sc] show thesis
      by (rule that) (use Lock_test assms(3) in \<open>simp_all add: simps\<close>)
  next
    case (Lock_wait b)
    obtain sc' mx where l: "scope_Lock i sc (ioLock (im_io m)) = Some (sc', mx)" "mx_owner mx = Some i"
      using lock by blast
    from io_step.lock_wait [OF Lock_wait sc l(1)] show thesis
      by (rule that) (use l(2) Lock_wait in \<open>simp_all add: simps\<close>)
  next
    case (Lock_flag b)
    from io_step.lock_flag [OF Lock_flag sc] show thesis
      by (rule that) (use Lock_flag assms(3) in \<open>simp_all add: simps\<close>)
  next
    case (Lock_count b)
    from io_step.lock_count [OF Lock_count] show thesis
      by (rule that) (use Lock_count assms(3) in \<open>simp_all add: simps\<close>)
  next
    case Lock_result
    from io_step.lock_result [OF Lock_result] show thesis
      by (rule that) (use Lock_result assms(3) in \<open>simp_all add: simps\<close>)
  next
    case Unlock_scope
    from io_step.unlock_scope [OF Unlock_scope sc prod.collapse [symmetric]] show thesis
      by (rule that) (use out Unlock_scope in \<open>simp_all add: simps\<close>)
  next
    case Unlock_flag
    from io_step.unlock_flag [OF Unlock_flag sc] show thesis
      by (rule that) (use Unlock_flag assms(3) in \<open>simp_all add: simps\<close>)
  next
    case Unlock_result
    from io_step.unlock_result [OF Unlock_result] show thesis
      by (rule that) (use Unlock_result assms(3) in \<open>simp_all add: simps\<close>)
  qed (use assms(2) in simp)
qed

lemma io_finishes:
  assumes "io_inv m" and "io_owner m \<in> {None, Some i}"
  shows "\<exists>m'. io_step\<^sup>*\<^sup>* m m' \<and> im_pc m' i = No_entry \<and> io_owner m' = None
    \<and> (\<forall>j. j \<noteq> i \<longrightarrow> im_pc m' j = im_pc m j)"
  using assms
proof (induction "io_rank (im_pc m i)" arbitrary: m)
  case 0
  then have "im_pc m i = No_entry" by (simp add: io_rank_0)
  moreover have "scope_where (im_pc m i) (im_scope m i) (io_owner m = Some i)"
    using "0.prems"(1) by (simp add: io_inv_def)
  ultimately have "io_owner m \<noteq> Some i" by (auto simp: scope_where_def split: option.splits)
  with "0.prems" \<open>im_pc m i = No_entry\<close> show ?case by blast
next
  case (Suc n)
  then have "im_pc m i \<noteq> No_entry" by auto
  from io_nearer [OF Suc.prems(1) this Suc.prems(2)] obtain m1 where
    m1: "io_step m m1" "Suc (io_rank (im_pc m1 i)) = io_rank (im_pc m i)"
      "\<forall>j. j \<noteq> i \<longrightarrow> im_pc m1 j = im_pc m j" "io_owner m1 \<in> {None, Some i}" .
  from m1(2) Suc.hyps(2) have "n = io_rank (im_pc m1 i)" by simp
  from Suc.hyps(1) [OF this io_step_inv [OF m1(1) Suc.prems(1)] m1(4)] m1(1,3)
  show ?case by (metis converse_rtranclp_into_rtranclp)
qed


lemma io_active_finite: "io_step\<^sup>*\<^sup>* io_start m \<Longrightarrow> finite {i. im_pc m i \<noteq> No_entry}"
proof (induction rule: rtranclp_induct)
  case (step m m')
  have one: "\<exists>i. {j. im_pc m' j \<noteq> No_entry} \<subseteq> insert i {j. im_pc m j \<noteq> No_entry}"
    using step(2) by cases (auto simp: io_defs)
  then show ?case using step(3) by (meson finite_insert finite_subset)
qed (simp add: io_start_def)

text \<open>C22: whatever the workers call and however their calls interleave, at most one of them holds
  the I/O lock, none keeps it beyond the entry it handles, and no state is a deadlock: all workers
  can come to the end of their entries, and then the lock is free.\<close>

theorem io_lock_released:
  assumes "io_step\<^sup>*\<^sup>* io_start m"
  shows "(\<forall>i j sc sc'. im_scope m i = Some sc \<and> scope_IsLocked sc \<and> im_scope m j = Some sc' \<and> scope_IsLocked sc' \<longrightarrow> i = j)
    \<and> (\<forall>i. im_pc m i = No_entry \<longrightarrow> mx_owner (ioLock (im_io m)) \<noteq> Some i)
    \<and> (\<exists>m'. io_step\<^sup>*\<^sup>* m m' \<and> (\<forall>i. im_pc m' i = No_entry) \<and> mx_owner (ioLock (im_io m')) = None)"
proof (intro conjI)
  note inv = io_inv_reachable [OF assms]
  then have w: "scope_where (im_pc m i) (im_scope m i) (io_owner m = Some i)" for i by (simp add: io_inv_def)
  show "\<forall>i j sc sc'. im_scope m i = Some sc \<and> scope_IsLocked sc \<and> im_scope m j = Some sc' \<and> scope_IsLocked sc' \<longrightarrow> i = j"
  proof (intro allI impI, elim conjE)
    fix i j sc sc'
    assume a: "im_scope m i = Some sc" "scope_IsLocked sc" "im_scope m j = Some sc'" "scope_IsLocked sc'"
    show "i = j" using w [of i] w [of j] a by (simp add: scope_where_def scope_IsLocked_def)
  qed
  show "\<forall>i. im_pc m i = No_entry \<longrightarrow> mx_owner (ioLock (im_io m)) \<noteq> Some i"
  proof (intro allI impI)
    fix i assume "im_pc m i = No_entry"
    with w [of i] show "mx_owner (ioLock (im_io m)) \<noteq> Some i"
      by (auto simp: scope_where_def io_owner_def split: option.splits)
  qed
  have "finite A \<Longrightarrow> {i. im_pc n i \<noteq> No_entry} = A \<Longrightarrow> io_inv n \<Longrightarrow>
      \<exists>m'. io_step\<^sup>*\<^sup>* n m' \<and> (\<forall>i. im_pc m' i = No_entry) \<and> io_inv m'" for A n
  proof (induction A arbitrary: n rule: finite_psubset_induct)
    case (psubset A)
    note act = psubset.prems(1) and inv = psubset.prems(2)
    show ?case
    proof (cases "A = {}")
      case True
      then have "\<forall>i. im_pc n i = No_entry" using act by auto
      then show ?thesis using inv by blast
    next
      case False
      obtain i where i: "i \<in> A" "io_owner n \<in> {None, Some i}"
      proof (cases "io_owner n")
        case None
        with False that show thesis by blast
      next
        case (Some k)
        have "scope_where (im_pc n k) (im_scope n k) (io_owner n = Some k)" using inv by (simp add: io_inv_def)
        then have "im_pc n k \<noteq> No_entry" using Some by (auto simp: scope_where_def split: option.splits)
        with Some act that [of k] show thesis by auto
      qed
      from io_finishes [OF inv i(2)] obtain n1 where n1: "io_step\<^sup>*\<^sup>* n n1" "im_pc n1 i = No_entry"
        "\<forall>j. j \<noteq> i \<longrightarrow> im_pc n1 j = im_pc n j" by blast
      have "{j. im_pc n1 j \<noteq> No_entry} = A - {i}" using n1(2,3) act by auto
      moreover have "A - {i} \<subset> A" using i(1) by blast
      ultimately show ?thesis
        using psubset.IH [of "A - {i}" n1] io_inv_steps [OF n1(1) inv] n1(1) by (meson rtranclp_trans)
    qed
  qed
  from this [OF io_active_finite [OF assms] refl inv] obtain m' where
    m': "io_step\<^sup>*\<^sup>* m m'" "\<forall>i. im_pc m' i = No_entry" "io_inv m'" by blast
  have "mx_owner (ioLock (im_io m')) \<noteq> Some i" for i
  proof -
    have "scope_where (im_pc m' i) (im_scope m' i) (io_owner m' = Some i)" using m'(3) by (simp add: io_inv_def)
    with m'(2) show ?thesis by (auto simp: scope_where_def io_owner_def split: option.splits)
  qed
  then have "mx_owner (ioLock (im_io m')) = None" by (cases "mx_owner (ioLock (im_io m'))") auto
  with m' show "\<exists>m'. io_step\<^sup>*\<^sup>* m m' \<and> (\<forall>i. im_pc m' i = No_entry) \<and> mx_owner (ioLock (im_io m')) = None"
    by blast
qed

section \<open>What the calls report\<close>

text \<open>The next step of a worker, who calls \<open>lockScope\<close> or \<open>unLockScope\<close> as \<open>locking\<close> says.\<close>

definition io_next :: "nat \<Rightarrow> bool \<Rightarrow> io_machine \<Rightarrow> io_machine option" where
  "io_next i locking m =
     (case (im_pc m i, im_scope m i) of
        (No_entry, _) \<Rightarrow>
          map_option (\<lambda>(sc, mx). io_goto i Handling (io_scope i (Some sc) mx m)) (new_scope i 0 (ioLock (im_io m)))
      | (Handling, _) \<Rightarrow> Some (io_goto i (if locking then Lock_test else Unlock_scope) m)
      | (Lock_test, Some sc) \<Rightarrow> Some (io_goto i (Lock_wait (scope_IsLocked sc)) m)
      | (Lock_wait b, Some sc) \<Rightarrow>
          map_option (\<lambda>(sc', mx). io_goto i (Lock_flag b) (io_scope i (Some sc') mx m))
            (scope_Lock i sc (ioLock (im_io m)))
      | (Lock_flag b, Some sc) \<Rightarrow> Some (io_goto i (Lock_count b) (io_flag (scope_IsLocked sc) m))
      | (Lock_count b, scp) \<Rightarrow>
          Some (io_goto i Lock_result (io_scope i scp (count_conflict b (ioLock (im_io m))) m))
      | (Lock_result, _) \<Rightarrow> Some (io_goto i Handling (io_result i m))
      | (Unlock_scope, Some sc) \<Rightarrow>
          (let r = scope_Unlock sc (ioLock (im_io m)) in Some (io_goto i Unlock_flag (io_scope i (Some (fst r)) (snd r) m)))
      | (Unlock_flag, Some sc) \<Rightarrow> Some (io_goto i Unlock_result (io_flag (scope_IsLocked sc) m))
      | (Unlock_result, _) \<Rightarrow> Some (io_goto i Handling (io_result i m))
      | _ \<Rightarrow> None)"

lemma io_next_step: "io_next i l m = Some m' \<Longrightarrow> io_step m m'"
  by (auto simp: io_next_def Let_def intro: io_step.intros split: io_pc.splits option.splits if_splits)

fun io_schedule :: "(nat \<times> bool) list \<Rightarrow> io_machine \<Rightarrow> io_machine option" where
  "io_schedule [] m = Some m"
| "io_schedule ((i, l) # is) m = (case io_next i l m of None \<Rightarrow> None | Some m' \<Rightarrow> io_schedule is m')"

lemma io_schedule_steps: "io_schedule is m = Some m' \<Longrightarrow> io_step\<^sup>*\<^sup>* m m'"
proof (induction "is" m rule: io_schedule.induct)
  case (2 i l "is" m)
  then show ?case
    by (auto split: option.splits intro: converse_rtranclp_into_rtranclp dest: io_next_step)
qed simp

text \<open>Two workers: one holds the lock, the other waits for it.\<close>

definition waiting_calls :: "(nat \<times> bool) list" where
  "waiting_calls = [(0, True), (1, True)] @ replicate 6 (0, True) @ replicate 2 (1, True)"

theorem io_lock_released_witness:
  "\<exists>m m'. io_step\<^sup>*\<^sup>* io_start m \<and> mx_owner (ioLock (im_io m)) = Some 0 \<and> im_pc m 1 = Lock_wait False
     \<and> io_step\<^sup>*\<^sup>* m m' \<and> im_pc m' 0 = No_entry \<and> im_pc m' 1 = No_entry \<and> mx_owner (ioLock (im_io m')) = None"
proof -
  have "case io_schedule waiting_calls io_start of None \<Rightarrow> False
    | Some m \<Rightarrow> mx_owner (ioLock (im_io m)) = Some 0 \<and> im_pc m 1 = Lock_wait False"
    by code_simp
  then obtain m where m: "io_schedule waiting_calls io_start = Some m" "mx_owner (ioLock (im_io m)) = Some 0"
    "im_pc m 1 = Lock_wait False"
    by (auto split: option.splits)
  from io_lock_released [OF io_schedule_steps [OF m(1)]] m(2,3) io_schedule_steps [OF m(1)]
  show ?thesis by blast
qed

text \<open>A worker that called \<open>lockScope\<close> has the lock, but the result it stores is the shared flag,
  which another worker can have cleared meanwhile on its way out of \<open>unLockScope\<close>.\<close>

definition racing_calls :: "(nat \<times> bool) list" where
  "racing_calls = [(0, True), (1, True)] @ replicate 6 (0, True) @ replicate 2 (0, False)
     @ replicate 4 (1, True) @ [(0, False), (1, True), (1, True)]"

theorem io_lock_result_race:
  "\<exists>m sc. io_step\<^sup>*\<^sup>* io_start m \<and> im_pc m 1 = Handling \<and> im_scope m 1 = Some sc \<and> scope_IsLocked sc
     \<and> mx_owner (ioLock (im_io m)) = Some 1 \<and> \<not> im_locked m 1"
proof -
  have "case io_schedule racing_calls io_start of None \<Rightarrow> False
    | Some m \<Rightarrow> im_pc m 1 = Handling \<and> map_option scope_IsLocked (im_scope m 1) = Some True
        \<and> mx_owner (ioLock (im_io m)) = Some 1 \<and> \<not> im_locked m 1"
    by code_simp
  then obtain m where "io_schedule racing_calls io_start = Some m" "im_pc m 1 = Handling"
    "map_option scope_IsLocked (im_scope m 1) = Some True" "mx_owner (ioLock (im_io m)) = Some 1"
    "\<not> im_locked m 1"
    by (auto split: option.splits)
  then show ?thesis using io_schedule_steps by blast
qed

text \<open>The counter of conflicts: \<open>lockScope\<close> counts a call whose own scope is locked already, not one
  that has to wait. When the calls of each worker alternate, as those of \<open>compressFile\<close> do, nothing
  is ever counted, however long the workers wait for each other.\<close>

definition alternating_step :: "io_machine \<Rightarrow> io_machine \<Rightarrow> bool" where
  "alternating_step m m' \<longleftrightarrow> io_step m m'
     \<and> (\<forall>i. im_pc m' i = Lock_test \<longrightarrow> im_pc m i = Lock_test \<or> \<not> map_option scope_IsLocked (im_scope m i) = Some True)"

text \<open>No call in progress found its scope locked.\<close>

definition no_conflict :: "io_pc \<Rightarrow> scope option \<Rightarrow> bool" where
  "no_conflict pc scp \<longleftrightarrow>
     (case pc of Lock_test \<Rightarrow> map_option scope_IsLocked scp \<noteq> Some True
      | Lock_wait b \<Rightarrow> \<not> b | Lock_flag b \<Rightarrow> \<not> b | Lock_count b \<Rightarrow> \<not> b | _ \<Rightarrow> True)"

definition counts_nothing :: "io_machine \<Rightarrow> bool" where
  "counts_nothing m \<longleftrightarrow> lockCounter (ioLock (im_io m)) = 0 \<and> (\<forall>i. no_conflict (im_pc m i) (im_scope m i))"

lemma counts_nothing_goto:
  assumes "counts_nothing m"
    and "no_conflict (im_pc m i) (im_scope m i) \<Longrightarrow> lockCounter (ioLock (im_io m)) = 0 \<Longrightarrow>
      (\<forall>j. j \<noteq> i \<longrightarrow> im_pc m1 j = im_pc m j \<and> im_scope m1 j = im_scope m j)
      \<and> lockCounter (ioLock (im_io m1)) = 0 \<and> no_conflict pc (im_scope m1 i)"
  shows "counts_nothing (io_goto i pc m1)"
proof -
  have m1: "\<forall>j. j \<noteq> i \<longrightarrow> im_pc m1 j = im_pc m j \<and> im_scope m1 j = im_scope m j"
    "lockCounter (ioLock (im_io m1)) = 0" "no_conflict pc (im_scope m1 i)"
    using assms by (auto simp: counts_nothing_def)
  have "no_conflict (im_pc (io_goto i pc m1) j) (im_scope (io_goto i pc m1) j)" for j
    using assms(1) m1 by (cases "j = i") (simp_all add: counts_nothing_def io_goto_def)
  then show ?thesis using m1(2) by (simp add: counts_nothing_def io_goto_def)
qed

lemma counts_nothing_step:
  assumes "alternating_step m m'" and "counts_nothing m"
  shows "counts_nothing m'"
proof -
  have s: "io_step m m'" and a: "\<And>i. im_pc m' i = Lock_test \<Longrightarrow> im_pc m i \<noteq> Lock_test \<Longrightarrow>
      map_option scope_IsLocked (im_scope m i) \<noteq> Some True"
    using assms(1) by (auto simp: alternating_step_def)
  note r = counts_nothing_goto [OF assms(2)]
  from s show ?thesis
  proof cases
    case (call_lock i)
    have "no_conflict Lock_test (im_scope m i)"
      using a [of i] call_lock by (simp add: no_conflict_def io_goto_def)
    then show ?thesis unfolding call_lock(1) using assms(2) by (intro r) (simp add: counts_nothing_def)
  qed (simp only:, rule r,
    (auto simp: io_scope_def io_flag_def io_result_def no_conflict_def scope_defs count_conflict_def Let_def
      split: if_splits)[1])+
qed

theorem contention_not_counted:
  "alternating_step\<^sup>*\<^sup>* io_start m \<Longrightarrow> lockCounter (ioLock (im_io m)) = 0"
proof -
  assume "alternating_step\<^sup>*\<^sup>* io_start m"
  then have "counts_nothing m"
    by (induction rule: rtranclp_induct)
      (auto simp: counts_nothing_def io_start_def no_conflict_def new_io_lock_def new_mutex_def
        dest: counts_nothing_step)
  then show ?thesis by (simp add: counts_nothing_def)
qed

end
