(* ===== verification/ZfsText.thy ===== *)
theory ZfsText
  imports Decimal
begin

text \<open>
  \<open>split\<close> of src/zfsctool.cpp, on one delimiter and on a list of delimiters (\<open>std::getline\<close> on a
  string stream: a delimiter at the end opens no further token).
\<close>

section \<open>Splitting\<close>

function split :: "char \<Rightarrow> string \<Rightarrow> string list" where
  "split delim [] = []"
| "split delim (c # s) =
     takeWhile (\<lambda>x. x \<noteq> delim) (c # s) # split delim (drop 1 (dropWhile (\<lambda>x. x \<noteq> delim) (c # s)))"
  by pat_completeness auto
termination
  by (relation "measure (\<lambda>(_, s). length s)") (auto simp: le_imp_less_Suc length_dropWhile_le less_Suc_eq_le
      intro: order.trans [OF diff_le_self])

text \<open>With a list of delimiters the next one is used for each token, and the last one from then on.\<close>

function split_with :: "char list \<Rightarrow> string \<Rightarrow> string list" where
  "split_with delims [] = []"
| "split_with delims (c # s) =
     (let delim = hd delims
      in takeWhile (\<lambda>x. x \<noteq> delim) (c # s) #
         split_with (if length delims \<le> 1 then delims else tl delims)
           (drop 1 (dropWhile (\<lambda>x. x \<noteq> delim) (c # s))))"
  by pat_completeness auto
termination
  by (relation "measure (\<lambda>(_, s). length s)") (auto simp: le_imp_less_Suc length_dropWhile_le less_Suc_eq_le
      intro: order.trans [OF diff_le_self])

lemma token_end:
  assumes "d \<notin> set s"
  shows "takeWhile (\<lambda>x. x \<noteq> d) s = s" and "dropWhile (\<lambda>x. x \<noteq> d) s = []"
  using assms by (auto simp: takeWhile_eq_all_conv dropWhile_eq_Nil_conv)

lemma split_last: "s \<noteq> [] \<Longrightarrow> d \<notin> set s \<Longrightarrow> split d s = [s]"
  by (cases s) (auto simp: token_end)

lemma split_with_token:
  assumes "t \<noteq> []" and "hd ds \<notin> set t"
  shows "split_with ds (t @ hd ds # rest) = t # split_with (if length ds \<le> 1 then ds else tl ds) rest"
  using assms by (cases t) (auto simp: Let_def takeWhile_append dropWhile_append)

lemma split_with_last: "s \<noteq> [] \<Longrightarrow> hd ds \<notin> set s \<Longrightarrow> split_with ds s = [s]"
  by (cases s) (auto simp: Let_def token_end)

end
