(* ===== verification/ZfsDataset.thy ===== *)
theory ZfsDataset
  imports ZfsText FsTypes
begin

text \<open>
  \<open>ZFSDataSetCompressionInfo\<close> (src/zfsctool.cpp): the compression property of a dataset, which
  the workers change before they rewrite a file and reset when no file is being rewritten any
  more. The commands it runs are a parameter: whether the n-th one is started and exits with 0.
  A \<open>zfs set\<close> that succeeds sets the property, \<open>ds_actual\<close>; one with \<open>echo\<close> before it (in testing
  mode) does not.
\<close>

record dataset =
  ds_name :: string
  poolName :: string
  initialCompression :: string
  currentCompression :: string
  initialSync :: string
  initialCopies :: string
  readOnly :: bool
  refcount :: int
  shuntedIncreases :: int
  shuntedDecreases :: int
  ds_commands :: "string list"
  ds_actual :: string

record engine =
  cmd_ok :: "nat \<Rightarrow> bool"
  zq_quit :: bool

text \<open>The constructor: an empty name has no first component, which the code does not check.\<close>

definition new_dataset :: "string \<Rightarrow> string \<Rightarrow> string \<Rightarrow> string \<Rightarrow> dataset option" where
  "new_dataset name compression sync copies =
     (case split (CHR ''/'') name of
        [] \<Rightarrow> None
      | pool # _ \<Rightarrow>
          Some \<lparr>ds_name = name, poolName = pool, initialCompression = compression,
                currentCompression = compression, initialSync = sync, initialCopies = copies,
                readOnly = False, refcount = 0, shuntedIncreases = 0, shuntedDecreases = 0,
                ds_commands = [], ds_actual = compression\<rparr>)"

definition dataset_of_props :: "string list \<Rightarrow> dataset option" where
  "dataset_of_props props = new_dataset (props ! 0) (props ! 1) (props ! 2) (props ! 3)"

section \<open>Setting the property\<close>

definition set_command :: "bool \<Rightarrow> string \<Rightarrow> string \<Rightarrow> string" where
  "set_command testing newComp name =
     (if testing then ''echo zfs'' else ''zfs'') @ '' set compression='' @ newComp @ '' \"'' @ name @ ''\"''"

definition internal_setCompression :: "engine \<Rightarrow> string \<Rightarrow> dataset \<Rightarrow> bool \<times> dataset" where
  "internal_setCompression e newComp ds =
     (if zq_quit e \<and> newComp \<noteq> initialCompression ds then (False, ds)
      else if currentCompression ds \<noteq> newComp then
        let testing = (newComp = ''test'' \<or> currentCompression ds = ''test'');
            ok = cmd_ok e (length (ds_commands ds));
            ds1 = ds\<lparr>ds_commands := ds_commands ds @ [set_command testing newComp (ds_name ds)]\<rparr>
        in if ok then
             (True, ds1\<lparr>currentCompression := newComp,
                        ds_actual := (if testing then ds_actual ds else newComp)\<rparr>)
           else (False, ds1)
      else (False, ds))"

definition setCompression :: "engine \<Rightarrow> string \<Rightarrow> dataset \<Rightarrow> bool \<times> dataset" where
  "setCompression e newComp ds =
     (let r = internal_setCompression e newComp (ds\<lparr>refcount := refcount ds + 1\<rparr>)
      in (fst r, if fst r then snd r else (snd r)\<lparr>shuntedIncreases := shuntedIncreases (snd r) + 1\<rparr>))"

text \<open>The counter is decremented before the lock is taken: the two parts of the reset.\<close>

definition drop_reference :: "bool \<Rightarrow> dataset \<Rightarrow> bool \<times> dataset" where
  "drop_reference force ds = (refcount ds = 1 \<or> force, ds\<lparr>refcount := refcount ds - 1\<rparr>)"

definition finish_reset :: "engine \<Rightarrow> bool \<Rightarrow> dataset \<Rightarrow> bool \<times> dataset" where
  "finish_reset e wasLast ds =
     (if wasLast then internal_setCompression e (initialCompression ds) ds
      else (False, ds\<lparr>shuntedDecreases := shuntedDecreases ds + 1\<rparr>))"

definition resetCompression :: "engine \<Rightarrow> bool \<Rightarrow> dataset \<Rightarrow> bool \<times> dataset" where
  "resetCompression e force ds =
     (let r = drop_reference force ds in finish_reset e (fst r) (snd r))"

definition delete_dataset :: "engine \<Rightarrow> dataset \<Rightarrow> dataset" where
  "delete_dataset e ds = snd (internal_setCompression e (initialCompression ds) ds)"

text \<open>\<open>sync\<close> runs the command of the platform (not Linux here) and does not touch the property.\<close>

definition dataset_sync :: "engine \<Rightarrow> dataset \<Rightarrow> bool \<times> dataset" where
  "dataset_sync e ds =
     (cmd_ok e (length (ds_commands ds)), ds\<lparr>ds_commands := ds_commands ds @ [''sync'']\<rparr>)"

lemmas dataset_defs = setCompression_def internal_setCompression_def resetCompression_def
  drop_reference_def finish_reset_def Let_def

section \<open>The fields after each operation\<close>

lemma refcount_set: "refcount (snd (setCompression e c ds)) = refcount ds + 1"
  by (simp add: dataset_defs)

lemma initial_kept [simp]:
  "initialCompression (snd (setCompression e c ds)) = initialCompression ds"
  "initialCompression (snd (resetCompression e b ds)) = initialCompression ds"
  by (simp_all add: dataset_defs)

lemma refcount_reset: "refcount (snd (resetCompression e b ds)) = refcount ds - 1"
  by (simp add: dataset_defs)

lemma refcount_finish: "refcount (snd (finish_reset e b ds)) = refcount ds"
  by (simp add: dataset_defs)

lemma refcount_drop: "refcount (snd (drop_reference b ds)) = refcount ds - 1"
  by (simp add: drop_reference_def)

text \<open>When the engine works and nobody quits: what is remembered is what is set.\<close>

lemma internal_set_works:
  assumes "\<forall>n. cmd_ok e n" and "\<not> zq_quit e" and "c \<noteq> ''test''" and "currentCompression ds \<noteq> ''test''"
    and "ds_actual ds = currentCompression ds" and "snd (internal_setCompression e c ds) = ds'"
  shows "currentCompression ds' = c" and "ds_actual ds' = c"
    and "initialCompression ds' = initialCompression ds" and "refcount ds' = refcount ds"
  using assms by (auto simp: internal_setCompression_def Let_def split: if_splits)

lemma set_fields:
  assumes "\<forall>n. cmd_ok e n" and "\<not> zq_quit e" and "c \<noteq> ''test''" and "currentCompression ds \<noteq> ''test''"
    and "ds_actual ds = currentCompression ds"
  shows "currentCompression (snd (setCompression e c ds)) = c"
    and "ds_actual (snd (setCompression e c ds)) = c"
  using internal_set_works [of e c "ds\<lparr>refcount := refcount ds + 1\<rparr>", OF _ _ _ _ _ refl] assms
  by (simp_all add: setCompression_def Let_def)

lemma reset_fields:
  assumes "\<forall>n. cmd_ok e n" and "\<not> zq_quit e" and "initialCompression ds \<noteq> ''test''"
    and "currentCompression ds \<noteq> ''test''" and "ds_actual ds = currentCompression ds"
  shows "currentCompression (snd (resetCompression e False ds))
      = (if refcount ds = 1 then initialCompression ds else currentCompression ds)"
    and "ds_actual (snd (resetCompression e False ds))
      = (if refcount ds = 1 then initialCompression ds else ds_actual ds)"
  using internal_set_works [of e "initialCompression ds" "ds\<lparr>refcount := refcount ds - 1\<rparr>", OF _ _ _ _ _ refl]
    assms
  by (auto simp: resetCompression_def drop_reference_def finish_reset_def Let_def)

section \<open>A setting shared by its users\<close>

text \<open>
  What the workers rely on: taking a reference sets the value, dropping the last one restores
  the base value, dropping another one leaves it.
\<close>

locale shared_setting =
  fixes grab :: "'s \<Rightarrow> 's"
    and release :: "'s \<Rightarrow> 's"
    and users :: "'s \<Rightarrow> int"
    and setting :: "'s \<Rightarrow> 'v"
    and base :: "'s \<Rightarrow> 'v"
    and wanted :: "'s \<Rightarrow> 'v"
    and works :: "'s \<Rightarrow> bool"
  assumes grab_users: "users (grab s) = users s + 1"
    and release_users: "users (release s) = users s - 1"
    and grab_setting: "works s \<Longrightarrow> setting (grab s) = wanted s"
    and release_last: "works s \<Longrightarrow> users s = 1 \<Longrightarrow> setting (release s) = base s"
    and release_other: "works s \<Longrightarrow> 1 < users s \<Longrightarrow> setting (release s) = setting s"
    and keeps: "works s \<Longrightarrow> works (grab s)" "works s \<Longrightarrow> works (release s)"
      "base (grab s) = base s" "base (release s) = base s"
      "wanted (grab s) = wanted s" "wanted (release s) = wanted s"
begin

fun uses :: "bool list \<Rightarrow> 's \<Rightarrow> 's" where
  "uses [] s = s"
| "uses (True # bs) s = uses bs (grab s)"
| "uses (False # bs) s = uses bs (release s)"

fun balanced :: "bool list \<Rightarrow> int \<Rightarrow> bool" where
  "balanced [] n = True"
| "balanced (True # bs) n = balanced bs (n + 1)"
| "balanced (False # bs) n = (0 < n \<and> balanced bs (n - 1))"

lemma uses_setting:
  assumes "works s" and "balanced bs (users s)" and "0 \<le> users s"
    and "setting s = (if users s = 0 then base s else wanted s)"
  shows "0 \<le> users (uses bs s)
    \<and> setting (uses bs s) = (if users (uses bs s) = 0 then base s else wanted s)"
  using assms
proof (induction bs s rule: uses.induct)
  case (1 s)
  then show ?case by simp
next
  case (2 bs s)
  then show ?case by (simp add: grab_users grab_setting keeps)
next
  case (3 bs s)
  have "setting (release s) = (if users s = 1 then base s else wanted s)"
    using 3 by (cases "users s = 1") (auto simp: release_last release_other)
  with 3 show ?case by (simp add: release_users keeps)
qed

end

text \<open>The state of a dataset with the engine and the compression the workers ask for.\<close>

type_synonym setting_state = "engine \<times> string \<times> dataset"

definition st_grab :: "setting_state \<Rightarrow> setting_state" where
  "st_grab = (\<lambda>(e, c, ds). (e, c, snd (setCompression e c ds)))"

definition st_release :: "setting_state \<Rightarrow> setting_state" where
  "st_release = (\<lambda>(e, c, ds). (e, c, snd (resetCompression e False ds)))"

definition st_works :: "setting_state \<Rightarrow> bool" where
  "st_works = (\<lambda>(e, c, ds). (\<forall>n. cmd_ok e n) \<and> \<not> zq_quit e \<and> c \<noteq> ''test'' \<and> initialCompression ds \<noteq> ''test''
     \<and> currentCompression ds \<noteq> ''test'' \<and> ds_actual ds = currentCompression ds)"

interpretation ds: shared_setting st_grab st_release "\<lambda>s. refcount (snd (snd s))"
  "\<lambda>s. ds_actual (snd (snd s))" "\<lambda>s. initialCompression (snd (snd s))" "\<lambda>s. fst (snd s)" st_works
  by unfold_locales (auto simp: st_grab_def st_release_def st_works_def set_fields reset_fields
      refcount_set refcount_reset split: if_splits)

end
