(* ===== verification/ZfsAttr.thy ===== *)
theory ZfsAttr
  imports ZfsDataset CompressFile
begin

text \<open>
  The attribute in which zfsctool notes how and when it rewrote a file (src/zfsctool.cpp):
  \<open>compression@seconds:microseconds\<close>. \<open>None\<close> as a result is the exception \<open>std::stoul\<close> throws.
\<close>

definition XATTR_ZFSCOMPPROP_NAME :: string where
  "XATTR_ZFSCOMPPROP_NAME = ''trusted.ZFSCTool:compress''"

text \<open>The attribute is read twice, for its length and for its value; \<open>None\<close> is a failing call.\<close>

definition getZFSCompAttr :: "byte list option \<Rightarrow> byte list option \<Rightarrow> string list" where
  "getZFSCompAttr first second =
     (case (first, second) of
        (Some a, Some b) \<Rightarrow>
          if a \<noteq> [] \<and> length b = length a then
            let attrs = split_with [CHR ''@'', CHR '':''] (bytes_name b)
            in if length attrs = 3 then attrs else []
          else []
      | _ \<Rightarrow> [])"

text \<open>-1 when there is no valid attribute, else whether it is out of date or of another compression.\<close>

definition checkValidZFSCompAttrAgainst ::
    "byte list option \<Rightarrow> byte list option \<Rightarrow> stat \<Rightarrow> string \<Rightarrow> int option" where
  "checkValidZFSCompAttrAgainst first second st compression =
     (let attrs = getZFSCompAttr first second;
          tv_sec = fst (st_mtimespec st); tv_usec = snd (st_mtimespec st) div 1000 in
      if length attrs = 3 then
        if attrs ! 0 \<noteq> compression then Some 1
        else (case stoul (attrs ! 1) of
            None \<Rightarrow> None
          | Some s \<Rightarrow>
              if s \<noteq> to_ulong tv_sec then Some 1
              else (case stoul (attrs ! 2) of
                  None \<Rightarrow> None
                | Some u \<Rightarrow> Some (if u \<noteq> to_ulong tv_usec then 1 else 0)))
      else Some (-1))"

text \<open>Whether a file may be rewritten; the attribute decides when there is one.\<close>

definition compressionOk ::
    "bool \<Rightarrow> byte list option \<Rightarrow> byte list option \<Rightarrow> dataset \<Rightarrow> stat \<Rightarrow> folder_info \<Rightarrow> bool option" where
  "compressionOk allowReCompress first second info st fi =
     (case checkValidZFSCompAttrAgainst first second st (z_compression fi) of
        None \<Rightarrow> None
      | Some ret \<Rightarrow>
          if 0 \<le> ret then Some (ret \<noteq> 0 \<or> allowReCompress)
          else Some (initialCompression info \<noteq> z_compression fi \<or> allowReCompress
                 \<or> z_compression fi = ''off'' \<and> st_blocks st * S_BLKSIZE < st_size st))"

text \<open>The text \<open>compressFile\<close> writes, cut to its buffer of 42 bytes.\<close>

definition attrval :: "string \<Rightarrow> int \<times> int \<Rightarrow> byte list" where
  "attrval compression tms = name_bytes (take 41
     (compression @ ''@'' @ print_ld (fst tms) @ '':'' @ print_ld (snd tms)))"

lemma getZFSCompAttr_attrval:
  assumes "c \<noteq> []" and "CHR ''@'' \<notin> set c"
    and "length c + length (print_ld a) + length (print_ld b) \<le> 39"
  shows "getZFSCompAttr (Some (attrval c (a, b))) (Some (attrval c (a, b))) = [c, print_ld a, print_ld b]"
proof -
  define t where "t = c @ CHR ''@'' # print_ld a @ CHR '':'' # print_ld b"
  have "length t \<le> 41" using assms(3) by (simp add: t_def)
  then have v: "attrval c (a, b) = name_bytes t" by (simp add: attrval_def t_def)
  have "split_with [CHR ''@'', CHR '':''] t = c # split_with [CHR '':''] (print_ld a @ CHR '':'' # print_ld b)"
    using split_with_token [of c "[CHR ''@'', CHR '':'']"] assms(1,2) by (simp add: t_def)
  moreover have "split_with [CHR '':''] (print_ld a @ CHR '':'' # print_ld b)
      = print_ld a # split_with [CHR '':''] (print_ld b)"
    using split_with_token [of "print_ld a" "[CHR '':'']"] print_ld_chars [of _ a] by auto
  moreover have "split_with [CHR '':''] (print_ld b) = [print_ld b]"
    using print_ld_chars [of _ b] by (intro split_with_last) auto
  moreover have "t \<noteq> []" "name_bytes t \<noteq> []" by (simp_all add: t_def name_bytes_def)
  ultimately show ?thesis by (simp add: getZFSCompAttr_def v Let_def)
qed

text \<open>What the check says of an attribute that was written for the given times.\<close>

lemma check_attrval:
  assumes "c \<noteq> []" and "CHR ''@'' \<notin> set c"
    and "length c + length (print_ld a) + length (print_ld b) \<le> 39"
    and "- (2 ^ 63) \<le> a" and "a < 2 ^ 63" and "- (2 ^ 63) \<le> b" and "b < 2 ^ 63"
  shows "checkValidZFSCompAttrAgainst (Some (attrval c (a, b))) (Some (attrval c (a, b))) st c' =
    Some (if c' = c \<and> to_ulong (fst (st_mtimespec st)) = to_ulong a
            \<and> to_ulong (snd (st_mtimespec st) div 1000) = to_ulong b then 0 else 1)"
  using assms(4-7)
  by (auto simp: checkValidZFSCompAttrAgainst_def getZFSCompAttr_attrval [OF assms(1-3)] Let_def stoul_print_ld)

end
