(* ===== verification/ZfsFile.thy ===== *)
theory ZfsFile
  imports ZfsAttr
begin

text \<open>
  \<open>compressFile\<close> of src/zfsctool.cpp: a file is compressed by rewriting its data while the dataset
  has the wanted compression. The file is a node as in \<open>CompressFile\<close>; each system call whose
  failure the code handles has a site, and the data that the dataset holds after the rewrite is
  a parameter (\<open>z_stored\<close>), as is what a failing \<open>write\<close> leaves (\<open>z_partial\<close>).
\<close>

datatype zsite = Z_chmod_w | Z_chmod_r | Z_open | Z_malloc | Z_read | Z_backup_name | Z_backup_create
  | Z_backup_write | Z_truncate | Z_write | Z_open_check | Z_map_check | Z_fopen_again | Z_fwrite_again
  | Z_setxattr | Z_chmod_restore

text \<open>\<open>z_fatal\<close>: the \<open>errno\<close> of a failing write is EIO, EDQUOT or ENOSPC.\<close>

record zenv =
  z_fails :: "zsite \<Rightarrow> bool"
  z_engine :: engine
  z_exclusive_io :: bool
  z_has_worker :: bool
  z_quickReset :: bool
  z_stored :: "byte list \<Rightarrow> byte list"
  z_partial :: "byte list \<Rightarrow> byte list"
  z_fatal :: bool
  z_blocks :: "fnode \<Rightarrow> int"

text \<open>
  \<open>z_bak_mode\<close> is \<open>inFileInfoBak.st_mode\<close>, arbitrary until it is assigned; \<open>z_backup\<close> the
  contents of the backup file while it exists.
\<close>

record zworld =
  z_node :: fnode
  z_info :: stat
  z_bak_mode :: uint16
  z_backup :: "byte list option"
  z_backupName :: bool
  z_locked :: bool
  z_skipped :: int
  z_ds :: dataset

type_synonym zstep = "(exit \<times> zworld) + zworld"

section \<open>System calls\<close>

definition zc_lstat :: "zenv \<Rightarrow> zworld \<Rightarrow> zworld" where
  "zc_lstat e w = w\<lparr>z_info := (z_info w)\<lparr>st_mode := f_mode (z_node w),
     st_size := int (length (f_data (z_node w))), st_blocks := z_blocks e (z_node w)\<rparr>\<rparr>"

definition zc_set_mode :: "zenv \<Rightarrow> zsite \<Rightarrow> uint16 \<Rightarrow> zworld \<Rightarrow> zworld" where
  "zc_set_mode e s m w = (if z_fails e s then w else w\<lparr>z_node := (z_node w)\<lparr>f_mode := m\<rparr>\<rparr>)"

definition zc_utimes :: "(int \<times> int) \<times> (int \<times> int) \<Rightarrow> zworld \<Rightarrow> zworld" where
  "zc_utimes tms w = w\<lparr>z_node := (z_node w)\<lparr>f_times := tms\<rparr>\<rparr>"

definition zc_put_data :: "byte list \<Rightarrow> zworld \<Rightarrow> zworld" where
  "zc_put_data d w = w\<lparr>z_node := (z_node w)\<lparr>f_data := d\<rparr>\<rparr>"

text \<open>\<open>setxattr\<close> without \<open>XATTR_CREATE\<close> replaces the attribute.\<close>

definition put_xattr :: "string \<Rightarrow> byte list \<Rightarrow> (string \<times> byte list) list \<Rightarrow> (string \<times> byte list) list" where
  "put_xattr n v xs = filter (\<lambda>x. fst x \<noteq> n) xs @ [(n, v)]"

section \<open>The steps\<close>

definition zc_refused :: "folder_info \<Rightarrow> dataset \<Rightarrow> int \<Rightarrow> bool" where
  "zc_refused fi ds filesize \<longleftrightarrow> readOnly ds \<or> filesize = 0 \<or> filesize > 2 ^ 31
     \<or> filesize > maxSize fi \<and> maxSize fi \<noteq> 0"

definition zc_chmod :: "zenv \<Rightarrow> bool \<Rightarrow> uint16 \<Rightarrow> zworld \<Rightarrow> zworld" where
  "zc_chmod e testing orig_mode w =
     (if testing then w
      else
        let w1 = (if orig_mode AND S_IWUSR = 0
                  then zc_lstat e (zc_set_mode e Z_chmod_w (orig_mode OR S_IWUSR) w) else w)
        in if orig_mode AND S_IRUSR = 0
           then zc_lstat e (zc_set_mode e Z_chmod_r (orig_mode OR S_IRUSR) w1) else w1)"

text \<open>Opening and reading; the result is the input buffer.\<close>

definition zc_read ::
    "zenv \<Rightarrow> nat \<Rightarrow> (int \<times> int) \<times> (int \<times> int) \<Rightarrow> zworld \<Rightarrow> (exit \<times> zworld) + byte list" where
  "zc_read e filesize tms w =
     (if z_fails e Z_open then Inl (Bailed, w\<lparr>z_skipped := z_skipped w + 1\<rparr>)
      else if z_fails e Z_malloc then Inl (Returned, zc_utimes tms w)
      else if z_fails e Z_read \<or> length (f_data (z_node w)) < filesize then Inl (Returned, zc_utimes tms w)
      else Inr (take filesize (f_data (z_node w))))"

definition zc_backup :: "zenv \<Rightarrow> folder_info \<Rightarrow> byte list \<Rightarrow> zworld \<Rightarrow> zstep" where
  "zc_backup e fi inBuf w =
     (if \<not> backup_file fi then Inr w
      else if z_fails e Z_backup_name then Inl (Bailed, w)
      else if z_fails e Z_backup_create then Inl (Bailed, w\<lparr>z_backupName := True\<rparr>)
      else if z_fails e Z_backup_write then Inl (Bailed, w\<lparr>z_backupName := True, z_backup := Some []\<rparr>)
      else Inr (w\<lparr>z_backupName := True, z_backup := Some inBuf\<rparr>))"

definition zc_lock :: "zenv \<Rightarrow> zworld \<Rightarrow> zworld" where
  "zc_lock e w = (if z_exclusive_io e \<and> z_has_worker e then w\<lparr>z_locked := True\<rparr> else w)"

text \<open>The rewrite: a write that fails keeps the backup, and may end all rewrites on the dataset.\<close>

definition zc_rewrite :: "zenv \<Rightarrow> bool \<Rightarrow> byte list \<Rightarrow> zworld \<Rightarrow> zstep" where
  "zc_rewrite e testing inBuf w =
     (if testing then Inr w
      else
        let old = (if z_fails e Z_truncate then f_data (z_node w) else []) in
        if z_fails e Z_write then
          Inl (Bailed, (zc_put_data (z_partial e inBuf) w)\<lparr>z_backupName := False,
            z_ds := (if z_fatal e then (z_ds w)\<lparr>readOnly := True\<rparr> else z_ds w)\<rparr>)
        else Inr (zc_put_data (z_stored e (inBuf @ drop (length inBuf) old)) w))"

definition zc_stat_again :: "zenv \<Rightarrow> zworld \<Rightarrow> zworld" where
  "zc_stat_again e w = zc_lstat e (w\<lparr>z_bak_mode := st_mode (z_info w)\<rparr>)"

text \<open>The second write after a failed check; when it fails the backup is kept.\<close>

definition zc_write_again :: "zenv \<Rightarrow> byte list \<Rightarrow> zworld \<Rightarrow> zstep" where
  "zc_write_again e inBuf w =
     (if z_fails e Z_fopen_again then Inl (Bailed, w\<lparr>z_backupName := False\<rparr>)
      else if z_fails e Z_fwrite_again then
        Inl (Bailed, (zc_put_data (z_partial e inBuf) w)\<lparr>z_backupName := False\<rparr>)
      else Inr (zc_put_data inBuf w))"

text \<open>A mapping that fails is \<open>MAP_FAILED\<close>, which the code takes for a buffer.\<close>

definition zc_check :: "zenv \<Rightarrow> folder_info \<Rightarrow> byte list \<Rightarrow> zworld \<Rightarrow> zstep" where
  "zc_check e fi inBuf w =
     (if \<not> check_files fi then Inr w
      else
        let filesize = int (length inBuf); sizeMismatch = (st_size (z_info w) \<noteq> filesize) in
        if z_fails e Z_open_check then zc_write_again e inBuf w
        else if \<not> sizeMismatch \<and> z_fails e Z_map_check then Inl (Crashed, w)
        else if sizeMismatch \<or> take (length inBuf) (f_data (z_node w)) \<noteq> inBuf then zc_write_again e inBuf w
        else Inr w)"

definition zc_note ::
    "zenv \<Rightarrow> folder_info \<Rightarrow> bool \<Rightarrow> (int \<times> int) \<times> (int \<times> int) \<Rightarrow> zworld \<Rightarrow> zworld" where
  "zc_note e fi testing tms w =
     (if testing \<or> z_fails e Z_setxattr then w
      else w\<lparr>z_node := (z_node w)\<lparr>f_xattrs :=
        put_xattr XATTR_ZFSCOMPPROP_NAME (attrval (z_compression fi) (snd tms)) (f_xattrs (z_node w))\<rparr>\<rparr>)"

definition zc_release :: "zenv \<Rightarrow> zworld \<Rightarrow> zworld" where
  "zc_release e w =
     (if z_quickReset e then w\<lparr>z_ds := snd (resetCompression (z_engine e) False (z_ds w))\<rparr> else w)"

section \<open>The function\<close>

text \<open>The common exit.\<close>

definition zc_bail ::
    "zenv \<Rightarrow> bool \<Rightarrow> uint16 \<Rightarrow> (int \<times> int) \<times> (int \<times> int) \<Rightarrow> zworld \<Rightarrow> zworld" where
  "zc_bail e testing orig_mode tms w =
     (let w1 = (if testing then w
                else let w0 = zc_utimes tms w
                     in if z_bak_mode w0 \<noteq> orig_mode then zc_set_mode e Z_chmod_restore orig_mode w0 else w0);
          w2 = w1\<lparr>z_locked := False\<rparr>
      in if z_backupName w2 then w2\<lparr>z_backup := None, z_backupName := False\<rparr> else w2)"

definition zc_body :: "zenv \<Rightarrow> folder_info \<Rightarrow> bool \<Rightarrow> (int \<times> int) \<times> (int \<times> int) \<Rightarrow> zworld \<Rightarrow> zstep" where
  "zc_body e fi testing tms w =
     bindE (zc_read e (nat (st_size (z_info w))) tms (zc_chmod e testing (st_mode (z_info w)) w)) (\<lambda>inBuf.
     bindE (zc_backup e fi inBuf (zc_chmod e testing (st_mode (z_info w)) w)) (\<lambda>w2.
     bindE (zc_rewrite e testing inBuf ((zc_lock e w2)\<lparr>z_ds :=
              snd (setCompression (z_engine e) (z_compression fi) (z_ds w2))\<rparr>)) (\<lambda>w3.
     bindE (zc_check e fi inBuf (zc_stat_again e w3)) (\<lambda>w4.
     Inr (zc_release e (zc_note e fi testing tms w4))))))"

text \<open>For a dataset \<open>fileIsCompressable\<close> returned (\<open>z_ds\<close>).\<close>

definition zfs_compressFile :: "zenv \<Rightarrow> folder_info \<Rightarrow> zworld \<Rightarrow> exit \<times> zworld" where
  "zfs_compressFile e fi w =
     (let testing = (z_compression fi = ''test''); tms = usec_times (z_info w);
          orig_mode = st_mode (z_info w) in
      if zq_quit (z_engine e) \<or> zc_refused fi (z_ds w) (st_size (z_info w)) then (Returned, w)
      else (case zc_body e fi testing tms w of
          Inl (Bailed, w') \<Rightarrow> (Returned, zc_bail e testing orig_mode tms w')
        | Inl r \<Rightarrow> r
        | Inr w' \<Rightarrow> (Returned, zc_bail e testing orig_mode tms w')))"

lemmas zc_sys_defs = zc_lstat_def zc_set_mode_def zc_utimes_def zc_put_data_def

end
