(* ===== verification/ZfsRace.thy ===== *)
theory ZfsRace
  imports ZfsDataset
begin

text \<open>
  The workers of zfsctool that share a dataset, interleaved: \<open>setCompression\<close> runs under the
  lock of the dataset, \<open>resetCompression\<close> decrements the counter first and takes the lock after.
\<close>

datatype user_pc = Z_idle | Z_using | Z_dropped bool

record users_state =
  zu_pc :: "user_pc list"
  zu_ds :: dataset

inductive user_step :: "engine \<Rightarrow> string \<Rightarrow> users_state \<Rightarrow> users_state \<Rightarrow> bool" for e c where
  take_reference: "i < length (zu_pc s) \<Longrightarrow> zu_pc s ! i = Z_idle \<Longrightarrow>
    user_step e c s (s\<lparr>zu_pc := (zu_pc s)[i := Z_using], zu_ds := snd (setCompression e c (zu_ds s))\<rparr>)"
| leave_reference: "i < length (zu_pc s) \<Longrightarrow> zu_pc s ! i = Z_using \<Longrightarrow>
    user_step e c s (s\<lparr>zu_pc := (zu_pc s)[i := Z_dropped (fst (drop_reference False (zu_ds s)))],
      zu_ds := snd (drop_reference False (zu_ds s))\<rparr>)"
| restore_setting: "i < length (zu_pc s) \<Longrightarrow> zu_pc s ! i = Z_dropped final \<Longrightarrow>
    user_step e c s (s\<lparr>zu_pc := (zu_pc s)[i := Z_idle], zu_ds := snd (finish_reset e final (zu_ds s))\<rparr>)"

definition users_start :: "nat \<Rightarrow> dataset \<Rightarrow> users_state" where
  "users_start n ds = \<lparr>zu_pc = replicate n Z_idle, zu_ds = ds\<rparr>"

definition user_count :: "users_state \<Rightarrow> nat" where
  "user_count s = length (filter (\<lambda>p. p = Z_using) (zu_pc s))"

lemma count_update:
  assumes "i < length xs"
  shows "int (length (filter P (xs[i := y]))) =
    int (length (filter P xs)) - (if P (xs ! i) then 1 else 0) + (if P y then 1 else 0)"
proof -
  have "filter P xs = filter P (take i xs) @ filter P [xs ! i] @ filter P (drop (Suc i) xs)"
    by (subst id_take_nth_drop [OF assms]) simp
  moreover have "filter P (xs[i := y]) = filter P (take i xs) @ filter P [y] @ filter P (drop (Suc i) xs)"
    using assms by (simp add: upd_conv_take_nth_drop)
  ultimately show ?thesis by simp
qed

text \<open>The counter counts the users, under every interleaving.\<close>

lemma refcount_counts:
  assumes "(user_step e c)\<^sup>*\<^sup>* (users_start n ds) s" and "refcount ds = 0"
  shows "refcount (zu_ds s) = int (user_count s)"
  using assms(1)
proof (induction rule: rtranclp_induct)
  case base
  then show ?case using assms(2) by (simp add: users_start_def user_count_def)
next
  case (step s t)
  from step.hyps(2) show ?case
    using step.IH
    by cases (auto simp: user_count_def count_update refcount_set refcount_finish refcount_drop)
qed

section \<open>The race\<close>

text \<open>A user leaves, another comes before the first one has restored the setting.\<close>

definition race_ds :: "engine \<Rightarrow> string \<Rightarrow> dataset \<Rightarrow> nat \<Rightarrow> dataset" where
  "race_ds e c ds k =
     (let d1 = snd (setCompression e c ds);
          d2 = snd (drop_reference False d1);
          d3 = snd (setCompression e c d2);
          d4 = snd (finish_reset e True d3)
      in [ds, d1, d2, d3, d4] ! k)"

definition race_pc :: "nat \<Rightarrow> user_pc list" where
  "race_pc k = [[Z_idle, Z_idle], [Z_using, Z_idle], [Z_dropped True, Z_idle],
     [Z_dropped True, Z_using], [Z_idle, Z_using]] ! k"

definition race_state :: "engine \<Rightarrow> string \<Rightarrow> dataset \<Rightarrow> nat \<Rightarrow> users_state" where
  "race_state e c ds k = \<lparr>zu_pc = race_pc k, zu_ds = race_ds e c ds k\<rparr>"

lemma race_step:
  assumes "refcount ds = 0"
  shows "k < 4 \<Longrightarrow> user_step e c (race_state e c ds k) (race_state e c ds (Suc k))"
proof -
  let ?s = "race_state e c ds"
  have "user_step e c (?s 0) (?s 1)"
    using take_reference [of 0 "?s 0" e c] by (simp add: race_state_def race_pc_def race_ds_def)
  moreover have "user_step e c (?s 1) (?s 2)"
    using leave_reference [of 0 "?s 1" e c] assms
    by (simp add: race_state_def race_pc_def race_ds_def drop_reference_def refcount_set)
  moreover have "user_step e c (?s 2) (?s 3)"
    using take_reference [of 1 "?s 2" e c] by (simp add: race_state_def race_pc_def race_ds_def)
  moreover have "user_step e c (?s 3) (?s 4)"
    using restore_setting [of 0 "?s 3" True e c] by (simp add: race_state_def race_pc_def race_ds_def)
  ultimately show "k < 4 \<Longrightarrow> user_step e c (?s k) (?s (Suc k))"
    by (auto simp: less_Suc_eq numeral_eq_Suc)
qed

lemma race_reachable:
  assumes "refcount ds = 0"
  shows "k \<le> 4 \<Longrightarrow> (user_step e c)\<^sup>*\<^sup>* (race_state e c ds 0) (race_state e c ds k)"
proof (induction k)
  case 0
  then show ?case by simp
next
  case (Suc k)
  then show ?case
    using race_step [OF assms, of k] by (meson Suc_le_lessD less_imp_le rtranclp.rtrancl_into_rtrancl)
qed

lemma race_start: "race_state e c ds 0 = users_start 2 ds"
  by (simp add: race_state_def race_pc_def race_ds_def users_start_def numeral_2_eq_2)

lemma race_end:
  assumes "st_works (e, c, ds)"
  shows "ds_actual (race_ds e c ds 4) = initialCompression ds"
proof -
  define d2 where "d2 = snd (drop_reference False (snd (setCompression e c ds)))"
  define d3 where "d3 = snd (setCompression e c d2)"
  have e: "\<forall>n. cmd_ok e n" "\<not> zq_quit e" "c \<noteq> ''test''" "initialCompression ds \<noteq> ''test''"
    and ds: "currentCompression ds \<noteq> ''test''" "ds_actual ds = currentCompression ds"
    using assms by (simp_all add: st_works_def)
  have d2: "currentCompression d2 = c" "ds_actual d2 = c" "initialCompression d2 = initialCompression ds"
    using set_fields [OF e(1-3) ds] by (simp_all add: d2_def drop_reference_def)
  have "currentCompression d2 \<noteq> ''test''" "ds_actual d2 = currentCompression d2" using d2 e(3) by simp_all
  from set_fields [OF e(1-3) this]
  have d3: "currentCompression d3 = c" "ds_actual d3 = c" "initialCompression d3 = initialCompression ds"
    using d2(3) by (simp_all add: d3_def)
  have t: "currentCompression d3 \<noteq> ''test''" "ds_actual d3 = currentCompression d3" using d3 e(3) by simp_all
  have "ds_actual (snd (finish_reset e True d3)) = initialCompression ds"
    using internal_set_works(2) [OF e(1,2,4) t refl] by (simp add: finish_reset_def d3(3))
  then show ?thesis by (simp add: race_ds_def Let_def d2_def d3_def)
qed

text \<open>C39: the counter of a dataset is decremented before its lock is taken, so a worker can be
  rewriting its file (the counter is 1) while the dataset has its initial compression again, the
  one the user asked to replace.\<close>

theorem dataset_reset_race:
  assumes "st_works (e, c, ds)" and "refcount ds = 0" and "initialCompression ds \<noteq> c"
  shows "\<exists>s. (user_step e c)\<^sup>*\<^sup>* (users_start 2 ds) s \<and> zu_pc s ! 1 = Z_using
    \<and> refcount (zu_ds s) = 1 \<and> ds_actual (zu_ds s) = initialCompression ds \<and> ds_actual (zu_ds s) \<noteq> c"
proof -
  let ?t = "race_state e c ds 4"
  have r: "(user_step e c)\<^sup>*\<^sup>* (users_start 2 ds) ?t"
    using race_reachable [OF assms(2), of 4] by (simp add: race_start)
  moreover have "refcount (zu_ds ?t) = 1"
    using refcount_counts [OF r assms(2)] by (simp add: race_state_def race_pc_def user_count_def)
  moreover have "zu_pc ?t ! 1 = Z_using" by (simp add: race_state_def race_pc_def)
  ultimately show ?thesis
    using race_end [OF assms(1)] assms(3) by (auto simp: race_state_def)
qed

definition steady_engine :: engine where
  "steady_engine = \<lparr>cmd_ok = (\<lambda>_. True), zq_quit = False\<rparr>"

definition tank :: dataset where
  "tank = the (new_dataset ''tank/data'' ''off'' ''standard'' ''1'')"

lemma tank_simps [simp]:
  "initialCompression tank = ''off''" "currentCompression tank = ''off''" "ds_actual tank = ''off''"
  "refcount tank = 0" "poolName tank = ''tank''"
  by (simp_all add: tank_def new_dataset_def)

theorem dataset_reset_race_witness:
  "\<exists>s. (user_step steady_engine ''lz4'')\<^sup>*\<^sup>* (users_start 2 tank) s \<and> zu_pc s ! 1 = Z_using
    \<and> refcount (zu_ds s) = 1 \<and> ds_actual (zu_ds s) = ''off''"
  using dataset_reset_race [of steady_engine "''lz4''" tank]
  by (auto simp: st_works_def steady_engine_def)

end
