(* ===== verification/ZfsProperties.thy ===== *)
theory ZfsProperties
  imports ZfsFile ZfsRace FileTypes
begin

text \<open>
  What rewriting a file on a ZFS dataset keeps, which file is rewritten again, and the reference
  a failing write leaves on the dataset.
\<close>

section \<open>Frames\<close>

lemma zc_chmod_frame [simp]:
  "f_data (z_node (zc_chmod e t m w)) = f_data (z_node w)"
  "f_times (z_node (zc_chmod e t m w)) = f_times (z_node w)"
  "f_xattrs (z_node (zc_chmod e t m w)) = f_xattrs (z_node w)"
  "z_backup (zc_chmod e t m w) = z_backup w" "z_backupName (zc_chmod e t m w) = z_backupName w"
  "z_ds (zc_chmod e t m w) = z_ds w"
  by (simp_all add: zc_chmod_def zc_sys_defs Let_def)

lemma zc_lock_frame [simp]:
  "z_node (zc_lock e w) = z_node w" "z_backup (zc_lock e w) = z_backup w"
  "z_backupName (zc_lock e w) = z_backupName w" "z_ds (zc_lock e w) = z_ds w"
  by (simp_all add: zc_lock_def)

lemma zc_stat_again_frame [simp]:
  "z_node (zc_stat_again e w) = z_node w" "z_backup (zc_stat_again e w) = z_backup w"
  "z_backupName (zc_stat_again e w) = z_backupName w" "z_ds (zc_stat_again e w) = z_ds w"
  "st_size (z_info (zc_stat_again e w)) = int (length (f_data (z_node w)))"
  by (simp_all add: zc_stat_again_def zc_lstat_def)

lemma zc_note_frame [simp]:
  "f_data (z_node (zc_note e fi t tms w)) = f_data (z_node w)"
  "z_backup (zc_note e fi t tms w) = z_backup w" "z_backupName (zc_note e fi t tms w) = z_backupName w"
  "z_ds (zc_note e fi t tms w) = z_ds w"
  by (simp_all add: zc_note_def)

lemma zc_release_frame [simp]:
  "z_node (zc_release e w) = z_node w" "z_backup (zc_release e w) = z_backup w"
  "z_backupName (zc_release e w) = z_backupName w"
  by (simp_all add: zc_release_def)

lemma zc_bail_frame:
  "f_data (z_node (zc_bail e t m tms w)) = f_data (z_node w)"
  "z_backup (zc_bail e t m tms w) = (if z_backupName w then None else z_backup w)"
  "z_ds (zc_bail e t m tms w) = z_ds w"
  by (simp_all add: zc_bail_def zc_sys_defs Let_def)

section \<open>The data survives\<close>

text \<open>What a step leaves: the data is there, or a backup that the exit does not remove.\<close>

definition recoverable :: "byte list \<Rightarrow> zworld \<Rightarrow> bool" where
  "recoverable d w \<longleftrightarrow> f_data (z_node w) = d \<or> z_backup w = Some d \<and> \<not> z_backupName w"

definition step_safe :: "byte list \<Rightarrow> (zworld \<Rightarrow> bool) \<Rightarrow> zstep \<Rightarrow> bool" where
  "step_safe d P r \<longleftrightarrow>
     (case r of Inl (x, w) \<Rightarrow> recoverable d w \<or> x \<noteq> Bailed \<and> z_backup w = Some d | Inr w \<Rightarrow> P w)"

lemma step_safe_bind:
  assumes "step_safe d P r" and "\<And>w. P w \<Longrightarrow> step_safe d Q (f w)"
  shows "step_safe d Q (bindE r f)"
  using assms by (cases r) (auto simp: step_safe_def split: sum.splits)

lemma zc_read_keeps:
  "f_data (z_node w) = d \<Longrightarrow>
   case zc_read e (length d) tms w of Inl r \<Rightarrow> f_data (z_node (snd r)) = d | Inr b \<Rightarrow> b = d"
  by (simp add: zc_read_def zc_utimes_def)

lemma zc_backup_safe:
  "f_data (z_node w) = d \<Longrightarrow> backup_file fi \<Longrightarrow>
   step_safe d (\<lambda>w. f_data (z_node w) = d \<and> z_backup w = Some d) (zc_backup e fi d w)"
  by (simp add: zc_backup_def step_safe_def recoverable_def)

lemma zc_rewrite_safe:
  assumes "f_data (z_node w) = d" and "z_backup w = Some d"
    and "check_files fi \<or> (\<forall>x. z_stored e x = x)"
  shows "step_safe d (\<lambda>w. z_backup w = Some d \<and> (check_files fi \<or> f_data (z_node w) = d))
    (zc_rewrite e t d w)"
  using assms by (auto simp: zc_rewrite_def step_safe_def recoverable_def zc_put_data_def Let_def)

lemma zc_check_safe:
  assumes "z_backup w = Some d" and "check_files fi \<or> f_data (z_node w) = d"
    and "st_size (z_info w) = int (length (f_data (z_node w)))"
  shows "step_safe d (\<lambda>w. f_data (z_node w) = d) (zc_check e fi d w)"
  using assms
  by (auto simp: zc_check_def zc_write_again_def step_safe_def recoverable_def zc_put_data_def Let_def)

lemma zc_body_safe:
  assumes "f_data (z_node w) = d" and "st_size (z_info w) = int (length d)" and "backup_file fi"
    and "check_files fi \<or> (\<forall>x. z_stored e x = x)"
  shows "step_safe d (\<lambda>w. f_data (z_node w) = d) (zc_body e fi t tms w)"
proof -
  let ?w1 = "zc_chmod e t (st_mode (z_info w)) w"
  have n: "nat (st_size (z_info w)) = length d" using assms(2) by simp
  have r: "case zc_read e (length d) tms ?w1 of Inl r \<Rightarrow> f_data (z_node (snd r)) = d | Inr b \<Rightarrow> b = d"
    using assms(1) by (intro zc_read_keeps) simp
  show ?thesis
  proof (cases "zc_read e (length d) tms ?w1")
    case (Inl x)
    then show ?thesis using r by (cases x) (simp add: zc_body_def n step_safe_def recoverable_def)
  next
    case (Inr b)
    then have 2: "zc_read e (length d) tms ?w1 = Inr d" using r by simp
    have "step_safe d (\<lambda>w. f_data (z_node w) = d)
      (bindE (zc_backup e fi d ?w1) (\<lambda>w2.
       bindE (zc_rewrite e t d ((zc_lock e w2)\<lparr>z_ds :=
              snd (setCompression (z_engine e) (z_compression fi) (z_ds w2))\<rparr>)) (\<lambda>w3.
       bindE (zc_check e fi d (zc_stat_again e w3)) (\<lambda>w4.
       Inr (zc_release e (zc_note e fi t tms w4))))))"
    proof (rule step_safe_bind [OF zc_backup_safe])
      show "f_data (z_node ?w1) = d" "backup_file fi" using assms(1,3) by simp_all
      fix w2 :: zworld assume w2: "f_data (z_node w2) = d \<and> z_backup w2 = Some d"
      let ?v = "(zc_lock e w2)\<lparr>z_ds := snd (setCompression (z_engine e) (z_compression fi) (z_ds w2))\<rparr>"
      show "step_safe d (\<lambda>w. f_data (z_node w) = d) (bindE (zc_rewrite e t d ?v) (\<lambda>w3.
         bindE (zc_check e fi d (zc_stat_again e w3)) (\<lambda>w4. Inr (zc_release e (zc_note e fi t tms w4)))))"
      proof (rule step_safe_bind [OF zc_rewrite_safe [OF _ _ assms(4)]])
        show "f_data (z_node ?v) = d" "z_backup ?v = Some d" using w2 by simp_all
        fix w3 :: zworld assume w3: "z_backup w3 = Some d \<and> (check_files fi \<or> f_data (z_node w3) = d)"
        show "step_safe d (\<lambda>w. f_data (z_node w) = d)
          (bindE (zc_check e fi d (zc_stat_again e w3)) (\<lambda>w4. Inr (zc_release e (zc_note e fi t tms w4))))"
          using w3 by (intro step_safe_bind [OF zc_check_safe]) (auto simp: step_safe_def)
      qed
    qed
    then show ?thesis by (simp add: zc_body_def n 2)
  qed
qed

text \<open>Rewriting a file with a backup never loses its data, whichever calls fail and whatever
  the dataset stores: with the file check on (or on storage that keeps what is written) the file
  holds its data again or the backup does, and is not removed.\<close>

theorem zfs_compress_keeps_data:
  assumes "f_data (z_node w) = d" and "st_size (z_info w) = int (length d)" and "backup_file fi"
    and "check_files fi \<or> (\<forall>x. z_stored e x = x)"
    and "zfs_compressFile e fi w = (x, w')"
  shows "f_data (z_node w') = d \<or> z_backup w' = Some d"
proof -
  let ?t = "z_compression fi = ''test''" and ?tms = "usec_times (z_info w)"
  have s: "step_safe d (\<lambda>w. f_data (z_node w) = d) (zc_body e fi ?t ?tms w)"
    using assms(1-4) by (rule zc_body_safe)
  show ?thesis
    using assms(1,5) s
    by (auto simp: zfs_compressFile_def Let_def step_safe_def recoverable_def zc_bail_frame
        split: sum.splits prod.splits exit.splits if_splits)
qed

definition sample_zenv :: zenv where
  "sample_zenv = \<lparr>z_fails = (\<lambda>_. False), z_engine = steady_engine, z_exclusive_io = True,
     z_has_worker = True, z_quickReset = True, z_stored = (\<lambda>d. d), z_partial = (\<lambda>d. take 1 d),
     z_fatal = True, z_blocks = (\<lambda>_. 1)\<rparr>"

definition sample_zworld :: zworld where
  "sample_zworld = \<lparr>z_node = \<lparr>f_data = [1, 2, 3], f_xattrs = [(''user.note'', [1])], f_flags = 0,
       f_mode = 0x81A4, f_times = ((5, 6), (7, 8))\<rparr>,
     z_info = \<lparr>st_mode = 0x81A4, st_size = 3, st_blocks = 8, st_blksize = 4096, st_flags = 0,
       st_ino = 1, st_nlink = 1, st_atimespec = (5, 6000), st_mtimespec = (7, 8000)\<rparr>,
     z_bak_mode = 0, z_backup = None, z_backupName = False, z_locked = False, z_skipped = 0, z_ds = tank\<rparr>"

definition sample_zinfo :: folder_info where
  "sample_zinfo = empty_info\<lparr>check_files := True, backup_file := True, z_compression := ''lz4''\<rparr>"

theorem zfs_compress_keeps_data_witness:
  "let w' = snd (zfs_compressFile (sample_zenv\<lparr>z_fails := (\<lambda>s. s = Z_write)\<rparr>) sample_zinfo sample_zworld)
   in f_data (z_node w') \<noteq> [1, 2, 3] \<longrightarrow> z_backup w' = Some [1, 2, 3]"
  using zfs_compress_keeps_data [of sample_zworld "[1, 2, 3]" sample_zinfo
      "sample_zenv\<lparr>z_fails := (\<lambda>s. s = Z_write)\<rparr>", OF _ _ _ _ prod.collapse [symmetric]]
  by (auto simp: Let_def sample_zworld_def sample_zinfo_def)

section \<open>Runs without failing calls\<close>

definition quiet_zenv :: "zenv \<Rightarrow> bool" where
  "quiet_zenv e \<longleftrightarrow> (\<forall>s. \<not> z_fails e s)"

text \<open>Every step goes on, keeps the attributes and the times, and sets the property once.\<close>

lemma zc_steps_go_on:
  assumes "quiet_zenv e"
  shows "length d \<le> length (f_data (z_node w)) \<Longrightarrow> zc_read e (length d) tms w = Inr (take (length d) (f_data (z_node w)))"
    and "\<exists>v. zc_backup e fi d w = Inr v \<and> z_node v = z_node w \<and> z_ds v = z_ds w"
    and "\<exists>v. zc_rewrite e t d w = Inr v \<and> f_xattrs (z_node v) = f_xattrs (z_node w) \<and> z_ds v = z_ds w"
    and "\<exists>v. zc_check e fi d w = Inr v \<and> f_xattrs (z_node v) = f_xattrs (z_node w) \<and> z_ds v = z_ds w"
  using assms
  by (auto simp: quiet_zenv_def zc_read_def zc_backup_def zc_rewrite_def zc_check_def zc_write_again_def
      zc_put_data_def Let_def)

lemma zfs_compress_run:
  assumes "quiet_zenv e" and "f_data (z_node w) = d" and "st_size (z_info w) = int (length d)"
    and "\<not> zq_quit (z_engine e)" and "\<not> zc_refused fi (z_ds w) (int (length d))" and "z_compression fi \<noteq> ''test''"
  shows "\<exists>w'. zfs_compressFile e fi w = (Returned, w')
    \<and> f_times (z_node w') = usec_times (z_info w)
    \<and> f_xattrs (z_node w') = put_xattr XATTR_ZFSCOMPPROP_NAME
        (attrval (z_compression fi) (snd (usec_times (z_info w)))) (f_xattrs (z_node w))
    \<and> z_ds w' = (let ds1 = snd (setCompression (z_engine e) (z_compression fi) (z_ds w))
                 in if z_quickReset e then snd (resetCompression (z_engine e) False ds1) else ds1)"
proof -
  let ?tms = "usec_times (z_info w)" and ?c = "z_compression fi"
  define w1 where "w1 = zc_chmod e False (st_mode (z_info w)) w"
  have r: "zc_read e (length d) ?tms w1 = Inr d"
    using zc_steps_go_on(1) [OF assms(1), of d w1] assms(2) by (simp add: w1_def)
  obtain w2 where w2: "zc_backup e fi d w1 = Inr w2" "z_node w2 = z_node w1" "z_ds w2 = z_ds w1"
    using zc_steps_go_on(2) [OF assms(1)] by blast
  define v where "v = (zc_lock e w2)\<lparr>z_ds := snd (setCompression (z_engine e) ?c (z_ds w2))\<rparr>"
  obtain w3 where w3: "zc_rewrite e False d v = Inr w3" "f_xattrs (z_node w3) = f_xattrs (z_node v)" "z_ds w3 = z_ds v"
    using zc_steps_go_on(3) [OF assms(1)] by blast
  obtain w4 where w4: "zc_check e fi d (zc_stat_again e w3) = Inr w4"
      "f_xattrs (z_node w4) = f_xattrs (z_node (zc_stat_again e w3))" "z_ds w4 = z_ds (zc_stat_again e w3)"
    using zc_steps_go_on(4) [OF assms(1)] by blast
  define w5 where "w5 = zc_release e (zc_note e fi False ?tms w4)"
  have n: "nat (st_size (z_info w)) = length d" using assms(3) by simp
  have body: "zc_body e fi False ?tms w = Inr w5"
    using r w2(1) w3(1) w4(1) by (simp add: zc_body_def n w1_def v_def w5_def)
  have "f_xattrs (z_node w5) = put_xattr XATTR_ZFSCOMPPROP_NAME (attrval ?c (snd ?tms)) (f_xattrs (z_node w))"
    using assms(1) w2(2) w3(2) w4(2) by (simp add: w5_def zc_note_def quiet_zenv_def v_def w1_def)
  moreover have "z_ds w5 = (let ds1 = snd (setCompression (z_engine e) ?c (z_ds w))
                 in if z_quickReset e then snd (resetCompression (z_engine e) False ds1) else ds1)"
    using w2(3) w3(3) w4(3) by (simp add: w5_def zc_release_def v_def w1_def Let_def)
  ultimately show ?thesis
    using assms(3-6)
    by (simp add: zfs_compressFile_def body zc_bail_def zc_sys_defs Let_def)
qed

lemma map_of_put_xattr [simp]: "map_of (put_xattr n v xs) n = Some v"
proof -
  have "map_of (filter (\<lambda>x. fst x \<noteq> n) xs) n = None" by (force simp: map_of_eq_None_iff)
  then show ?thesis by (simp add: put_xattr_def map_add_def)
qed

text \<open>C38: a file that was rewritten is recognised afterwards: as long as its modification time is
  the one the run left, it is not rewritten with the same compression again (unless -F asks for
  it), and it is with any other.\<close>

theorem rewritten_file_recognised:
  assumes "quiet_zenv e" and "st_size (z_info w) = int (length (f_data (z_node w)))"
    and "\<not> zq_quit (z_engine e)" and "\<not> zc_refused fi (z_ds w) (st_size (z_info w))"
    and "c = z_compression fi" and "c \<noteq> ''test''" and "c \<noteq> []" and "CHR ''@'' \<notin> set c" and "length c \<le> 12"
    and "st_mtimespec (z_info w) = (sec, nsec)" and "\<bar>sec\<bar> < 10 ^ 18" and "0 \<le> nsec" and "nsec < 10 ^ 9"
    and "zfs_compressFile e fi w = (x, w')"
    and "attr = map_of (f_xattrs (z_node w')) XATTR_ZFSCOMPPROP_NAME"
    and "st_mtimespec st = (fst (snd (f_times (z_node w'))), 1000 * snd (snd (f_times (z_node w'))))"
  shows "compressionOk allowReCompress attr attr info st (fi\<lparr>z_compression := c'\<rparr>)
    = Some (c' \<noteq> c \<or> allowReCompress)"
proof -
  have times: "snd (usec_times (z_info w)) = (sec, nsec div 1000)"
    using assms(10) by (simp add: usec_times_def)
  have "\<exists>w'. zfs_compressFile e fi w = (Returned, w')
    \<and> f_times (z_node w') = usec_times (z_info w)
    \<and> f_xattrs (z_node w') = put_xattr XATTR_ZFSCOMPPROP_NAME
        (attrval c (snd (usec_times (z_info w)))) (f_xattrs (z_node w))"
    using zfs_compress_run [OF assms(1) refl assms(2,3)] assms(2,4-6) by auto
  then have w': "attr = Some (attrval c (sec, nsec div 1000))" "st_mtimespec st = (sec, 1000 * (nsec div 1000))"
    using assms(14-16) times by auto
  have "nsec div 1000 < 10 ^ 6" "0 \<le> nsec div 1000" using assms(12,13) by auto
  then have "length (print_ld (nsec div 1000)) \<le> 7" using print_ld_length [of "nsec div 1000" 6] by simp
  then have len: "length c + length (print_ld sec) + length (print_ld (nsec div 1000)) \<le> 39"
    using assms(9,11) print_ld_length [of sec 18] by simp
  have big: "- (2 ^ 63) \<le> sec" "sec < 2 ^ 63" "- (2 ^ 63) \<le> nsec div 1000" "nsec div 1000 < 2 ^ 63"
    using assms(11-13) by auto
  show ?thesis
    using check_attrval [OF assms(7,8) len big, of st c']
    by (simp add: compressionOk_def w')
qed

theorem rewritten_file_recognised_witness:
  "let w' = snd (zfs_compressFile sample_zenv sample_zinfo sample_zworld);
       attr = map_of (f_xattrs (z_node w')) XATTR_ZFSCOMPPROP_NAME;
       st = z_info sample_zworld\<lparr>st_mtimespec := (7, 8000)\<rparr>
   in attr = Some (name_bytes ''lz4@7:8'')
     \<and> compressionOk False attr attr tank st sample_zinfo = Some False
     \<and> compressionOk False attr attr tank st (sample_zinfo\<lparr>z_compression := ''off''\<rparr>) = Some True"
proof -
  define r where "r = zfs_compressFile sample_zenv sample_zinfo sample_zworld"
  have q: "quiet_zenv sample_zenv" by (simp add: quiet_zenv_def sample_zenv_def)
  have h: "st_size (z_info sample_zworld) = int (length (f_data (z_node sample_zworld)))"
      "\<not> zq_quit (z_engine sample_zenv)" "z_compression sample_zinfo = ''lz4''"
      "st_mtimespec (z_info sample_zworld) = (7, 8000)"
    by (simp_all add: sample_zworld_def sample_zenv_def steady_engine_def sample_zinfo_def)
  have "readOnly tank = False" by (simp add: tank_def new_dataset_def)
  then have ref: "\<not> zc_refused sample_zinfo (z_ds sample_zworld) (st_size (z_info sample_zworld))"
    by (simp add: zc_refused_def sample_zworld_def sample_zinfo_def empty_info_def)
  have tms: "usec_times (z_info sample_zworld) = ((5, 6), (7, 8))"
    by (simp add: usec_times_def sample_zworld_def)
  have run: "f_times (z_node (snd r)) = ((5, 6), (7, 8))"
      "map_of (f_xattrs (z_node (snd r))) XATTR_ZFSCOMPPROP_NAME = Some (attrval ''lz4'' (7, 8))"
    using zfs_compress_run [OF q refl h(1,2), of sample_zinfo] ref h(1) by (auto simp: r_def h(3) tms)
  have attr: "attrval ''lz4'' (7, 8) = name_bytes ''lz4@7:8''"
    by (simp add: attrval_def print_ld_def decimal.simps digit_char_def char_of_def bit_0)
  have c: "compressionOk False (Some (attrval ''lz4'' (7, 8))) (Some (attrval ''lz4'' (7, 8))) tank
      (z_info sample_zworld\<lparr>st_mtimespec := (7, 8000)\<rparr>) (sample_zinfo\<lparr>z_compression := c'\<rparr>)
    = Some (c' \<noteq> ''lz4'' \<or> False)" for c'
    using h(3,4) run
    by (intro rewritten_file_recognised [OF q h(1,2) ref, of "''lz4''" 7 8000 "fst r" "snd r"])
      (simp_all add: r_def)
  have "sample_zinfo\<lparr>z_compression := ''lz4''\<rparr> = sample_zinfo" by (simp add: sample_zinfo_def)
  then have ok: "compressionOk False (Some (attrval ''lz4'' (7, 8))) (Some (attrval ''lz4'' (7, 8))) tank
      (z_info sample_zworld\<lparr>st_mtimespec := (7, 8000)\<rparr>) sample_zinfo = Some False"
    "compressionOk False (Some (attrval ''lz4'' (7, 8))) (Some (attrval ''lz4'' (7, 8))) tank
      (z_info sample_zworld\<lparr>st_mtimespec := (7, 8000)\<rparr>) (sample_zinfo\<lparr>z_compression := ''off''\<rparr>) = Some True"
    using c [of "''lz4''"] c [of "''off''"] by simp_all
  show ?thesis
    using run(2) attr ok by (simp add: Let_def r_def [symmetric])
qed

section \<open>The reference of a failing write\<close>

text \<open>A run takes a reference on the dataset and gives it back, unless the write fails: then the
  reference stays, and with it the dataset is not reset when the last file is done.\<close>

theorem failing_write_leaks_reference:
  assumes "\<And>s. s \<noteq> Z_write \<Longrightarrow> \<not> z_fails e s" and "z_quickReset e"
    and "st_size (z_info w) = int (length (f_data (z_node w)))" and "\<not> zq_quit (z_engine e)"
    and "\<not> zc_refused fi (z_ds w) (st_size (z_info w))" and "z_compression fi \<noteq> ''test''"
    and "zfs_compressFile e fi w = (x, w')"
  shows "refcount (z_ds w') = refcount (z_ds w) + (if z_fails e Z_write then 1 else 0)"
proof (cases "z_fails e Z_write")
  case False
  then have "quiet_zenv e" using assms(1) by (metis quiet_zenv_def)
  from zfs_compress_run [OF this refl assms(3,4) _ assms(6)] show ?thesis
    using False assms(2,3,5,7) by (auto simp: Let_def refcount_set refcount_reset)
next
  case True
  define w1 where "w1 = zc_chmod e False (st_mode (z_info w)) w"
  have n: "nat (st_size (z_info w)) = length (f_data (z_node w))" using assms(3) by simp
  have r: "zc_read e (length (f_data (z_node w))) tms w1 = Inr (f_data (z_node w))" for tms
    using assms(1) by (simp add: zc_read_def w1_def)
  obtain w2 where w2: "zc_backup e fi (f_data (z_node w)) w1 = Inr w2" "z_ds w2 = z_ds w"
    using assms(1) by (cases "backup_file fi") (auto simp: zc_backup_def w1_def)
  have "\<exists>v. zc_body e fi False tms w = Inl (Bailed, v) \<and> refcount (z_ds v) = refcount (z_ds w) + 1" for tms
    using True w2 by (simp add: zc_body_def n r w1_def [symmetric] zc_rewrite_def Let_def refcount_set)
  then obtain v where "zc_body e fi False (usec_times (z_info w)) w = Inl (Bailed, v)"
    "refcount (z_ds v) = refcount (z_ds w) + 1" by blast
  then show ?thesis
    using assms(4-7) True by (auto simp: zfs_compressFile_def Let_def zc_bail_frame)
qed

theorem failing_write_leaks_reference_witness:
  "refcount (z_ds (snd (zfs_compressFile (sample_zenv\<lparr>z_fails := (\<lambda>s. s = Z_write)\<rparr>) sample_zinfo sample_zworld))) = 1"
proof -
  let ?e = "sample_zenv\<lparr>z_fails := (\<lambda>s. s = Z_write)\<rparr>"
  have "readOnly tank = False" by (simp add: tank_def new_dataset_def)
  then have ref: "\<not> zc_refused sample_zinfo (z_ds sample_zworld) (st_size (z_info sample_zworld))"
    by (simp add: zc_refused_def sample_zworld_def sample_zinfo_def empty_info_def)
  have "refcount (z_ds (snd (zfs_compressFile ?e sample_zinfo sample_zworld)))
    = refcount (z_ds sample_zworld) + (if z_fails ?e Z_write then 1 else 0)"
    by (rule failing_write_leaks_reference [OF _ _ _ _ ref _ prod.collapse [symmetric]])
      (simp_all add: sample_zenv_def steady_engine_def sample_zworld_def sample_zinfo_def)
  then show ?thesis by (simp add: sample_zworld_def)
qed

end
