(* ===== verification/ZfsRegistry.thy ===== *)
theory ZfsRegistry
  imports ZfsAttr HashMap SizeFormat FileTypes
begin

text \<open>
  Which dataset a file belongs to (\<open>fileIsCompressable\<close> in src/zfsctool.cpp and the maps of
  src/ParallelProcess.cpp it fills). A dataset is created once and found again through the id of
  its file system, the name of a file or its own name; the store maps a pointer to the object,
  \<open>None\<close> once it was deleted. A result \<open>None\<close> of an operation is a use of a deleted object, an
  empty dataset name or an exception of \<open>std::stoul\<close>.
\<close>

type_synonym 'g id_ops = "(nat, nat, 'g) hash_ops"
type_synonym 'h dsname_ops = "(string, nat, 'h) hash_ops"

record ('g, 'h) registry =
  rg_store :: "dataset option list"
  rg_fsid :: 'g
  rg_file :: 'h
  rg_name :: 'h
  rg_manual :: "nat list"
  rg_deleted :: "dataset list"

definition live :: "('g, 'h) registry \<Rightarrow> nat \<Rightarrow> dataset option" where
  "live rg i = (if i < length (rg_store rg) then rg_store rg ! i else None)"

section \<open>The maps of the processor\<close>

definition z_dataSetForFile :: "'h dsname_ops \<Rightarrow> string \<Rightarrow> ('g, 'h) registry \<Rightarrow> nat option" where
  "z_dataSetForFile ops fileName rg = hash_lookup ops (rg_file rg) fileName"

definition z_dataSet :: "'h dsname_ops \<Rightarrow> string \<Rightarrow> ('g, 'h) registry \<Rightarrow> nat option" where
  "z_dataSet ops name rg = hash_lookup ops (rg_name rg) name"

text \<open>Another object of the same name is deleted, which resets its dataset.\<close>

definition z_addDataSet ::
    "engine \<Rightarrow> 'h dsname_ops \<Rightarrow> string \<Rightarrow> nat \<Rightarrow> ('g, 'h) registry \<Rightarrow> ('g, 'h) registry option" where
  "z_addDataSet e ops fileName i rg =
     (case live rg i of
        None \<Rightarrow> None
      | Some ds \<Rightarrow>
          let rg1 = (case z_dataSet ops (ds_name ds) rg of
                None \<Rightarrow> rg
              | Some old \<Rightarrow>
                  if old = i then rg
                  else (case live rg old of
                      None \<Rightarrow> rg
                    | Some o' \<Rightarrow> rg\<lparr>rg_store := (rg_store rg)[old := None],
                                   rg_deleted := rg_deleted rg @ [delete_dataset e o']\<rparr>))
          in Some (rg1\<lparr>rg_name := h_insert ops (rg_name rg1) (ds_name ds) i,
                       rg_file := h_insert ops (rg_file rg1) fileName i\<rparr>))"

section \<open>Asking zfs for the dataset\<close>

datatype result_code = COMMAND_OK | COMMAND_NOSTART | COMMAND_FAIL | COMMAND_NOOUTPUT

record command_run =
  cr_started :: bool
  cr_join :: int
  cr_status :: int
  cr_output :: string

text \<open>
  \<open>ZFSCommandEngine::run\<close> with output wanted: the code and the output. What it takes for the exit
  value is the result of \<open>Join\<close>, which is 0 once the thread of the command ended, whatever the
  status \<open>cr_status\<close> of the command.
\<close>

definition run_command :: "command_run \<Rightarrow> result_code \<times> string" where
  "run_command r =
     (if cr_started r then
        if cr_join r = 0 then
          if cr_output r \<noteq> [] then (COMMAND_OK, cr_output r) else (COMMAND_NOOUTPUT, [])
        else (COMMAND_FAIL, cr_output r)
      else (COMMAND_NOSTART, []))"

lemma failed_command_accepted:
  "cr_started r \<Longrightarrow> cr_join r = 0 \<Longrightarrow> cr_output r \<noteq> [] \<Longrightarrow> run_command r = (COMMAND_OK, cr_output r)"
  by (simp add: run_command_def)

definition dataset_line :: "command_run \<Rightarrow> string" where
  "dataset_line r = (if fst (run_command r) = COMMAND_OK then snd (run_command r) else [])"

section \<open>The function\<close>

record zstatfs =
  zf_ok :: bool
  zf_isZFS :: bool
  zf_fsid :: nat
  zf_bfree :: int
  zf_bsize :: int

text \<open>
  What the call is given: whether there is a processor, -F, the result of \<open>statfs\<close>, the two reads
  of the attribute, \<open>realpath\<close> and the answer of \<open>zfs list\<close> for a path.
\<close>

record zquery =
  zq_engine :: engine
  zq_PP :: bool
  zq_allow :: bool
  zq_fs :: zstatfs
  zq_attr :: "byte list option \<times> byte list option"
  zq_realpath :: "string \<Rightarrow> string option"
  zq_list :: "string \<Rightarrow> command_run"

definition answer ::
    "zquery \<Rightarrow> folder_info \<Rightarrow> stat \<Rightarrow> nat \<Rightarrow> ('g, 'h) registry \<Rightarrow> (nat option \<times> ('g, 'h) registry) option" where
  "answer q fi st i rg =
     (case live rg i of
        None \<Rightarrow> None
      | Some ds \<Rightarrow>
          (case compressionOk (zq_allow q) (fst (zq_attr q)) (snd (zq_attr q)) ds st fi of
             None \<Rightarrow> None
           | Some b \<Rightarrow> Some (if b then Some i else None, rg)))"

definition absolute_name :: "zquery \<Rightarrow> stat \<Rightarrow> string \<Rightarrow> string" where
  "absolute_name q st inFile =
     (if S_ISLNK (st_mode st) \<or> inFile = [] \<or> hd inFile \<noteq> CHR ''/''
      then (case zq_realpath q inFile of None \<Rightarrow> [] | Some p \<Rightarrow> p) else inFile)"

definition create_dataset :: "string list \<Rightarrow> ('g, 'h) registry \<Rightarrow> (nat \<times> ('g, 'h) registry) option" where
  "create_dataset props rg =
     (case dataset_of_props props of
        None \<Rightarrow> None
      | Some ds \<Rightarrow> Some (length (rg_store rg), rg\<lparr>rg_store := rg_store rg @ [Some ds]\<rparr>))"

text \<open>A file system that is met for the first time.\<close>

definition new_file_system ::
    "'g id_ops \<Rightarrow> 'h dsname_ops \<Rightarrow> zquery \<Rightarrow> folder_info \<Rightarrow> stat \<Rightarrow> string \<Rightarrow> string list
     \<Rightarrow> ('g, 'h) registry \<Rightarrow> (nat option \<times> ('g, 'h) registry) option" where
  "new_file_system gops hops q fi st inFile props rg =
     (let known = (if zq_PP q then z_dataSet hops (props ! 0) rg else None) in
      case (case known of Some i \<Rightarrow> Some (i, rg) | None \<Rightarrow> create_dataset props rg) of
        None \<Rightarrow> None
      | Some (i, rg1) \<Rightarrow>
          (case (if zq_PP q then z_addDataSet (zq_engine q) hops inFile i rg1
                 else Some (rg1\<lparr>rg_manual := i # rg_manual rg1\<rparr>)) of
             None \<Rightarrow> None
           | Some rg2 \<Rightarrow> answer q fi st i (rg2\<lparr>rg_fsid := h_insert gops (rg_fsid rg2) (zf_fsid (zq_fs q)) i\<rparr>)))"

definition zfs_fileIsCompressable ::
    "'g id_ops \<Rightarrow> 'h dsname_ops \<Rightarrow> zquery \<Rightarrow> folder_info \<Rightarrow> stat \<Rightarrow> string \<Rightarrow> ('g, 'h) registry
     \<Rightarrow> (nat option \<times> ('g, 'h) registry) option" where
  "zfs_fileIsCompressable gops hops q fi st inFile rg =
     (let fs = zq_fs q in
      if \<not> (zf_ok fs \<and> zf_isZFS fs
            \<and> (S_ISREG (st_mode st) \<or> follow_sym_links fi \<and> S_ISLNK (st_mode st))) then Some (None, rg)
      else if zf_bfree fs * zf_bsize fs \<le> roundToBlkSize (st_size st) st \<and> z_compression fi = ''off''
      then Some (None, rg)
      else
        (case (if zq_PP q then z_dataSetForFile hops inFile rg else None) of
           Some i \<Rightarrow> answer q fi st i rg
         | None \<Rightarrow>
             (case hash_lookup gops (rg_fsid rg) (zf_fsid fs) of
                Some i \<Rightarrow>
                  (case (if zq_PP q then z_addDataSet (zq_engine q) hops inFile i rg else Some rg) of
                     None \<Rightarrow> None | Some rg1 \<Rightarrow> answer q fi st i rg1)
              | None \<Rightarrow>
                  if absolute_name q st inFile = [] then Some (None, rg)
                  else
                    let props = split (CHR 0x09) (dataset_line (zq_list q (absolute_name q st inFile)))
                    in if length props = 4 then new_file_system gops hops q fi st inFile props rg
                       else Some (None, rg))))"

section \<open>No dataset is deleted while files refer to it\<close>

definition found_by_name :: "'h dsname_ops \<Rightarrow> ('g, 'h) registry \<Rightarrow> nat \<Rightarrow> bool" where
  "found_by_name hops rg i \<longleftrightarrow>
     (\<exists>ds. live rg i = Some ds \<and> ds_name ds \<noteq> [] \<and> z_dataSet hops (ds_name ds) rg = Some i)"

definition registry_ok :: "'g id_ops \<Rightarrow> 'h dsname_ops \<Rightarrow> ('g, 'h) registry \<Rightarrow> bool" where
  "registry_ok gops hops rg \<longleftrightarrow>
     (\<forall>k i. k \<noteq> [] \<longrightarrow> z_dataSet hops k rg = Some i \<longrightarrow> (\<exists>ds. live rg i = Some ds \<and> ds_name ds = k))
   \<and> (\<forall>f i. f \<noteq> [] \<longrightarrow> z_dataSetForFile hops f rg = Some i \<longrightarrow> found_by_name hops rg i)
   \<and> (\<forall>k i. k \<noteq> 0 \<longrightarrow> hash_lookup gops (rg_fsid rg) k = Some i \<longrightarrow> found_by_name hops rg i)"

lemma answer_keeps: "answer q fi st i rg = Some (r, rg') \<Longrightarrow> rg' = rg \<and> (r = None \<or> r = Some i)"
  by (auto simp: answer_def split: option.splits if_splits)

text \<open>Registering a file under a dataset that its name leads to.\<close>

lemma z_addDataSet_known:
  assumes "hash_laws hops (\<lambda>k. k \<noteq> [])" and "live rg i = Some ds" and "ds_name ds \<noteq> []" and "inFile \<noteq> []"
    and "z_dataSet hops (ds_name ds) rg = None \<or> z_dataSet hops (ds_name ds) rg = Some i"
    and "z_addDataSet e hops inFile i rg = Some rg'"
  shows "rg_store rg' = rg_store rg" and "rg_deleted rg' = rg_deleted rg" and "rg_fsid rg' = rg_fsid rg"
    and "k \<noteq> [] \<Longrightarrow> z_dataSet hops k rg' = (if k = ds_name ds then Some i else z_dataSet hops k rg)"
    and "f \<noteq> [] \<Longrightarrow> z_dataSetForFile hops f rg' = (if f = inFile then Some i else z_dataSetForFile hops f rg)"
  using assms hash_laws_simps [OF assms(1)]
  by (auto simp: z_addDataSet_def z_dataSet_def z_dataSetForFile_def Let_def split: option.splits if_splits)

lemma live_store: "rg_store rg' = rg_store rg \<Longrightarrow> live rg' i = live rg i"
  by (simp add: live_def)

lemma registry_ok_add:
  assumes "hash_laws hops (\<lambda>k. k \<noteq> [])" and "registry_ok gops hops rg"
    and "live rg i = Some ds" and "ds_name ds \<noteq> []" and "inFile \<noteq> []"
    and "z_dataSet hops (ds_name ds) rg = None \<or> z_dataSet hops (ds_name ds) rg = Some i"
    and "z_addDataSet e hops inFile i rg = Some rg'"
  shows "registry_ok gops hops rg'" and "rg_deleted rg' = rg_deleted rg" and "found_by_name hops rg' i"
    and "rg_fsid rg' = rg_fsid rg"
proof -
  note a = z_addDataSet_known [OF assms(1,3-7)]
  show "rg_deleted rg' = rg_deleted rg" "rg_fsid rg' = rg_fsid rg" by (rule a(2), rule a(3))
  show i: "found_by_name hops rg' i"
    using assms(3,4) a(4) [of "ds_name ds"] by (auto simp: found_by_name_def live_store [OF a(1)])
  have others: "found_by_name hops rg' j" if "found_by_name hops rg j" for j
    using that i assms(6) a(4) by (auto simp: found_by_name_def live_store [OF a(1)])
  show "registry_ok gops hops rg'"
    using assms(2,3) i unfolding registry_ok_def
    by (auto simp: live_store [OF a(1)] a(3-5) intro: others)
qed

lemma fsid_update_simps:
  "live (rg\<lparr>rg_fsid := g\<rparr>) i = live rg i" "z_dataSet hops k (rg\<lparr>rg_fsid := g\<rparr>) = z_dataSet hops k rg"
  "z_dataSetForFile hops f (rg\<lparr>rg_fsid := g\<rparr>) = z_dataSetForFile hops f rg"
  "found_by_name hops (rg\<lparr>rg_fsid := g\<rparr>) i = found_by_name hops rg i"
  by (simp_all add: live_def z_dataSet_def z_dataSetForFile_def found_by_name_def)

lemma registry_ok_fsid:
  assumes "hash_laws gops (\<lambda>k. k \<noteq> 0)" and "registry_ok gops hops rg" and "found_by_name hops rg i" and "k \<noteq> 0"
  shows "registry_ok gops hops (rg\<lparr>rg_fsid := h_insert gops (rg_fsid rg) k i\<rparr>)"
  using assms(2-4) hash_laws_simps(2) [OF assms(1)]
  unfolding registry_ok_def by (auto simp: fsid_update_simps)

lemma split_token_name: "dataset_of_props props = Some ds \<Longrightarrow> ds_name ds = props ! 0 \<and> props ! 0 \<noteq> []"
  by (auto simp: dataset_of_props_def new_dataset_def split: list.splits)

lemma registry_ok_create:
  assumes "registry_ok gops hops rg" and "create_dataset props rg = Some (i, rg1)"
  shows "registry_ok gops hops rg1" and "rg_deleted rg1 = rg_deleted rg" and "rg_name rg1 = rg_name rg"
    and "\<exists>ds. live rg1 i = Some ds \<and> ds_name ds = props ! 0 \<and> props ! 0 \<noteq> []"
proof -
  obtain ds where ds: "dataset_of_props props = Some ds" "i = length (rg_store rg)"
    "rg1 = rg\<lparr>rg_store := rg_store rg @ [Some ds]\<rparr>"
    using assms(2) by (auto simp: create_dataset_def split: option.splits)
  have keep: "live rg j = Some d \<Longrightarrow> live rg1 j = Some d" for j d
    by (auto simp: ds(3) live_def nth_append split: if_splits)
  have maps: "z_dataSet hops k rg1 = z_dataSet hops k rg" "z_dataSetForFile hops k rg1 = z_dataSetForFile hops k rg"
    "rg_fsid rg1 = rg_fsid rg" for k
    by (simp_all add: ds(3) z_dataSet_def z_dataSetForFile_def)
  have found: "found_by_name hops rg1 j" if "found_by_name hops rg j" for j
    using that by (auto simp: found_by_name_def maps dest: keep)
  show "registry_ok gops hops rg1"
    using assms(1) unfolding registry_ok_def maps by (meson found keep)
  show "rg_deleted rg1 = rg_deleted rg" "rg_name rg1 = rg_name rg" by (simp_all add: ds(3))
  show "\<exists>ds. live rg1 i = Some ds \<and> ds_name ds = props ! 0 \<and> props ! 0 \<noteq> []"
    using split_token_name [OF ds(1)] by (simp add: ds(2,3) live_def)
qed

lemma new_file_system_ok:
  assumes "hash_laws gops (\<lambda>k. k \<noteq> 0)" and "hash_laws hops (\<lambda>k. k \<noteq> [])"
    and "registry_ok gops hops rg" and "zq_PP q" and "inFile \<noteq> []" and "zf_fsid (zq_fs q) \<noteq> 0"
    and "props ! 0 \<noteq> []" and "new_file_system gops hops q fi st inFile props rg = Some (r, rg')"
  shows "registry_ok gops hops rg' \<and> rg_deleted rg' = rg_deleted rg
    \<and> (\<forall>i. r = Some i \<longrightarrow> found_by_name hops rg' i)"
proof -
  obtain i rg1 rg2 where i: "(case z_dataSet hops (props ! 0) rg of Some i \<Rightarrow> Some (i, rg)
        | None \<Rightarrow> create_dataset props rg) = Some (i, rg1)"
    and rg2: "z_addDataSet (zq_engine q) hops inFile i rg1 = Some rg2"
    and ans: "answer q fi st i (rg2\<lparr>rg_fsid := h_insert gops (rg_fsid rg2) (zf_fsid (zq_fs q)) i\<rparr>) = Some (r, rg')"
    using assms(4,8) by (auto simp: new_file_system_def Let_def split: option.splits)
  have "registry_ok gops hops rg1 \<and> rg_deleted rg1 = rg_deleted rg
    \<and> (\<exists>ds. live rg1 i = Some ds \<and> ds_name ds \<noteq> []
        \<and> (z_dataSet hops (ds_name ds) rg1 = None \<or> z_dataSet hops (ds_name ds) rg1 = Some i))"
  proof (cases "z_dataSet hops (props ! 0) rg")
    case (Some k)
    then have eq: "i = k" "rg1 = rg" using i by simp_all
    obtain ds where "live rg k = Some ds" "ds_name ds = props ! 0"
      using assms(3,7) Some unfolding registry_ok_def by blast
    then show ?thesis using eq assms(3,7) Some by auto
  next
    case None
    then have c: "create_dataset props rg = Some (i, rg1)" using i by simp
    have "z_dataSet hops (props ! 0) rg1 = None"
      using None registry_ok_create(3) [OF assms(3) c] by (simp add: z_dataSet_def)
    then show ?thesis using registry_ok_create [OF assms(3) c] by auto
  qed
  then obtain ds where ok: "registry_ok gops hops rg1" "rg_deleted rg1 = rg_deleted rg" "live rg1 i = Some ds"
    "ds_name ds \<noteq> []" "z_dataSet hops (ds_name ds) rg1 = None \<or> z_dataSet hops (ds_name ds) rg1 = Some i"
    by blast
  note add = registry_ok_add [OF assms(2) ok(1,3,4) assms(5) ok(5) rg2]
  have "registry_ok gops hops (rg2\<lparr>rg_fsid := h_insert gops (rg_fsid rg2) (zf_fsid (zq_fs q)) i\<rparr>)"
    using assms(1) add(1,3) assms(6) by (rule registry_ok_fsid)
  moreover have "found_by_name hops (rg2\<lparr>rg_fsid := f\<rparr>) i" for f
    using add(3) by (simp add: fsid_update_simps)
  ultimately show ?thesis using answer_keeps [OF ans] add(2) ok(2) by auto
qed

text \<open>A call with a processor keeps the invariant.\<close>

lemma fileIsCompressable_ok:
  assumes "hash_laws gops (\<lambda>k. k \<noteq> 0)" and "hash_laws hops (\<lambda>k. k \<noteq> [])"
    and "registry_ok gops hops rg" and "zq_PP q" and "inFile \<noteq> []" and "zf_fsid (zq_fs q) \<noteq> 0"
    and "\<And>p s. cr_output (zq_list q p) \<noteq> CHR 0x09 # s"
    and "zfs_fileIsCompressable gops hops q fi st inFile rg = Some (r, rg')"
  shows "registry_ok gops hops rg' \<and> rg_deleted rg' = rg_deleted rg
    \<and> (\<forall>i. r = Some i \<longrightarrow> found_by_name hops rg' i)"
proof -
  let ?fsid = "hash_lookup gops (rg_fsid rg) (zf_fsid (zq_fs q))"
  let ?props = "split (CHR 0x09) (dataset_line (zq_list q (absolute_name q st inFile)))"
  consider "r = None" "rg' = rg"
    | i where "z_dataSetForFile hops inFile rg = Some i" "answer q fi st i rg = Some (r, rg')"
    | i rg1 where "?fsid = Some i" "z_addDataSet (zq_engine q) hops inFile i rg = Some rg1"
        "answer q fi st i rg1 = Some (r, rg')"
    | "length ?props = 4" "new_file_system gops hops q fi st inFile ?props rg = Some (r, rg')"
    using assms(4,8)
    by (auto simp: zfs_fileIsCompressable_def Let_def split: if_splits option.splits)
  then show ?thesis
  proof cases
    case 1
    then show ?thesis using assms(3) by simp
  next
    case (2 i)
    then have "found_by_name hops rg i" using assms(3,5) by (auto simp: registry_ok_def)
    then show ?thesis using answer_keeps [OF 2(2)] assms(3) by auto
  next
    case (3 i rg1)
    then have "found_by_name hops rg i" using assms(3,6) by (auto simp: registry_ok_def)
    then obtain ds where ds: "live rg i = Some ds" "ds_name ds \<noteq> []" "z_dataSet hops (ds_name ds) rg = Some i"
      by (auto simp: found_by_name_def)
    note add = registry_ok_add [OF assms(2,3) ds(1,2) assms(5) _ 3(2)]
    show ?thesis using add ds(3) answer_keeps [OF 3(3)] by auto
  next
    case 4
    have "?props ! 0 \<noteq> []"
      using 4(1) assms(7) [of "absolute_name q st inFile"] by (cases "dataset_line (zq_list q (absolute_name q st inFile))")
        (auto simp: dataset_line_def run_command_def split: if_splits)
    then show ?thesis using new_file_system_ok [OF assms(1-6) _ 4(2)] by simp
  qed
qed

section \<open>The calls of a run\<close>

definition empty_registry :: "'g id_ops \<Rightarrow> 'h dsname_ops \<Rightarrow> ('g, 'h) registry" where
  "empty_registry gops hops =
     \<lparr>rg_store = [], rg_fsid = h_clear gops, rg_file = h_clear hops, rg_name = h_clear hops,
      rg_manual = [], rg_deleted = []\<rparr>"

fun classify_files ::
    "'g id_ops \<Rightarrow> 'h dsname_ops \<Rightarrow> (zquery \<times> folder_info \<times> stat \<times> string) list \<Rightarrow> ('g, 'h) registry
     \<Rightarrow> ('g, 'h) registry option" where
  "classify_files gops hops [] rg = Some rg"
| "classify_files gops hops ((q, fi, st, inFile) # calls) rg =
     (case zfs_fileIsCompressable gops hops q fi st inFile rg of
        None \<Rightarrow> None
      | Some (_, rg1) \<Rightarrow> classify_files gops hops calls rg1)"

definition proper_call :: "zquery \<times> folder_info \<times> stat \<times> string \<Rightarrow> bool" where
  "proper_call c \<longleftrightarrow> zq_PP (fst c) \<and> snd (snd (snd c)) \<noteq> [] \<and> zf_fsid (zq_fs (fst c)) \<noteq> 0
     \<and> (\<forall>p s. cr_output (zq_list (fst c) p) \<noteq> CHR 0x09 # s)"

lemma classify_files_ok:
  assumes "hash_laws gops (\<lambda>k. k \<noteq> 0)" and "hash_laws hops (\<lambda>k. k \<noteq> [])"
    and "classify_files gops hops calls rg = Some rg'" and "list_all proper_call calls" and "registry_ok gops hops rg"
  shows "registry_ok gops hops rg' \<and> rg_deleted rg' = rg_deleted rg"
  using assms(3-5)
proof (induction calls arbitrary: rg)
  case Nil
  then show ?case by simp
next
  case (Cons c calls)
  obtain q fi st inFile where c: "c = (q, fi, st, inFile)" by (cases c)
  obtain r rg1 where r: "zfs_fileIsCompressable gops hops q fi st inFile rg = Some (r, rg1)"
    "classify_files gops hops calls rg1 = Some rg'"
    using Cons.prems(1) c by (auto split: option.splits)
  have "registry_ok gops hops rg1 \<and> rg_deleted rg1 = rg_deleted rg"
    using fileIsCompressable_ok [OF assms(1,2) Cons.prems(3) _ _ _ _ r(1)] Cons.prems(2) c
    by (auto simp: proper_call_def)
  then show ?case using Cons.IH [OF r(2)] Cons.prems(2) by simp
qed

text \<open>C20: when \<open>zfsctool\<close> hands the files to a processor, a dataset is created once for its name and no
  dataset is deleted before the end, whatever the commands answer: a file that was entered leads to
  a dataset that is alive and that its own name leads to, so that the objects two files lead to are
  the same when their names are.\<close>

theorem datasets_stay_alive:
  assumes "hash_laws gops (\<lambda>k. k \<noteq> 0)" and "hash_laws hops (\<lambda>k. k \<noteq> [])" and "list_all proper_call calls"
    and "classify_files gops hops calls (empty_registry gops hops) = Some rg"
    and "f \<noteq> []" and "z_dataSetForFile hops f rg = Some i"
  shows "rg_deleted rg = [] \<and> (\<exists>ds. live rg i = Some ds \<and> z_dataSet hops (ds_name ds) rg = Some i
    \<and> (\<forall>g j d. g \<noteq> [] \<longrightarrow> z_dataSetForFile hops g rg = Some j \<longrightarrow> live rg j = Some d
         \<longrightarrow> ds_name d = ds_name ds \<longrightarrow> j = i))"
proof -
  have "registry_ok gops hops (empty_registry gops hops)"
    using hash_laws_simps(1) [OF assms(1)] hash_laws_simps(1) [OF assms(2)]
    by (simp add: registry_ok_def empty_registry_def z_dataSet_def z_dataSetForFile_def)
  then have ok: "registry_ok gops hops rg" and del: "rg_deleted rg = []"
    using classify_files_ok [OF assms(1,2,4,3)] by (simp_all add: empty_registry_def)
  have found: "found_by_name hops rg j" if "g \<noteq> []" "z_dataSetForFile hops g rg = Some j" for g j
    using ok that unfolding registry_ok_def by blast
  obtain ds where ds: "live rg i = Some ds" "z_dataSet hops (ds_name ds) rg = Some i"
    using found [OF assms(5,6)] by (auto simp: found_by_name_def)
  have "j = i" if "g \<noteq> []" "z_dataSetForFile hops g rg = Some j" "live rg j = Some d" "ds_name d = ds_name ds" for g j d
    using found [OF that(1,2)] that(3,4) ds(2) by (auto simp: found_by_name_def)
  then show ?thesis using del ds by blast
qed

definition sample_query :: zquery where
  "sample_query = \<lparr>zq_engine = \<lparr>cmd_ok = (\<lambda>_. True), zq_quit = False\<rparr>, zq_PP = True, zq_allow = False,
     zq_fs = \<lparr>zf_ok = True, zf_isZFS = True, zf_fsid = 7, zf_bfree = 100, zf_bsize = 512\<rparr>,
     zq_attr = (None, None), zq_realpath = Some,
     zq_list = (\<lambda>_. \<lparr>cr_started = True, cr_join = 0, cr_status = 0,
       cr_output = ''tank'' @ CHR 0x09 # ''off'' @ CHR 0x09 # ''standard'' @ CHR 0x09 # ''1''\<rparr>)\<rparr>"

definition sample_zstat :: stat where
  "sample_zstat = \<lparr>st_mode = 33188, st_size = 3, st_blocks = 8, st_blksize = 4096, st_flags = 0,
     st_ino = 1, st_nlink = 1, st_atimespec = (5, 6000), st_mtimespec = (7, 8000)\<rparr>"

definition sample_calls :: "(zquery \<times> folder_info \<times> stat \<times> string) list" where
  "sample_calls = [(sample_query, empty_info\<lparr>z_compression := ''lz4''\<rparr>, sample_zstat, ''/tank/a''),
     (sample_query, empty_info\<lparr>z_compression := ''lz4''\<rparr>, sample_zstat, ''/tank/b'')]"

lemma sample_calls_run:
  "map_option (\<lambda>rg. z_dataSetForFile map_ops ''/tank/b'' rg)
     (classify_files map_ops map_ops sample_calls (empty_registry map_ops map_ops)) = Some (Some 0)"
  by code_simp

theorem datasets_stay_alive_witness:
  "map_option (\<lambda>rg. rg_deleted rg = [] \<and> live rg 0 \<noteq> None)
     (classify_files map_ops map_ops sample_calls (empty_registry map_ops map_ops)) = Some True"
proof -
  obtain rg where rg: "classify_files map_ops map_ops sample_calls (empty_registry map_ops map_ops) = Some rg"
    "z_dataSetForFile map_ops ''/tank/b'' rg = Some 0"
    using sample_calls_run by (auto simp: map_option_eq_Some)
  have "list_all proper_call sample_calls"
    by (simp add: sample_calls_def proper_call_def sample_query_def)
  then show ?thesis
    using datasets_stay_alive [OF map_ops_laws map_ops_laws _ rg(1) _ rg(2)] rg(1) by auto
qed

end
