(* ===== verification/ZfsWalk.thy ===== *)
theory ZfsWalk
  imports ZfsFile ZfsRegistry FolderWalk
begin

text \<open>
  \<open>process_folder\<close> and \<open>process_file_info\<close> of src/zfsctool.cpp: the walk over a folder that counts
  its files and rewrites them, at once or through the queue of the workers. The walk itself (its
  entries, its scope, what it skips) is the one of \<open>FolderWalk\<close>; a file belongs to the dataset
  \<open>fileIsCompressable\<close> finds in the registry. \<open>zk_stop\<close> is a crash or an exception nobody catches.
\<close>

record zsys =
  zy_env :: "nat \<Rightarrow> zenv"
  zy_query :: "string \<Rightarrow> zquery"
  zy_bak_mode :: uint16
  zy_quit :: "poll \<Rightarrow> string \<Rightarrow> bool"

text \<open>\<open>zk_backups\<close>: the backup files that exist, each with the inode it was made from.\<close>

record ('g, 'h, 'l, 'm) zwalk =
  zk_info :: folder_info
  zk_links :: "'l link_state"
  zk_nodes :: "nat \<Rightarrow> fnode"
  zk_backups :: "(nat \<times> byte list) list"
  zk_registry :: "('g, 'h) registry"
  zk_pool :: "'m pool option"
  zk_skipped :: int
  zk_stop :: bool

record ('g, 'h, 'l, 'm) zops =
  zo_ids :: "'g id_ops"
  zo_names :: "'h dsname_ops"
  zo_links :: "'l link_ops"
  zo_queue :: "'m name_ops"

section \<open>The statistics of a file\<close>

definition zfs_process_file_info ::
    "bool \<Rightarrow> byte list option \<Rightarrow> stat \<Rightarrow> folder_info \<Rightarrow> (int \<times> folder_info) option" where
  "zfs_process_file_info quit attr st fi =
     (if quit then Some (0, fi)
      else (case checkValidZFSCompAttrAgainst attr attr st ''off'' of
          None \<Rightarrow> None
        | Some c \<Rightarrow>
            let sizeInBlocks = st_blocks st * S_BLKSIZE;
                isCompressed = (0 < c \<or> sizeInBlocks < st_size st)
            in Some (sizeInBlocks,
                 fi\<lparr>num_files := num_files fi + 1,
                    num_compressed := num_compressed fi + (if isCompressed then 1 else 0),
                    uncompressed_size := uncompressed_size fi + st_size st,
                    uncompressed_size_rounded := uncompressed_size_rounded fi + roundToBlkSize (st_size st) st,
                    compressed_size := compressed_size fi + sizeInBlocks,
                    compressed_size_rounded := compressed_size_rounded fi + roundToBlkSize sizeInBlocks st,
                    total_size := total_size fi + sizeInBlocks\<rparr>)))"

section \<open>A file that is to be compressed\<close>

definition file_attr :: "(nat \<Rightarrow> fnode) \<Rightarrow> nat \<Rightarrow> byte list option" where
  "file_attr nodes ino = map_of (f_xattrs (nodes ino)) XATTR_ZFSCOMPPROP_NAME"

definition file_query :: "zsys \<Rightarrow> bool \<Rightarrow> string \<Rightarrow> byte list option \<Rightarrow> zquery" where
  "file_query s pp path attr = (zy_query s path)\<lparr>zq_PP := pp, zq_attr := (attr, attr)\<rparr>"

text \<open>\<open>compressFile\<close> without a worker, with the dataset of the file.\<close>

definition zfs_compress_entry ::
    "zsys \<Rightarrow> ('g, 'h, 'l, 'm) zops \<Rightarrow> fts_entry \<Rightarrow> ('g, 'h, 'l, 'm) zwalk \<Rightarrow> stat \<times> ('g, 'h, 'l, 'm) zwalk" where
  "zfs_compress_entry s ops e w =
     (let st = fts_statp e; ino = st_ino st; env = (zy_env s ino)\<lparr>z_has_worker := False\<rparr>; fi = zk_info w in
      if zq_quit (z_engine env) then (st, w)
      else (case zfs_fileIsCompressable (zo_ids ops) (zo_names ops)
                   (file_query s False (fts_path e) (file_attr (zk_nodes w) ino)) fi st (fts_path e) (zk_registry w) of
          None \<Rightarrow> (st, w\<lparr>zk_stop := True\<rparr>)
        | Some (None, rg) \<Rightarrow> (st, w\<lparr>zk_registry := rg\<rparr>)
        | Some (Some i, rg) \<Rightarrow>
            (case live rg i of
               None \<Rightarrow> (st, w\<lparr>zk_registry := rg, zk_stop := True\<rparr>)
             | Some ds \<Rightarrow>
                 let r = zfs_compressFile env fi \<lparr>z_node = zk_nodes w ino, z_info = st, z_bak_mode = zy_bak_mode s,
                           z_backup = None, z_backupName = False, z_locked = False, z_skipped = zk_skipped w, z_ds = ds\<rparr>;
                     w' = snd r
                 in (z_info w',
                     w\<lparr>zk_nodes := (zk_nodes w)(ino := z_node w'),
                       zk_backups := zk_backups w @ (case z_backup w' of None \<Rightarrow> [] | Some b \<Rightarrow> [(ino, b)]),
                       zk_registry := rg\<lparr>rg_store := (rg_store rg)[i := Some (z_ds w')]\<rparr>,
                       zk_skipped := z_skipped w', zk_stop := (fst r \<noteq> Returned)\<rparr>))))"

text \<open>With workers the file is queued, or counted for the job when it has no dataset.\<close>

definition zfs_queue_entry ::
    "zsys \<Rightarrow> ('g, 'h, 'l, 'm) zops \<Rightarrow> int \<Rightarrow> bool \<Rightarrow> fts_entry \<Rightarrow> 'm pool \<Rightarrow> ('g, 'h, 'l, 'm) zwalk
     \<Rightarrow> ('g, 'h, 'l, 'm) zwalk" where
  "zfs_queue_entry s ops old own e p w =
     (let st = fts_statp e; path = fts_path e; attr = file_attr (zk_nodes w) (st_ino st) in
      case zfs_fileIsCompressable (zo_ids ops) (zo_names ops) (file_query s True path attr)
             (zk_info w) st path (zk_registry w) of
        None \<Rightarrow> w\<lparr>zk_stop := True\<rparr>
      | Some (Some _, rg) \<Rightarrow>
          w\<lparr>zk_registry := rg,
            zk_pool := Some (snd (addFileToParallelProcessor (zo_queue ops) old path st (zk_info w) own p))\<rparr>
      | Some (None, rg) \<Rightarrow>
          (case zfs_process_file_info (zy_quit s In_info path) attr st (jobInfo p) of
             None \<Rightarrow> w\<lparr>zk_registry := rg, zk_stop := True\<rparr>
           | Some (_, ji) \<Rightarrow> w\<lparr>zk_registry := rg, zk_pool := Some (p\<lparr>jobInfo := ji\<rparr>)\<rparr>))"

section \<open>The walk\<close>

definition zfs_link_check ::
    "('g, 'h, 'l, 'm) zops \<Rightarrow> fts_entry \<Rightarrow> ('g, 'h, 'l, 'm) zwalk \<Rightarrow> bool \<times> 'l link_state" where
  "zfs_link_check ops e w =
     (if \<not> check_hard_links (zk_info w) then (False, zk_links w)
      else checkForHardLink (zo_links ops) (Some (fts_path e, fts_statp e)) (zk_links w))"

definition zfs_visit_folder ::
    "('g, 'h, 'l, 'm) zops \<Rightarrow> fts_entry \<Rightarrow> ('g, 'h, 'l, 'm) zwalk \<Rightarrow> ('g, 'h, 'l, 'm) zwalk \<times> bool" where
  "zfs_visit_folder ops e w =
     (if \<not> entering e then (w, False)
      else
        let lc = zfs_link_check ops e w; fi = zk_info w; w1 = w\<lparr>zk_links := snd lc\<rparr> in
        if \<not> fst lc then (w1\<lparr>zk_info := fi\<lparr>num_folders := num_folders fi + 1\<rparr>\<rparr>, False)
        else (w1\<lparr>zk_info := fi\<lparr>num_hard_link_folders := num_hard_link_folders fi + 1,
                  num_folders := num_folders fi + 1\<rparr>\<rparr>, True))"

definition zfs_visit_file ::
    "zsys \<Rightarrow> ('g, 'h, 'l, 'm) zops \<Rightarrow> int \<Rightarrow> fts_entry \<Rightarrow> ('g, 'h, 'l, 'm) zwalk \<Rightarrow> ('g, 'h, 'l, 'm) zwalk" where
  "zfs_visit_file s ops old e w =
     (let st = fts_statp e; fi = zk_info w; lc = zfs_link_check ops e w; w1 = w\<lparr>zk_links := snd lc\<rparr> in
      if \<not> fst lc then
        let r = (if compress_files fi \<and> S_ISREG (st_mode st) then
                   (case zk_pool w of
                      Some p \<Rightarrow> (st, zfs_queue_entry s ops old False e p w1)
                    | None \<Rightarrow> zfs_compress_entry s ops e w1)
                 else (st, w1));
            w2 = snd r
        in if zk_stop w2 then w2
           else (case zfs_process_file_info (zy_quit s In_info (fts_path e))
                        (file_attr (zk_nodes w2) (st_ino st)) (fst r) (zk_info w2) of
               None \<Rightarrow> w2\<lparr>zk_stop := True\<rparr>
             | Some (_, fi') \<Rightarrow> w2\<lparr>zk_info := fi'\<rparr>)
      else w1\<lparr>zk_info := fi\<lparr>num_hard_link_files := num_hard_link_files fi + 1, num_files := num_files fi + 1\<rparr>\<rparr>)"

definition zfs_visit_entry ::
    "zsys \<Rightarrow> ('g, 'h, 'l, 'm) zops \<Rightarrow> int \<Rightarrow> bool \<Rightarrow> fts_entry \<Rightarrow> ('g, 'h, 'l, 'm) zwalk
     \<Rightarrow> ('g, 'h, 'l, 'm) zwalk \<times> bool" where
  "zfs_visit_entry s ops old vs e w =
     (if \<not> zy_quit s At_entry (fts_path e) \<and> in_scope vs (fts_path e) then
        if is_folder e then zfs_visit_folder ops e w
        else if is_file e then (zfs_visit_file s ops old e w, False)
        else (w, False)
      else (w, True))"

function zfs_walk_loop ::
    "zsys \<Rightarrow> ('g, 'h, 'l, 'm) zops \<Rightarrow> int \<Rightarrow> bool \<Rightarrow> fts_entry list \<Rightarrow> ('g, 'h, 'l, 'm) zwalk
     \<Rightarrow> ('g, 'h, 'l, 'm) zwalk" where
  "zfs_walk_loop s ops old vs [] w = w"
| "zfs_walk_loop s ops old vs (e # es) w =
     (let r = zfs_visit_entry s ops old vs e w in
      if zk_stop (fst r) \<or> zy_quit s At_next (fts_path e) then fst r
      else zfs_walk_loop s ops old vs (if snd r then skip_below e es else es) (fst r))"
  by pat_completeness auto
termination
  by (relation "measure (\<lambda>(s, ops, old, vs, es, w). length es)")
    (auto simp: less_Suc_eq_le length_skip_below)

definition zfs_process_folder ::
    "zsys \<Rightarrow> ('g, 'h, 'l, 'm) zops \<Rightarrow> int \<Rightarrow> fts_entry list \<Rightarrow> ('g, 'h, 'l, 'm) zwalk \<Rightarrow> ('g, 'h, 'l, 'm) zwalk" where
  "zfs_process_folder s ops old es w =
     (case es of [] \<Rightarrow> w
      | e # _ \<Rightarrow>
          let w1 = zfs_walk_loop s ops old (volume_search (fts_path e)) es w
          in if zk_stop w1 then w1
             else w1\<lparr>zk_links := snd (checkForHardLink (zo_links ops) None (zk_links w1))\<rparr>)"

end
