(* ===== verification/ZfsOptions.thy ===== *)
theory ZfsOptions
  imports Options ZfsText
begin

text \<open>
  The command line of \<open>zfsctool\<close> (src/zfsctool.cpp): the options, letter by letter, the names of
  compressions it accepts, and the number of jobs that results. An error return is \<open>None\<close>.
\<close>

record zoptions =
  zp_printDir :: bool
  zp_printVerbose :: int
  zp_applycomp :: bool
  zp_fileCheck :: bool
  zp_hardLinkCheck :: bool
  zp_allowReCompress :: bool
  zp_follow_sym_links :: bool
  zp_maxSize :: int
  zp_codec :: string
  zp_backupFile :: bool
  zp_exclusive_io :: bool
  zp_nJobs :: int
  zp_nReverse :: int
  zp_sortQueue :: bool
  zp_quickReset :: bool

definition zdefault_options :: zoptions where
  "zdefault_options = \<lparr>zp_printDir = False, zp_printVerbose = 0, zp_applycomp = False, zp_fileCheck = True,
     zp_hardLinkCheck = False, zp_allowReCompress = False, zp_follow_sym_links = False, zp_maxSize = 0,
     zp_codec = ''test'', zp_backupFile = False, zp_exclusive_io = True, zp_nJobs = 0, zp_nReverse = 0,
     zp_sortQueue = False, zp_quickReset = True\<rparr>"

section \<open>The names of the compressions\<close>

definition COMPRESSIONNAMES :: string where
  "COMPRESSIONNAMES = ''on|off|gzip|gzip-[1-9]|lz4|lzjb|zle|zstd|zstd-[1-19]''"

text \<open>A name with a range stands for the names with its numbers.\<close>

definition expand_range :: "string \<Rightarrow> string \<Rightarrow> nat \<Rightarrow> string list \<Rightarrow> string list" where
  "expand_range pattern prefix n ns =
     (if pattern \<in> set ns
      then filter (\<lambda>x. x \<noteq> pattern) ns @ map (\<lambda>c. prefix @ print_ld (int c)) [1..<n] else ns)"

definition compNames :: "string list" where
  "compNames = expand_range ''zstd-[1-19]'' ''zstd-'' 20
     (expand_range ''gzip-[1-9]'' ''gzip-'' 10 (split (CHR ''|'') COMPRESSIONNAMES))"

definition codec_option :: "string \<Rightarrow> string option" where
  "codec_option arg =
     (if strcasecmp arg ''test'' = 0 then Some ''test''
      else if arg \<in> set compNames then Some arg else None)"

section \<open>The letters\<close>

datatype zletter_result = ZRefused | ZMore zoptions | ZNext_arg zoptions | ZTook_arg zoptions

definition zflag_letter :: "char \<Rightarrow> zoptions \<Rightarrow> zletter_result option" where
  "zflag_letter c o' =
     (if c = CHR ''l'' then Some (ZMore (o'\<lparr>zp_printDir := True\<rparr>))
      else if c = CHR ''v'' then Some (ZMore (o'\<lparr>zp_printVerbose := zp_printVerbose o' + 1\<rparr>))
      else if c = CHR ''c'' then Some (ZMore (o'\<lparr>zp_applycomp := True\<rparr>))
      else if c = CHR ''n'' then Some (ZMore (o'\<lparr>zp_fileCheck := False\<rparr>))
      else if c = CHR ''f'' then Some (ZMore (o'\<lparr>zp_hardLinkCheck := True\<rparr>))
      else if c = CHR ''F'' then Some (ZMore (o'\<lparr>zp_allowReCompress := True\<rparr>))
      else if c = CHR ''L'' then Some (ZMore (o'\<lparr>zp_follow_sym_links := True\<rparr>))
      else if c = CHR ''b'' then
        Some (if zp_applycomp o' then ZMore (o'\<lparr>zp_backupFile := True\<rparr>) else ZRefused)
      else None)"

definition zvalue_letter :: "char \<Rightarrow> string \<Rightarrow> zoptions \<Rightarrow> zletter_result" where
  "zvalue_letter c arg o' =
     (if c = CHR ''m'' then ZTook_arg (o'\<lparr>zp_maxSize := scan_lld arg (zp_maxSize o')\<rparr>)
      else (case codec_option arg of None \<Rightarrow> ZRefused | Some n \<Rightarrow> ZTook_arg (o'\<lparr>zp_codec := n\<rparr>)))"

text \<open>These end their argument; -q switches the quick reset off, not on.\<close>

definition zjobs_letter :: "char \<Rightarrow> string \<Rightarrow> zoptions \<Rightarrow> zletter_result" where
  "zjobs_letter c rest o' =
     (if \<not> zp_applycomp o' then ZRefused
      else if c = CHR ''S'' then ZNext_arg (o'\<lparr>zp_sortQueue := True\<rparr>)
      else if c = CHR ''q'' then ZNext_arg (o'\<lparr>zp_quickReset := False\<rparr>)
      else if c = CHR ''R'' then ZNext_arg (o'\<lparr>zp_nReverse := max 0 (atoi rest)\<rparr>)
      else
        let o1 = (if c = CHR ''J'' then o'\<lparr>zp_exclusive_io := False\<rparr> else o')
        in ZNext_arg (o1\<lparr>zp_nJobs := max 0 (atoi rest)\<rparr>))"

definition zoption_letter :: "char \<Rightarrow> string \<Rightarrow> string list \<Rightarrow> zoptions \<Rightarrow> zletter_result" where
  "zoption_letter c rest args o' =
     (case zflag_letter c o' of
        Some r \<Rightarrow> r
      | None \<Rightarrow>
          if c = CHR ''m'' \<or> c = CHR ''T'' then
            if rest \<noteq> [] \<or> args = [] then ZRefused else zvalue_letter c (hd args) o'
          else if c \<in> {CHR ''j'', CHR ''J'', CHR ''R'', CHR ''S'', CHR ''q''} then zjobs_letter c rest o'
          else ZRefused)"

fun zparse_letters :: "string \<Rightarrow> string list \<Rightarrow> zoptions \<Rightarrow> (zoptions \<times> string list) option" where
  "zparse_letters [] args o' = Some (o', args)"
| "zparse_letters (c # rest) args o' =
     (case zoption_letter c rest args o' of
        ZRefused \<Rightarrow> None
      | ZMore o1 \<Rightarrow> zparse_letters rest args o1
      | ZNext_arg o1 \<Rightarrow> Some (o1, args)
      | ZTook_arg o1 \<Rightarrow> Some (o1, tl args))"

lemma zparse_letters_shorter: "zparse_letters cs args o' = Some (o1, args') \<Longrightarrow> length args' \<le> length args"
  by (induction cs args o' rule: zparse_letters.induct) (auto split: zletter_result.splits)

function zparse_options :: "string list \<Rightarrow> zoptions \<Rightarrow> (zoptions \<times> string list) option" where
  "zparse_options [] o' = Some (o', [])"
| "zparse_options (arg # args) o' =
     (if arg = [] \<or> hd arg \<noteq> CHR ''-'' then Some (o', arg # args)
      else case zparse_letters (tl arg) args o' of
          None \<Rightarrow> None
        | Some (o1, args1) \<Rightarrow> zparse_options args1 o1)"
  by pat_completeness auto
termination
  by (relation "measure (\<lambda>(args, _). length args)")
    (auto dest: zparse_letters_shorter simp: less_Suc_eq_le)

text \<open>Backups exclude jobs; reverse jobs need a sorted queue.\<close>

definition settle_jobs :: "zoptions \<Rightarrow> zoptions" where
  "settle_jobs o' =
     (let o1 = (if zp_backupFile o' then o'\<lparr>zp_nJobs := 0\<rparr> else o')
      in if 0 < zp_nJobs o1 \<and> zp_nReverse o1 \<noteq> 0 \<and> \<not> zp_sortQueue o1 then o1\<lparr>zp_nReverse := 0\<rparr> else o1)"

definition zparse_command_line :: "string list \<Rightarrow> (zoptions \<times> string list) option" where
  "zparse_command_line argv =
     (if argv = [] then None
      else case zparse_options argv zdefault_options of
          None \<Rightarrow> None
        | Some (o', rest) \<Rightarrow> if rest = [] then None else Some (settle_jobs o', rest))"

section \<open>What accepted options have in common\<close>

definition codec_known :: "string \<Rightarrow> bool" where
  "codec_known c \<longleftrightarrow> c = ''test'' \<or> c \<in> set compNames"

definition zconsistent :: "zoptions \<Rightarrow> bool" where
  "zconsistent o' \<longleftrightarrow> codec_known (zp_codec o') \<and> 0 \<le> zp_nJobs o' \<and> 0 \<le> zp_nReverse o'
     \<and> (zp_backupFile o' \<or> zp_sortQueue o' \<or> zp_nJobs o' \<noteq> 0 \<or> zp_nReverse o' \<noteq> 0 \<or> \<not> zp_exclusive_io o'
          \<or> \<not> zp_quickReset o' \<longrightarrow> zp_applycomp o')"

fun zletter_all :: "(zoptions \<Rightarrow> bool) \<Rightarrow> zletter_result \<Rightarrow> bool" where
  "zletter_all P ZRefused = True"
| "zletter_all P (ZMore o') = P o'"
| "zletter_all P (ZNext_arg o') = P o'"
| "zletter_all P (ZTook_arg o') = P o'"

lemma zconsistent_flags:
  assumes "zconsistent o'"
  shows "zconsistent (o'\<lparr>zp_printDir := b\<rparr>)" "zconsistent (o'\<lparr>zp_printVerbose := i\<rparr>)"
    "zconsistent (o'\<lparr>zp_applycomp := True\<rparr>)" "zconsistent (o'\<lparr>zp_fileCheck := b\<rparr>)"
    "zconsistent (o'\<lparr>zp_hardLinkCheck := b\<rparr>)" "zconsistent (o'\<lparr>zp_allowReCompress := b\<rparr>)"
    "zconsistent (o'\<lparr>zp_follow_sym_links := b\<rparr>)" "zp_applycomp o' \<Longrightarrow> zconsistent (o'\<lparr>zp_backupFile := True\<rparr>)"
    "zconsistent (o'\<lparr>zp_maxSize := i\<rparr>)" "codec_known c \<Longrightarrow> zconsistent (o'\<lparr>zp_codec := c\<rparr>)"
  using assms by (simp_all add: zconsistent_def)

lemma zflag_letter_all:
  assumes "zconsistent o'"
  shows "case zflag_letter c o' of None \<Rightarrow> True | Some r \<Rightarrow> zletter_all zconsistent r"
  by (simp add: zflag_letter_def zconsistent_flags [OF assms])

lemma zvalue_letter_all: "zconsistent o' \<Longrightarrow> zletter_all zconsistent (zvalue_letter c arg o')"
  by (auto simp: zvalue_letter_def zconsistent_flags codec_option_def codec_known_def split: option.splits if_splits)

lemma zjobs_letter_all: "zconsistent o' \<Longrightarrow> zletter_all zconsistent (zjobs_letter c rest o')"
  by (simp add: zjobs_letter_def zconsistent_def Let_def)

lemma zoption_letter_all:
  assumes "zconsistent o'"
  shows "zletter_all zconsistent (zoption_letter c rest args o')"
proof (cases "zflag_letter c o'")
  case (Some r)
  then show ?thesis using zflag_letter_all [OF assms, of c] by (simp add: zoption_letter_def)
next
  case None
  have "zletter_all zconsistent (if b1 then if b2 then ZRefused else zvalue_letter c a o'
      else if b3 then zjobs_letter c rest o' else ZRefused)" for b1 b2 b3 a
    using zvalue_letter_all [OF assms] zjobs_letter_all [OF assms] by simp
  then show ?thesis by (simp only: zoption_letter_def None option.case)
qed

lemma zparse_letters_consistent:
  "zconsistent o' \<Longrightarrow> zparse_letters cs args o' = Some (o1, args') \<Longrightarrow> zconsistent o1"
proof (induction cs args o' rule: zparse_letters.induct)
  case (1 args o')
  then show ?case by simp
next
  case (2 c rest args o')
  then show ?case
    using zoption_letter_all [OF "2.prems"(1), of c rest args] by (auto split: zletter_result.splits)
qed

lemma zparse_options_consistent:
  "zconsistent o' \<Longrightarrow> zparse_options args o' = Some (o1, rest) \<Longrightarrow> zconsistent o1"
  by (induction args o' rule: zparse_options.induct)
    (auto split: if_splits option.splits prod.splits dest: zparse_letters_consistent)

lemma zdefault_consistent: "zconsistent zdefault_options"
  by (simp add: zconsistent_def zdefault_options_def codec_known_def)

text \<open>Accepted options name a compression the datasets know (or \<open>test\<close>), have jobs and backups for
  compression only and never both, and there are files to work on.\<close>

lemma zfs_command_line:
  assumes "zparse_command_line argv = Some (o', rest)"
  shows "codec_known (zp_codec o')" and "0 \<le> zp_nJobs o'" and "zp_backupFile o' \<Longrightarrow> zp_nJobs o' = 0"
    and "zp_nJobs o' \<noteq> 0 \<or> zp_backupFile o' \<Longrightarrow> zp_applycomp o'"
    and "0 < zp_nJobs o' \<Longrightarrow> 0 < zp_nReverse o' \<Longrightarrow> zp_sortQueue o'" and "rest \<noteq> []"
proof -
  obtain o1 where o1: "zparse_options argv zdefault_options = Some (o1, rest)" "rest \<noteq> []" "o' = settle_jobs o1"
    using assms by (auto simp: zparse_command_line_def split: if_splits option.splits)
  have "zconsistent o1" using zdefault_consistent o1(1) by (rule zparse_options_consistent)
  then show "codec_known (zp_codec o')" "0 \<le> zp_nJobs o'" "zp_backupFile o' \<Longrightarrow> zp_nJobs o' = 0"
    "zp_nJobs o' \<noteq> 0 \<or> zp_backupFile o' \<Longrightarrow> zp_applycomp o'"
    "0 < zp_nJobs o' \<Longrightarrow> 0 < zp_nReverse o' \<Longrightarrow> zp_sortQueue o'" "rest \<noteq> []"
    using o1(2) by (auto simp: o1(3) settle_jobs_def zconsistent_def Let_def split: if_splits)
qed

lemma sample_command_line:
  "zparse_command_line [''-cvb'', ''-T'', ''gzip-9'', ''-j4'', ''-q'', ''/tank/a'']
   = Some (zdefault_options\<lparr>zp_applycomp := True, zp_printVerbose := 1, zp_backupFile := True,
       zp_codec := ''gzip-9'', zp_nJobs := 0, zp_quickReset := False\<rparr>, [''/tank/a''])"
  by code_simp

end
