(* ===== verification/ZfsMain.thy ===== *)
theory ZfsMain
  imports ZfsWalk ZfsOptions
begin

text \<open>
  \<open>zfsctool\<close> as a whole (src/zfsctool.cpp): the options, the loop over the arguments, the settings of
  the workers and the end of the run, where the datasets are released (\<open>EmptyFSIdMap\<close>). The file
  system is looked at through parameters that see the files as they are at that time.
\<close>

text \<open>\<open>zm_full_path\<close>: the argument made absolute, which can fail; \<open>zm_lstat\<close>, \<open>zm_fts\<close>: the status of
  a path and the entries below it, \<open>None\<close> for an error; \<open>zm_info\<close>, \<open>zm_old\<close>: uninitialised memory.\<close>

record main_env =
  zm_sys :: zsys
  zm_full_path :: "bool \<Rightarrow> string \<Rightarrow> string option"
  zm_lstat :: "string \<Rightarrow> (nat \<Rightarrow> fnode) \<Rightarrow> stat option"
  zm_fts :: "string \<Rightarrow> (nat \<Rightarrow> fnode) \<Rightarrow> fts_entry list option"
  zm_info :: folder_info
  zm_old :: int
  zm_end_engine :: engine

section \<open>The settings\<close>

definition zsys_of :: "zoptions \<Rightarrow> zsys \<Rightarrow> zsys" where
  "zsys_of o' s = s\<lparr>
     zy_env := (\<lambda>i. (zy_env s i)\<lparr>z_exclusive_io := zp_exclusive_io o', z_quickReset := zp_quickReset o'\<rparr>),
     zy_query := (\<lambda>p. (zy_query s p)\<lparr>zq_allow := zp_allowReCompress o'\<rparr>)\<rparr>"

definition argument_info :: "zoptions \<Rightarrow> folder_info \<Rightarrow> folder_info" where
  "argument_info o' fi = fi\<lparr>uncompressed_size := 0, uncompressed_size_rounded := 0, compressed_size := 0,
     compressed_size_rounded := 0, compattr_size := 0, total_size := 0, num_compressed := 0, num_files := 0,
     num_hard_link_files := 0, num_folders := 0, num_hard_link_folders := 0,
     print_info := (if zp_nJobs o' \<noteq> 0 then 0 else zp_printVerbose o'),
     print_files := (zp_nJobs o' = 0 \<and> zp_printDir o'), compress_files := zp_applycomp o',
     check_files := zp_fileCheck o', z_compression := zp_codec o', minSavings := 0, maxSize := zp_maxSize o',
     check_hard_links := zp_hardLinkCheck o', follow_sym_links := zp_follow_sym_links o',
     backup_file := zp_backupFile o'\<rparr>"

text \<open>What the job information of the workers is set to: the settings with cleared totals.\<close>

definition job_info :: "folder_info \<Rightarrow> folder_info" where
  "job_info fi = fi\<lparr>num_files := 0, num_compressed := 0, uncompressed_size := 0,
     uncompressed_size_rounded := 0, compressed_size := 0, compressed_size_rounded := 0, total_size := 0\<rparr>"

section \<open>An argument\<close>

definition argument_entry :: "string \<Rightarrow> stat \<Rightarrow> fts_entry" where
  "argument_entry path st = \<lparr>fts_path = path, fts_level = 0, fts_info = 0, fts_ino = st_ino st, fts_statp = st\<rparr>"

definition compress_argument ::
    "main_env \<Rightarrow> zsys \<Rightarrow> ('g, 'h, 'l, 'm) zops \<Rightarrow> string \<Rightarrow> stat \<Rightarrow> ('g, 'h, 'l, 'm) zwalk
     \<Rightarrow> stat \<times> ('g, 'h, 'l, 'm) zwalk" where
  "compress_argument m s ops path st w =
     (case zk_pool w of
        Some p \<Rightarrow> (st, zfs_queue_entry s ops (zm_old m) True (argument_entry path st) p w)
      | None \<Rightarrow> zfs_compress_entry s ops (argument_entry path st) w)"

text \<open>With -v the dataset of a file is looked up again, without the processor.\<close>

definition report_argument ::
    "main_env \<Rightarrow> zsys \<Rightarrow> ('g, 'h, 'l, 'm) zops \<Rightarrow> string \<Rightarrow> stat \<Rightarrow> ('g, 'h, 'l, 'm) zwalk \<Rightarrow> ('g, 'h, 'l, 'm) zwalk" where
  "report_argument m s ops path st w =
     (case zfs_fileIsCompressable (zo_ids ops) (zo_names ops)
             (file_query s False path (file_attr (zk_nodes w) (st_ino st))) (zk_info w) st path (zk_registry w) of
        None \<Rightarrow> w\<lparr>zk_stop := True\<rparr>
      | Some (_, rg) \<Rightarrow> w\<lparr>zk_registry := rg\<rparr>)"

definition file_argument ::
    "main_env \<Rightarrow> zoptions \<Rightarrow> zsys \<Rightarrow> ('g, 'h, 'l, 'm) zops \<Rightarrow> string \<Rightarrow> stat \<Rightarrow> ('g, 'h, 'l, 'm) zwalk
     \<Rightarrow> ('g, 'h, 'l, 'm) zwalk" where
  "file_argument m o' s ops path st w =
     (let r = (if zp_applycomp o' then compress_argument m s ops path st w else (st, w)); w1 = snd r;
          st1 = (if zp_applycomp o'
                 then (case zm_lstat m path (zk_nodes w1) of None \<Rightarrow> fst r | Some x \<Rightarrow> x) else fst r)
      in if zk_stop w1 \<or> zp_printVerbose o' \<le> 0 then w1 else report_argument m s ops path st1 w1)"

definition folder_argument ::
    "main_env \<Rightarrow> zoptions \<Rightarrow> zsys \<Rightarrow> ('g, 'h, 'l, 'm) zops \<Rightarrow> string \<Rightarrow> ('g, 'h, 'l, 'm) zwalk
     \<Rightarrow> ('g, 'h, 'l, 'm) zwalk" where
  "folder_argument m o' s ops path w =
     (case zm_fts m path (zk_nodes w) of
        None \<Rightarrow> w
      | Some es \<Rightarrow>
          let w1 = zfs_process_folder s ops (zm_old m) es w; fi = zk_info w1;
              w2 = w1\<lparr>zk_info := fi\<lparr>num_folders := num_folders fi - 1\<rparr>\<rparr>
          in if zk_stop w1 then w1
             else (case zk_pool w2 of
                 Some p \<Rightarrow> if 0 < zp_nJobs o' then w2\<lparr>zk_pool := Some (p\<lparr>jobInfo := job_info (zk_info w2)\<rparr>)\<rparr> else w2
               | None \<Rightarrow> w2))"

definition zfs_argument ::
    "main_env \<Rightarrow> zoptions \<Rightarrow> zsys \<Rightarrow> ('g, 'h, 'l, 'm) zops \<Rightarrow> string \<Rightarrow> ('g, 'h, 'l, 'm) zwalk
     \<Rightarrow> ('g, 'h, 'l, 'm) zwalk" where
  "zfs_argument m o' s ops path w =
     (case zm_lstat m path (zk_nodes w) of
        None \<Rightarrow> w
      | Some st \<Rightarrow>
          let w1 = w\<lparr>zk_info := argument_info o' (zk_info w)\<rparr>
          in if st_mode st AND S_IFDIR = 0 then file_argument m o' s ops path st w1
             else folder_argument m o' s ops path w1)"

text \<open>An argument that cannot be made absolute ends the program at once: the result is \<open>False\<close>.\<close>

fun zfs_arguments ::
    "main_env \<Rightarrow> zoptions \<Rightarrow> zsys \<Rightarrow> ('g, 'h, 'l, 'm) zops \<Rightarrow> string list \<Rightarrow> ('g, 'h, 'l, 'm) zwalk
     \<Rightarrow> bool \<times> ('g, 'h, 'l, 'm) zwalk" where
  "zfs_arguments m o' s ops [] w = (True, w)"
| "zfs_arguments m o' s ops (a # as) w =
     (case (if a \<noteq> [] \<and> hd a = CHR ''/'' then Some a else zm_full_path m (zp_follow_sym_links o') a) of
        None \<Rightarrow> (False, w)
      | Some path \<Rightarrow>
          let w1 = zfs_argument m o' s ops path w
          in if zk_stop w1 then (False, w1) else zfs_arguments m o' s ops as w1)"

section \<open>The end\<close>

text \<open>Before the workers start: the settings they share, the order of the queue and their number.\<close>

definition zfs_prepare_jobs ::
    "(file_entry list \<Rightarrow> file_entry list) \<Rightarrow> zoptions \<Rightarrow> folder_info \<Rightarrow> 'm pool \<Rightarrow> 'm pool" where
  "zfs_prepare_jobs std_sort o' fi p =
     (let p1 = (if 0 < zp_nJobs o' \<and> z_compression (jobInfo p) = [] then p\<lparr>jobInfo := job_info fi\<rparr> else p);
          p2 = (if zp_sortQueue o' then snd (sortFilesInParallelProcessorBySize std_sort p1) else p1);
          nFiles = int (filesInParallelProcessor p2)
      in if nFiles \<noteq> 0 \<and> nFiles < zp_nJobs o'
         then snd (setJobs True nFiles (if nFiles < zp_nReverse o' then nFiles else zp_nReverse o') p2)
         else p2)"

text \<open>The datasets of the map: without -q they are reset here; those without an owner are deleted.\<close>

fun empty_ids :: "engine \<Rightarrow> bool \<Rightarrow> nat list \<Rightarrow> ('g, 'h) registry \<Rightarrow> ('g, 'h) registry option" where
  "empty_ids e quick [] rg = Some rg"
| "empty_ids e quick (i # is) rg =
     (case live rg i of
        None \<Rightarrow> None
      | Some ds \<Rightarrow>
          let ds1 = (if quick then ds else snd (resetCompression e True ds));
              rg1 = (if i \<in> set (rg_manual rg)
                     then rg\<lparr>rg_store := (rg_store rg)[i := None], rg_deleted := rg_deleted rg @ [delete_dataset e ds1]\<rparr>
                     else rg\<lparr>rg_store := (rg_store rg)[i := Some ds1]\<rparr>)
          in empty_ids e quick is rg1)"

definition EmptyFSIdMap ::
    "engine \<Rightarrow> bool \<Rightarrow> 'g id_ops \<Rightarrow> ('g \<Rightarrow> nat list) \<Rightarrow> ('g, 'h) registry \<Rightarrow> ('g, 'h) registry option" where
  "EmptyFSIdMap e quick gops values rg =
     map_option (\<lambda>r. r\<lparr>rg_fsid := h_clear gops\<rparr>) (empty_ids e quick (values (rg_fsid rg)) rg)"

text \<open>\<open>Z_usage\<close>: the options are refused; \<open>Z_ended\<close>: it ended before its end (also by a crash);
  \<open>Z_jobs\<close>: the workers are started; \<open>Z_done\<close>: the end without workers.\<close>

datatype ('w, 'p) zresult = Z_usage | Z_ended 'w | Z_jobs 'p 'w | Z_done 'w

definition main_start ::
    "main_env \<Rightarrow> zoptions \<Rightarrow> ('g, 'h, 'l, 'm) zops \<Rightarrow> (nat \<Rightarrow> fnode) \<Rightarrow> ('g, 'h, 'l, 'm) zwalk" where
  "main_start m o' ops nodes =
     \<lparr>zk_info = zm_info m, zk_links = link_init (zo_links ops), zk_nodes = nodes, zk_backups = [],
      zk_registry = empty_registry (zo_ids ops) (zo_names ops),
      zk_pool = (if 0 < zp_nJobs o'
                 then Some (createParallelProcessor (zo_queue ops) (zp_nJobs o') (zp_nReverse o') (zp_printVerbose o'))
                 else None),
      zk_skipped = 0, zk_stop = False\<rparr>"

definition zfsctool ::
    "main_env \<Rightarrow> ('g, 'h, 'l, 'm) zops \<Rightarrow> ('g \<Rightarrow> nat list) \<Rightarrow> (file_entry list \<Rightarrow> file_entry list) \<Rightarrow> string list
     \<Rightarrow> (nat \<Rightarrow> fnode) \<Rightarrow> (('g, 'h, 'l, 'm) zwalk, 'm pool) zresult" where
  "zfsctool m ops values std_sort argv nodes =
     (case zparse_command_line argv of
        None \<Rightarrow> Z_usage
      | Some (o', args) \<Rightarrow>
          let r = zfs_arguments m o' (zsys_of o' (zm_sys m)) ops args (main_start m o' ops nodes); w = snd r
          in if \<not> fst r then Z_ended w
             else (case zk_pool w of
                 Some p \<Rightarrow> Z_jobs (zfs_prepare_jobs std_sort o' (zk_info w) p) w
               | None \<Rightarrow>
                   (case EmptyFSIdMap (zm_end_engine m) (zp_quickReset o') (zo_ids ops) values (zk_registry w) of
                      None \<Rightarrow> Z_ended w
                    | Some rg \<Rightarrow> Z_done (w\<lparr>zk_registry := rg\<rparr>))))"

end
