(* ===== verification/ZfsWalkProperties.thy ===== *)
theory ZfsWalkProperties
  imports ZfsWalk ZfsProperties FolderProperties
begin

text \<open>
  What a walk of \<open>zfsctool\<close> does: with backups no file loses its data, and without compression the
  totals are the sums over the visited files.
\<close>

section \<open>The data of every file survives\<close>

definition size_known :: "(nat \<Rightarrow> byte list) \<Rightarrow> (nat \<times> byte list) set \<Rightarrow> stat \<Rightarrow> bool" where
  "size_known d B st \<longleftrightarrow> (st_ino st, d (st_ino st)) \<in> B \<or> st_size st = int (length (d (st_ino st)))"

text \<open>Each file holds its data, or a backup file does; the backup files \<open>B\<close> are among those that exist.\<close>

definition all_recoverable ::
    "(nat \<Rightarrow> byte list) \<Rightarrow> (nat \<times> byte list) set \<Rightarrow> ('g, 'h, 'l, 'm) zwalk \<Rightarrow> bool" where
  "all_recoverable d B w \<longleftrightarrow> check_files (zk_info w) \<and> backup_file (zk_info w) \<and> B \<subseteq> set (zk_backups w)
     \<and> (\<forall>ino. f_data (zk_nodes w ino) = d ino \<or> (ino, d ino) \<in> set (zk_backups w))"

lemma zfs_compress_entry_info [simp]: "zk_info (snd (zfs_compress_entry s ops e w)) = zk_info w"
  by (simp add: zfs_compress_entry_def Let_def split: option.splits)

lemma queue_entry_frame [simp]:
  "zk_info (zfs_queue_entry s ops old own e p w) = zk_info w"
  "zk_nodes (zfs_queue_entry s ops old own e p w) = zk_nodes w"
  "zk_backups (zfs_queue_entry s ops old own e p w) = zk_backups w"
  by (simp_all add: zfs_queue_entry_def Let_def split: option.splits)

lemma compress_entry_recoverable:
  assumes "all_recoverable d B w" and "size_known d B (fts_statp e)"
  shows "all_recoverable d B (snd (zfs_compress_entry s ops e w))"
proof -
  define st where "st = fts_statp e"
  define ino where "ino = st_ino st"
  define fi where "fi = zk_info w"
  have run: "all_recoverable d B (w\<lparr>zk_nodes := (zk_nodes w)(ino := z_node w'),
      zk_backups := zk_backups w @ (case z_backup w' of None \<Rightarrow> [] | Some b \<Rightarrow> [(ino, b)]),
      zk_registry := rg, zk_skipped := k, zk_stop := b\<rparr>)"
    if r: "zfs_compressFile env fi v = (x, w')" and v: "z_node v = zk_nodes w ino" "z_info v = st" for env v x w' rg k b
  proof (cases "(ino, d ino) \<notin> set (zk_backups w)")
    case True
    then have size: "f_data (zk_nodes w ino) = d ino" "st_size st = int (length (d ino))"
      using assms by (auto simp: all_recoverable_def size_known_def st_def ino_def)
    have "f_data (z_node w') = d ino \<or> z_backup w' = Some (d ino)"
      using zfs_compress_keeps_data [OF _ _ _ _ r, of "d ino"] assms(1) size v
      by (simp add: all_recoverable_def fi_def)
    then show ?thesis using assms(1) by (auto simp: all_recoverable_def)
  next
    case False
    then show ?thesis using assms(1) by (auto simp: all_recoverable_def)
  qed
  have same: "all_recoverable d B (w\<lparr>zk_registry := rg\<rparr>)" "all_recoverable d B (w\<lparr>zk_stop := b\<rparr>)"
    "all_recoverable d B (w\<lparr>zk_registry := rg, zk_stop := b\<rparr>)" for rg b
    using assms(1) by (simp_all add: all_recoverable_def)
  define c where "c = zfs_fileIsCompressable (zo_ids ops) (zo_names ops)
    (file_query s False (fts_path e) (file_attr (zk_nodes w) ino)) fi st (fts_path e) (zk_registry w)"
  note eq = zfs_compress_entry_def [of s ops e w, unfolded Let_def, folded st_def, folded ino_def fi_def, folded c_def]
  consider "c = None" | rg where "c = Some (None, rg)" | i rg where "c = Some (Some i, rg)" "live rg i = None"
    | i rg ds where "c = Some (Some i, rg)" "live rg i = Some ds"
    by (metis option.exhaust prod.collapse)
  then show ?thesis
  proof cases
    case (4 i rg ds)
    then show ?thesis
      unfolding eq by (simp add: assms(1) run [OF prod.collapse [symmetric]])
  qed (simp_all add: eq assms(1) same)
qed

text \<open>What the parts of a visit keep, the visit keeps.\<close>

definition same_settings :: "folder_info \<Rightarrow> folder_info \<Rightarrow> bool" where
  "same_settings a b \<longleftrightarrow> check_files a = check_files b \<and> backup_file a = backup_file b
     \<and> z_compression a = z_compression b"

lemma process_file_info_same:
  "zfs_process_file_info q attr st fi = Some (n, fi') \<Longrightarrow> same_settings fi' fi"
  by (auto simp: zfs_process_file_info_def same_settings_def Let_def split: if_splits option.splits)

lemma visit_keeps:
  assumes "P w" and links: "\<And>w l. P w \<Longrightarrow> P (w\<lparr>zk_links := l\<rparr>)" and stop: "\<And>w b. P w \<Longrightarrow> P (w\<lparr>zk_stop := b\<rparr>)"
    and info: "\<And>w fi. P w \<Longrightarrow> same_settings fi (zk_info w) \<Longrightarrow> P (w\<lparr>zk_info := fi\<rparr>)"
    and compress: "\<And>w. P w \<Longrightarrow> zk_pool w = None \<Longrightarrow> P (snd (zfs_compress_entry s ops e w))"
    and queue: "\<And>w p. P w \<Longrightarrow> zk_pool w = Some p \<Longrightarrow> P (zfs_queue_entry s ops old False e p w)"
  shows "P (fst (zfs_visit_entry s ops old vs e w))"
proof -
  have folder: "P (fst (zfs_visit_folder ops e w))"
    using assms(1) by (auto simp: zfs_visit_folder_def Let_def same_settings_def intro!: info links)
  define w1 where "w1 = w\<lparr>zk_links := snd (zfs_link_check ops e w)\<rparr>"
  have w1: "P w1" "zk_info w1 = zk_info w" "zk_pool w1 = zk_pool w"
    using assms(1) links by (simp_all add: w1_def)
  define r where "r = (if compress_files (zk_info w) \<and> S_ISREG (st_mode (fts_statp e)) then
                   (case zk_pool w of
                      Some p \<Rightarrow> (fts_statp e, zfs_queue_entry s ops old False e p w1)
                    | None \<Rightarrow> zfs_compress_entry s ops e w1)
                 else (fts_statp e, w1))"
  have r: "P (snd r)"
    using w1 queue [OF w1(1)] compress [OF w1(1)] by (simp add: r_def split: option.splits)
  have "P (zfs_visit_file s ops old e w)"
    unfolding zfs_visit_file_def Let_def w1_def [symmetric] r_def [symmetric]
    using w1 r by (auto simp: same_settings_def split: option.splits dest: process_file_info_same intro!: info stop)
  with folder show ?thesis using assms(1) by (simp add: zfs_visit_entry_def)
qed

lemma visit_recoverable:
  assumes "all_recoverable d B w" and "size_known d B (fts_statp e)"
  shows "all_recoverable d B (fst (zfs_visit_entry s ops old vs e w))"
  using assms(1)
proof (rule visit_keeps)
  show "all_recoverable d B (snd (zfs_compress_entry s ops e v))" if "all_recoverable d B v" for v
    using that assms(2) by (rule compress_entry_recoverable)
qed (simp_all add: all_recoverable_def same_settings_def)

lemma set_skip_below: "set (skip_below e es) \<subseteq> set es"
  by (auto simp: skip_below_def dest: set_dropWhileD)

text \<open>What every visit keeps, the walk keeps.\<close>

lemma walk_loop_keeps:
  assumes "P w" and "\<And>e w. e \<in> set es \<Longrightarrow> P w \<Longrightarrow> P (fst (zfs_visit_entry s ops old vs e w))"
  shows "P (zfs_walk_loop s ops old vs es w)"
  using assms
proof (induction s ops old vs es w rule: zfs_walk_loop.induct)
  case (1 s ops old vs w)
  then show ?case by simp
next
  case (2 s ops old vs e es w)
  define r where "r = zfs_visit_entry s ops old vs e w"
  have "P (fst r)" using 2(2,3) by (simp add: r_def)
  moreover have "P (fst (zfs_visit_entry s ops old vs x w))"
    if "x \<in> set (if snd r then skip_below e es else es)" "P w" for x w
    using 2(3) [of x w] that set_skip_below [of e es] by (auto split: if_splits)
  ultimately show ?case using 2(1) [OF r_def] by (simp add: r_def [symmetric] Let_def)
qed

lemma process_folder_keeps:
  assumes "P w" and "\<And>vs e w. e \<in> set es \<Longrightarrow> P w \<Longrightarrow> P (fst (zfs_visit_entry s ops old vs e w))"
    and "\<And>l w. P w \<Longrightarrow> P (w\<lparr>zk_links := l\<rparr>)"
  shows "P (zfs_process_folder s ops old es w)"
proof (cases es)
  case Nil
  then show ?thesis using assms(1) by (simp add: zfs_process_folder_def)
next
  case (Cons e rest)
  have "zfs_process_folder s ops old es w = zfs_walk_loop s ops old (volume_search (fts_path e)) es w
    \<or> (\<exists>l. zfs_process_folder s ops old es w
          = (zfs_walk_loop s ops old (volume_search (fts_path e)) es w)\<lparr>zk_links := l\<rparr>)"
    unfolding zfs_process_folder_def Let_def Cons by (simp only: list.case split: if_split) blast
  moreover have "P (zfs_walk_loop s ops old (volume_search (fts_path e)) es w)"
    using assms(1,2) by (rule walk_loop_keeps)
  ultimately show ?thesis using assms(3) by auto
qed

text \<open>A walk that rewrites the files with the file check and backups never loses data, whichever
  calls fail for whichever files, whatever the datasets store and the zfs commands answer, and
  even when it is interrupted or crashes: every file holds its data, or a backup file does.\<close>

lemma process_folder_recoverable:
  assumes "all_recoverable d B w" and "\<forall>e\<in>set es. size_known d B (fts_statp e)"
  shows "all_recoverable d B (zfs_process_folder s ops old es w)"
  using assms(1)
proof (rule process_folder_keeps)
  show "all_recoverable d B (fst (zfs_visit_entry s ops old vs e w))"
    if "e \<in> set es" "all_recoverable d B w" for vs e and w :: "('a, 'b, 'c, 'd) zwalk"
    using that(2) assms(2) that(1) by (intro visit_recoverable) auto
qed (simp add: all_recoverable_def)

definition sample_zentry :: "string \<Rightarrow> nat \<Rightarrow> fts_entry" where
  "sample_zentry path ino = \<lparr>fts_path = path, fts_level = 1, fts_info = 8, fts_ino = ino,
     fts_statp = (z_info sample_zworld)\<lparr>st_ino := ino\<rparr>\<rparr>"

definition sample_zsys :: zsys where
  "sample_zsys = \<lparr>zy_env = (\<lambda>ino. sample_zenv\<lparr>z_fails := (\<lambda>x. ino = 5 \<and> x = Z_write)\<rparr>),
     zy_query = (\<lambda>_. sample_query), zy_bak_mode = 0, zy_quit = (\<lambda>_ _. False)\<rparr>"

definition sample_zops where
  "sample_zops = \<lparr>zo_ids = map_ops, zo_names = map_ops, zo_links = map_ops, zo_queue = map_ops\<rparr>"

definition sample_zwalk where
  "sample_zwalk = \<lparr>zk_info = sample_zinfo\<lparr>compress_files := True\<rparr>, zk_links = link_init map_ops,
     zk_nodes = (\<lambda>_. z_node sample_zworld), zk_backups = [], zk_registry = empty_registry map_ops map_ops,
     zk_pool = (None :: (string \<Rightarrow> unit option) pool option), zk_skipped = 0, zk_stop = False\<rparr>"

section \<open>Counts and totals\<close>

text \<open>A relation between the states before and after holds of a walk nobody interrupts when it holds
  of each visited entry.\<close>

lemma zfs_walk_rule:
  assumes "\<And>k p. \<not> zy_quit s k p" and "\<not> zk_stop (zfs_walk_loop s ops old vs es w)"
    and "\<And>w. R [] w w"
    and "\<And>e es w w'. in_scope vs (fts_path e) \<Longrightarrow> \<not> zk_stop (fst (zfs_visit_entry s ops old vs e w)) \<Longrightarrow>
      R es (fst (zfs_visit_entry s ops old vs e w)) w' \<Longrightarrow> R (e # es) w w'"
  shows "R (visited vs es) w (zfs_walk_loop s ops old vs es w)"
  using assms(2)
proof (induction "length es" arbitrary: es w rule: less_induct)
  case less
  show ?case
  proof (cases es)
    case Nil
    then show ?thesis by (simp add: assms(3))
  next
    case (Cons e rest)
    define r where "r = zfs_visit_entry s ops old vs e w"
    define rest' where "rest' = (if snd r then skip_below e rest else rest)"
    have loop: "zfs_walk_loop s ops old vs es w = (if zk_stop (fst r) then fst r else zfs_walk_loop s ops old vs rest' (fst r))"
      using assms(1) by (simp add: Cons r_def rest'_def Let_def)
    with less.prems have st: "\<not> zk_stop (fst r)" "\<not> zk_stop (zfs_walk_loop s ops old vs rest' (fst r))"
      by (auto split: if_splits)
    have len: "length rest' < length es" using length_skip_below [of e rest] by (simp add: rest'_def Cons)
    have IH: "R (visited vs rest') (fst r) (zfs_walk_loop s ops old vs rest' (fst r))"
      using less.hyps [OF len st(2)] .
    show ?thesis
    proof (cases "in_scope vs (fts_path e)")
      case True
      have "\<not> snd r"
      proof (cases "is_folder e")
        case True
        then have "\<not> fst (zfs_link_check ops e w)"
          by (simp add: zfs_link_check_def checkForHardLink_def Let_def folder_has_no_links)
        then show ?thesis using True \<open>in_scope vs (fts_path e)\<close> assms(1)
          by (simp add: r_def zfs_visit_entry_def zfs_visit_folder_def Let_def)
      next
        case False
        then show ?thesis using assms(1) \<open>in_scope vs (fts_path e)\<close> by (simp add: r_def zfs_visit_entry_def)
      qed
      then have "rest' = rest" by (simp add: rest'_def)
      then show ?thesis
        using assms(4) [OF True st(1) [unfolded r_def]] IH loop st(1) True by (simp add: Cons r_def)
    next
      case False
      then have "r = (w, True)" by (simp add: r_def zfs_visit_entry_def)
      then show ?thesis using IH loop st(1) False by (simp add: Cons rest'_def)
    qed
  qed
qed

lemma zfs_counts_step:
  assumes "\<And>k p. \<not> zy_quit s k p" and "in_scope vs (fts_path e)"
    and "\<not> zk_stop (fst (zfs_visit_entry s ops old vs e w))"
  shows "num_files (zk_info (fst (zfs_visit_entry s ops old vs e w))) = num_files (zk_info w) + of_bool (is_file e)
    \<and> num_folders (zk_info (fst (zfs_visit_entry s ops old vs e w)))
      = num_folders (zk_info w) + of_bool (is_folder e \<and> entering e)"
proof (cases "is_file e")
  case True
  define w1 where "w1 = w\<lparr>zk_links := snd (zfs_link_check ops e w)\<rparr>"
  define r where "r = (if compress_files (zk_info w) \<and> S_ISREG (st_mode (fts_statp e)) then
                   (case zk_pool w of
                      Some p \<Rightarrow> (fts_statp e, zfs_queue_entry s ops old False e p w1)
                    | None \<Rightarrow> zfs_compress_entry s ops e w1)
                 else (fts_statp e, w1))"
  have i: "zk_info (snd r) = zk_info w" by (simp add: r_def w1_def split: option.splits)
  have "\<not> zk_stop (zfs_visit_file s ops old e w)"
    using assms True file_not_folder [OF True] by (simp add: zfs_visit_entry_def)
  then have "num_files (zk_info (zfs_visit_file s ops old e w)) = num_files (zk_info w) + 1
    \<and> num_folders (zk_info (zfs_visit_file s ops old e w)) = num_folders (zk_info w)"
    unfolding zfs_visit_file_def Let_def w1_def [symmetric] r_def [symmetric]
    by (auto simp: i w1_def zfs_process_file_info_def assms(1) Let_def split: if_splits option.splits)
  then show ?thesis using assms(1,2) True file_not_folder [OF True] by (simp add: zfs_visit_entry_def)
next
  case False
  then show ?thesis
    using assms(1,2) by (auto simp: zfs_visit_entry_def zfs_visit_folder_def Let_def)
qed

text \<open>Without compression and without the check for hard links the totals are sums over the files.\<close>

definition file_total :: "(stat \<Rightarrow> int) \<Rightarrow> fts_entry list \<Rightarrow> int" where
  "file_total f es = sum_list (map (\<lambda>e. f (fts_statp e)) (filter is_file es))"

lemma process_file_info_totals:
  assumes "zfs_process_file_info False attr st fi = Some (n, fi')"
  shows "compress_files fi' = compress_files fi \<and> check_hard_links fi' = check_hard_links fi
    \<and> uncompressed_size fi' = uncompressed_size fi + st_size st
    \<and> compressed_size fi' = compressed_size fi + st_blocks st * S_BLKSIZE
    \<and> num_compressed fi' \<le> num_compressed fi + 1"
  using assms by (auto simp: zfs_process_file_info_def Let_def split: option.splits)

lemma zfs_totals_step:
  assumes "\<And>k p. \<not> zy_quit s k p" and "in_scope vs (fts_path e)"
    and "\<not> zk_stop (fst (zfs_visit_entry s ops old vs e w))"
    and "\<not> compress_files (zk_info w)" and "\<not> check_hard_links (zk_info w)"
  shows "\<exists>fi. zk_info (fst (zfs_visit_entry s ops old vs e w)) = fi
    \<and> \<not> compress_files fi \<and> \<not> check_hard_links fi
    \<and> uncompressed_size fi = uncompressed_size (zk_info w) + (if is_file e then st_size (fts_statp e) else 0)
    \<and> compressed_size fi = compressed_size (zk_info w)
        + (if is_file e then st_blocks (fts_statp e) * S_BLKSIZE else 0)
    \<and> num_compressed fi \<le> num_compressed (zk_info w) + of_bool (is_file e)"
proof -
  have v: "zfs_visit_entry s ops old vs e w = (if is_folder e then zfs_visit_folder ops e w
      else if is_file e then (zfs_visit_file s ops old e w, False) else (w, False))"
    using assms(1,2) by (simp add: zfs_visit_entry_def)
  have lc: "zfs_link_check ops e w = (False, zk_links w)" using assms(5) by (simp add: zfs_link_check_def)
  show ?thesis
  proof (cases "is_file e")
    case True
    obtain n fi where fi: "zfs_process_file_info (zy_quit s In_info (fts_path e))
        (file_attr (zk_nodes w) (st_ino (fts_statp e))) (fts_statp e) (zk_info w) = Some (n, fi)"
      "zk_info (fst (zfs_visit_entry s ops old vs e w)) = fi"
      using assms(3,4) True file_not_folder [OF True]
      by (auto simp: v zfs_visit_file_def lc Let_def split: option.splits if_splits)
    show ?thesis
      using process_file_info_totals [of _ _ _ n fi] fi True assms(1,4,5) by simp
  next
    case False
    then show ?thesis using assms(4,5) by (simp add: v zfs_visit_folder_def lc Let_def)
  qed
qed

lemma process_folder_info:
  "zk_stop (zfs_process_folder s ops old es w) \<longleftrightarrow> (es \<noteq> [] \<or> zk_stop w) \<and>
     zk_stop (zfs_walk_loop s ops old (volume_search (fts_path (hd es))) es w)"
  "zk_info (zfs_process_folder s ops old es w)
     = zk_info (zfs_walk_loop s ops old (volume_search (fts_path (hd es))) es w)"
  by (cases es; simp add: zfs_process_folder_def Let_def del: zfs_walk_loop.simps(2))+

text \<open>The counters of a walk that was not interrupted count the visited files and folders; one that
  does not compress adds up what the files have and what they occupy.\<close>

theorem zfs_folder_counts:
  assumes "\<And>k p. \<not> zy_quit s k p" and "\<not> zk_stop (zfs_process_folder s ops old es w)" and "\<not> zk_stop w"
  defines "vs \<equiv> visited (volume_search (fts_path (hd es))) es"
    and "fi \<equiv> zk_info (zfs_process_folder s ops old es w)"
  shows "num_files fi = num_files (zk_info w) + files_in vs"
    and "num_folders fi = num_folders (zk_info w) + folders_in vs"
    and "\<not> compress_files (zk_info w) \<Longrightarrow> \<not> check_hard_links (zk_info w) \<Longrightarrow>
      uncompressed_size fi = uncompressed_size (zk_info w) + file_total st_size vs
      \<and> compressed_size fi = compressed_size (zk_info w) + file_total (\<lambda>st. st_blocks st * S_BLKSIZE) vs
      \<and> num_compressed fi \<le> num_compressed (zk_info w) + files_in vs"
proof -
  let ?v = "volume_search (fts_path (hd es))"
  have st: "\<not> zk_stop (zfs_walk_loop s ops old ?v es w)"
    using assms(2,3) by (cases es) (simp_all add: process_folder_info del: zfs_walk_loop.simps(2))
  have "num_files (zk_info (zfs_walk_loop s ops old ?v es w)) = num_files (zk_info w) + files_in (visited ?v es)
    \<and> num_folders (zk_info (zfs_walk_loop s ops old ?v es w)) = num_folders (zk_info w) + folders_in (visited ?v es)"
  proof (rule zfs_walk_rule [OF assms(1) st], goal_cases)
    case (1 w)
    then show ?case by simp
  next
    case (2 e es w w')
    then show ?case using zfs_counts_step [OF assms(1) 2(1,2)] by simp
  qed
  then show "num_files fi = num_files (zk_info w) + files_in vs"
    "num_folders fi = num_folders (zk_info w) + folders_in vs"
    by (simp_all add: fi_def vs_def process_folder_info(2))
  have "\<not> compress_files (zk_info w) \<longrightarrow> \<not> check_hard_links (zk_info w) \<longrightarrow>
      uncompressed_size (zk_info (zfs_walk_loop s ops old ?v es w))
        = uncompressed_size (zk_info w) + file_total st_size (visited ?v es)
      \<and> compressed_size (zk_info (zfs_walk_loop s ops old ?v es w))
        = compressed_size (zk_info w) + file_total (\<lambda>st. st_blocks st * S_BLKSIZE) (visited ?v es)
      \<and> num_compressed (zk_info (zfs_walk_loop s ops old ?v es w)) \<le> num_compressed (zk_info w) + files_in (visited ?v es)"
  proof (rule zfs_walk_rule [OF assms(1) st], goal_cases)
    case (1 w)
    then show ?case by (simp add: file_total_def)
  next
    case (2 e es w w')
    then show ?case
      using zfs_totals_step [OF assms(1) 2(1,2)] by (auto simp: file_total_def)
  qed
  then show "\<not> compress_files (zk_info w) \<Longrightarrow> \<not> check_hard_links (zk_info w) \<Longrightarrow>
      uncompressed_size fi = uncompressed_size (zk_info w) + file_total st_size vs
      \<and> compressed_size fi = compressed_size (zk_info w) + file_total (\<lambda>st. st_blocks st * S_BLKSIZE) vs
      \<and> num_compressed fi \<le> num_compressed (zk_info w) + files_in vs"
    by (simp add: fi_def vs_def process_folder_info(2))
qed

end
