(* ===== verification/ZfsRestore.thy ===== *)
theory ZfsRestore
  imports ZfsMainProperties
begin

text \<open>
  What happens to the datasets in a run of \<open>zfsctool\<close> without workers: whatever failed on the way,
  the end gives every dataset the compression it had, provided the commands of the end work.
\<close>

section \<open>A dataset\<close>

text \<open>The property as it is set, while the wanted compression is \<open>c\<close>; with \<open>test\<close> it never changes.\<close>

definition dataset_ok :: "string \<Rightarrow> dataset \<Rightarrow> bool" where
  "dataset_ok c ds \<longleftrightarrow> initialCompression ds \<noteq> ''test''
     \<and> (if c = ''test''
        then ds_actual ds = initialCompression ds \<and> currentCompression ds \<in> {initialCompression ds, ''test''}
        else ds_actual ds = currentCompression ds \<and> currentCompression ds \<noteq> ''test'')"

lemma internal_set_ok:
  "dataset_ok c ds \<Longrightarrow> x = c \<or> x = initialCompression ds \<Longrightarrow> dataset_ok c (snd (internal_setCompression e x ds))"
  by (auto simp: dataset_ok_def internal_setCompression_def Let_def)

lemma dataset_ok_counters [simp]:
  "dataset_ok c (ds\<lparr>refcount := n\<rparr>) = dataset_ok c ds"
  "dataset_ok c (ds\<lparr>shuntedIncreases := n\<rparr>) = dataset_ok c ds"
  "dataset_ok c (ds\<lparr>shuntedDecreases := n\<rparr>) = dataset_ok c ds"
  "dataset_ok c (ds\<lparr>readOnly := b\<rparr>) = dataset_ok c ds"
  by (simp_all add: dataset_ok_def)

lemma set_ok: "dataset_ok c ds \<Longrightarrow> dataset_ok c (snd (setCompression e c ds))"
  by (simp add: setCompression_def Let_def internal_set_ok)

lemma reset_ok: "dataset_ok c ds \<Longrightarrow> dataset_ok c (snd (resetCompression e force ds))"
  by (simp add: resetCompression_def drop_reference_def finish_reset_def Let_def internal_set_ok)

lemma new_dataset_ok:
  "dataset_of_props props = Some ds \<Longrightarrow> props ! 1 \<noteq> ''test'' \<Longrightarrow> dataset_ok c ds"
  by (auto simp: dataset_of_props_def new_dataset_def dataset_ok_def split: list.splits)

lemma delete_restores:
  "dataset_ok c ds \<Longrightarrow> \<forall>n. cmd_ok e n \<Longrightarrow>
     ds_actual (delete_dataset e ds) = initialCompression (delete_dataset e ds)"
  by (auto simp: dataset_ok_def delete_dataset_def internal_setCompression_def Let_def split: if_splits)

section \<open>Rewriting a file\<close>

definition ds_kept :: "string \<Rightarrow> zstep \<Rightarrow> bool" where
  "ds_kept c r = (case r of Inl (x, w) \<Rightarrow> dataset_ok c (z_ds w) | Inr w \<Rightarrow> dataset_ok c (z_ds w))"

lemma ds_kept_bind:
  "ds_kept c r \<Longrightarrow> (\<And>w. dataset_ok c (z_ds w) \<Longrightarrow> ds_kept c (f w)) \<Longrightarrow> ds_kept c (bindE r f)"
  by (cases r) (auto simp: ds_kept_def split: sum.splits)

lemma zc_steps_kept:
  assumes "dataset_ok c (z_ds w)"
  shows "ds_kept c (zc_backup e fi b w)" "ds_kept c (zc_rewrite e t b w)" "ds_kept c (zc_check e fi b w)"
  using assms
  by (simp_all add: ds_kept_def zc_backup_def zc_rewrite_def zc_check_def zc_write_again_def zc_put_data_def Let_def)

lemma zc_body_kept:
  assumes "dataset_ok (z_compression fi) (z_ds w)"
  shows "ds_kept (z_compression fi) (zc_body e fi t tms w)"
proof (cases "zc_read e (nat (st_size (z_info w))) tms (zc_chmod e t (st_mode (z_info w)) w)")
  case (Inl x)
  then have "z_ds (snd x) = z_ds w"
    by (auto simp: zc_read_def zc_utimes_def split: if_splits)
  then show ?thesis using Inl assms by (cases x) (simp add: zc_body_def ds_kept_def)
next
  case (Inr b)
  show ?thesis
    unfolding zc_body_def Inr bindE.simps
  proof (intro ds_kept_bind zc_steps_kept, goal_cases)
    case 1
    then show ?case using assms by simp
  next
    case (2 w2)
    then show ?case by (simp add: set_ok)
  next
    case (3 w2 w3)
    then show ?case by simp
  next
    case (4 w2 w3 w4)
    then show ?case by (simp add: ds_kept_def zc_release_def reset_ok)
  qed
qed

lemma compress_dataset_ok:
  assumes "zfs_compressFile e fi w = (x, w')" and "dataset_ok (z_compression fi) (z_ds w)"
  shows "dataset_ok (z_compression fi) (z_ds w')"
proof -
  let ?t = "z_compression fi = ''test''" and ?tms = "usec_times (z_info w)"
  have "ds_kept (z_compression fi) (zc_body e fi ?t ?tms w)" using assms(2) by (rule zc_body_kept)
  then show ?thesis
    using assms
    by (auto simp: zfs_compressFile_def Let_def ds_kept_def zc_bail_frame
        split: sum.splits prod.splits exit.splits if_splits)
qed

section \<open>The datasets of a run without workers\<close>

text \<open>Each has its own file system, is in the care of the program, and is as it should be.\<close>

definition serial_ok :: "'g id_ops \<Rightarrow> string \<Rightarrow> ('g, 'h) registry \<Rightarrow> bool" where
  "serial_ok gops c rg \<longleftrightarrow> rg_deleted rg = [] \<and> set (rg_manual rg) = {..<length (rg_store rg)}
     \<and> (\<forall>i<length (rg_store rg). \<exists>ds. rg_store rg ! i = Some ds \<and> dataset_ok c ds)
     \<and> (\<forall>k i. k \<noteq> 0 \<longrightarrow> hash_lookup gops (rg_fsid rg) k = Some i \<longrightarrow> i < length (rg_store rg))
     \<and> (\<forall>i<length (rg_store rg). \<exists>k. k \<noteq> 0 \<and> hash_lookup gops (rg_fsid rg) k = Some i)
     \<and> (\<forall>k l i. k \<noteq> 0 \<longrightarrow> l \<noteq> 0 \<longrightarrow> hash_lookup gops (rg_fsid rg) k = Some i
          \<longrightarrow> hash_lookup gops (rg_fsid rg) l = Some i \<longrightarrow> k = l)"

lemma serial_okD:
  assumes "serial_ok gops c rg"
  shows "i < length (rg_store rg) \<Longrightarrow> \<exists>ds. rg_store rg ! i = Some ds \<and> dataset_ok c ds"
    and "k \<noteq> 0 \<Longrightarrow> hash_lookup gops (rg_fsid rg) k = Some i \<Longrightarrow> i < length (rg_store rg)"
    and "i < length (rg_store rg) \<Longrightarrow> \<exists>k. k \<noteq> 0 \<and> hash_lookup gops (rg_fsid rg) k = Some i"
    and "k \<noteq> 0 \<Longrightarrow> l \<noteq> 0 \<Longrightarrow> hash_lookup gops (rg_fsid rg) k = Some i \<Longrightarrow>
      hash_lookup gops (rg_fsid rg) l = Some i \<Longrightarrow> k = l"
    and "rg_deleted rg = []" and "set (rg_manual rg) = {..<length (rg_store rg)}"
  using assms by (simp_all add: serial_ok_def)

definition proper_query :: "zquery \<Rightarrow> bool" where
  "proper_query q \<longleftrightarrow> zf_fsid (zq_fs q) \<noteq> 0
     \<and> (\<forall>p. length (split (CHR 0x09) (dataset_line (zq_list q p))) = 4 \<longrightarrow>
          split (CHR 0x09) (dataset_line (zq_list q p)) ! 1 \<noteq> ''test'')"

lemma serial_ok_new:
  assumes "hash_laws gops (\<lambda>k. k \<noteq> 0)" and "serial_ok gops c rg" and "k \<noteq> 0"
    and "hash_lookup gops (rg_fsid rg) k = None" and "dataset_ok c ds"
  shows "serial_ok gops c (rg\<lparr>rg_store := rg_store rg @ [Some ds], rg_manual := length (rg_store rg) # rg_manual rg,
      rg_fsid := h_insert gops (rg_fsid rg) k (length (rg_store rg))\<rparr>)"
    (is "serial_ok gops c ?rg")
proof -
  let ?n = "length (rg_store rg)"
  note d = serial_okD [OF assms(2)]
  have reg: "rg_store ?rg = rg_store rg @ [Some ds]" "rg_manual ?rg = ?n # rg_manual rg" "rg_deleted ?rg = rg_deleted rg"
    by simp_all
  have look: "j \<noteq> 0 \<Longrightarrow> hash_lookup gops (rg_fsid ?rg) j = (if j = k then Some ?n else hash_lookup gops (rg_fsid rg) j)" for j
    using hash_laws_simps(2) [OF assms(1,3)] by simp
  have manual: "set (rg_manual ?rg) = {..<length (rg_store ?rg)}" "rg_deleted ?rg = []"
    using d(5,6) by (simp_all add: lessThan_Suc)
  have live: "\<exists>ds. rg_store ?rg ! i = Some ds \<and> dataset_ok c ds" if "i < length (rg_store ?rg)" for i
    using d(1) [of i] assms(5) that by (cases "i = ?n") (simp_all add: nth_append)
  have known: "\<exists>j. j \<noteq> 0 \<and> hash_lookup gops (rg_fsid ?rg) j = Some i" if i: "i < length (rg_store ?rg)" for i
  proof (cases "i = ?n")
    case True
    then show ?thesis using look [OF assms(3)] assms(3) by auto
  next
    case False
    then obtain j where j: "j \<noteq> 0" "hash_lookup gops (rg_fsid rg) j = Some i"
      using d(3) [of i] i by auto
    then have "j \<noteq> k" using assms(4) by auto
    then show ?thesis using look [OF j(1)] j by (intro exI [of _ j] conjI) simp_all
  qed
  have bound: "i < length (rg_store ?rg)" if "j \<noteq> 0" "hash_lookup gops (rg_fsid ?rg) j = Some i" for i j
    using that look [OF that(1)] d(2) [OF that(1), of i] by (cases "j = k") auto
  have inj: "j = l" if jl: "j \<noteq> 0" "l \<noteq> 0" "hash_lookup gops (rg_fsid ?rg) j = Some i"
    "hash_lookup gops (rg_fsid ?rg) l = Some i" for i j l
  proof -
    have old: "j \<noteq> k \<Longrightarrow> hash_lookup gops (rg_fsid rg) j = Some i" "l \<noteq> k \<Longrightarrow> hash_lookup gops (rg_fsid rg) l = Some i"
      using jl look [OF jl(1)] look [OF jl(2)] by simp_all
    have new: "j = k \<Longrightarrow> i = ?n" "l = k \<Longrightarrow> i = ?n" using jl look [OF jl(1)] look [OF jl(2)] by simp_all
    have "i = ?n \<Longrightarrow> j = k" "i = ?n \<Longrightarrow> l = k" using old d(2) [OF jl(1), of i] d(2) [OF jl(2), of i] by auto
    then show ?thesis using new old d(4) [OF jl(1,2), of i] by metis
  qed
  show ?thesis
    unfolding serial_ok_def using manual live known bound inj by blast
qed

lemma fileIsCompressable_serial:
  assumes "hash_laws gops (\<lambda>k. k \<noteq> 0)" and "serial_ok gops c rg" and "proper_query q" and "\<not> zq_PP q"
    and "zfs_fileIsCompressable gops hops q fi st inFile rg = Some (r, rg')"
  shows "serial_ok gops c rg' \<and> (\<forall>i. r = Some i \<longrightarrow> i < length (rg_store rg'))"
proof -
  let ?k = "zf_fsid (zq_fs q)"
  let ?props = "split (CHR 0x09) (dataset_line (zq_list q (absolute_name q st inFile)))"
  consider "r = None" "rg' = rg"
    | i where "hash_lookup gops (rg_fsid rg) ?k = Some i" "answer q fi st i rg = Some (r, rg')"
    | "length ?props = 4" "new_file_system gops hops q fi st inFile ?props rg = Some (r, rg')"
        "hash_lookup gops (rg_fsid rg) ?k = None"
    using assms(4,5) by (auto simp: zfs_fileIsCompressable_def Let_def split: if_splits option.splits)
  then show ?thesis
  proof cases
    case 1
    then show ?thesis using assms(2) by simp
  next
    case (2 i)
    then have "i < length (rg_store rg)" using serial_okD(2) [OF assms(2) _ 2(1)] assms(3) by (simp add: proper_query_def)
    then show ?thesis using answer_keeps [OF 2(2)] assms(2) by auto
  next
    case 3
    obtain ds where ds: "dataset_of_props ?props = Some ds"
      and ans: "answer q fi st (length (rg_store rg)) (rg\<lparr>rg_store := rg_store rg @ [Some ds],
          rg_manual := length (rg_store rg) # rg_manual rg,
          rg_fsid := h_insert gops (rg_fsid rg) ?k (length (rg_store rg))\<rparr>) = Some (r, rg')"
      using 3(2) assms(4) by (auto simp: new_file_system_def create_dataset_def Let_def split: option.splits)
    have "dataset_ok c ds" using new_dataset_ok [OF ds] 3(1) assms(3) by (simp add: proper_query_def)
    from serial_ok_new [OF assms(1,2) _ 3(3) this] answer_keeps [OF ans] assms(3)
    show ?thesis by (auto simp: proper_query_def)
  qed
qed

lemma serial_ok_store:
  assumes "serial_ok gops c rg" and "i < length (rg_store rg)" and "dataset_ok c ds"
  shows "serial_ok gops c (rg\<lparr>rg_store := (rg_store rg)[i := Some ds]\<rparr>)"
  using assms unfolding serial_ok_def by (auto simp: nth_list_update)

text \<open>The state of a run, and what a walk needs to know of the settings.\<close>

definition run_ok :: "'g id_ops \<Rightarrow> string \<Rightarrow> ('g, 'h, 'l, 'm) zwalk \<Rightarrow> bool" where
  "run_ok gops c w \<longleftrightarrow> zk_pool w = None \<and> serial_ok gops c (zk_registry w)"

lemma proper_file_query: "proper_query (zy_query s path) \<Longrightarrow> proper_query (file_query s b path a)"
  by (simp add: proper_query_def file_query_def)

lemma compress_entry_run_ok:
  assumes "hash_laws (zo_ids ops) (\<lambda>k. k \<noteq> 0)" and "\<And>p. proper_query (zy_query s p)"
    and "run_ok (zo_ids ops) c w" and "z_compression (zk_info w) = c"
  shows "run_ok (zo_ids ops) c (snd (zfs_compress_entry s ops e w))"
proof -
  define st where "st = fts_statp e"
  define ino where "ino = st_ino st"
  define q where "q = file_query s False (fts_path e) (file_attr (zk_nodes w) ino)"
  define r where "r = zfs_fileIsCompressable (zo_ids ops) (zo_names ops) q (zk_info w) st (fts_path e) (zk_registry w)"
  have q: "proper_query q" "\<not> zq_PP q"
    using assms(2) by (auto simp: q_def intro!: proper_file_query) (simp add: file_query_def)
  note eq = zfs_compress_entry_def [of s ops e w, unfolded Let_def, folded st_def, folded ino_def, folded q_def, folded r_def]
  have sok: "serial_ok (zo_ids ops) c (zk_registry w)" "zk_pool w = None" using assms(3) by (simp_all add: run_ok_def)
  have res: "serial_ok (zo_ids ops) c rg \<and> (\<forall>i. x = Some i \<longrightarrow> i < length (rg_store rg))" if "r = Some (x, rg)" for x rg
    using fileIsCompressable_serial [OF assms(1) sok(1) q] that by (simp add: r_def)
  consider "zq_quit (z_engine (zy_env s ino))" | "r = None" | rg where "r = Some (None, rg)"
    | i rg where "r = Some (Some i, rg)" "live rg i = None"
    | i rg ds where "r = Some (Some i, rg)" "live rg i = Some ds" "\<not> zq_quit (z_engine (zy_env s ino))"
    by (metis option.exhaust prod.collapse)
  then show ?thesis
  proof cases
    case (5 i rg ds)
    note i = res [OF 5(1)]
    then have "dataset_ok c ds" using 5(2) by (auto simp: serial_ok_def live_def)
    then have ok: "dataset_ok c (z_ds (snd (zfs_compressFile env (zk_info w) v)))" if "z_ds v = ds" for env v
      using compress_dataset_ok [OF prod.collapse [symmetric], where fi = "zk_info w"] that assms(4) by simp
    show ?thesis
      unfolding eq using 5 i sok by (simp add: run_ok_def serial_ok_store ok)
  qed (use sok res in \<open>simp_all add: eq run_ok_def\<close>)
qed

lemma argument_run_ok:
  assumes "hash_laws (zo_ids ops) (\<lambda>k. k \<noteq> 0)" and "\<And>p. proper_query (zy_query s p)"
    and "run_ok (zo_ids ops) (zp_codec o') w"
  shows "run_ok (zo_ids ops) (zp_codec o') (zfs_argument m o' s ops path w)"
  using assms(3)
proof (rule argument_keeps [where Q = "\<lambda>w. same_settings (zk_info w) (argument_info o' (zk_info w))"])
  fix v :: "('a, 'b, 'c, 'd) zwalk"
  assume q: "same_settings (zk_info v) (argument_info o' (zk_info v))" and v: "run_ok (zo_ids ops) (zp_codec o') v"
  have c: "z_compression (zk_info v) = zp_codec o'" using q by (simp add: same_settings_def argument_info_def)
  show "run_ok (zo_ids ops) (zp_codec o') (snd (zfs_compress_entry s ops e v))" for e
    using compress_entry_run_ok [OF assms(1,2) v c] .
  show "run_ok (zo_ids ops) (zp_codec o') (report_argument m s ops path st v)" for st
  proof (cases "zfs_fileIsCompressable (zo_ids ops) (zo_names ops)
             (file_query s False path (file_attr (zk_nodes v) (st_ino st))) (zk_info v) st path (zk_registry v)")
    case None
    then show ?thesis using v by (simp add: report_argument_def run_ok_def)
  next
    case (Some r)
    obtain a rg where r: "r = (a, rg)" by (cases r)
    have "serial_ok (zo_ids ops) (zp_codec o') rg"
      using fileIsCompressable_serial [OF assms(1) _ proper_file_query [OF assms(2)] _ Some [unfolded r]] v
      by (simp add: run_ok_def file_query_def)
    then show ?thesis using Some r v by (simp add: report_argument_def run_ok_def)
  qed
  show "run_ok (zo_ids ops) (zp_codec o') (zfs_process_folder s ops (zm_old m) es v)" for es
  proof -
    have "run_ok (zo_ids ops) (zp_codec o') (zfs_process_folder s ops (zm_old m) es v)
        \<and> z_compression (zk_info (zfs_process_folder s ops (zm_old m) es v)) = zp_codec o'"
    proof (rule process_folder_keeps [where P = "\<lambda>w. run_ok (zo_ids ops) (zp_codec o') w \<and> z_compression (zk_info w) = zp_codec o'"])
      show "run_ok (zo_ids ops) (zp_codec o') v \<and> z_compression (zk_info v) = zp_codec o'" using v c by simp
      fix vs e and u :: "('a, 'b, 'c, 'd) zwalk"
      assume u: "run_ok (zo_ids ops) (zp_codec o') u \<and> z_compression (zk_info u) = zp_codec o'"
      then show "run_ok (zo_ids ops) (zp_codec o') (fst (zfs_visit_entry s ops (zm_old m) vs e u))
        \<and> z_compression (zk_info (fst (zfs_visit_entry s ops (zm_old m) vs e u))) = zp_codec o'"
        by (rule visit_keeps [where P = "\<lambda>w. run_ok (zo_ids ops) (zp_codec o') w \<and> z_compression (zk_info w) = zp_codec o'"])
          (simp_all add: same_settings_def compress_entry_run_ok [OF assms(1,2)], simp_all add: run_ok_def)
    qed (simp add: run_ok_def)
    then show ?thesis ..
  qed
qed (simp_all add: run_ok_def)

section \<open>The end of a run\<close>

text \<open>The values of the map, each key once.\<close>

definition hash_values :: "'g id_ops \<Rightarrow> ('g \<Rightarrow> nat list) \<Rightarrow> bool" where
  "hash_values gops values \<longleftrightarrow> (\<forall>m. \<exists>ks. distinct ks \<and> set ks = {k. k \<noteq> 0 \<and> hash_lookup gops m k \<noteq> None}
     \<and> values m = map (\<lambda>k. the (hash_lookup gops m k)) ks)"

lemma serial_values:
  assumes "serial_ok gops c rg" and "hash_values gops values"
  shows "distinct (values (rg_fsid rg))" and "set (values (rg_fsid rg)) = {..<length (rg_store rg)}"
proof -
  note d = serial_okD [OF assms(1)]
  obtain ks where ks: "distinct ks" "set ks = {k. k \<noteq> 0 \<and> hash_lookup gops (rg_fsid rg) k \<noteq> None}"
    "values (rg_fsid rg) = map (\<lambda>k. the (hash_lookup gops (rg_fsid rg) k)) ks"
    using assms(2) unfolding hash_values_def by metis
  have "inj_on (\<lambda>k. the (hash_lookup gops (rg_fsid rg) k)) (set ks)"
  proof (rule inj_onI)
    fix k l assume "k \<in> set ks" "l \<in> set ks"
      and eq: "the (hash_lookup gops (rg_fsid rg) k) = the (hash_lookup gops (rg_fsid rg) l)"
    then obtain i j where "k \<noteq> 0" "l \<noteq> 0" "hash_lookup gops (rg_fsid rg) k = Some i" "hash_lookup gops (rg_fsid rg) l = Some j"
      using ks(2) by auto
    then show "k = l" using d(4) [of k l i] eq by simp
  qed
  then show "distinct (values (rg_fsid rg))" using ks(1) by (simp add: ks(3) distinct_map)
  have "i \<in> (\<lambda>k. the (hash_lookup gops (rg_fsid rg) k)) ` set ks" if i: "i < length (rg_store rg)" for i
  proof -
    obtain k where "k \<noteq> 0" "hash_lookup gops (rg_fsid rg) k = Some i" using d(3) [OF i] by auto
    then show ?thesis using ks(2) by (intro image_eqI [of _ _ k]) auto
  qed
  moreover have "the (hash_lookup gops (rg_fsid rg) k) < length (rg_store rg)" if k: "k \<in> set ks" for k
  proof -
    obtain i where "k \<noteq> 0" "hash_lookup gops (rg_fsid rg) k = Some i" using k ks(2) by auto
    then show ?thesis using d(2) by simp
  qed
  ultimately show "set (values (rg_fsid rg)) = {..<length (rg_store rg)}"
    by (auto simp: ks(3))
qed

definition restored :: "dataset \<Rightarrow> bool" where
  "restored ds \<longleftrightarrow> ds_actual ds = initialCompression ds"

lemma empty_ids_restores:
  assumes "\<forall>n. cmd_ok e n" and "distinct is" and "set is \<subseteq> set (rg_manual rg)" and "\<forall>ds\<in>set (rg_deleted rg). restored ds"
    and "\<forall>i\<in>set is. \<exists>ds. live rg i = Some ds \<and> dataset_ok c ds"
  shows "\<exists>rg'. empty_ids e quick is rg = Some rg' \<and> (\<forall>ds\<in>set (rg_deleted rg'). restored ds)
    \<and> length (rg_deleted rg') = length (rg_deleted rg) + length is
    \<and> length (rg_store rg') = length (rg_store rg)
    \<and> (\<forall>j. live rg' j = (if j \<in> set is then None else live rg j))"
  using assms(2-5)
proof (induction "is" arbitrary: rg)
  case Nil
  then show ?case by simp
next
  case (Cons i "is")
  obtain ds where ds: "live rg i = Some ds" "dataset_ok c ds" using Cons.prems(4) by auto
  define ds1 where "ds1 = (if quick then ds else snd (resetCompression e True ds))"
  define rg1 where "rg1 = rg\<lparr>rg_store := (rg_store rg)[i := None], rg_deleted := rg_deleted rg @ [delete_dataset e ds1]\<rparr>"
  have "dataset_ok c ds1" using ds(2) by (simp add: ds1_def reset_ok)
  then have del: "restored (delete_dataset e ds1)" using delete_restores assms(1) by (simp add: restored_def)
  have live: "live rg1 j = (if j = i then None else live rg j)" for j
    by (simp add: rg1_def live_def nth_list_update)
  have step: "empty_ids e quick (i # is) rg = empty_ids e quick is rg1"
    using ds(1) Cons.prems(2) by (simp add: rg1_def ds1_def Let_def)
  have "\<exists>rg'. empty_ids e quick is rg1 = Some rg' \<and> (\<forall>ds\<in>set (rg_deleted rg'). restored ds)
    \<and> length (rg_deleted rg') = length (rg_deleted rg1) + length is
    \<and> length (rg_store rg') = length (rg_store rg1)
    \<and> (\<forall>j. live rg' j = (if j \<in> set is then None else live rg1 j))"
  proof (rule Cons.IH)
    show "distinct is" "set is \<subseteq> set (rg_manual rg1)" using Cons.prems(1,2) by (simp_all add: rg1_def)
    show "\<forall>ds\<in>set (rg_deleted rg1). restored ds" using Cons.prems(3) del by (simp add: rg1_def)
    show "\<forall>j\<in>set is. \<exists>ds. live rg1 j = Some ds \<and> dataset_ok c ds"
      using Cons.prems(1,4) by (auto simp: live)
  qed
  moreover have "length (rg_deleted rg1) = length (rg_deleted rg) + 1" "length (rg_store rg1) = length (rg_store rg)"
    by (simp_all add: rg1_def)
  ultimately show ?case unfolding step by (auto simp: live)
qed

text \<open>C24: whatever failed during a run of \<open>zfsctool\<close> without workers that came to its end, the end
  releases every dataset that was used, once, with the compression it had at the beginning,
  provided the zfs commands of the end work; with -q and without.\<close>

theorem zfsctool_restores_datasets:
  assumes "hash_laws (zo_ids ops) (\<lambda>k. k \<noteq> 0)" and "hash_values (zo_ids ops) values"
    and "\<And>p. proper_query (zy_query (zm_sys m) p)" and "zparse_command_line argv = Some (o', args)"
    and "zp_nJobs o' = 0" and "\<forall>n. cmd_ok (zm_end_engine m) n"
    and "zfs_arguments m o' (zsys_of o' (zm_sys m)) ops args (main_start m o' ops nodes) = (True, w)"
  shows "\<exists>w'. zfsctool m ops values std_sort argv nodes = Z_done w' \<and> zk_nodes w' = zk_nodes w
    \<and> length (rg_deleted (zk_registry w')) = length (rg_store (zk_registry w))
    \<and> (\<forall>ds\<in>set (rg_deleted (zk_registry w')). ds_actual ds = initialCompression ds)
    \<and> (\<forall>i. live (zk_registry w') i = None)"
proof -
  have "serial_ok (zo_ids ops) (zp_codec o') (empty_registry (zo_ids ops) (zo_names ops))"
    using hash_laws_simps(1) [OF assms(1)] by (simp add: serial_ok_def empty_registry_def)
  then have start: "run_ok (zo_ids ops) (zp_codec o') (main_start m o' ops nodes)"
    using assms(5) by (simp add: run_ok_def main_start_def)
  have query: "proper_query (zy_query (zsys_of o' (zm_sys m)) p)" for p
    using assms(3) [of p] by (simp add: zsys_of_def proper_query_def)
  have "run_ok (zo_ids ops) (zp_codec o')
      (snd (zfs_arguments m o' (zsys_of o' (zm_sys m)) ops args (main_start m o' ops nodes)))"
    using start by (rule arguments_keep) (rule argument_run_ok [OF assms(1) query])
  then have ok: "zk_pool w = None" "serial_ok (zo_ids ops) (zp_codec o') (zk_registry w)"
    using assms(7) by (simp_all add: run_ok_def)
  let ?rg = "zk_registry w" and ?is = "values (rg_fsid (zk_registry w))"
  note v = serial_values [OF ok(2) assms(2)]
  have len: "length ?is = length (rg_store ?rg)" using distinct_card [OF v(1)] v(2) by simp
  obtain rg' where rg': "empty_ids (zm_end_engine m) (zp_quickReset o') ?is ?rg = Some rg'"
    "\<forall>ds\<in>set (rg_deleted rg'). restored ds" "length (rg_deleted rg') = length ?is"
    "length (rg_store rg') = length (rg_store ?rg)"
    "\<forall>j. live rg' j = (if j \<in> set ?is then None else live ?rg j)"
    using empty_ids_restores [OF assms(6) v(1), of ?rg "zp_codec o'" "zp_quickReset o'"] v(2) serial_okD(1,5,6) [OF ok(2)]
    by (auto simp: live_def)
  have "zfsctool m ops values std_sort argv nodes
      = Z_done (w\<lparr>zk_registry := rg'\<lparr>rg_fsid := h_clear (zo_ids ops)\<rparr>\<rparr>)"
    using zfsctool_serial [OF assms(4), of m ops nodes "values" std_sort] ok(1) rg'(1)
    by (simp add: assms(7) EmptyFSIdMap_def)
  moreover have "live rg' i = None" for i
    using rg'(5) v(2) by (cases "i < length (rg_store ?rg)") (simp_all add: live_def [of "zk_registry w"])
  ultimately show ?thesis using rg'(2,3) len by (simp add: restored_def fsid_update_simps)
qed

section \<open>A run\<close>

definition alist_values :: "(nat \<times> nat) list \<Rightarrow> nat list" where
  "alist_values m = map (\<lambda>k. the (map_of m k)) (remdups (filter (\<lambda>k. k \<noteq> 0) (map fst m)))"

lemma alist_hash_values: "hash_values alist_ops alist_values"
  unfolding hash_values_def
proof
  fix m :: "(nat \<times> nat) list"
  show "\<exists>ks. distinct ks \<and> set ks = {k. k \<noteq> 0 \<and> hash_lookup alist_ops m k \<noteq> None}
      \<and> alist_values m = map (\<lambda>k. the (hash_lookup alist_ops m k)) ks"
    by (intro exI [of _ "remdups (filter (\<lambda>k. k \<noteq> 0) (map fst m))"])
      (auto simp: alist_values_def alist_lookup map_of_eq_None_iff)
qed

text \<open>Two files on a dataset; the rewrite of the second one fails and leaves its reference on it.\<close>

definition sample_main :: main_env where
  "sample_main = \<lparr>zm_sys = \<lparr>zy_env = (\<lambda>ino. sample_zenv\<lparr>z_fails := (\<lambda>x. ino = 5 \<and> x = Z_write)\<rparr>),
       zy_query = (\<lambda>_. sample_query), zy_bak_mode = 0, zy_quit = (\<lambda>_ _. False)\<rparr>,
     zm_full_path = (\<lambda>_ _. None),
     zm_lstat = (\<lambda>path nodes. let ino = (if path = ''/tank/a'' then 4 else 5)
       in Some ((z_info sample_zworld)\<lparr>st_ino := ino, st_size := int (length (f_data (nodes ino)))\<rparr>)),
     zm_fts = (\<lambda>_ _. None), zm_info = empty_info, zm_old = 0, zm_end_engine = steady_engine\<rparr>"

definition sample_mops where
  "sample_mops = \<lparr>zo_ids = alist_ops, zo_names = alist_ops, zo_links = alist_ops, zo_queue = alist_ops\<rparr>"

definition sample_argv :: "string list" where
  "sample_argv = [''-cb'', ''-T'', ''lz4'', ''/tank/a'', ''/tank/b'']"

definition sample_zopts :: zoptions where
  "sample_zopts = zdefault_options\<lparr>zp_applycomp := True, zp_backupFile := True, zp_codec := ''lz4''\<rparr>"

lemma sample_argv_parse:
  "zparse_command_line sample_argv = Some (sample_zopts, [''/tank/a'', ''/tank/b''])"
  by code_simp


lemma sample_run_completes:
  "fst (zfs_arguments sample_main sample_zopts (zsys_of sample_zopts (zm_sys sample_main)) sample_mops
     [''/tank/a'', ''/tank/b''] (main_start sample_main sample_zopts sample_mops (\<lambda>_. z_node sample_zworld)))"
  by code_simp

theorem zfsctool_restores_datasets_witness:
  "\<exists>w'. zfsctool sample_main sample_mops alist_values (\<lambda>es. es) sample_argv (\<lambda>_. z_node sample_zworld) = Z_done w'
    \<and> (\<forall>ds\<in>set (rg_deleted (zk_registry w')). ds_actual ds = initialCompression ds)"
proof -
  define r where "r = zfs_arguments sample_main sample_zopts (zsys_of sample_zopts (zm_sys sample_main)) sample_mops
     [''/tank/a'', ''/tank/b''] (main_start sample_main sample_zopts sample_mops (\<lambda>_. z_node sample_zworld))"
  have r: "r = (True, snd r)" using sample_run_completes by (cases r) (simp add: r_def)
  have laws: "hash_laws (zo_ids sample_mops) (\<lambda>k. k \<noteq> 0)" "hash_values (zo_ids sample_mops) alist_values"
    by (simp_all add: sample_mops_def alist_ops_laws alist_hash_values)
  have "split (CHR 0x09) (dataset_line (zq_list sample_query p)) ! 1 = ''off''" for p by code_simp
  then have q: "proper_query (zy_query (zm_sys sample_main) p)" for p
    by (simp add: sample_main_def proper_query_def) (simp add: sample_query_def)
  have "zp_nJobs sample_zopts = 0" "\<forall>n. cmd_ok (zm_end_engine sample_main) n"
    by (simp_all add: sample_zopts_def zdefault_options_def sample_main_def steady_engine_def)
  from zfsctool_restores_datasets [OF laws q sample_argv_parse this r [unfolded r_def], of "\<lambda>es. es"]
  show ?thesis by blast
qed

end
