(* ===== verification/MsHandles.thy ===== *)
theory MsHandles
  imports Prelude
begin

text \<open>
  The Windows synchronisation calls the workers use, emulated on POSIX threads
  (src/CritSectEx/msemul.h, msemul.cpp): the interlocked operations, and semaphores, mutexes and
  events as one thread sees them. A call that blocks is \<open>None\<close>; the calls of the pthread library
  succeed unless a parameter says otherwise. A \<open>long\<close> is \<open>int\<close>.
\<close>

section \<open>Interlocked operations\<close>

definition interlocked_increment :: "int \<Rightarrow> int" where "interlocked_increment a = a + 1"

definition interlocked_decrement :: "int \<Rightarrow> int" where "interlocked_decrement a = a - 1"

definition interlocked_set_true :: "int \<Rightarrow> int" where
  "interlocked_set_true a = (if a = 0 then interlocked_increment a else a)"

text \<open>The loop counts down (or up) to 0.\<close>

function interlocked_set_false :: "int \<Rightarrow> int" where
  "interlocked_set_false a =
     (if a = 0 then a
      else if 0 < a then interlocked_set_false (interlocked_decrement a)
      else interlocked_set_false (interlocked_increment a))"
  by pat_completeness auto
termination
  by (relation "measure (\<lambda>a. nat \<bar>a\<bar>)") (auto simp: interlocked_increment_def interlocked_decrement_def)

declare interlocked_set_false.simps [simp del]

lemma interlocked_set_false_0 [simp]: "interlocked_set_false a = 0"
  by (induction a rule: interlocked_set_false.induct) (subst interlocked_set_false.simps, simp)

lemma interlocked_set_true_nonzero [simp]: "interlocked_set_true a \<noteq> 0"
  by (simp add: interlocked_set_true_def interlocked_increment_def)

text \<open>
  Compare-and-exchange reads the result \<open>old\<close> before the locked instruction: \<open>now\<close> is what the
  cell holds when that runs. The result is the value read first.
\<close>

definition compare_exchange :: "int \<Rightarrow> int \<Rightarrow> int \<Rightarrow> int \<Rightarrow> int \<times> int" where
  "compare_exchange old now exchange comparand = (old, if now = comparand then exchange else now)"

text \<open>When another thread takes the cell in between, the caller is told that it took it.\<close>

lemma compare_exchange_false_success:
  assumes "now \<noteq> comparand"
  shows "fst (compare_exchange comparand now exchange comparand) = comparand
    \<and> snd (compare_exchange comparand now exchange comparand) = now"
  using assms by (simp add: compare_exchange_def)

section \<open>Semaphores\<close>

record msemaphore =
  sem_value :: int
  curCount :: int
  maxCount :: int
  sem_owner :: "nat option"

definition create_semaphore :: "int \<Rightarrow> msemaphore option" where
  "create_semaphore lInitialCount =
     (if 0 \<le> lInitialCount
      then Some \<lparr>sem_value = lInitialCount, curCount = lInitialCount, maxCount = 999, sem_owner = None\<rparr>
      else None)"

definition wait_semaphore :: "nat \<Rightarrow> msemaphore \<Rightarrow> msemaphore option" where
  "wait_semaphore self s =
     (if sem_value s = 0 then None
      else Some (s\<lparr>sem_value := sem_value s - 1, sem_owner := Some self,
                   curCount := (if 0 < curCount s then curCount s - 1 else curCount s)\<rparr>))"

text \<open>The loop of posts: the counter is incremented after a post that failed too.\<close>

function post_loop :: "(int \<Rightarrow> bool) \<Rightarrow> int \<Rightarrow> int \<Rightarrow> int \<Rightarrow> bool \<times> int \<times> int" where
  "post_loop post_ok target v c =
     (let ok = post_ok c; v' = (if ok then v + 1 else v)
      in if ok \<and> c + 1 < target then post_loop post_ok target v' (c + 1) else (ok, v', c + 1))"
  by pat_completeness auto
termination by (relation "measure (\<lambda>(_, t, _, c). nat (t - c))") auto

declare post_loop.simps [simp del]

definition ReleaseSemaphore :: "(int \<Rightarrow> bool) \<Rightarrow> int \<Rightarrow> msemaphore \<Rightarrow> bool \<times> msemaphore" where
  "ReleaseSemaphore post_ok n s =
     (if 0 < n \<and> curCount s + n \<le> maxCount s then
        let r = post_loop post_ok (curCount s + n) (sem_value s) (curCount s);
            s1 = s\<lparr>sem_value := fst (snd r), curCount := snd (snd r)\<rparr>
        in (fst r, if fst r then s1\<lparr>sem_owner := None\<rparr> else s1)
      else (False, s))"

definition semaphore_ok :: "msemaphore \<Rightarrow> bool" where
  "semaphore_ok s \<longleftrightarrow> sem_value s = curCount s \<and> 0 \<le> curCount s \<and> curCount s \<le> maxCount s"

lemma post_loop_ok:
  assumes "\<And>c. post_ok c" and "c < target"
  shows "post_loop post_ok target v c = (True, v + (target - c), target)"
  using assms(2)
proof (induction "nat (target - c)" arbitrary: v c rule: less_induct)
  case less
  show ?case
  proof (cases "c + 1 < target")
    case True
    then have "post_loop post_ok target (v + 1) (c + 1) = (True, v + 1 + (target - (c + 1)), target)"
      by (intro less.hyps) auto
    then show ?thesis using True assms(1) by (simp add: post_loop.simps [of post_ok target v c] Let_def)
  next
    case False
    then have "target = c + 1" using less.prems by simp
    then show ?thesis using assms(1) by (subst post_loop.simps) (simp add: Let_def)
  qed
qed

lemma semaphore_ops_ok:
  assumes "semaphore_ok s" and "\<And>c. post_ok c"
  shows "wait_semaphore i s = Some s' \<Longrightarrow> semaphore_ok s' \<and> curCount s' = curCount s - 1"
    and "fst (ReleaseSemaphore post_ok n s) \<longleftrightarrow> 0 < n \<and> curCount s + n \<le> maxCount s"
    and "semaphore_ok (snd (ReleaseSemaphore post_ok n s))"
  using assms
  by (auto simp: semaphore_ok_def wait_semaphore_def ReleaseSemaphore_def Let_def post_loop_ok split: if_splits)

section \<open>Mutexes\<close>

text \<open>\<open>ReleaseMutex\<close> answers \<open>False\<close> when it worked.\<close>

definition CreateMutex :: "nat \<Rightarrow> bool \<Rightarrow> nat option" where
  "CreateMutex self bInitialOwner = (if bInitialOwner then Some self else None)"

definition wait_mutex :: "nat \<Rightarrow> nat option \<Rightarrow> nat option option" where
  "wait_mutex self m = (if m = None then Some (Some self) else None)"

definition ReleaseMutex :: "bool \<Rightarrow> nat option \<Rightarrow> bool \<times> nat option" where
  "ReleaseMutex unlock_ok m = (if unlock_ok then (False, None) else (True, m))"

section \<open>Events\<close>

record msevent =
  isManual :: bool
  isSignalled :: int

definition msCreateEvent :: "bool \<Rightarrow> bool \<Rightarrow> msevent" where
  "msCreateEvent bManualReset bInitialState =
     \<lparr>isManual = bManualReset, isSignalled = (if bInitialState then 1 else 0)\<rparr>"

definition SetEvent :: "msevent \<Rightarrow> msevent" where
  "SetEvent ev = ev\<lparr>isSignalled := interlocked_set_true (isSignalled ev)\<rparr>"

definition ResetEvent :: "msevent \<Rightarrow> msevent" where
  "ResetEvent ev = ev\<lparr>isSignalled := interlocked_set_false (isSignalled ev)\<rparr>"

text \<open>What a wait does to the event when it returns \<open>WAIT_OBJECT_0\<close>.\<close>

definition consume_event :: "msevent \<Rightarrow> msevent" where
  "consume_event ev = (if isManual ev then ev else ResetEvent ev)"

text \<open>Alone on an event that is not signalled a wait without limit blocks.\<close>

definition wait_event :: "msevent \<Rightarrow> msevent option" where
  "wait_event ev = (if isSignalled ev \<noteq> 0 then Some (consume_event ev) else None)"

end
