(* ===== verification/EventRace.thy ===== *)
theory EventRace
  imports MsHandles
begin

text \<open>
  Waiting for an event while other threads set it (\<open>WaitForSingleObject\<close> in
  src/CritSectEx/msemul.cpp, \<open>SetEvent\<close> in msemul.h): the waiter tests \<open>isSignalled\<close> without the
  mutex and goes to sleep on the condition without testing it again, and the setter signals the
  condition without the mutex. Between the two \<open>StartLocks\<close> (src/Thread/Thread.hpp) sits a flag
  of its own, which it tests after each wait of limited length.
\<close>

text \<open>
  \<open>W_unsignalled\<close>: the test was negative; \<open>W_asleep\<close>: in \<open>pthread_cond_wait\<close>; \<open>W_woken\<close>: that returned;
  \<open>W_timeout\<close>: it returned \<open>ETIMEDOUT\<close>; \<open>S_flagged\<close>: \<open>isSignalled\<close> is set, the condition not yet signalled.
\<close>

datatype wait_pc = W_start | W_unsignalled | W_asleep | W_woken | W_timeout | W_returned

datatype set_pc = S_start | S_notified | S_flagged | S_done

record event_state =
  es_event :: msevent
  es_waiter :: wait_pc
  es_setter :: set_pc
  es_isNotified :: bool

text \<open>The steps of one call with a limit (\<open>limited\<close>) or without, and of one \<open>SetEvent\<close>.\<close>

inductive event_step :: "bool \<Rightarrow> event_state \<Rightarrow> event_state \<Rightarrow> bool" for limited where
  find_signalled: "es_waiter s = W_start \<Longrightarrow> isSignalled (es_event s) \<noteq> 0 \<Longrightarrow>
    event_step limited s (s\<lparr>es_waiter := W_returned, es_event := consume_event (es_event s)\<rparr>)"
| find_unsignalled: "es_waiter s = W_start \<Longrightarrow> isSignalled (es_event s) = 0 \<Longrightarrow>
    event_step limited s (s\<lparr>es_waiter := W_unsignalled\<rparr>)"
| fall_asleep: "es_waiter s = W_unsignalled \<Longrightarrow> event_step limited s (s\<lparr>es_waiter := W_asleep\<rparr>)"
| time_out: "limited \<Longrightarrow> es_waiter s = W_asleep \<Longrightarrow> event_step limited s (s\<lparr>es_waiter := W_timeout\<rparr>)"
| wake_up: "es_waiter s = W_woken \<Longrightarrow>
    event_step limited s (s\<lparr>es_waiter := W_returned, es_event := consume_event (es_event s)\<rparr>)"
| set_flag: "es_setter s = S_start \<or> es_setter s = S_notified \<Longrightarrow>
    event_step limited s (s\<lparr>es_setter := S_flagged, es_event := SetEvent (es_event s)\<rparr>)"
| signal_cond: "es_setter s = S_flagged \<Longrightarrow>
    event_step limited s (s\<lparr>es_setter := S_done,
      es_waiter := (if es_waiter s = W_asleep then W_woken else es_waiter s)\<rparr>)"

inductive_simps event_step_simps: "event_step limited s t"

definition event_start :: "msevent \<Rightarrow> event_state" where
  "event_start ev = \<lparr>es_event = ev, es_waiter = W_start, es_setter = S_start, es_isNotified = False\<rparr>"

text \<open>A wait that was woken or returned was preceded by a \<open>SetEvent\<close>.\<close>

definition woken_if_set :: "event_state \<Rightarrow> bool" where
  "woken_if_set s \<longleftrightarrow> (es_waiter s = W_woken \<or> es_waiter s = W_returned \<or> isSignalled (es_event s) \<noteq> 0
     \<longrightarrow> es_setter s = S_flagged \<or> es_setter s = S_done)"

lemma woken_if_set_step: "event_step limited s t \<Longrightarrow> woken_if_set s \<Longrightarrow> woken_if_set t"
  by (cases rule: event_step.cases, assumption)
    (auto simp: woken_if_set_def consume_event_def ResetEvent_def split: if_splits)

lemma wait_returns_if_set:
  assumes "(event_step limited)\<^sup>*\<^sup>* (event_start ev) s" and "isSignalled ev = 0"
  shows "es_waiter s = W_returned \<Longrightarrow> es_setter s = S_flagged \<or> es_setter s = S_done"
proof -
  have "woken_if_set s"
    using assms(1)
  proof (induction rule: rtranclp_induct)
    case base
    then show ?case using assms(2) by (simp add: woken_if_set_def event_start_def)
  next
    case (step s t)
    then show ?case using woken_if_set_step by blast
  qed
  then show "es_waiter s = W_returned \<Longrightarrow> es_setter s = S_flagged \<or> es_setter s = S_done"
    by (simp add: woken_if_set_def)
qed

section \<open>The lost wake-up\<close>

definition lost_state :: "msevent \<Rightarrow> nat \<Rightarrow> event_state" where
  "lost_state ev k =
     (let s0 = event_start ev;
          s1 = s0\<lparr>es_waiter := W_unsignalled\<rparr>;
          s2 = s1\<lparr>es_setter := S_flagged, es_event := SetEvent ev\<rparr>;
          s3 = s2\<lparr>es_setter := S_done\<rparr>;
          s4 = s3\<lparr>es_waiter := W_asleep\<rparr>
      in [s0, s1, s2, s3, s4] ! k)"

lemma lost_steps:
  assumes "isSignalled ev = 0" and "k < 4"
  shows "event_step limited (lost_state ev k) (lost_state ev (Suc k))"
proof -
  have "event_step limited (lost_state ev 0) (lost_state ev 1)"
    using find_unsignalled [of "lost_state ev 0"] assms(1) by (simp add: lost_state_def event_start_def)
  moreover have "event_step limited (lost_state ev 1) (lost_state ev 2)"
    using set_flag [of "lost_state ev 1"] by (simp add: lost_state_def event_start_def)
  moreover have "event_step limited (lost_state ev 2) (lost_state ev 3)"
    using signal_cond [of "lost_state ev 2"] by (simp add: lost_state_def event_start_def)
  moreover have "event_step limited (lost_state ev 3) (lost_state ev 4)"
    using fall_asleep [of "lost_state ev 3"] by (simp add: lost_state_def event_start_def)
  ultimately show ?thesis using assms(2) by (auto simp: less_Suc_eq numeral_eq_Suc)
qed

lemma lost_reachable:
  assumes "isSignalled ev = 0"
  shows "k \<le> 4 \<Longrightarrow> (event_step limited)\<^sup>*\<^sup>* (event_start ev) (lost_state ev k)"
proof (induction k)
  case 0
  then show ?case by (simp add: lost_state_def)
next
  case (Suc k)
  then show ?case
    using lost_steps [OF assms, of k] by (meson Suc_le_lessD less_imp_le rtranclp.rtrancl_into_rtrancl)
qed

text \<open>C16: a wait without limit can sleep for ever although the event was set: when \<open>SetEvent\<close> runs
  between the test of the event and the wait for its condition, the signal reaches nobody, and no
  step is left.\<close>

theorem event_wakeup_lost:
  assumes "isSignalled ev = 0"
  shows "\<exists>s. (event_step False)\<^sup>*\<^sup>* (event_start ev) s \<and> es_setter s = S_done
    \<and> isSignalled (es_event s) \<noteq> 0 \<and> es_waiter s = W_asleep \<and> (\<forall>t. \<not> event_step False s t)"
  using lost_reachable [OF assms, of 4 False]
  by (intro exI [of _ "lost_state ev 4"])
    (auto simp: event_step_simps lost_state_def event_start_def SetEvent_def)

theorem event_wakeup_lost_witness:
  "\<exists>s. (event_step False)\<^sup>*\<^sup>* (event_start (msCreateEvent False False)) s \<and> es_waiter s = W_asleep
    \<and> (\<forall>t. \<not> event_step False s t)"
  using event_wakeup_lost [of "msCreateEvent False False"] by (auto simp: msCreateEvent_def)

section \<open>The locks of a thread\<close>

text \<open>
  \<open>StartLocks::Wait\<close> waits for 100 ms at a time and tests \<open>isNotified\<close> after each time-out;
  \<open>Notify\<close> sets that flag before it sets the event.
\<close>

inductive lock_wait_step :: "event_state \<Rightarrow> event_state \<Rightarrow> bool" where
  notify: "es_setter s = S_start \<Longrightarrow> lock_wait_step s (s\<lparr>es_setter := S_notified, es_isNotified := True\<rparr>)"
| within_call: "event_step True s t \<Longrightarrow> es_setter s = S_start \<longrightarrow> es_setter t = S_start \<Longrightarrow> lock_wait_step s t"
| poll_again: "es_waiter s = W_timeout \<Longrightarrow> \<not> es_isNotified s \<Longrightarrow> lock_wait_step s (s\<lparr>es_waiter := W_start\<rparr>)"
| poll_done: "es_waiter s = W_timeout \<Longrightarrow> es_isNotified s \<Longrightarrow> lock_wait_step s (s\<lparr>es_waiter := W_returned\<rparr>)"

inductive_cases lock_wait_stepE: "lock_wait_step s t"

fun waiter_rank :: "wait_pc \<Rightarrow> nat" where
  "waiter_rank W_start = 4"
| "waiter_rank W_unsignalled = 3"
| "waiter_rank W_asleep = 2"
| "waiter_rank W_timeout = 1"
| "waiter_rank W_woken = 1"
| "waiter_rank W_returned = 0"

fun setter_rank :: "set_pc \<Rightarrow> nat" where
  "setter_rank S_start = 3"
| "setter_rank S_notified = 2"
| "setter_rank S_flagged = 1"
| "setter_rank S_done = 0"

definition lock_wait_rank :: "event_state \<Rightarrow> nat" where
  "lock_wait_rank s = waiter_rank (es_waiter s) + setter_rank (es_setter s)"

lemma event_step_rank:
  "event_step limited s t \<Longrightarrow> lock_wait_rank t < lock_wait_rank s \<and> es_isNotified t = es_isNotified s"
  by (cases rule: event_step.cases, assumption) (auto simp: lock_wait_rank_def)

text \<open>Once a thread was notified, \<open>StartLocks::Wait\<close> returns, even when the wake-up is lost: until
  it has returned some step is possible, and every step, of the waiter or of the notifier, brings
  it nearer, so that seven steps are enough.\<close>

theorem notified_wait_returns:
  assumes "es_isNotified s"
  shows "(es_waiter s \<noteq> W_returned \<longrightarrow> (\<exists>t. lock_wait_step s t))
    \<and> (\<forall>t. lock_wait_step s t \<longrightarrow> es_isNotified t \<and> lock_wait_rank t < lock_wait_rank s)
    \<and> lock_wait_rank s \<le> 7"
proof (intro conjI impI allI)
  assume "es_waiter s \<noteq> W_returned"
  then show "\<exists>t. lock_wait_step s t"
    using assms
    by (cases "es_waiter s") (blast intro: lock_wait_step.intros find_signalled find_unsignalled
        fall_asleep time_out wake_up poll_done)+
next
  fix t assume "lock_wait_step s t"
  then show "es_isNotified t" "lock_wait_rank t < lock_wait_rank s"
    using assms by (auto elim!: lock_wait_stepE dest: event_step_rank simp: lock_wait_rank_def)
next
  show "lock_wait_rank s \<le> 7"
    by (cases "es_waiter s"; cases "es_setter s") (simp_all add: lock_wait_rank_def)
qed

theorem notified_wait_returns_witness:
  "let s = (lost_state (msCreateEvent False False) 4)\<lparr>es_isNotified := True\<rparr>
   in es_waiter s = W_asleep \<and> (\<exists>t. lock_wait_step s t) \<and> lock_wait_rank s \<le> 7"
proof -
  define s where "s = (lost_state (msCreateEvent False False) 4)\<lparr>es_isNotified := True\<rparr>"
  have "es_isNotified s" "es_waiter s = W_asleep" by (simp_all add: s_def lost_state_def)
  then show ?thesis using notified_wait_returns [of s] by (simp add: s_def [symmetric])
qed

end
