(* ===== verification/MsThreads.thy ===== *)
theory MsThreads
  imports MsHandles "HOL-Library.Word"
begin

text \<open>
  Threads and their handles as src/CritSectEx/msemul.h and msemul.cpp emulate them on macOS: a
  thread can be created suspended, suspended and resumed, waited for with and without a limit,
  terminated and released. The fields \<open>os_ended\<close> (the routine returned or was cancelled) and
  \<open>os_joined\<close> are the state of the thread in the operating system; calls that wait see the state at
  the time the wait ends, and \<open>None\<close> is a call that blocks.
\<close>

type_synonym DWORD = "64 word"

datatype wait_result = WAIT_OBJECT_0 | WAIT_TIMEOUT | WAIT_ABANDONED | WAIT_FAILED

record mshthread =
  pThread :: bool
  suspendCount :: DWORD
  tt_exiting :: bool
  tt_exited :: bool
  tt_detached :: bool
  tt_status :: DWORD
  os_ended :: bool
  os_joined :: bool

definition STILL_ACTIVE :: DWORD where "STILL_ACTIVE = 259"

definition PTHREAD_CANCELED :: DWORD where "PTHREAD_CANCELED = 1"

section \<open>Creation, suspension, end\<close>

definition CreateThread :: "bool \<Rightarrow> bool \<Rightarrow> mshthread option" where
  "CreateThread create_ok create_suspended =
     (if create_ok then
        Some \<lparr>pThread = True, suspendCount = (if create_suspended then 1 else 0), tt_exiting = False,
              tt_exited = False, tt_detached = False, tt_status = STILL_ACTIVE,
              os_ended = False, os_joined = False\<rparr>
      else None)"

text \<open>Both return the count before the call. The kernel is asked only when the count reaches 0, or leaves it.\<close>

definition ResumeThread :: "bool \<Rightarrow> bool \<Rightarrow> mshthread \<Rightarrow> DWORD \<times> mshthread" where
  "ResumeThread own resume_ok h =
     (if own then (- 1, h)
      else (suspendCount h,
            if suspendCount h = 0 then h
            else if suspendCount h - 1 = 0 \<and> \<not> resume_ok then h
            else h\<lparr>suspendCount := suspendCount h - 1\<rparr>))"

definition SuspendThread :: "bool \<Rightarrow> bool \<Rightarrow> mshthread \<Rightarrow> DWORD \<times> mshthread" where
  "SuspendThread own suspend_ok h =
     (if own then (- 1, h)
      else (suspendCount h,
            if suspendCount h = 0 then (if suspend_ok then h\<lparr>suspendCount := 1\<rparr> else h)
            else h\<lparr>suspendCount := suspendCount h + 1\<rparr>))"

text \<open>The last things a thread does: after its function returned, and when it is cancelled.\<close>

definition pthread_timedexit :: "DWORD \<Rightarrow> mshthread \<Rightarrow> mshthread" where
  "pthread_timedexit status h = h\<lparr>tt_status := status, tt_exiting := True, os_ended := True\<rparr>"

definition threadCancelHandler :: "mshthread \<Rightarrow> mshthread" where
  "threadCancelHandler h = h\<lparr>tt_exiting := True, tt_status := PTHREAD_CANCELED, os_ended := True\<rparr>"

definition GetExitCodeThread :: "bool \<Rightarrow> mshthread \<Rightarrow> DWORD" where
  "GetExitCodeThread kill_ok h = (if pThread h \<and> kill_ok then STILL_ACTIVE else tt_status h)"

section \<open>Waiting for the end\<close>

text \<open>With a limit the thread is detached first, and its announcement \<open>exiting\<close> is awaited.\<close>

definition timedjoin_limited :: "mshthread \<Rightarrow> wait_result \<times> mshthread" where
  "timedjoin_limited h =
     (if \<not> tt_detached h \<and> os_joined h then (WAIT_FAILED, h)
      else let h1 = h\<lparr>tt_detached := True\<rparr>
           in if tt_exiting h1 then (WAIT_OBJECT_0, h1\<lparr>tt_exited := True, pThread := False\<rparr>)
              else (WAIT_TIMEOUT, h1))"

text \<open>Without one it is \<open>pthread_join\<close>, which refuses a thread that is detached or was joined.\<close>

definition pthread_join :: "mshthread \<Rightarrow> (bool \<times> mshthread) option" where
  "pthread_join h =
     (if tt_detached h \<or> os_joined h then Some (False, h)
      else if os_ended h then Some (True, h\<lparr>os_joined := True\<rparr>)
      else None)"

definition WaitForThread :: "bool \<Rightarrow> mshthread \<Rightarrow> (wait_result \<times> mshthread) option" where
  "WaitForThread limited h =
     (if limited then Some (timedjoin_limited h)
      else case pthread_join h of
          None \<Rightarrow> None
        | Some (ok, h1) \<Rightarrow> Some (if ok then (WAIT_OBJECT_0, h1\<lparr>pThread := False\<rparr>) else (WAIT_FAILED, h1)))"

text \<open>
  Termination: the thread is cancelled and up to five waits of a second follow; \<open>reacts\<close> is the
  number of the wait in which the thread acts on the cancellation, if it does.
\<close>

function await_cancel :: "nat option \<Rightarrow> nat \<Rightarrow> mshthread \<Rightarrow> mshthread" where
  "await_cancel reacts i h =
     (if 5 \<le> i then h
      else let h1 = (if (case reacts of None \<Rightarrow> False | Some n \<Rightarrow> n \<le> i) \<and> \<not> os_ended h then threadCancelHandler h else h);
               r = timedjoin_limited h1
           in if fst r = WAIT_OBJECT_0 then snd r else await_cancel reacts (i + 1) (snd r))"
  by pat_completeness auto
termination by (relation "measure (\<lambda>(_, i, _). 5 - i)") auto

declare await_cancel.simps [simp del]

definition TerminateThread :: "bool \<Rightarrow> nat option \<Rightarrow> DWORD \<Rightarrow> mshthread \<Rightarrow> bool \<times> mshthread" where
  "TerminateThread cancel_ok reacts dwExitCode h =
     (if pThread h then
        (True, (if cancel_ok then await_cancel reacts 0 h else h)\<lparr>tt_status := dwExitCode\<rparr>)
      else (False, h))"

text \<open>Closing joins; the result says whether the handle was taken out of the list of open handles.
  The memory is given back in either case.\<close>

definition CloseThreadHandle :: "mshthread \<Rightarrow> bool option" where
  "CloseThreadHandle h =
     (if pThread h then (case pthread_join h of None \<Rightarrow> None | Some (ok, _) \<Rightarrow> Some ok) else Some True)"

section \<open>What the calls give\<close>

lemma resume_suspend:
  "suspendCount h + 1 \<noteq> 0 \<Longrightarrow> snd (ResumeThread False True (snd (SuspendThread False True h))) = h"
  by (simp add: ResumeThread_def SuspendThread_def)

lemma suspend_returns_previous: "fst (SuspendThread False ok h) = suspendCount h"
  by (simp add: SuspendThread_def)

text \<open>A thread that returned is joined with its status, with a limit and without.\<close>

lemma wait_for_returned:
  assumes "\<not> os_joined h" and "\<not> tt_detached h"
  shows "\<exists>h'. WaitForThread limited (pthread_timedexit status h) = Some (WAIT_OBJECT_0, h')
    \<and> tt_status h' = status \<and> GetExitCodeThread k h' = status \<and> CloseThreadHandle h' = Some True"
  using assms
  by (simp add: WaitForThread_def timedjoin_limited_def pthread_join_def pthread_timedexit_def Let_def
      GetExitCodeThread_def CloseThreadHandle_def)

text \<open>A wait that timed out has detached the thread: a wait without limit fails from then on, even
  when the thread has returned, and so does the release of the handle.\<close>

lemma wait_after_timeout_fails:
  assumes "timedjoin_limited h = (WAIT_TIMEOUT, h')"
  shows "WaitForThread False (pthread_timedexit status h') = Some (WAIT_FAILED, pthread_timedexit status h')"
    and "WaitForThread False h' = Some (WAIT_FAILED, h')"
    and "pThread h \<Longrightarrow> CloseThreadHandle h' = Some False"
proof -
  have d: "tt_detached h'" "pThread h' = pThread h"
    using assms by (auto simp: timedjoin_limited_def Let_def split: if_splits)
  then show "WaitForThread False (pthread_timedexit status h') = Some (WAIT_FAILED, pthread_timedexit status h')"
    "WaitForThread False h' = Some (WAIT_FAILED, h')" "pThread h \<Longrightarrow> CloseThreadHandle h' = Some False"
    by (simp_all add: WaitForThread_def pthread_join_def pthread_timedexit_def CloseThreadHandle_def)
qed

text \<open>A thread that reacts to the cancellation within the five waits is gone afterwards; one that
  does not is left detached.\<close>

lemma await_cancel_ends:
  assumes "n < 5" and "\<not> os_joined h \<or> tt_detached h" and "i \<le> n" and "tt_exiting h \<longleftrightarrow> os_ended h"
  shows "\<not> pThread (await_cancel (Some n) i h) \<and> os_ended (await_cancel (Some n) i h)"
  using assms(2-4)
proof (induction "n - i" arbitrary: i h)
  case 0
  then have "i = n" by simp
  then show ?case
    using 0 assms(1) by (auto simp: await_cancel.simps [of _ n] timedjoin_limited_def threadCancelHandler_def Let_def)
next
  case (Suc k)
  then have i: "i < n" by simp
  let ?h1 = "h\<lparr>tt_detached := True\<rparr>"
  show ?case
  proof (cases "tt_exiting h")
    case True
    then show ?thesis using i assms(1) Suc.prems
      by (auto simp: await_cancel.simps [of _ i] timedjoin_limited_def Let_def)
  next
    case False
    have "\<not> pThread (await_cancel (Some n) (i + 1) ?h1) \<and> os_ended (await_cancel (Some n) (i + 1) ?h1)"
      using Suc i by (intro Suc.hyps(1)) auto
    then show ?thesis using i False assms(1) Suc.prems
      by (auto simp: await_cancel.simps [of _ i] timedjoin_limited_def Let_def)
  qed
qed

lemmas await_cancel_reacts = await_cancel_ends [THEN conjunct1]

lemma await_cancel_ignored:
  assumes "\<not> tt_exiting h" and "\<not> os_joined h \<or> tt_detached h" and "i < 5"
  shows "await_cancel None i h = h\<lparr>tt_detached := True\<rparr>"
  using assms
proof (induction "4 - i" arbitrary: i h)
  case 0
  then have "i = 4" by simp
  then show ?case using 0
    by (auto simp: await_cancel.simps [of _ 4] await_cancel.simps [of _ 5] timedjoin_limited_def Let_def)
next
  case (Suc k)
  have "await_cancel None (i + 1) (h\<lparr>tt_detached := True\<rparr>) = h\<lparr>tt_detached := True\<rparr>"
    using Suc.prems Suc.hyps(2) Suc.hyps(1) [of "i + 1" "h\<lparr>tt_detached := True\<rparr>"] by simp
  then show ?case using Suc.prems
    by (auto simp: await_cancel.simps [of _ i] timedjoin_limited_def Let_def)
qed

text \<open>So a forced termination that the thread does not react to leaves a handle that cannot be
  released.\<close>

lemma terminate_ignored_leaks:
  assumes "pThread h" and "\<not> tt_exiting h" and "\<not> os_joined h"
  shows "CloseThreadHandle (snd (TerminateThread True None c h)) = Some False"
  using assms await_cancel_ignored [of h 0]
  by (simp add: TerminateThread_def CloseThreadHandle_def pthread_join_def)

end
