(* ===== verification/ThreadClass.thy ===== *)
theory ThreadClass
  imports MsThreads
begin

text \<open>
  The class \<open>Thread\<close> (src/Thread/Thread.cpp, Thread.hpp): a worker thread that can be created
  suspended and can wait at synchronisation points, before and after its initialisation and before
  its clean-up, until another thread calls \<open>Continue\<close>. The calls of the owner are functions, the
  routine \<open>EntryPoint\<close> of the worker is a step relation. The times it measures and its thread-local
  storage are left out; \<open>None\<close> is a failing assertion.
\<close>

text \<open>\<open>T_inited\<close> and \<open>T_ran\<close>: before the test whether to wait; \<open>T_wait_init\<close>, \<open>T_wait_cleanup\<close>: in
  \<open>startLock.Wait\<close>; \<open>T_cleanup\<close>: before \<open>CleanupThread\<close>.\<close>

datatype thread_pc = T_none | T_entry | T_inited | T_wait_init | T_run | T_ran | T_wait_cleanup | T_cleanup | T_exited

record start_lock =
  lockEvent :: msevent
  isLocked :: int
  isNotified :: int

record thread =
  th_handle :: "mshthread option"
  th_exitCode :: DWORD
  th_exitCodeSet :: bool
  suspendOption :: nat
  startLock :: start_lock
  isSuspended :: int
  threadShouldExit :: int
  hasBeenStarted :: bool
  th_pc :: thread_pc

abbreviation "suspend_before_init t \<equiv> bit (suspendOption t) 0"
abbreviation "suspend_after_init t \<equiv> bit (suspendOption t) 1"
abbreviation "suspend_before_cleanup t \<equiv> bit (suspendOption t) 2"

section \<open>The lock\<close>

definition new_start_lock :: start_lock where
  "new_start_lock = \<lparr>lockEvent = msCreateEvent False False, isLocked = 0, isNotified = 0\<rparr>"

definition lock_Notify :: "start_lock \<Rightarrow> start_lock" where
  "lock_Notify l = l\<lparr>isNotified := interlocked_set_true (isNotified l), lockEvent := SetEvent (lockEvent l)\<rparr>"

definition enter_Wait :: "start_lock \<Rightarrow> start_lock" where
  "enter_Wait l = l\<lparr>isLocked := interlocked_set_true (isLocked l)\<rparr>"

text \<open>The loop ends when the event was found or after a time-out with \<open>isNotified\<close>, which leaves the event as it is.\<close>

definition leave_Wait :: "bool \<Rightarrow> start_lock \<Rightarrow> start_lock option" where
  "leave_Wait timed_out l =
     (if timed_out then
        (if isNotified l \<noteq> 0
         then Some (l\<lparr>isLocked := interlocked_set_false (isLocked l), isNotified := interlocked_set_false (isNotified l)\<rparr>)
         else None)
      else (case wait_event (lockEvent l) of
          None \<Rightarrow> None
        | Some ev \<Rightarrow> Some (l\<lparr>lockEvent := ev, isLocked := interlocked_set_false (isLocked l),
                              isNotified := interlocked_set_false (isNotified l)\<rparr>)))"

section \<open>The calls of the owner\<close>

definition new_thread :: thread where
  "new_thread = \<lparr>th_handle = None, th_exitCode = 0, th_exitCodeSet = False, suspendOption = 0,
     startLock = new_start_lock, isSuspended = 0, threadShouldExit = 0, hasBeenStarted = False, th_pc = T_none\<rparr>"

text \<open>\<open>resume\<close> is \<open>ResumeThread\<close> on the handle; the kernel calls work.\<close>

definition resume :: "thread \<Rightarrow> thread" where
  "resume t = t\<lparr>th_handle := map_option (\<lambda>h. snd (ResumeThread False True h)) (th_handle t),
     isSuspended := interlocked_set_false (isSuspended t)\<rparr>"

definition Start :: "bool \<Rightarrow> DWORD \<Rightarrow> thread \<Rightarrow> (DWORD \<times> thread) option" where
  "Start create_ok lastError t =
     (if isLocked (startLock t) = 0 then
        if th_handle t \<noteq> None then None
        else (case CreateThread create_ok True of
            None \<Rightarrow> Some (lastError, t)
          | Some h \<Rightarrow>
              let t1 = t\<lparr>th_handle := Some h, th_exitCode := - 1, hasBeenStarted := True, th_pc := T_entry\<rparr>
              in Some (lastError,
                   if suspend_before_init t1 then t1\<lparr>isSuspended := interlocked_set_true (isSuspended t1)\<rparr>
                   else resume t1))
      else if th_handle t = None then None
      else Some (0, t\<lparr>startLock := lock_Notify (startLock t)\<rparr>))"

definition SuspenderThread :: "nat \<Rightarrow> bool \<Rightarrow> DWORD \<Rightarrow> thread \<Rightarrow> (DWORD \<times> thread) option" where
  "SuspenderThread when create_ok lastError t = Start create_ok lastError (t\<lparr>suspendOption := when\<rparr>)"

text \<open>The result says whether the worker was notified at a synchronisation point.\<close>

definition Continue :: "thread \<Rightarrow> bool \<times> thread" where
  "Continue t =
     (if hasBeenStarted t then
        let t1 = (if isSuspended t \<noteq> 0 then resume t else t)
        in if isLocked (startLock t1) \<noteq> 0 then (True, t1\<lparr>startLock := lock_Notify (startLock t1)\<rparr>)
           else (False, t1)
      else (False, t))"

definition Suspend :: "thread \<Rightarrow> bool \<times> thread" where
  "Suspend t =
     (isSuspended t \<noteq> 0,
      if hasBeenStarted t \<and> isSuspended t = 0 then
        (case th_handle t of
           None \<Rightarrow> t\<lparr>isSuspended := interlocked_set_true (isSuspended t)\<rparr>
         | Some h \<Rightarrow>
             let r = SuspendThread False True h; t1 = t\<lparr>th_handle := Some (snd r)\<rparr>
             in if fst r \<noteq> 0 then t1\<lparr>isSuspended := interlocked_set_true (isSuspended t1)\<rparr> else t1)
      else t)"

definition IsWaiting :: "thread \<Rightarrow> bool" where
  "IsWaiting t \<longleftrightarrow> hasBeenStarted t \<and> (isLocked (startLock t) \<noteq> 0 \<or> isSuspended t \<noteq> 0)"

definition Join :: "bool \<Rightarrow> thread \<Rightarrow> (wait_result \<times> thread) option" where
  "Join limited t =
     (case th_handle t of
        None \<Rightarrow> Some (WAIT_FAILED, t)
      | Some h \<Rightarrow> map_option (\<lambda>(r, h1). (r, t\<lparr>th_handle := Some h1\<rparr>)) (WaitForThread limited h))"

text \<open>\<open>kill_ok\<close>: the operating system still knows the thread; the handle is closed when the thread is
  not active, and after it was terminated by force.\<close>

definition Stop :: "bool \<Rightarrow> bool \<Rightarrow> nat option \<Rightarrow> bool \<Rightarrow> DWORD \<Rightarrow> thread \<Rightarrow> (DWORD \<times> thread) option" where
  "Stop kill_ok cancel_ok reacts bForceKill dwForceExitCode t =
     (case th_handle t of
        None \<Rightarrow> Some (th_exitCode t, t)
      | Some h0 \<Rightarrow>
          let t1 = t\<lparr>threadShouldExit := interlocked_set_true (threadShouldExit t)\<rparr>;
              t2 = (if isSuspended t1 \<noteq> 0 then snd (Continue t1) else t1);
              temp = GetExitCodeThread kill_ok (case th_handle t2 of Some h \<Rightarrow> h | None \<Rightarrow> h0);
              t3 = (if \<not> th_exitCodeSet t2 then t2\<lparr>th_exitCode := temp\<rparr> else t2)
          in if temp = STILL_ACTIVE then
               let t4 = (if IsWaiting t3 then snd (Continue (t3\<lparr>suspendOption := 0\<rparr>)) else t3)
               in if bForceKill then
                    let h = snd (TerminateThread cancel_ok reacts dwForceExitCode
                                   (case th_handle t4 of Some h \<Rightarrow> h | None \<Rightarrow> h0))
                    in (case CloseThreadHandle h of
                          None \<Rightarrow> None
                        | Some _ \<Rightarrow> Some (dwForceExitCode,
                            t4\<lparr>th_handle := None, th_exitCode := dwForceExitCode,
                               th_pc := (if os_ended h then T_exited else th_pc t4)\<rparr>))
                  else Some (th_exitCode t4, t4)
             else (case CloseThreadHandle (case th_handle t3 of Some h \<Rightarrow> h | None \<Rightarrow> h0) of
                 None \<Rightarrow> None
               | Some _ \<Rightarrow> Some (th_exitCode t3, t3\<lparr>th_handle := None\<rparr>)))"

definition GetExitCode :: "bool \<Rightarrow> thread \<Rightarrow> DWORD \<times> thread" where
  "GetExitCode kill_ok t =
     (case th_handle t of
        Some h \<Rightarrow>
          let t1 = (if th_exitCodeSet t then t else t\<lparr>th_exitCode := GetExitCodeThread kill_ok h\<rparr>)
          in (th_exitCode t1, t1)
      | None \<Rightarrow> (th_exitCode t, t))"

definition SetExitCode :: "DWORD \<Rightarrow> thread \<Rightarrow> DWORD \<times> thread" where
  "SetExitCode c t = (th_exitCode t, t\<lparr>th_exitCode := c, th_exitCodeSet := True\<rparr>)"

section \<open>The worker\<close>

definition can_run :: "thread \<Rightarrow> bool" where
  "can_run t \<longleftrightarrow> (\<exists>h. th_handle t = Some h \<and> suspendCount h = 0)"

text \<open>\<open>EntryPoint\<close>; a lock that is taken makes \<open>Wait\<close> return at once.\<close>

inductive entry_step :: "thread \<Rightarrow> thread \<Rightarrow> bool" where
  init_thread: "can_run t \<Longrightarrow> th_pc t = T_entry \<Longrightarrow> entry_step t (t\<lparr>th_pc := T_inited\<rparr>)"
| wait_after_init: "can_run t \<Longrightarrow> th_pc t = T_inited \<Longrightarrow> suspend_after_init t \<Longrightarrow> isLocked (startLock t) = 0 \<Longrightarrow>
    entry_step t (t\<lparr>th_pc := T_wait_init, startLock := enter_Wait (startLock t)\<rparr>)"
| no_wait_after_init: "can_run t \<Longrightarrow> th_pc t = T_inited \<Longrightarrow>
    \<not> suspend_after_init t \<or> isLocked (startLock t) \<noteq> 0 \<Longrightarrow> entry_step t (t\<lparr>th_pc := T_run\<rparr>)"
| woken_after_init: "can_run t \<Longrightarrow> th_pc t = T_wait_init \<Longrightarrow> leave_Wait timed_out (startLock t) = Some l \<Longrightarrow>
    entry_step t (t\<lparr>th_pc := T_run, startLock := l\<rparr>)"
| run: "can_run t \<Longrightarrow> th_pc t = T_run \<Longrightarrow>
    entry_step t (t\<lparr>th_pc := T_ran, th_exitCode := r, th_exitCodeSet := True\<rparr>)"
| wait_before_cleanup: "can_run t \<Longrightarrow> th_pc t = T_ran \<Longrightarrow> suspend_before_cleanup t \<Longrightarrow> isLocked (startLock t) = 0 \<Longrightarrow>
    entry_step t (t\<lparr>th_pc := T_wait_cleanup, startLock := enter_Wait (startLock t)\<rparr>)"
| no_wait_before_cleanup: "can_run t \<Longrightarrow> th_pc t = T_ran \<Longrightarrow>
    \<not> suspend_before_cleanup t \<or> isLocked (startLock t) \<noteq> 0 \<Longrightarrow> entry_step t (t\<lparr>th_pc := T_cleanup\<rparr>)"
| woken_before_cleanup: "can_run t \<Longrightarrow> th_pc t = T_wait_cleanup \<Longrightarrow> leave_Wait timed_out (startLock t) = Some l \<Longrightarrow>
    entry_step t (t\<lparr>th_pc := T_cleanup, startLock := l\<rparr>)"
| clean_up: "can_run t \<Longrightarrow> th_pc t = T_cleanup \<Longrightarrow> th_handle t = Some h \<Longrightarrow>
    entry_step t (t\<lparr>th_pc := T_exited, th_handle := Some (pthread_timedexit (th_exitCode t) h)\<rparr>)"

inductive_simps entry_step_simps: "entry_step t t'"

text \<open>The worker and its owner: the owner may call \<open>Continue\<close>, \<open>Start\<close>, \<open>Suspend\<close> and \<open>Stop\<close> at any
  time; the number counts the calls that may release the worker.\<close>

inductive thread_step :: "nat \<times> thread \<Rightarrow> nat \<times> thread \<Rightarrow> bool" where
  worker: "entry_step t t' \<Longrightarrow> thread_step (n, t) (n, t')"
| continues: "Continue t = (b, t') \<Longrightarrow> thread_step (n, t) (n + 1, t')"
| starts: "Start create_ok e t = Some (r, t') \<Longrightarrow> thread_step (n, t) (n + 1, t')"
| stops: "Stop kill_ok cancel_ok reacts force code t = Some (r, t') \<Longrightarrow> thread_step (n, t) (n + 1, t')"
| suspends: "Suspend t = (b, t') \<Longrightarrow> thread_step (n, t) (n, t')"

end
