(* ===== verification/ThreadProperties.thy ===== *)
theory ThreadProperties
  imports ThreadClass
begin

text \<open>
  What the thread class promises and where it does not: a worker stays before its synchronisation
  points until a call may release it, a worker without such points runs to its end and its exit
  code is read, a \<open>Continue\<close> that comes too early is lost, and one \<open>Suspend\<close> is never undone.
\<close>

section \<open>Before the first release\<close>

lemma lock_simps [simp]:
  "isLocked (lock_Notify l) = isLocked l" "isLocked (enter_Wait l) \<noteq> 0"
  "lockEvent (enter_Wait l) = lockEvent l" "isNotified (enter_Wait l) = isNotified l"
  by (simp_all add: lock_Notify_def enter_Wait_def)

lemma leave_Wait_unnotified:
  "isNotified l = 0 \<Longrightarrow> isSignalled (lockEvent l) = 0 \<Longrightarrow> leave_Wait b l = None"
  by (simp add: leave_Wait_def wait_event_def)

text \<open>The worker has not been released: its lock was never notified, and a thread that was created
  suspended still is.\<close>

definition unreleased :: "nat \<Rightarrow> thread \<Rightarrow> bool" where
  "unreleased when t \<longleftrightarrow> suspendOption t = when \<and> isNotified (startLock t) = 0
     \<and> isSignalled (lockEvent (startLock t)) = 0
     \<and> (isLocked (startLock t) \<noteq> 0 \<longrightarrow> th_pc t = T_wait_init \<or> th_pc t = T_wait_cleanup)
     \<and> (bit when 0 \<longrightarrow> isSuspended t \<noteq> 0 \<and> \<not> can_run t \<and> th_pc t \<in> {T_none, T_entry})
     \<and> (bit when 1 \<longrightarrow> th_pc t \<in> {T_none, T_entry, T_inited, T_wait_init})
     \<and> (bit when 2 \<longrightarrow> th_pc t \<notin> {T_cleanup, T_exited})"

lemma unreleased_worker:
  assumes "entry_step t t'" and "unreleased when t"
  shows "unreleased when t'"
  using assms(1)
  by (cases rule: entry_step.cases) (use assms(2) in \<open>auto simp: unreleased_def leave_Wait_unnotified can_run_def\<close>)

lemma unreleased_suspend:
  assumes "Suspend t = (b, t')" and "unreleased when t"
  shows "unreleased when t'"
proof (cases "hasBeenStarted t \<and> isSuspended t = 0")
  case False
  then have "t' = t" using assms(1) by (auto simp: Suspend_def)
  then show ?thesis using assms(2) by simp
next
  case True
  then have "\<not> bit when 0" using assms(2) by (simp add: unreleased_def)
  then show ?thesis using assms True
    by (auto simp: Suspend_def unreleased_def Let_def split: option.splits if_splits)
qed

lemma unreleased_start:
  "SuspenderThread when create_ok e new_thread = Some (r, t) \<Longrightarrow> hasBeenStarted t \<Longrightarrow> unreleased when t"
  by (auto simp: SuspenderThread_def Start_def CreateThread_def new_thread_def new_start_lock_def
      msCreateEvent_def unreleased_def can_run_def resume_def Let_def split: if_splits)

lemma unreleased_reachable:
  assumes "thread_step\<^sup>*\<^sup>* (0, t0) (n, t)" and "unreleased when t0" and "n = 0"
  shows "unreleased when t"
proof -
  have "fst q = 0 \<longrightarrow> unreleased when (snd q)" if "thread_step\<^sup>*\<^sup>* (0, t0) q" for q
    using that
  proof (induction rule: rtranclp_induct)
    case base
    then show ?case using assms(2) by simp
  next
    case (step p q)
    from step.hyps(2) show ?case
      by (cases rule: thread_step.cases) (use step.IH unreleased_worker unreleased_suspend in auto)
  qed
  then show ?thesis using assms(1,3) by fastforce
qed


definition waiting_sample :: "nat \<Rightarrow> thread" where
  "waiting_sample k =
     (let t0 = snd (the (SuspenderThread 2 True 0 new_thread)); t1 = t0\<lparr>th_pc := T_inited\<rparr>
      in [t0, t1, t1\<lparr>th_pc := T_wait_init, startLock := enter_Wait (startLock t1)\<rparr>] ! k)"

lemmas start_defs = SuspenderThread_def Start_def CreateThread_def new_thread_def new_start_lock_def
  msCreateEvent_def resume_def ResumeThread_def can_run_def Let_def

lemma bit_2_1: "bit (2::nat) 1" "\<not> bit (2::nat) 0" "bit (6::nat) 1" "bit (6::nat) 2" "\<not> bit (6::nat) 0"
  by (simp_all add: bit_iff_odd)

lemma waiting_sample_steps: "thread_step\<^sup>*\<^sup>* (0, waiting_sample 0) (0, waiting_sample 2)"
proof -
  have "entry_step (waiting_sample 0) (waiting_sample 1)" "entry_step (waiting_sample 1) (waiting_sample 2)"
    using bit_2_1 by (simp_all add: entry_step_simps waiting_sample_def start_defs)
  then show ?thesis by (meson rtranclp.intros thread_step.worker)
qed


section \<open>A run to the end\<close>

text \<open>Each step of the worker takes it further; it stops when it is suspended, waits, or is done.\<close>

fun pc_rank :: "thread_pc \<Rightarrow> nat" where
  "pc_rank T_none = 0" | "pc_rank T_entry = 1" | "pc_rank T_inited = 2" | "pc_rank T_wait_init = 3"
| "pc_rank T_run = 4" | "pc_rank T_ran = 5" | "pc_rank T_wait_cleanup = 6" | "pc_rank T_cleanup = 7"
| "pc_rank T_exited = 8"

lemma entry_step_rank: "entry_step t t' \<Longrightarrow> pc_rank (th_pc t) < pc_rank (th_pc t') \<and> pc_rank (th_pc t') \<le> 8"
  by (cases rule: entry_step.cases, assumption) auto

lemma entry_step_bound: "(entry_step ^^ k) t t' \<Longrightarrow> k + pc_rank (th_pc t) \<le> pc_rank (th_pc t')"
proof (induction k arbitrary: t')
  case 0
  then show ?case by simp
next
  case (Suc k)
  then obtain s where "(entry_step ^^ k) t s" "entry_step s t'" by auto
  then show ?case using Suc.IH [of s] entry_step_rank [of s t'] by linarith
qed

lemma pc_rank_le: "pc_rank p \<le> 8"
  by (cases p) simp_all

text \<open>A worker without synchronisation points.\<close>

definition plain_worker :: "thread \<Rightarrow> bool" where
  "plain_worker t \<longleftrightarrow> suspendOption t = 0 \<and> th_pc t \<notin> {T_none, T_wait_init, T_wait_cleanup}
     \<and> (\<exists>h. th_handle t = Some h \<and> pThread h \<and> suspendCount h = 0 \<and> \<not> os_joined h \<and> \<not> tt_detached h
         \<and> (os_ended h \<longleftrightarrow> th_pc t = T_exited) \<and> (th_pc t = T_exited \<longrightarrow> tt_status h = th_exitCode t))
     \<and> (th_exitCodeSet t \<longleftrightarrow> th_pc t \<in> {T_ran, T_cleanup, T_exited})"

lemma plain_worker_step: "entry_step t t' \<Longrightarrow> plain_worker t \<Longrightarrow> plain_worker t'"
  by (cases rule: entry_step.cases, assumption) (auto simp: plain_worker_def pthread_timedexit_def)

lemma plain_worker_start:
  assumes "Start create_ok e new_thread = Some (r, t)" and "hasBeenStarted t"
  shows "plain_worker t"
  using assms
  by (auto simp: Start_def CreateThread_def new_thread_def new_start_lock_def plain_worker_def
      resume_def ResumeThread_def Let_def split: if_splits)

lemma plain_worker_progress:
  assumes "plain_worker t" and "th_pc t \<noteq> T_exited"
  shows "\<exists>t'. entry_step t t'"
  using assms by (cases "th_pc t") (auto simp: plain_worker_def entry_step_simps can_run_def)

lemma plain_worker_exit:
  assumes "plain_worker t" and "th_pc t = T_exited"
  shows "\<exists>t'. Join limited t = Some (if limited then fst (timedjoin_limited (the (th_handle t))) else WAIT_OBJECT_0, t')
    \<and> fst (GetExitCode k t') = th_exitCode t \<and> th_exitCodeSet t"
  using assms
  by (auto simp: plain_worker_def Join_def WaitForThread_def pthread_join_def GetExitCode_def timedjoin_limited_def Let_def)

text \<open>A started thread without synchronisation points takes at most seven steps; when it can go no
  further it has ended, \<open>Join\<close> returns \<open>WAIT_OBJECT_0\<close>, and the exit code is what \<open>Run\<close> returned.\<close>

lemma started_thread_ends:
  assumes "Start create_ok e new_thread = Some (r, t0)" and "hasBeenStarted t0" and "(entry_step ^^ k) t0 t"
  shows "k \<le> 7" and "(\<nexists>t'. entry_step t t') \<Longrightarrow> th_pc t = T_exited
    \<and> (\<exists>t'. Join False t = Some (WAIT_OBJECT_0, t') \<and> fst (GetExitCode b t') = th_exitCode t \<and> th_exitCodeSet t)"
proof -
  have plain: "plain_worker t"
    using assms(3)
  proof (induction k arbitrary: t)
    case 0
    then show ?case using plain_worker_start [OF assms(1,2)] by simp
  next
    case (Suc k)
    then show ?case using plain_worker_step by (auto elim!: relpowp_Suc_E)
  qed
  have "th_pc t0 = T_entry"
    using assms(1,2) by (auto simp: Start_def new_thread_def new_start_lock_def resume_def Let_def split: option.splits if_splits)
  then show "k \<le> 7"
    using entry_step_bound [OF assms(3)] pc_rank_le [of "th_pc t"] by simp
  show "(\<nexists>t'. entry_step t t') \<Longrightarrow> th_pc t = T_exited
    \<and> (\<exists>t'. Join False t = Some (WAIT_OBJECT_0, t') \<and> fst (GetExitCode b t') = th_exitCode t \<and> th_exitCodeSet t)"
    using plain_worker_progress [OF plain] plain_worker_exit [OF plain, of False b] by auto
qed

section \<open>What goes wrong\<close>

text \<open>One \<open>Suspend\<close> of a running thread is never undone: the count it returns was 0, so the object
  does not note the suspension, and \<open>Continue\<close> and \<open>Stop\<close> do not resume the thread.\<close>

definition unnoted_suspension :: "thread \<Rightarrow> bool" where
  "unnoted_suspension t \<longleftrightarrow> isSuspended t = 0 \<and> hasBeenStarted t
     \<and> (\<exists>h. th_handle t = Some h \<and> suspendCount h \<noteq> 0)"

lemma suspend_unnoted:
  assumes "can_run t" and "hasBeenStarted t" and "isSuspended t = 0"
  shows "unnoted_suspension (snd (Suspend t))"
  using assms by (auto simp: Suspend_def SuspendThread_def can_run_def unnoted_suspension_def Let_def)

lemma continue_unnoted: "unnoted_suspension t \<Longrightarrow> unnoted_suspension (snd (Continue t))"
  by (auto simp: unnoted_suspension_def Continue_def Let_def)

lemma worker_unnoted: "unnoted_suspension t \<Longrightarrow> \<not> entry_step t t'"
  by (auto simp: unnoted_suspension_def entry_step_simps can_run_def)

lemma suspend_never_undone:
  assumes "can_run t" and "hasBeenStarted t" and "isSuspended t = 0"
  shows "\<not> entry_step (((snd \<circ> Continue) ^^ k) (snd (Suspend t))) t'"
proof -
  have "unnoted_suspension (((snd \<circ> Continue) ^^ k) (snd (Suspend t)))"
    using suspend_unnoted [OF assms] continue_unnoted by (induction k) auto
  then show ?thesis by (rule worker_unnoted)
qed

text \<open>A \<open>Continue\<close> that comes before the worker waits is lost: it changes nothing, and the worker does
  not run.\<close>

lemma continue_too_early:
  assumes "SuspenderThread when create_ok e new_thread = Some (r, t0)" and "hasBeenStarted t0"
    and "bit when 1" and "\<not> bit when 0"
  shows "((snd \<circ> Continue) ^^ k) t0 = t0" and "\<not> fst (Continue t0)"
    and "entry_step\<^sup>*\<^sup>* (((snd \<circ> Continue) ^^ k) t0) t \<Longrightarrow> th_pc t \<in> {T_none, T_entry, T_inited, T_wait_init}"
proof -
  have c: "Continue t0 = (False, t0)"
    using assms by (auto simp: Continue_def start_defs interlocked_set_false.simps split: if_splits)
  then show "\<not> fst (Continue t0)" by simp
  show same: "((snd \<circ> Continue) ^^ k) t0 = t0" by (induction k) (simp_all add: c)
  assume "entry_step\<^sup>*\<^sup>* (((snd \<circ> Continue) ^^ k) t0) t"
  then have "entry_step\<^sup>*\<^sup>* t0 t" using same by simp
  then have "unreleased when t"
    by (induction rule: rtranclp_induct) (use unreleased_start [OF assms(1,2)] unreleased_worker in auto)
  then show "th_pc t \<in> {T_none, T_entry, T_inited, T_wait_init}" using assms(3) by (simp add: unreleased_def)
qed

text \<open>One \<open>Continue\<close> can release the worker from two points: it leaves the first after a time-out and
  finds the event still set at the second.\<close>

definition two_points :: "nat \<Rightarrow> thread" where
  "two_points k =
     (let t0 = snd (the (SuspenderThread 6 True 0 new_thread)); t1 = t0\<lparr>th_pc := T_inited\<rparr>;
          t2 = t1\<lparr>th_pc := T_wait_init, startLock := enter_Wait (startLock t1)\<rparr>;
          t3 = snd (Continue t2);
          t4 = t3\<lparr>th_pc := T_run, startLock := the (leave_Wait True (startLock t3))\<rparr>;
          t5 = t4\<lparr>th_pc := T_ran, th_exitCode := 0, th_exitCodeSet := True\<rparr>;
          t6 = t5\<lparr>th_pc := T_wait_cleanup, startLock := enter_Wait (startLock t5)\<rparr>;
          t7 = t6\<lparr>th_pc := T_cleanup, startLock := the (leave_Wait False (startLock t6))\<rparr>
      in [t0, t1, t2, t3, t4, t5, t6, t7] ! k)"

lemma one_continue_passes_two_points:
  "entry_step\<^sup>*\<^sup>* (two_points 0) (two_points 2)" "two_points 3 = snd (Continue (two_points 2))"
  "entry_step\<^sup>*\<^sup>* (two_points 3) (two_points 7)" "th_pc (two_points 7) = T_cleanup"
  "suspend_before_cleanup (two_points 7)"
proof -
  note defs = two_points_def start_defs Continue_def enter_Wait_def leave_Wait_def lock_Notify_def
    wait_event_def SetEvent_def consume_event_def ResetEvent_def interlocked_set_true_def interlocked_increment_def
  have a: "entry_step (two_points 0) (two_points 1)" "entry_step (two_points 1) (two_points 2)"
    using bit_2_1 by (simp_all add: entry_step_simps defs)
  have b: "entry_step (two_points 3) (two_points 4)"
    by (rule entry_step.intros(4) [of _ True, THEN back_subst [of "entry_step (two_points 3)"]]) (simp_all add: defs)
  have c: "entry_step (two_points 4) (two_points 5)" "entry_step (two_points 5) (two_points 6)"
    using bit_2_1 by (simp_all add: entry_step_simps defs)
  have d: "entry_step (two_points 6) (two_points 7)"
    by (rule entry_step.intros(8) [of _ False, THEN back_subst [of "entry_step (two_points 6)"]]) (simp_all add: defs)
  show "entry_step\<^sup>*\<^sup>* (two_points 0) (two_points 2)" using a by (meson rtranclp.intros)
  show "entry_step\<^sup>*\<^sup>* (two_points 3) (two_points 7)" using b c d by (meson rtranclp.intros)
  show "two_points 3 = snd (Continue (two_points 2))" by (simp add: two_points_def Let_def)
  show "th_pc (two_points 7) = T_cleanup" "suspend_before_cleanup (two_points 7)"
    using bit_2_1 by (simp_all add: defs)
qed

end
