(* ===== verification/ThreadPriority.thy ===== *)
theory ThreadPriority
  imports Prelude
begin

text \<open>
  Thread priorities (src/CritSectEx/msemul.cpp): the levels of Windows and the numbers of a POSIX
  scheduling policy. The policy is its least and greatest priority; a thread is its current number,
  \<open>None\<close> when the scheduler refuses to report it, and \<open>set_ok\<close> says whether it accepts a number.
  \<open>int\<close> division truncates, which for the sums here (least priority 0 or more) is \<open>div\<close>.
\<close>

record policy =
  pmin :: int
  pmax :: int

definition THREAD_PRIORITY_IDLE :: int where "THREAD_PRIORITY_IDLE = - 15"
definition THREAD_PRIORITY_LOWEST :: int where "THREAD_PRIORITY_LOWEST = - 2"
definition THREAD_PRIORITY_BELOW_NORMAL :: int where "THREAD_PRIORITY_BELOW_NORMAL = - 1"
definition THREAD_PRIORITY_NORMAL :: int where "THREAD_PRIORITY_NORMAL = 0"
definition THREAD_PRIORITY_ABOVE_NORMAL :: int where "THREAD_PRIORITY_ABOVE_NORMAL = 1"
definition THREAD_PRIORITY_HIGHEST :: int where "THREAD_PRIORITY_HIGHEST = 2"
definition THREAD_PRIORITY_TIME_CRITICAL :: int where "THREAD_PRIORITY_TIME_CRITICAL = 15"

lemmas priority_levels = THREAD_PRIORITY_IDLE_def THREAD_PRIORITY_LOWEST_def THREAD_PRIORITY_BELOW_NORMAL_def
  THREAD_PRIORITY_NORMAL_def THREAD_PRIORITY_ABOVE_NORMAL_def THREAD_PRIORITY_HIGHEST_def
  THREAD_PRIORITY_TIME_CRITICAL_def

definition pnormal :: "policy \<Rightarrow> int" where "pnormal p = (pmin p + pmax p) div 2"
definition pbelow :: "policy \<Rightarrow> int" where "pbelow p = (pmin p + pnormal p) div 2"
definition pabove :: "policy \<Rightarrow> int" where "pabove p = (pnormal p + pmax p) div 2"

definition SchedPriorityFromThreadPriority :: "policy \<Rightarrow> int \<Rightarrow> int" where
  "SchedPriorityFromThreadPriority p nPriority =
     (if nPriority = THREAD_PRIORITY_ABOVE_NORMAL then pabove p
      else if nPriority = THREAD_PRIORITY_BELOW_NORMAL then pbelow p
      else if nPriority = THREAD_PRIORITY_HIGHEST \<or> nPriority = THREAD_PRIORITY_TIME_CRITICAL then pmax p
      else if nPriority = THREAD_PRIORITY_IDLE \<or> nPriority = THREAD_PRIORITY_LOWEST then pmin p
      else if nPriority = THREAD_PRIORITY_NORMAL then pnormal p
      else nPriority)"

definition ThreadPriorityFromSchedPriority :: "policy \<Rightarrow> int \<Rightarrow> int" where
  "ThreadPriorityFromSchedPriority p sched_priority =
     (if sched_priority < (pmin p + pbelow p) div 2 then THREAD_PRIORITY_LOWEST
      else if sched_priority < (pbelow p + pnormal p) div 2 then THREAD_PRIORITY_BELOW_NORMAL
      else if sched_priority \<le> (pnormal p + pabove p) div 2 then THREAD_PRIORITY_NORMAL
      else if sched_priority \<le> (pabove p + pmax p) div 2 then THREAD_PRIORITY_ABOVE_NORMAL
      else THREAD_PRIORITY_HIGHEST)"

text \<open>Setting returns \<open>True\<close> when it did not work.\<close>

definition SetThreadPriority :: "policy \<Rightarrow> (int \<Rightarrow> bool) \<Rightarrow> int \<Rightarrow> int option \<Rightarrow> bool \<times> int option" where
  "SetThreadPriority p set_ok nPriority h =
     (case h of
        None \<Rightarrow> (True, None)
      | Some _ \<Rightarrow>
          let n = SchedPriorityFromThreadPriority p nPriority
          in if set_ok n then (False, Some n) else (True, h))"

text \<open>Reading moves a thread whose number is not the one of its level to that number.\<close>

definition GetThreadPriority :: "int \<Rightarrow> policy \<Rightarrow> (int \<Rightarrow> bool) \<Rightarrow> int option \<Rightarrow> int \<times> int option" where
  "GetThreadPriority no_answer p set_ok h =
     (case h of
        None \<Rightarrow> (no_answer, None)
      | Some n \<Rightarrow>
          let ret = ThreadPriorityFromSchedPriority p n; prior = SchedPriorityFromThreadPriority p ret
          in (ret, if prior \<noteq> n \<and> set_ok prior then Some prior else h))"

section \<open>The two mappings\<close>

lemma sched_points:
  assumes "0 \<le> pmin p" and "pmin p \<le> pmax p"
  shows "pmin p \<le> pbelow p" "pbelow p \<le> pnormal p" "pnormal p \<le> pabove p" "pabove p \<le> pmax p"
  using assms by (simp_all add: pnormal_def pbelow_def pabove_def)

text \<open>With eight numbers between the least and the greatest, each of the five levels reads back.\<close>

lemma levels_read_back:
  assumes "0 \<le> pmin p" and "pmin p + 8 \<le> pmax p" and "l \<in> {- 2, - 1, 0, 1, 2}"
  shows "ThreadPriorityFromSchedPriority p (SchedPriorityFromThreadPriority p l) = l"
proof -
  have gaps: "pmin p + 2 \<le> pbelow p" "pbelow p + 2 \<le> pnormal p" "pnormal p + 2 \<le> pabove p" "pabove p + 2 \<le> pmax p"
    using assms(2) by (simp_all add: pnormal_def pbelow_def pabove_def)
  have mid: "x < (x + y) div 2 \<and> (x + y) div 2 < y" if "x + 2 \<le> y" for x y :: int
    using that by linarith
  note m = gaps [THEN mid]
  show ?thesis
    using assms(3) gaps m unfolding ThreadPriorityFromSchedPriority_def SchedPriorityFromThreadPriority_def priority_levels
    by (elim insertE emptyE) simp_all
qed

lemma thread_priority_level: "ThreadPriorityFromSchedPriority p n \<in> {- 2, - 1, 0, 1, 2}"
  by (simp add: ThreadPriorityFromSchedPriority_def priority_levels)

text \<open>A greater number has a greater or the same level, and the number of its level is in the range of
  the policy.\<close>

lemma thread_priority_mono:
  "m \<le> n \<Longrightarrow> ThreadPriorityFromSchedPriority p m \<le> ThreadPriorityFromSchedPriority p n"
  by (simp add: ThreadPriorityFromSchedPriority_def priority_levels)

lemma sched_priority_range:
  assumes "0 \<le> pmin p" and "pmin p \<le> pmax p" and "l \<in> {- 2, - 1, 0, 1, 2}"
  shows "pmin p \<le> SchedPriorityFromThreadPriority p l \<and> SchedPriorityFromThreadPriority p l \<le> pmax p"
  using assms sched_points [OF assms(1,2)]
  by (auto simp: SchedPriorityFromThreadPriority_def priority_levels)

text \<open>The documented use: setting the priority of a thread to the one read from another gives both
  the same number, when the scheduler accepts the numbers of the policy.\<close>

lemma copied_priority_equal:
  assumes "GetThreadPriority d p set_ok (Some n) = (l, a')" and "SetThreadPriority p set_ok l (Some m) = (failed, b')"
    and "0 \<le> pmin p" and "pmin p \<le> pmax p" and "\<And>k. pmin p \<le> k \<Longrightarrow> k \<le> pmax p \<Longrightarrow> set_ok k"
  shows "a' = b' \<and> \<not> failed"
proof -
  have l: "l = ThreadPriorityFromSchedPriority p n" using assms(1) by (simp add: GetThreadPriority_def Let_def)
  have "set_ok (SchedPriorityFromThreadPriority p l)"
    using sched_priority_range [OF assms(3,4)] thread_priority_level [of p n] assms(5) l by blast
  then show ?thesis
    using assms(1,2) l by (auto simp: GetThreadPriority_def SetThreadPriority_def Let_def split: if_splits)
qed

end
