(* ===== verification/Handles.thy ===== *)
theory Handles
  imports Prelude
begin

text \<open>
  The open handles of the emulation and its named semaphores (src/CritSectEx/msemul.cpp): the list
  of open handles, the list of semaphores by which a name is found again, the handles that refer to
  a semaphore made before and the count of those references, and the handler that closes what is
  left when the process exits. A handle and a counter are addresses of a heap; using an address that
  has been given back is an error value. Memory is available, an address is not used twice, and the
  operations are those of one thread: the locks of the two lists are left out.
\<close>

section \<open>State\<close>

datatype msh_type = MSH_EMPTY | MSH_SEMAPHORE | MSH_MUTEX | MSH_EVENT | MSH_THREAD | MSH_CLOSED

record sema_handle =
  hs_name :: string
  hs_sem :: nat
  hs_counter :: nat
  hs_refs :: uint32

datatype handle = Sema sema_handle | Other msh_type

fun handle_type :: "handle \<Rightarrow> msh_type" where
  "handle_type (Sema _) = MSH_SEMAPHORE"
| "handle_type (Other t) = t"

text \<open>\<open>ct_ref\<close>: the handle whose count of references is the one of this counter.\<close>

record sema_counter =
  ct_cur :: int
  ct_max :: int
  ct_ref :: nat

datatype handle_error =
    Use_After_Free nat
  | Assert_Failure

text \<open>
  The last three fields are the system's: the names of semaphores, how often this process has
  opened a semaphore, and its value. Opening a name twice gives the same semaphore.
\<close>

record hreg =
  hr_handles :: "nat \<rightharpoonup> handle"
  hr_counters :: "nat \<rightharpoonup> sema_counter"
  hr_next :: nat
  hr_open :: "nat \<rightharpoonup> msh_type"     \<comment> \<open>\<open>theOpenHandleList\<close>\<close>
  hr_ready :: bool                    \<comment> \<open>\<open>theOpenHandleListReady\<close>\<close>
  hr_semas :: "nat list"              \<comment> \<open>\<open>theSemaList\<close>\<close>
  px_names :: "string \<rightharpoonup> nat"
  px_opens :: "nat \<Rightarrow> nat"
  px_value :: "nat \<Rightarrow> int"

definition no_handles :: hreg where
  "no_handles = \<lparr>hr_handles = Map.empty, hr_counters = Map.empty, hr_next = 1, hr_open = Map.empty,
     hr_ready = False, hr_semas = [], px_names = Map.empty, px_opens = (\<lambda>_. 0), px_value = (\<lambda>_. 0)\<rparr>"

definition sema_at :: "hreg \<Rightarrow> nat \<Rightarrow> handle_error + sema_handle" where
  "sema_at s h = (case hr_handles s h of Some (Sema x) \<Rightarrow> Inr x | _ \<Rightarrow> Inl (Use_After_Free h))"

definition counter_at :: "hreg \<Rightarrow> nat \<Rightarrow> handle_error + sema_counter" where
  "counter_at s c = (case hr_counters s c of Some ct \<Rightarrow> Inr ct | None \<Rightarrow> Inl (Use_After_Free c))"

section \<open>Semaphores of the system\<close>

definition sem_open :: "string \<Rightarrow> hreg \<Rightarrow> nat option \<times> hreg" where
  "sem_open name s =
     (case px_names s name of
        None \<Rightarrow> (None, s)
      | Some k \<Rightarrow> (Some k, s\<lparr>px_opens := (px_opens s)(k := px_opens s k + 1)\<rparr>))"

definition sem_create :: "string \<Rightarrow> int \<Rightarrow> hreg \<Rightarrow> nat \<times> hreg" where
  "sem_create name v s =
     (case sem_open name s of
        (Some k, s') \<Rightarrow> (k, s')
      | (None, _) \<Rightarrow>
          let k = hr_next s
          in (k, s\<lparr>hr_next := k + 1, px_names := (px_names s)(name \<mapsto> k),
                   px_opens := (px_opens s)(k := 1), px_value := (px_value s)(k := v)\<rparr>))"

definition sem_post :: "nat \<Rightarrow> hreg \<Rightarrow> hreg" where
  "sem_post k s = s\<lparr>px_value := (px_value s)(k := px_value s k + 1)\<rparr>"

definition sem_close :: "nat \<Rightarrow> hreg \<Rightarrow> hreg" where
  "sem_close k s = s\<lparr>px_opens := (px_opens s)(k := px_opens s k - 1)\<rparr>"

definition sem_unlink :: "string \<Rightarrow> hreg \<Rightarrow> hreg" where
  "sem_unlink name s = s\<lparr>px_names := (px_names s)(name := None)\<rparr>"

section \<open>The lists\<close>

definition isOpenHandle :: "nat \<Rightarrow> hreg \<Rightarrow> int" where
  "isOpenHandle h s = (if hr_ready s then (if hr_open s h \<noteq> None then 1 else -1) else 0)"

definition AddSemaListEntry :: "nat \<Rightarrow> hreg \<Rightarrow> hreg" where
  "AddSemaListEntry h s =
     (case hr_handles s h of Some (Sema _) \<Rightarrow> s\<lparr>hr_semas := hr_semas s @ [h]\<rparr> | _ \<Rightarrow> s)"

text \<open>The first entry with that semaphore goes, or an earlier one that is not an open handle.\<close>

fun RemoveSemaListEntry :: "nat \<Rightarrow> hreg \<Rightarrow> nat list \<Rightarrow> handle_error + nat list" where
  "RemoveSemaListEntry sem s [] = Inr []"
| "RemoveSemaListEntry sem s (h # hs) =
     (if isOpenHandle h s < 0 then Inr hs
      else bindE (sema_at s h)
        (\<lambda>x. if hs_sem x = sem then Inr hs
             else bindE (RemoveSemaListEntry sem s hs) (\<lambda>hs'. Inr (h # hs'))))"

text \<open>A search by semaphore, or, without one, by name among the handles that made theirs; 0 when
  there is none.\<close>

fun FindSemaphoreHANDLE :: "nat option \<Rightarrow> string option \<Rightarrow> hreg \<Rightarrow> nat list \<Rightarrow> handle_error + nat" where
  "FindSemaphoreHANDLE sem name s [] = Inr 0"
| "FindSemaphoreHANDLE sem name s (h # hs) =
     (if sem = None \<and> name = None then Inr 0
      else bindE (sema_at s h)
        (\<lambda>x. case sem of
           Some k \<Rightarrow> if hs_sem x = k then Inr h else FindSemaphoreHANDLE sem name s hs
         | None \<Rightarrow>
             if name \<noteq> Some (hs_name x) then FindSemaphoreHANDLE sem name s hs
             else bindE (counter_at s (hs_counter x))
               (\<lambda>ct. if ct_ref ct \<noteq> h then FindSemaphoreHANDLE sem name s hs else Inr h)))"

definition RegisterHANDLE :: "nat \<Rightarrow> hreg \<Rightarrow> handle_error + hreg" where
  "RegisterHANDLE h s =
     (let s1 = s\<lparr>hr_ready := True\<rparr>
      in case hr_handles s1 h of
           None \<Rightarrow> Inl (Use_After_Free h)
         | Some (Other t) \<Rightarrow> Inr (s1\<lparr>hr_open := (hr_open s1)(h \<mapsto> t)\<rparr>)
         | Some (Sema x) \<Rightarrow>
             bindE (counter_at s1 (hs_counter x))
               (\<lambda>ct. bindE
                  (if ct_ref ct \<noteq> h then
                     bindE (FindSemaphoreHANDLE (Some (hs_sem x)) (Some (hs_name x)) s1 (hr_semas s1))
                       (\<lambda>source. if source \<noteq> 0
                          then bindE (sema_at s1 source)
                                 (\<lambda>y. Inr (if hs_sem y \<noteq> hs_sem x then AddSemaListEntry h s1 else s1))
                          else Inr s1)
                   else Inr (AddSemaListEntry h s1))
                  (\<lambda>s2. Inr (s2\<lparr>hr_open := (hr_open s2)(h \<mapsto> MSH_SEMAPHORE)\<rparr>))))"

definition UnregisterHANDLE :: "nat \<Rightarrow> hreg \<Rightarrow> handle_error + hreg" where
  "UnregisterHANDLE h s =
     (case hr_handles s h of
        None \<Rightarrow> Inl (Use_After_Free h)
      | Some t \<Rightarrow>
          bindE (case t of
                   Sema x \<Rightarrow> bindE (RemoveSemaListEntry (hs_sem x) s (hr_semas s)) (\<lambda>hs. Inr (s\<lparr>hr_semas := hs\<rparr>))
                 | Other _ \<Rightarrow> Inr s)
            (\<lambda>s1. Inr (if hr_ready s1 then s1\<lparr>hr_open := (hr_open s1)(h := None)\<rparr> else s1)))"

section \<open>Making handles\<close>

text \<open>A handle for a semaphore that another handle has made.\<close>

definition copy_handle :: "nat \<Rightarrow> nat \<Rightarrow> string \<Rightarrow> hreg \<Rightarrow> handle_error + nat \<times> hreg" where
  "copy_handle sem c name s =
     (let h = hr_next s
      in bindE (counter_at s c)
           (\<lambda>ct. bindE (sema_at s (ct_ref ct))
              (\<lambda>y. bindE (RegisterHANDLE h (s\<lparr>hr_next := h + 1,
                        hr_handles := (hr_handles s)
                          (ct_ref ct \<mapsto> Sema (y\<lparr>hs_refs := hs_refs y + 1\<rparr>),
                           h \<mapsto> Sema \<lparr>hs_name = name, hs_sem = sem, hs_counter = c, hs_refs = 0\<rparr>)\<rparr>))
                 (\<lambda>s'. Inr (h, s')))))"

definition OpenSemaphore :: "string option \<Rightarrow> hreg \<Rightarrow> handle_error + nat \<times> hreg" where
  "OpenSemaphore lpName s =
     (case lpName of
        None \<Rightarrow> Inr (0, s)
      | Some name \<Rightarrow>
          (case sem_open name s of
             (None, s1) \<Rightarrow> Inr (0, s1)
           | (Some sema, s1) \<Rightarrow>
               bindE (FindSemaphoreHANDLE (Some sema) None s1 (hr_semas s1))
                 (\<lambda>org. bindE (if org \<noteq> 0 then Inr org
                              else FindSemaphoreHANDLE None (Some name) s1 (hr_semas s1))
                    (\<lambda>org. if org = 0 then Inr (0, s1)
                      else bindE (sema_at s1 org)
                        (\<lambda>x. if hs_name x = name then copy_handle sema (hs_counter x) name s1
                             else Inr (0, s1))))))"

text \<open>A handle that makes its semaphore; \<open>refuses\<close>: the system does not make one of that name. The
  handle, its counter and the semaphore take one address each.\<close>

definition source_handle ::
  "(string \<Rightarrow> bool) \<Rightarrow> int \<Rightarrow> int \<Rightarrow> string \<Rightarrow> hreg \<Rightarrow> handle_error + nat \<times> hreg" where
  "source_handle refuses lInitialCount lMaximumCount name s =
     (if 0 \<le> lInitialCount \<and> 0 < lMaximumCount then
        (if refuses name then Inl Assert_Failure
         else
           let (k, s1) = sem_create name lInitialCount s;
               h = hr_next s1; c = h + 1
           in bindE (RegisterHANDLE h (s1\<lparr>hr_next := h + 2,
                   hr_handles := (hr_handles s1)
                     (h \<mapsto> Sema \<lparr>hs_name = name, hs_sem = k, hs_counter = c, hs_refs = 0\<rparr>),
                   hr_counters := (hr_counters s1)
                     (c \<mapsto> \<lparr>ct_cur = lInitialCount, ct_max = lMaximumCount, ct_ref = h\<rparr>)\<rparr>))
                (\<lambda>s2. Inr (h, s2)))
      else Inr (0, s))"

text \<open>Without a name the caller gets a new one (\<open>temp\<close>). A name in use gives a handle for the
  semaphore of that name.\<close>

definition CreateSemaphore ::
  "(string \<Rightarrow> bool) \<Rightarrow> string \<Rightarrow> int \<Rightarrow> string option \<Rightarrow> hreg \<Rightarrow> handle_error + nat \<times> hreg" where
  "CreateSemaphore refuses temp lInitialCount lpName s =
     (let name = (case lpName of None \<Rightarrow> temp | Some n \<Rightarrow> n)
      in bindE (OpenSemaphore (Some name) s)
           (\<lambda>(ret, s1). if ret = 0 then source_handle refuses lInitialCount 999 name s1 else Inr (ret, s1)))"

text \<open>A mutex, an event or a thread; \<open>made\<close> says whether the system made it.\<close>

definition new_handle :: "msh_type \<Rightarrow> bool \<Rightarrow> hreg \<Rightarrow> handle_error + nat \<times> hreg" where
  "new_handle t made s =
     (if made then
        let h = hr_next s
        in bindE (RegisterHANDLE h (s\<lparr>hr_next := h + 1, hr_handles := (hr_handles s)(h \<mapsto> Other t)\<rparr>))
             (\<lambda>s'. Inr (h, s'))
      else Inr (0, s))"

section \<open>Closing handles\<close>

definition free_handle :: "nat \<Rightarrow> hreg \<Rightarrow> hreg" where
  "free_handle h s = s\<lparr>hr_handles := (hr_handles s)(h := None)\<rparr>"

text \<open>A last post, for a semaphore that is taken.\<close>

definition release_taken :: "nat \<Rightarrow> nat \<Rightarrow> sema_counter \<Rightarrow> hreg \<Rightarrow> hreg" where
  "release_taken sem c ct s =
     (if ct_cur ct = 0
      then (sem_post sem s)\<lparr>hr_counters := (hr_counters s)(c \<mapsto> ct\<lparr>ct_cur := 1\<rparr>)\<rparr>
      else s)"

text \<open>
  The destructor, and the memory given back. \<open>destroyed\<close> says whether the system destroyed the
  object of the handle (or joined the thread); a handle for which it did not stays in the list.
\<close>

definition delete_handle :: "(nat \<Rightarrow> bool) \<Rightarrow> nat \<Rightarrow> hreg \<Rightarrow> handle_error + hreg" where
  "delete_handle destroyed h s =
     (case hr_handles s h of
        None \<Rightarrow> Inl (Use_After_Free h)
      | Some (Other t) \<Rightarrow>
          if t \<in> {MSH_MUTEX, MSH_EVENT, MSH_THREAD} \<and> destroyed h
          then bindE (UnregisterHANDLE h s) (\<lambda>s1. Inr (free_handle h s1))
          else Inr (free_handle h s)
      | Some (Sema x) \<Rightarrow>
          bindE (counter_at s (hs_counter x))
            (\<lambda>ct. bindE
               (if ct_ref ct \<noteq> h then
                  bindE (sema_at s (ct_ref ct))
                    (\<lambda>y. Inr (sem_close (hs_sem x) (release_taken (hs_sem x) (hs_counter x) ct
                           (s\<lparr>hr_handles := (hr_handles s)
                                (ct_ref ct \<mapsto> Sema (y\<lparr>hs_refs := hs_refs y - 1\<rparr>))\<rparr>))))
                else if hs_refs x = 0 then
                  (let s1 = sem_unlink (hs_name x) (sem_close (hs_sem x)
                          (release_taken (hs_sem x) (hs_counter x) ct s))
                   in Inr (s1\<lparr>hr_counters := (hr_counters s1)(hs_counter x := None)\<rparr>))
                else Inr s)
               (\<lambda>s2. bindE (UnregisterHANDLE h s2) (\<lambda>s3. Inr (free_handle h s3)))))"

text \<open>A handle that others refer to is not closed, which the caller is not told.\<close>

definition CloseHandle :: "(nat \<Rightarrow> bool) \<Rightarrow> nat \<Rightarrow> hreg \<Rightarrow> handle_error + bool \<times> hreg" where
  "CloseHandle destroyed h s =
     (if h \<noteq> 0 \<and> isOpenHandle h s \<noteq> 0 then
        (case hr_handles s h of
           None \<Rightarrow> Inl (Use_After_Free h)
         | Some (Other _) \<Rightarrow> bindE (delete_handle destroyed h s) (\<lambda>s'. Inr (True, s'))
         | Some (Sema x) \<Rightarrow>
             bindE (counter_at s (hs_counter x))
               (\<lambda>ct. if ct_ref ct \<noteq> h \<or> hs_refs x = 0
                  then bindE (delete_handle destroyed h s) (\<lambda>s'. Inr (True, s'))
                  else Inr (True, s)))
      else if h \<noteq> 0 \<and> hr_handles s h = None then Inl (Use_After_Free h)
      else Inr (False, s))"

section \<open>When the process exits\<close>

text \<open>
  The two loops of the handler: \<open>i\<close> walks the list past the semaphores that are referred to, and
  starts again after one has been closed, until the list is empty. \<open>None\<close>: the fuel is used up.
\<close>

primrec free_semas :: "(nat \<Rightarrow> bool) \<Rightarrow> nat \<Rightarrow> nat \<Rightarrow> hreg \<Rightarrow> handle_error + hreg option" where
  "free_semas destroyed 0 i s = Inr None"
| "free_semas destroyed (Suc fuel) i s =
     (let h = hr_semas s ! i
      in bindE
           (if h = 0 then
              Inr (Some i, s\<lparr>hr_semas := take i (hr_semas s) @ drop (i + 1) (hr_semas s)\<rparr>)
            else
              bindE (sema_at s h)
                (\<lambda>x. bindE (counter_at s (hs_counter x))
                   (\<lambda>ct. if ct_ref ct = h \<and> 0 < hs_refs x then Inr (Some (i + 1), s)
                         else bindE (CloseHandle destroyed h s) (\<lambda>(_, s'). Inr (None, s')))))
           (\<lambda>(i', s'). case i' of
              Some j \<Rightarrow>
                if j < length (hr_semas s') then free_semas destroyed fuel j s'
                else if hr_semas s' = [] then Inr (Some s') else free_semas destroyed fuel 0 s'
            | None \<Rightarrow> if hr_semas s' = [] then Inr (Some s') else free_semas destroyed fuel 0 s'))"

definition FreeAllSemaHandles :: "(nat \<Rightarrow> bool) \<Rightarrow> nat \<Rightarrow> hreg \<Rightarrow> handle_error + hreg option" where
  "FreeAllSemaHandles destroyed fuel s =
     (if hr_semas s = [] then Inr (Some s) else free_semas destroyed fuel 0 s)"

end
