(* ===== verification/HandlesProperties.thy ===== *)
theory HandlesProperties
  imports Handles
begin

text \<open>
  What holds of the handles: a reachable registry never has a handle whose counter, or whose source,
  has been given back, and the count of a source is the number of handles that refer to it, so the
  calls of a client that closes each handle once do not use memory that is gone. It also shows what
  does not hold: closing a handle that refers to a semaphore takes the semaphore itself off the
  list, closing twice is not noticed, and the exit handler returns only when no listed semaphore is
  referred to.
\<close>

section \<open>Views of the state\<close>

definition hv :: "hreg \<Rightarrow> nat \<rightharpoonup> sema_handle" where
  "hv s h = (case hr_handles s h of Some (Sema x) \<Rightarrow> Some x | _ \<Rightarrow> None)"

definition rf :: "hreg \<Rightarrow> nat \<rightharpoonup> nat" where
  "rf s c = map_option ct_ref (hr_counters s c)"

definition semof :: "hreg \<Rightarrow> nat \<Rightarrow> nat" where
  "semof s h = (case hv s h of Some x \<Rightarrow> hs_sem x | None \<Rightarrow> 0)"

definition refs_to :: "hreg \<Rightarrow> nat \<Rightarrow> nat \<Rightarrow> nat set" where
  "refs_to s c h = {g. g \<noteq> h \<and> (\<exists>y. hv s g = Some y \<and> hs_counter y = c)}"

lemma hv_Some: "hv s h = Some x \<longleftrightarrow> hr_handles s h = Some (Sema x)"
  by (auto simp: hv_def split: option.splits handle.splits)

lemma rf_Some: "rf s c = Some g \<longleftrightarrow> (\<exists>ct. hr_counters s c = Some ct \<and> ct_ref ct = g)"
  by (simp add: rf_def)

lemma sema_at_hv: "sema_at s h = Inr x \<longleftrightarrow> hv s h = Some x"
  by (auto simp: sema_at_def hv_def split: option.splits handle.splits)

lemma sema_at_Inr: "hv s h = Some x \<Longrightarrow> sema_at s h = Inr x"
  by (simp add: sema_at_hv)

lemma counter_at_rf: "rf s c = Some g \<Longrightarrow> \<exists>ct. counter_at s c = Inr ct \<and> hr_counters s c = Some ct \<and> ct_ref ct = g"
  by (auto simp: counter_at_def rf_def)

section \<open>The invariant\<close>

definition handles_wf :: "hreg \<Rightarrow> bool" where
  "handles_wf s \<longleftrightarrow> 0 < hr_next s
   \<and> (\<forall>h. hr_handles s h \<noteq> None \<longrightarrow> 0 < h \<and> h < hr_next s)
   \<and> (\<forall>c. rf s c \<noteq> None \<longrightarrow> c < hr_next s)
   \<and> (\<forall>h x. hv s h = Some x \<longrightarrow> hr_open s h \<noteq> None \<and> hr_ready s \<and> hs_sem x < hr_next s
        \<and> (\<exists>g y. rf s (hs_counter x) = Some g \<and> hv s g = Some y \<and> hs_counter y = hs_counter x))"

definition refs_ok :: "hreg \<Rightarrow> bool" where
  "refs_ok s \<longleftrightarrow> (\<forall>h x. hv s h = Some x \<longrightarrow> rf s (hs_counter x) = Some h \<longrightarrow>
     hs_refs x = of_nat (card (refs_to s (hs_counter x) h)))"

definition list_ok :: "hreg \<Rightarrow> bool" where
  "list_ok s \<longleftrightarrow> distinct (hr_semas s) \<and> inj_on (semof s) (set (hr_semas s))
   \<and> (\<forall>h \<in> set (hr_semas s). \<exists>x. hv s h = Some x \<and> rf s (hs_counter x) = Some h)"

definition names_ok :: "hreg \<Rightarrow> bool" where
  "names_ok s \<longleftrightarrow> (\<forall>n k. px_names s n = Some k \<longrightarrow> k < hr_next s)
   \<and> (\<forall>n m k. px_names s n = Some k \<longrightarrow> px_names s m = Some k \<longrightarrow> n = m)
   \<and> (\<forall>n h x. px_names s n = Some (hs_sem x) \<longrightarrow> hv s h = Some x \<longrightarrow> hs_name x = n)"

definition reg_ok :: "hreg \<Rightarrow> bool" where
  "reg_ok s \<longleftrightarrow> handles_wf s \<and> refs_ok s \<and> list_ok s \<and> names_ok s"

lemma reg_ok_no_handles: "reg_ok no_handles"
  by (simp add: reg_ok_def handles_wf_def refs_ok_def list_ok_def names_ok_def no_handles_def hv_def rf_def)

lemma handles_wfD:
  assumes "handles_wf s"
  shows "0 < hr_next s" "hr_handles s h \<noteq> None \<Longrightarrow> 0 < h \<and> h < hr_next s"
    "hv s h = Some x \<Longrightarrow> 0 < h \<and> h < hr_next s \<and> hr_open s h \<noteq> None \<and> hr_ready s \<and> hs_sem x < hr_next s"
    "rf s c = Some g \<Longrightarrow> c < hr_next s"
    "hv s h = Some x \<Longrightarrow> \<exists>g y. rf s (hs_counter x) = Some g \<and> hv s g = Some y \<and> hs_counter y = hs_counter x"
  using assms unfolding handles_wf_def by (force simp: hv_Some)+

lemma finite_refs:
  assumes "handles_wf s"
  shows "finite (refs_to s c h)" and "card (refs_to s c h) < hr_next s"
proof -
  have sub: "refs_to s c h \<subseteq> {0<..<hr_next s}"
    using handles_wfD(3) [OF assms] by (auto simp: refs_to_def)
  then show "finite (refs_to s c h)" by (rule finite_subset) simp
  have "card (refs_to s c h) \<le> hr_next s - 1"
    using card_mono [OF _ sub] by simp
  then show "card (refs_to s c h) < hr_next s" using handles_wfD(1) [OF assms] by linarith
qed

text \<open>The invariant is about these views only.\<close>

lemma reg_ok_views:
  assumes "hr_handles s' = hr_handles s" "rf s' = rf s" "hr_open s' = hr_open s" "hr_ready s' = hr_ready s"
    "hr_semas s' = hr_semas s" "px_names s' = px_names s" "hr_next s' = hr_next s"
  shows "reg_ok s' = reg_ok s"
proof -
  have "hv s' = hv s" using assms(1) by (auto simp: hv_def)
  moreover from this have "semof s' = semof s" "refs_to s' = refs_to s" by (auto simp: semof_def refs_to_def fun_eq_iff)
  ultimately show ?thesis
    using assms by (simp add: reg_ok_def handles_wf_def refs_ok_def list_ok_def names_ok_def)
qed

section \<open>The lists\<close>

lemma find_by_sem:
  assumes "\<forall>h \<in> set hs. hv s h \<noteq> None \<and> h \<noteq> 0"
  shows "\<exists>r. FindSemaphoreHANDLE (Some k) nm s hs = Inr r
    \<and> (if r = 0 then \<forall>h \<in> set hs. semof s h \<noteq> k else r \<in> set hs \<and> semof s r = k)"
  using assms
proof (induction hs)
  case (Cons h hs)
  obtain x where x: "hv s h = Some x" "h \<noteq> 0" using Cons.prems by auto
  have sem: "semof s h = hs_sem x" using x by (simp add: semof_def)
  obtain r where "FindSemaphoreHANDLE (Some k) nm s hs = Inr r"
    "if r = 0 then \<forall>h \<in> set hs. semof s h \<noteq> k else r \<in> set hs \<and> semof s r = k"
    using Cons by auto
  then show ?case
    using x sem by (cases "hs_sem x = k") (auto simp: sema_at_Inr split: if_splits)
qed simp

lemma find_by_name:
  assumes "\<forall>h \<in> set hs. h \<noteq> 0 \<and> (\<exists>x. hv s h = Some x \<and> rf s (hs_counter x) = Some h)"
  shows "\<exists>r. FindSemaphoreHANDLE None (Some name) s hs = Inr r
    \<and> (if r = 0 then \<forall>h \<in> set hs. \<forall>x. hv s h = Some x \<longrightarrow> hs_name x \<noteq> name
       else r \<in> set hs \<and> (\<exists>x. hv s r = Some x \<and> hs_name x = name))"
  using assms
proof (induction hs)
  case (Cons h hs)
  obtain x where x: "hv s h = Some x" "h \<noteq> 0" "rf s (hs_counter x) = Some h" using Cons.prems by auto
  obtain ct where "counter_at s (hs_counter x) = Inr ct" "ct_ref ct = h" using counter_at_rf [OF x(3)] by auto
  moreover obtain r where "FindSemaphoreHANDLE None (Some name) s hs = Inr r"
    "if r = 0 then \<forall>h \<in> set hs. \<forall>x. hv s h = Some x \<longrightarrow> hs_name x \<noteq> name
     else r \<in> set hs \<and> (\<exists>x. hv s r = Some x \<and> hs_name x = name)"
    using Cons by auto
  ultimately show ?case
    using x by (cases "hs_name x = name") (auto simp: sema_at_Inr split: if_splits)
qed simp

lemma remove_filter:
  assumes "\<forall>h \<in> set hs. hv s h \<noteq> None \<and> hr_open s h \<noteq> None" and "hr_ready s"
    and "distinct hs" and "inj_on (semof s) (set hs)"
  shows "RemoveSemaListEntry k s hs = Inr (filter (\<lambda>g. semof s g \<noteq> k) hs)"
  using assms
proof (induction hs)
  case (Cons h hs)
  obtain x where x: "hv s h = Some x" using Cons.prems(1) by auto
  have open': "\<not> isOpenHandle h s < 0" using Cons.prems(1,2) by (simp add: isOpenHandle_def)
  have sem: "semof s h = hs_sem x" using x by (simp add: semof_def)
  show ?case
  proof (cases "hs_sem x = k")
    case True
    then have "\<forall>g \<in> set hs. semof s g \<noteq> k" using Cons.prems(3,4) sem by (auto simp: inj_on_def)
    then have "filter (\<lambda>g. semof s g \<noteq> k) hs = hs" by simp
    then show ?thesis using True open' x sem by (simp add: sema_at_Inr)
  next
    case False
    then show ?thesis using Cons.IH Cons.prems open' x sem by (simp add: sema_at_Inr)
  qed
qed simp

section \<open>What the operations do to a registry that satisfies the invariant\<close>

definition add_copy :: "nat \<Rightarrow> sema_handle \<Rightarrow> nat \<Rightarrow> string \<Rightarrow> hreg \<Rightarrow> hreg" where
  "add_copy g y sem name s =
     s\<lparr>hr_next := hr_next s + 1, hr_ready := True, hr_open := (hr_open s)(hr_next s \<mapsto> MSH_SEMAPHORE),
       hr_handles := (hr_handles s)(g \<mapsto> Sema (y\<lparr>hs_refs := hs_refs y + 1\<rparr>), hr_next s \<mapsto>
          Sema \<lparr>hs_name = name, hs_sem = sem, hs_counter = hs_counter y, hs_refs = 0\<rparr>)\<rparr>"

definition add_source :: "nat \<Rightarrow> string \<Rightarrow> int \<Rightarrow> int \<Rightarrow> hreg \<Rightarrow> hreg" where
  "add_source k name v m s =
     (let h = hr_next s in
      s\<lparr>hr_next := h + 2, hr_ready := True, hr_open := (hr_open s)(h \<mapsto> MSH_SEMAPHORE), hr_semas := hr_semas s @ [h],
        hr_handles := (hr_handles s)(h \<mapsto> Sema \<lparr>hs_name = name, hs_sem = k, hs_counter = h + 1, hs_refs = 0\<rparr>),
        hr_counters := (hr_counters s)(h + 1 \<mapsto> \<lparr>ct_cur = v, ct_max = m, ct_ref = h\<rparr>)\<rparr>)"

definition unlist :: "nat \<Rightarrow> hreg \<Rightarrow> hreg" where
  "unlist sem s = s\<lparr>hr_semas := filter (\<lambda>g. semof s g \<noteq> sem) (hr_semas s)\<rparr>"

definition drop_copy :: "nat \<Rightarrow> nat \<Rightarrow> sema_handle \<Rightarrow> hreg \<Rightarrow> hreg" where
  "drop_copy h g y s =
     s\<lparr>hr_handles := (hr_handles s)(g \<mapsto> Sema (y\<lparr>hs_refs := hs_refs y - 1\<rparr>), h := None),
       hr_open := (hr_open s)(h := None)\<rparr>"

definition drop_source :: "nat \<Rightarrow> sema_handle \<Rightarrow> hreg \<Rightarrow> hreg" where
  "drop_source h x s =
     s\<lparr>hr_handles := (hr_handles s)(h := None), hr_counters := (hr_counters s)(hs_counter x := None),
       hr_open := (hr_open s)(h := None), px_names := (px_names s)(hs_name x := None)\<rparr>"

lemma hv_add_copy:
  "hv (add_copy g y k n s) = (hv s)(g \<mapsto> y\<lparr>hs_refs := hs_refs y + 1\<rparr>, hr_next s \<mapsto>
     \<lparr>hs_name = n, hs_sem = k, hs_counter = hs_counter y, hs_refs = 0\<rparr>)"
  by (auto simp: hv_def add_copy_def fun_eq_iff)

lemma hv_add_source:
  "hv (add_source k n v m s) = (hv s)(hr_next s \<mapsto>
     \<lparr>hs_name = n, hs_sem = k, hs_counter = hr_next s + 1, hs_refs = 0\<rparr>)"
  by (auto simp: hv_def add_source_def Let_def fun_eq_iff)

lemma hv_drop_copy:
  "hv (drop_copy h g y s) = (hv s)(g \<mapsto> y\<lparr>hs_refs := hs_refs y - 1\<rparr>, h := None)"
  by (auto simp: hv_def drop_copy_def fun_eq_iff)

lemma hv_drop_source: "hv (drop_source h x s) = (hv s)(h := None)"
  by (auto simp: hv_def drop_source_def fun_eq_iff)

lemma rf_ops [simp]:
  "rf (add_copy g y k n s) = rf s" "rf (drop_copy h g y s) = rf s" "rf (unlist k s) = rf s"
  "rf (add_source k n v m s) = (rf s)(hr_next s + 1 \<mapsto> hr_next s)"
  "rf (drop_source h x s) = (rf s)(hs_counter x := None)"
  by (auto simp: rf_def add_copy_def add_source_def drop_copy_def drop_source_def unlist_def Let_def fun_eq_iff)

lemma op_sel [simp]:
  "hr_semas (add_copy g y k n s) = hr_semas s" "hr_semas (drop_copy h g y s) = hr_semas s"
  "hr_semas (add_source k n v m s) = hr_semas s @ [hr_next s]" "hr_semas (drop_source h x s) = hr_semas s"
  "px_names (add_copy g y k n s) = px_names s" "px_names (drop_copy h g y s) = px_names s"
  "px_names (add_source k n v m s) = px_names s" "px_names (drop_source h x s) = (px_names s)(hs_name x := None)"
  "hr_next (add_copy g y k n s) = hr_next s + 1" "hr_next (drop_copy h g y s) = hr_next s"
  "hr_next (add_source k n v m s) = hr_next s + 2" "hr_next (drop_source h x s) = hr_next s"
  "hr_ready (add_copy g y k n s)" "hr_ready (drop_copy h g y s) = hr_ready s"
  "hr_ready (add_source k n v m s)" "hr_ready (drop_source h x s) = hr_ready s"
  "hr_open (add_copy g y k n s) = (hr_open s)(hr_next s \<mapsto> MSH_SEMAPHORE)"
  "hr_open (drop_copy h g y s) = (hr_open s)(h := None)"
  "hr_open (add_source k n v m s) = (hr_open s)(hr_next s \<mapsto> MSH_SEMAPHORE)"
  "hr_open (drop_source h x s) = (hr_open s)(h := None)"
  by (simp_all add: add_copy_def drop_copy_def add_source_def drop_source_def Let_def)

lemma hv_unlist [simp]: "hv (unlist k s) = hv s"
  by (simp add: hv_def unlist_def fun_eq_iff)

text \<open>Taking entries off the list.\<close>

lemma reg_ok_unlist:
  assumes "reg_ok s"
  shows "reg_ok (unlist k s)"
proof -
  have sem: "semof (unlist k s) = semof s" "refs_to (unlist k s) = refs_to s"
    by (auto simp: semof_def refs_to_def fun_eq_iff)
  have "list_ok (unlist k s)"
    using assms unfolding reg_ok_def list_ok_def sem
    by (auto simp: unlist_def hv_def rf_def intro: inj_on_subset [of _ "set (hr_semas s)"])
  then show ?thesis
    using assms unfolding reg_ok_def handles_wf_def refs_ok_def names_ok_def sem hv_unlist rf_ops
    by (simp add: unlist_def)
qed

text \<open>A handle that refers to a semaphore is added: the count goes up with the set of referring
  handles.\<close>

lemma reg_ok_add_copy:
  assumes "reg_ok s" and "hv s g = Some y" and "rf s (hs_counter y) = Some g"
    and "px_names s n = Some k"
  shows "reg_ok (add_copy g y k n s)"
proof -
  let ?s = "add_copy g y k n s" and ?h = "hr_next s"
  have wf: "handles_wf s" and cnt: "refs_ok s" and lst: "list_ok s" and nam: "names_ok s"
    using assms(1) by (auto simp: reg_ok_def)
  note wfD = handles_wfD [OF wf]
  have g: "g \<noteq> ?h" "hv s ?h = None" "0 < g"
    using wfD(3) [OF assms(2)] wfD(3) [of ?h] by (auto simp: not_None_eq intro: option.exhaust [of "hv s ?h"])
  have k: "k < ?h" using assms(4) nam by (auto simp: names_ok_def)
  have "handles_wf ?s"
    unfolding handles_wf_def
  proof (intro conjI allI impI)
    show "0 < hr_next ?s" by (simp add: add_copy_def)
  next
    fix h assume "hr_handles ?s h \<noteq> None"
    then show "0 < h" "h < hr_next ?s"
      using wfD(1) wfD(2) [of h] g wfD(3) [OF assms(2)] by (auto simp: add_copy_def split: if_splits)
  next
    fix c assume "rf ?s c \<noteq> None" then show "c < hr_next ?s"
      using wfD(4) [of c] by auto
  next
    fix h x assume h: "hv ?s h = Some x"
    then show "hr_open ?s h \<noteq> None" "hs_sem x < hr_next ?s"
      using wfD(3) [of h] wfD(3) [OF assms(2)] k by (auto simp: hv_add_copy split: if_splits)
    show "hr_ready ?s" by simp
    show "\<exists>ga ya. rf ?s (hs_counter x) = Some ga \<and> hv ?s ga = Some ya \<and> hs_counter ya = hs_counter x"
    proof (cases "h = ?h \<or> h = g")
      case True
      then have "hs_counter x = hs_counter y" using h g by (auto simp: hv_add_copy split: if_splits)
      then show ?thesis using assms(3) g by (intro exI [of _ g]) (simp add: hv_add_copy)
    next
      case False
      then have "hv s h = Some x" using h by (simp add: hv_add_copy)
      then obtain g' y' where "rf s (hs_counter x) = Some g'" "hv s g' = Some y'" "hs_counter y' = hs_counter x"
        using wfD(5) by blast
      then show ?thesis using g assms(2)
        by (intro exI [of _ g']) (auto simp: hv_add_copy)
    qed
  qed
  moreover have "refs_ok ?s"
    unfolding refs_ok_def
  proof (intro allI impI)
    fix h x assume h: "hv ?s h = Some x" "rf ?s (hs_counter x) = Some h"
    show "hs_refs x = of_nat (card (refs_to ?s (hs_counter x) h))"
    proof (cases "h = g")
      case True
      then have x: "x = y\<lparr>hs_refs := hs_refs y + 1\<rparr>" using h g by (simp add: hv_add_copy)
      have "refs_to ?s (hs_counter y) g = insert ?h (refs_to s (hs_counter y) g)"
        using g by (auto simp: refs_to_def hv_add_copy)
      moreover have "?h \<notin> refs_to s (hs_counter y) g" using g by (simp add: refs_to_def)
      moreover have "hs_refs y = of_nat (card (refs_to s (hs_counter y) g))"
        using cnt assms(2,3) by (simp add: refs_ok_def)
      ultimately show ?thesis using finite_refs(1) [OF wf] True x by simp
    next
      case False
      have "h \<noteq> ?h" using h g assms(3) by (auto simp: hv_add_copy)
      then have hs: "hv s h = Some x" using h False by (simp add: hv_add_copy)
      have "hs_counter x \<noteq> hs_counter y" using h(2) assms(3) False by auto
      then have "refs_to ?s (hs_counter x) h = refs_to s (hs_counter x) h"
        using assms(2) g by (auto simp: refs_to_def hv_add_copy)
      then show ?thesis using cnt hs h(2) by (simp add: refs_ok_def)
    qed
  qed
  moreover have "list_ok ?s"
  proof -
    have "semof ?s h = semof s h" if "h \<noteq> ?h" for h
      using that assms(2) by (simp add: semof_def hv_add_copy)
    moreover have "?h \<notin> set (hr_semas s)" using lst g(2) by (force simp: list_ok_def)
    ultimately have "inj_on (semof ?s) (set (hr_semas s))"
      using lst unfolding list_ok_def by (metis (no_types, lifting) inj_on_cong)
    then show ?thesis
      using lst g assms(2,3) unfolding list_ok_def by (fastforce simp: hv_add_copy)
  qed
  moreover have "names_ok ?s"
    using nam assms(2,4) g unfolding names_ok_def by (auto simp: hv_add_copy less_Suc_eq split: if_splits)
  ultimately show ?thesis by (simp add: reg_ok_def)
qed

text \<open>A handle that makes its semaphore is added; no listed handle is for that semaphore.\<close>

lemma reg_ok_add_source:
  assumes "reg_ok s" and "px_names s n = Some k" and "\<forall>h \<in> set (hr_semas s). semof s h \<noteq> k"
  shows "reg_ok (add_source k n v m s)"
proof -
  let ?s = "add_source k n v m s" and ?h = "hr_next s"
  have wf: "handles_wf s" and cnt: "refs_ok s" and lst: "list_ok s" and nam: "names_ok s"
    using assms(1) by (auto simp: reg_ok_def)
  note wfD = handles_wfD [OF wf]
  have new: "hv s ?h = None" using wfD(3) [of ?h] by (cases "hv s ?h") auto
  have unused: "rf s c = None" if "?h \<le> c" for c using wfD(4) [of c] that by (cases "rf s c") auto
  have old: "hs_counter x < ?h" if "hv s h = Some x" for h x using wfD(4,5) that by blast
  have k: "k < ?h" using assms(2) nam by (auto simp: names_ok_def)
  have "handles_wf ?s"
    unfolding handles_wf_def
  proof (intro conjI allI impI)
    fix h assume "hr_handles ?s h \<noteq> None"
    then show "0 < h" "h < hr_next ?s"
      using wfD(1) wfD(2) [of h] by (auto simp: add_source_def Let_def split: if_splits)
  next
    fix c assume "rf ?s c \<noteq> None" then show "c < hr_next ?s"
      using wfD(4) [of c] by (auto split: if_splits)
  next
    fix h x assume h: "hv ?s h = Some x"
    then show "hr_open ?s h \<noteq> None" "hs_sem x < hr_next ?s"
      using wfD(3) [of h] k by (auto simp: hv_add_source split: if_splits)
    show "\<exists>g y. rf ?s (hs_counter x) = Some g \<and> hv ?s g = Some y \<and> hs_counter y = hs_counter x"
    proof (cases "h = ?h")
      case True
      then show ?thesis using h by (intro exI [of _ ?h]) (auto simp: hv_add_source)
    next
      case False
      then have hs: "hv s h = Some x" using h by (simp add: hv_add_source)
      then obtain g y where "rf s (hs_counter x) = Some g" "hv s g = Some y" "hs_counter y = hs_counter x"
        using wfD(5) by blast
      then show ?thesis using new old [OF hs] by (intro exI [of _ g]) (auto simp: hv_add_source)
    qed
  qed simp_all
  moreover have "refs_ok ?s"
    unfolding refs_ok_def
  proof (intro allI impI)
    fix h x assume h: "hv ?s h = Some x" "rf ?s (hs_counter x) = Some h"
    show "hs_refs x = of_nat (card (refs_to ?s (hs_counter x) h))"
    proof (cases "h = ?h")
      case True
      have "refs_to ?s (hs_counter x) h = {}"
        using True h old unfolding refs_to_def by (fastforce simp: hv_add_source)
      then show ?thesis using True h by (auto simp: hv_add_source)
    next
      case False
      then have hs: "hv s h = Some x" using h by (simp add: hv_add_source)
      then have "refs_to ?s (hs_counter x) h = refs_to s (hs_counter x) h"
        using new old [OF hs] by (auto simp: refs_to_def hv_add_source)
      then show ?thesis using cnt hs h(2) old [OF hs] by (simp add: refs_ok_def)
    qed
  qed
  moreover have "list_ok ?s"
  proof -
    have listed: "\<exists>x. hv s h = Some x \<and> rf s (hs_counter x) = Some h" if "h \<in> set (hr_semas s)" for h
      using lst that by (auto simp: list_ok_def)
    have notin: "?h \<notin> set (hr_semas s)" using listed new by force
    have same: "semof ?s h = (if h = ?h then k else semof s h)" for h by (simp add: semof_def hv_add_source)
    have "inj_on (semof ?s) (insert ?h (set (hr_semas s)))"
      using lst notin assms(3) unfolding list_ok_def inj_on_def same by auto
    then show ?thesis
      using lst notin listed old unfolding list_ok_def by (fastforce simp: hv_add_source)
  qed
  moreover have "names_ok ?s"
    using nam assms(2) unfolding names_ok_def by (auto simp: hv_add_source less_Suc_eq split: if_splits)
  ultimately show ?thesis by (simp add: reg_ok_def)
qed

text \<open>A handle that refers to another's semaphore is dropped, once it is off the list, which it never
  was on.\<close>

lemma reg_ok_drop_copy:
  assumes "reg_ok s" and "hv s h = Some x" and "hv s g = Some y" and "rf s (hs_counter x) = Some g"
    and "hs_counter y = hs_counter x" and "g \<noteq> h"
  shows "reg_ok (drop_copy h g y s)"
proof -
  let ?s = "drop_copy h g y s"
  have wf: "handles_wf s" and cnt: "refs_ok s" and lst: "list_ok s" and nam: "names_ok s"
    using assms(1) by (auto simp: reg_ok_def)
  note wfD = handles_wfD [OF wf]
  have "handles_wf ?s"
    unfolding handles_wf_def
  proof (intro conjI allI impI)
    show "0 < hr_next ?s" using wfD(1) by simp
  next
    fix j assume "hr_handles ?s j \<noteq> None"
    then show "0 < j" "j < hr_next ?s"
      using wfD(2) [of j] wfD(3) [OF assms(3)] by (auto simp: drop_copy_def split: if_splits)
  next
    fix c assume "rf ?s c \<noteq> None" then show "c < hr_next ?s" using wfD(4) [of c] by auto
  next
    fix j z assume j: "hv ?s j = Some z"
    then show "hr_open ?s j \<noteq> None" "hr_ready ?s" "hs_sem z < hr_next ?s"
      using wfD(3) [of j] wfD(3) [OF assms(3)] assms(6) by (auto simp: hv_drop_copy split: if_splits)
    obtain z' where z': "hv s j = Some z'" "hs_counter z' = hs_counter z"
      using j assms(3,6) by (auto simp: hv_drop_copy split: if_splits)
    obtain g' y' where g': "rf s (hs_counter z) = Some g'" "hv s g' = Some y'" "hs_counter y' = hs_counter z"
      using wfD(5) [OF z'(1)] z'(2) by auto
    have "g' \<noteq> h" using g' assms(2,4,6) by auto
    then show "\<exists>g y. rf ?s (hs_counter z) = Some g \<and> hv ?s g = Some y \<and> hs_counter y = hs_counter z"
      using g' assms(3) by (intro exI [of _ g']) (auto simp: hv_drop_copy)
  qed
  moreover have "refs_ok ?s"
    unfolding refs_ok_def
  proof (intro allI impI)
    fix j z assume j: "hv ?s j = Some z" "rf ?s (hs_counter z) = Some j"
    show "hs_refs z = of_nat (card (refs_to ?s (hs_counter z) j))"
    proof (cases "j = g")
      case True
      then have z: "z = y\<lparr>hs_refs := hs_refs y - 1\<rparr>" using j assms(6) by (simp add: hv_drop_copy)
      have "refs_to ?s (hs_counter x) g = refs_to s (hs_counter x) g - {h}"
        by (auto simp: refs_to_def hv_drop_copy)
      moreover have h: "h \<in> refs_to s (hs_counter x) g" using assms(2,6) by (auto simp: refs_to_def)
      moreover have "card (refs_to s (hs_counter x) g) = Suc (card (refs_to s (hs_counter x) g - {h}))"
        by (rule card.remove [OF finite_refs(1) [OF wf] h])
      moreover have "hs_refs y = of_nat (card (refs_to s (hs_counter x) g))"
        using cnt assms(3,4,5) by (metis refs_ok_def)
      ultimately show ?thesis using True z assms(5) by simp
    next
      case False
      have hs: "hv s j = Some z" using j False by (auto simp: hv_drop_copy split: if_splits)
      have "hs_counter z \<noteq> hs_counter x" using j(2) assms(4) False by auto
      then have "refs_to ?s (hs_counter z) j = refs_to s (hs_counter z) j"
        using assms(2,3,5) by (auto simp: refs_to_def hv_drop_copy)
      then show ?thesis using cnt hs j(2) by (simp add: refs_ok_def)
    qed
  qed
  moreover have "list_ok ?s"
  proof -
    have notin: "h \<notin> set (hr_semas s)" using lst assms(2,4,6) by (force simp: list_ok_def)
    have same: "semof ?s j = semof s j" if "j \<noteq> h" for j using that assms(3) by (simp add: semof_def hv_drop_copy)
    have "inj_on (semof ?s) (set (hr_semas s))"
      using lst notin same unfolding list_ok_def by (metis (no_types, lifting) inj_on_cong)
    then show ?thesis
      using lst notin assms(3,4,5) unfolding list_ok_def by (fastforce simp: hv_drop_copy)
  qed
  moreover have "names_ok ?s"
    using nam assms(3) unfolding names_ok_def by (auto simp: hv_drop_copy split: if_splits)
  ultimately show ?thesis by (simp add: reg_ok_def)
qed

text \<open>A handle that made its semaphore is dropped, when no other refers to it and once it is off the
  list.\<close>

lemma reg_ok_drop_source:
  assumes "reg_ok s" and "hv s h = Some x" and "refs_to s (hs_counter x) h = {}"
    and "h \<notin> set (hr_semas s)"
  shows "reg_ok (drop_source h x s)"
proof -
  let ?s = "drop_source h x s"
  have wf: "handles_wf s" and cnt: "refs_ok s" and lst: "list_ok s" and nam: "names_ok s"
    using assms(1) by (auto simp: reg_ok_def)
  note wfD = handles_wfD [OF wf]
  have others: "hs_counter z \<noteq> hs_counter x" if "hv s j = Some z" "j \<noteq> h" for j z
    using assms(3) that by (auto simp: refs_to_def)
  have refs: "refs_to ?s c j = refs_to s c j" if "c \<noteq> hs_counter x" for c j
    using that assms(2) by (auto simp: refs_to_def hv_drop_source)
  have "handles_wf ?s"
    unfolding handles_wf_def
  proof (intro conjI allI impI)
    show "0 < hr_next ?s" using wfD(1) by simp
  next
    fix j assume "hr_handles ?s j \<noteq> None"
    then show "0 < j" "j < hr_next ?s"
      using wfD(2) [of j] by (auto simp: drop_source_def split: if_splits)
  next
    fix c assume "rf ?s c \<noteq> None" then show "c < hr_next ?s" using wfD(4) [of c] by (auto split: if_splits)
  next
    fix j z assume j: "hv ?s j = Some z"
    then have hs: "hv s j = Some z" "j \<noteq> h" by (auto simp: hv_drop_source split: if_splits)
    then show "hr_open ?s j \<noteq> None" "hr_ready ?s" "hs_sem z < hr_next ?s" using wfD(3) [of j] by auto
    obtain g' y' where g': "rf s (hs_counter z) = Some g'" "hv s g' = Some y'" "hs_counter y' = hs_counter z"
      using wfD(5) [OF hs(1)] by auto
    then have "g' \<noteq> h" using others [OF hs] assms(2) by auto
    then show "\<exists>g y. rf ?s (hs_counter z) = Some g \<and> hv ?s g = Some y \<and> hs_counter y = hs_counter z"
      using g' others [OF hs] by (intro exI [of _ g']) (auto simp: hv_drop_source)
  qed
  moreover have "refs_ok ?s"
    using cnt refs others unfolding refs_ok_def by (auto simp: hv_drop_source split: if_splits)
  moreover have "list_ok ?s"
  proof -
    have "semof ?s j = semof s j" if "j \<noteq> h" for j using that by (simp add: semof_def hv_drop_source)
    then have "inj_on (semof ?s) (set (hr_semas s))"
      using lst assms(4) unfolding list_ok_def by (metis (no_types, lifting) inj_on_cong)
    then show ?thesis
      using lst assms(4) others unfolding list_ok_def by (fastforce simp: hv_drop_source)
  qed
  moreover have "names_ok ?s"
    using nam unfolding names_ok_def by (auto simp: hv_drop_source split: if_splits)
  ultimately show ?thesis by (simp add: reg_ok_def)
qed

section \<open>Closing\<close>

definition same_views :: "hreg \<Rightarrow> hreg \<Rightarrow> bool" where
  "same_views s t \<longleftrightarrow> hr_handles s = hr_handles t \<and> rf s = rf t \<and> hr_open s = hr_open t \<and> hr_ready s = hr_ready t
   \<and> hr_semas s = hr_semas t \<and> px_names s = px_names t \<and> hr_next s = hr_next t"

lemma same_views_reg_ok: "same_views s t \<Longrightarrow> reg_ok s = reg_ok t"
  unfolding same_views_def by (rule reg_ok_views) auto

lemma same_views_hv: "same_views s t \<Longrightarrow> hv s = hv t \<and> refs_to s = refs_to t \<and> semof s = semof t"
  by (auto simp: same_views_def hv_def refs_to_def semof_def fun_eq_iff)

text \<open>The calls of the system and the last post.\<close>

lemma system_views [simp]:
  "hr_handles (sem_close k s) = hr_handles s" "hr_handles (sem_unlink n s) = hr_handles s"
  "hr_handles (release_taken k c ct s) = hr_handles s"
  "hr_semas (sem_close k s) = hr_semas s" "hr_semas (sem_unlink n s) = hr_semas s"
  "hr_semas (release_taken k c ct s) = hr_semas s"
  "hr_open (sem_close k s) = hr_open s" "hr_open (sem_unlink n s) = hr_open s"
  "hr_open (release_taken k c ct s) = hr_open s"
  "hr_ready (sem_close k s) = hr_ready s" "hr_ready (sem_unlink n s) = hr_ready s"
  "hr_ready (release_taken k c ct s) = hr_ready s"
  "hr_next (sem_close k s) = hr_next s" "hr_next (sem_unlink n s) = hr_next s"
  "hr_next (release_taken k c ct s) = hr_next s"
  "px_names (sem_close k s) = px_names s" "px_names (sem_unlink n s) = (px_names s)(n := None)"
  "px_names (release_taken k c ct s) = px_names s"
  by (simp_all add: sem_close_def sem_unlink_def release_taken_def sem_post_def)

lemma system_rf [simp]:
  "rf (sem_close k s) = rf s" "rf (sem_unlink n s) = rf s"
  "hr_counters s c = Some ct \<Longrightarrow> rf (release_taken k c ct s) = rf s"
  by (auto simp: rf_def sem_close_def sem_unlink_def release_taken_def sem_post_def fun_eq_iff)

lemma unregister_sema:
  assumes "hr_handles s h = Some (Sema x)" and "\<forall>g \<in> set (hr_semas s). hv s g \<noteq> None \<and> hr_open s g \<noteq> None"
    and "hr_ready s" and "distinct (hr_semas s)" and "inj_on (semof s) (set (hr_semas s))"
  shows "UnregisterHANDLE h s =
    Inr (s\<lparr>hr_semas := filter (\<lambda>g. semof s g \<noteq> hs_sem x) (hr_semas s), hr_open := (hr_open s)(h := None)\<rparr>)"
  using assms(1,3) remove_filter [OF assms(2-5), of "hs_sem x"] by (simp add: UnregisterHANDLE_def)

lemma reg_ok_listed:
  assumes "reg_ok s"
  shows "\<forall>g \<in> set (hr_semas s). hv s g \<noteq> None \<and> hr_open s g \<noteq> None \<and> g \<noteq> 0" and "distinct (hr_semas s)"
    and "inj_on (semof s) (set (hr_semas s))"
    and "g \<in> set (hr_semas s) \<Longrightarrow> \<exists>x. hv s g = Some x \<and> rf s (hs_counter x) = Some g"
  using assms handles_wfD(3) [of s] unfolding reg_ok_def list_ok_def by fastforce+

lemma delete_copy:
  assumes "reg_ok s" and "hv s h = Some x" and "rf s (hs_counter x) = Some g" and "g \<noteq> h" and "hv s g = Some y"
  shows "\<exists>s'. delete_handle d h s = Inr s' \<and> same_views s' (drop_copy h g y (unlist (hs_sem x) s))"
proof -
  have wf: "handles_wf s" using assms(1) by (simp add: reg_ok_def)
  note listed = reg_ok_listed [OF assms(1)]
  obtain ct where ct: "counter_at s (hs_counter x) = Inr ct" "hr_counters s (hs_counter x) = Some ct" "ct_ref ct = g"
    using counter_at_rf [OF assms(3)] by auto
  define s1 where "s1 = s\<lparr>hr_handles := (hr_handles s)(g \<mapsto> Sema (y\<lparr>hs_refs := hs_refs y - 1\<rparr>))\<rparr>"
  define s2 where "s2 = sem_close (hs_sem x) (release_taken (hs_sem x) (hs_counter x) ct s1)"
  have sel: "hr_handles s2 = (hr_handles s)(g \<mapsto> Sema (y\<lparr>hs_refs := hs_refs y - 1\<rparr>))" "hr_semas s2 = hr_semas s"
    "hr_open s2 = hr_open s" "hr_ready s2 = hr_ready s" "hr_next s2 = hr_next s" "px_names s2 = px_names s"
    by (simp_all add: s2_def s1_def)
  have "rf s1 = rf s" by (simp add: rf_def s1_def fun_eq_iff)
  then have rf: "rf s2 = rf s" using ct(2) by (simp add: s2_def s1_def)
  have hv2: "hv s2 = (hv s)(g \<mapsto> y\<lparr>hs_refs := hs_refs y - 1\<rparr>)" by (auto simp: hv_def sel(1) fun_eq_iff)
  have sem: "semof s2 = semof s" using assms(5) by (auto simp: semof_def hv2 fun_eq_iff)
  have hx: "hr_handles s2 h = Some (Sema x)" using assms(2,4) by (simp add: sel(1) hv_Some)
  have "hr_ready s" using handles_wfD(3) [OF wf assms(2)] by simp
  then have un: "UnregisterHANDLE h s2 =
      Inr (s2\<lparr>hr_semas := filter (\<lambda>g. semof s g \<noteq> hs_sem x) (hr_semas s), hr_open := (hr_open s)(h := None)\<rparr>)"
    using unregister_sema [OF hx] listed unfolding sel sem hv2 by auto
  have "delete_handle d h s = bindE (UnregisterHANDLE h s2) (\<lambda>s3. Inr (free_handle h s3))"
    using assms(2,4,5) ct
    by (simp add: delete_handle_def hv_Some [of s h] sema_at_Inr s2_def s1_def)
  moreover have "same_views (free_handle h (s2\<lparr>hr_semas := filter (\<lambda>g. semof s g \<noteq> hs_sem x) (hr_semas s),
      hr_open := (hr_open s)(h := None)\<rparr>)) (drop_copy h g y (unlist (hs_sem x) s))"
    using rf sel by (auto simp: same_views_def free_handle_def drop_copy_def unlist_def rf_def fun_eq_iff)
  ultimately show ?thesis unfolding un by simp
qed

lemma delete_source:
  assumes "reg_ok s" and "hv s h = Some x" and "rf s (hs_counter x) = Some h" and "hs_refs x = 0"
  shows "\<exists>s'. delete_handle d h s = Inr s' \<and> same_views s' (drop_source h x (unlist (hs_sem x) s))"
proof -
  have wf: "handles_wf s" using assms(1) by (simp add: reg_ok_def)
  note listed = reg_ok_listed [OF assms(1)]
  obtain ct where ct: "counter_at s (hs_counter x) = Inr ct" "hr_counters s (hs_counter x) = Some ct" "ct_ref ct = h"
    using counter_at_rf [OF assms(3)] by auto
  define s1 where "s1 = sem_unlink (hs_name x) (sem_close (hs_sem x) (release_taken (hs_sem x) (hs_counter x) ct s))"
  define s2 where "s2 = s1\<lparr>hr_counters := (hr_counters s1)(hs_counter x := None)\<rparr>"
  have sel: "hr_handles s2 = hr_handles s" "hr_semas s2 = hr_semas s"
    "hr_open s2 = hr_open s" "hr_ready s2 = hr_ready s" "hr_next s2 = hr_next s"
    "px_names s2 = (px_names s)(hs_name x := None)"
    by (simp_all add: s2_def s1_def)
  have "rf s1 = rf s" using ct(2) by (simp add: s1_def)
  then have rf: "rf s2 = (rf s)(hs_counter x := None)" by (auto simp: rf_def s2_def fun_eq_iff)
  have hv2: "hv s2 = hv s" by (simp add: hv_def sel(1) fun_eq_iff)
  then have sem: "semof s2 = semof s" by (simp add: semof_def fun_eq_iff)
  have hx: "hr_handles s2 h = Some (Sema x)" using assms(2) by (simp add: sel(1) hv_Some)
  have "hr_ready s" using handles_wfD(3) [OF wf assms(2)] by simp
  then have un: "UnregisterHANDLE h s2 =
      Inr (s2\<lparr>hr_semas := filter (\<lambda>g. semof s g \<noteq> hs_sem x) (hr_semas s), hr_open := (hr_open s)(h := None)\<rparr>)"
    using unregister_sema [OF hx] listed unfolding sel sem hv2 by auto
  have "delete_handle d h s = bindE (UnregisterHANDLE h s2) (\<lambda>s3. Inr (free_handle h s3))"
    using assms(2,4) ct by (simp add: delete_handle_def hv_Some [of s h] s2_def s1_def Let_def)
  moreover have "same_views (free_handle h (s2\<lparr>hr_semas := filter (\<lambda>g. semof s g \<noteq> hs_sem x) (hr_semas s),
      hr_open := (hr_open s)(h := None)\<rparr>)) (drop_source h x (unlist (hs_sem x) s))"
    using rf sel by (auto simp: same_views_def free_handle_def drop_source_def unlist_def rf_def fun_eq_iff)
  ultimately show ?thesis unfolding un by simp
qed

text \<open>Handles of the other kinds come and go without touching any of this.\<close>

lemma reg_ok_other:
  assumes "reg_ok s" and "hv s h = None" and "v = None \<or> (\<exists>t. v = Some (Other t))"
    and "0 < h" and "h < hr_next s'" and "hr_next s \<le> hr_next s'" and "hr_ready s \<longrightarrow> hr_ready s'"
    and "hr_handles s' = (hr_handles s)(h := v)" and "hr_open s' = (hr_open s)(h := w)"
    and "hr_counters s' = hr_counters s" and "hr_semas s' = hr_semas s" and "px_names s' = px_names s"
  shows "reg_ok s'"
proof -
  have hv: "hv s' = hv s" using assms(2,3,8) by (auto simp: hv_def fun_eq_iff)
  have rf: "rf s' = rf s" using assms(10) by (simp add: rf_def fun_eq_iff)
  have eq: "refs_to s' = refs_to s" "semof s' = semof s" using hv by (simp_all add: refs_to_def semof_def fun_eq_iff)
  have wf: "handles_wf s" using assms(1) by (simp add: reg_ok_def)
  note wfD = handles_wfD [OF wf]
  have "handles_wf s'"
    unfolding handles_wf_def
  proof (intro conjI allI impI)
    show "0 < hr_next s'" using assms(5) by simp
  next
    fix j assume "hr_handles s' j \<noteq> None"
    then show "0 < j" "j < hr_next s'"
      using wfD(2) [of j] assms(4-6,8) by (auto split: if_splits)
  next
    fix c assume "rf s' c \<noteq> None"
    then show "c < hr_next s'" using wfD(4) [of c] assms(6) rf by auto
  next
    fix j x assume j: "hv s' j = Some x"
    then have "j \<noteq> h" "hv s j = Some x" using assms(2) hv by auto
    then show "hr_open s' j \<noteq> None" "hr_ready s'" "hs_sem x < hr_next s'"
      using wfD(3) [of j x] assms(6,7,9) by auto
    show "\<exists>g y. rf s' (hs_counter x) = Some g \<and> hv s' g = Some y \<and> hs_counter y = hs_counter x"
      using wfD(5) [of j x] j unfolding hv rf by simp
  qed
  moreover have "names_ok s'"
    using assms(1,6,12) unfolding names_ok_def hv reg_ok_def by (auto intro: less_le_trans)
  ultimately show ?thesis
    using assms(1,11) unfolding reg_ok_def refs_ok_def list_ok_def hv rf eq by simp
qed

lemma new_handle_ok:
  assumes "reg_ok s" and "new_handle t made s = Inr (h, s')"
  shows "reg_ok s' \<and> (made \<longrightarrow> hr_handles s' h = Some (Other t) \<and> hr_open s' h = Some t)"
proof (cases made)
  case True
  have wf: "handles_wf s" using assms(1) by (simp add: reg_ok_def)
  have none: "hv s (hr_next s) = None"
    using handles_wfD(3) [OF wf, of "hr_next s"] by (cases "hv s (hr_next s)") auto
  have s': "h = hr_next s" "s' = s\<lparr>hr_next := h + 1, hr_handles := (hr_handles s)(h \<mapsto> Other t),
      hr_ready := True, hr_open := (hr_open s)(h \<mapsto> t)\<rparr>"
    using assms(2) True by (auto simp: new_handle_def Let_def RegisterHANDLE_def)
  have "reg_ok s'"
    by (rule reg_ok_other [OF assms(1) none, where v = "Some (Other t)" and w = "Some t"])
      (use handles_wfD(1) [OF wf] s' in simp_all)
  then show ?thesis using s' by simp
qed (use assms in \<open>auto simp: new_handle_def\<close>)

lemma word_of_nat_zero:
  assumes "of_nat n = (0 :: uint32)" and "n < 2 ^ 32"
  shows "n = 0"
proof -
  have "unat (of_nat n :: uint32) = n" using assms(2) by (simp add: unat_of_nat take_bit_nat_eq_self)
  then show ?thesis using assms(1) by simp
qed

text \<open>Closing a handle that is there does what it should, and never uses memory that is gone.\<close>

lemma CloseHandle_ok:
  assumes "reg_ok s" and "hr_next s \<le> 2 ^ 32" and "hr_handles s h \<noteq> None"
  shows "\<exists>b s'. CloseHandle d h s = Inr (b, s') \<and> reg_ok s' \<and> hr_next s' = hr_next s
    \<and> (\<forall>g. g \<noteq> h \<longrightarrow> hr_handles s' g = None \<longleftrightarrow> hr_handles s g = None)"
proof -
  have wf: "handles_wf s" and cnt: "refs_ok s" and nam: "names_ok s" using assms(1) by (auto simp: reg_ok_def)
  obtain z where z: "hr_handles s h = Some z" using assms(3) by auto
  have h: "0 < h" "h < hr_next s" using handles_wfD(2) [OF wf assms(3)] by auto
  show ?thesis
  proof (cases "isOpenHandle h s = 0")
    case True
    then show ?thesis using assms h by (auto simp: CloseHandle_def)
  next
    case reg: False
    show ?thesis
    proof (cases z)
      case (Other t)
      then have hv: "hv s h = None" using z by (simp add: hv_def)
      show ?thesis
      proof (cases "t \<in> {MSH_MUTEX, MSH_EVENT, MSH_THREAD} \<and> d h")
        case True
        define s' where "s' = free_handle h (s\<lparr>hr_open := (hr_open s)(h := None)\<rparr>)"
        have "reg_ok s'"
          by (rule reg_ok_other [OF assms(1) hv, where v = None and w = None])
            (use h in \<open>simp_all add: s'_def free_handle_def\<close>)
        moreover have "hr_ready s" using reg by (simp add: isOpenHandle_def split: if_splits)
        then have "CloseHandle d h s = Inr (True, s')"
          using True Other z h reg by (simp add: CloseHandle_def delete_handle_def UnregisterHANDLE_def s'_def)
        ultimately show ?thesis by (auto simp: s'_def free_handle_def)
      next
        case False
        define s' where "s' = free_handle h s"
        have "reg_ok s'"
          by (rule reg_ok_other [OF assms(1) hv, where v = None and w = "hr_open s h"])
            (use h in \<open>simp_all add: s'_def free_handle_def\<close>)
        moreover have "CloseHandle d h s = Inr (True, s')"
          using False Other z h reg by (auto simp: CloseHandle_def delete_handle_def s'_def)
        ultimately show ?thesis by (auto simp: s'_def free_handle_def)
      qed
    next
      case (Sema x)
      then have x: "hv s h = Some x" using z by (simp add: hv_Some)
      obtain g y where g: "rf s (hs_counter x) = Some g" "hv s g = Some y" "hs_counter y = hs_counter x"
        using handles_wfD(5) [OF wf x] by blast
      obtain ct where ct: "counter_at s (hs_counter x) = Inr ct" "ct_ref ct = g"
        using counter_at_rf [OF g(1)] by auto
      show ?thesis
      proof (cases "g \<noteq> h \<or> hs_refs x = 0")
        case False
        then show ?thesis using assms(1) z Sema ct h reg by (auto simp: CloseHandle_def)
      next
        case True
        have close: "CloseHandle d h s = bindE (delete_handle d h s) (\<lambda>s'. Inr (True, s'))"
          using True z Sema ct h reg by (simp add: CloseHandle_def)
        let ?u = "unlist (hs_sem x) s"
        have ok: "reg_ok ?u" "refs_to ?u = refs_to s" "hr_next ?u = hr_next s" "hr_handles ?u = hr_handles s"
          using reg_ok_unlist [OF assms(1)] by (simp_all add: refs_to_def fun_eq_iff) (simp_all add: unlist_def)
        show ?thesis
        proof (cases "g = h")
          case False
          obtain s' where s': "delete_handle d h s = Inr s'" "same_views s' (drop_copy h g y ?u)"
            using delete_copy [OF assms(1) x g(1) False g(2)] by blast
          have "reg_ok (drop_copy h g y ?u)"
            using reg_ok_drop_copy [OF ok(1) _ _ _ g(3) False] x g by simp
          then have "reg_ok s'" using s'(2) same_views_reg_ok by blast
          moreover have "hr_handles s' j = None \<longleftrightarrow> hr_handles s j = None" if "j \<noteq> h" for j
            using s'(2) that ok(4) g(2) by (simp add: same_views_def drop_copy_def hv_Some)
          ultimately show ?thesis using close s' ok(3) by (auto simp: same_views_def)
        next
          case src: True
          then have zero: "hs_refs x = 0" using True by simp
          have "of_nat (card (refs_to s (hs_counter x) h)) = (0 :: uint32)"
            using cnt x g(1) src zero unfolding refs_ok_def by metis
          then have "card (refs_to s (hs_counter x) h) = 0"
            using finite_refs(2) [OF wf, of "hs_counter x" h] assms(2) by (intro word_of_nat_zero) simp_all
          then have none: "refs_to s (hs_counter x) h = {}" using finite_refs(1) [OF wf] by simp
          have "h \<notin> set (hr_semas ?u)" using x by (simp add: unlist_def semof_def)
          then have "reg_ok (drop_source h x ?u)"
            using reg_ok_drop_source [OF ok(1)] x none ok(2) by simp
          moreover obtain s' where s': "delete_handle d h s = Inr s'" "same_views s' (drop_source h x ?u)"
            using delete_source [OF assms(1) x _ zero] g(1) src by blast
          ultimately have "reg_ok s'" using same_views_reg_ok by blast
          moreover have "hr_handles s' j = None \<longleftrightarrow> hr_handles s j = None" if "j \<noteq> h" for j
            using s'(2) that ok(4) by (simp add: same_views_def drop_source_def)
          ultimately show ?thesis using close s' ok(3) by (auto simp: same_views_def)
        qed
      qed
    qed
  qed
qed

section \<open>Making and opening\<close>

lemma copy_handle_ok:
  assumes "reg_ok s" and "hv s g = Some y" and "rf s (hs_counter y) = Some g"
  shows "copy_handle k (hs_counter y) n s = Inr (hr_next s, add_copy g y k n s)"
proof -
  have wf: "handles_wf s" using assms(1) by (simp add: reg_ok_def)
  have new: "hv s (hr_next s) = None" "g \<noteq> hr_next s"
    using handles_wfD(3) [OF wf, of "hr_next s"] handles_wfD(3) [OF wf assms(2)]
    by (cases "hv s (hr_next s)"; auto)+
  obtain ct where ct: "counter_at s (hs_counter y) = Inr ct" "hr_counters s (hs_counter y) = Some ct" "ct_ref ct = g"
    using counter_at_rf [OF assms(3)] by auto
  define s1 where "s1 = s\<lparr>hr_next := hr_next s + 1,
      hr_handles := (hr_handles s)(g \<mapsto> Sema (y\<lparr>hs_refs := hs_refs y + 1\<rparr>),
        hr_next s \<mapsto> Sema \<lparr>hs_name = n, hs_sem = k, hs_counter = hs_counter y, hs_refs = 0\<rparr>)\<rparr>"
  define s2 where "s2 = s1\<lparr>hr_ready := True\<rparr>"
  have hv2: "hv s2 = (hv s)(g \<mapsto> y\<lparr>hs_refs := hs_refs y + 1\<rparr>,
      hr_next s \<mapsto> \<lparr>hs_name = n, hs_sem = k, hs_counter = hs_counter y, hs_refs = 0\<rparr>)"
    by (auto simp: hv_def s2_def s1_def fun_eq_iff)
  have "\<forall>h \<in> set (hr_semas s). hv s2 h \<noteq> None \<and> h \<noteq> 0"
    using reg_ok_listed(1) [OF assms(1)] by (simp add: hv2)
  then obtain r where r: "FindSemaphoreHANDLE (Some k) (Some n) s2 (hr_semas s) = Inr r"
    "r \<noteq> 0 \<longrightarrow> r \<in> set (hr_semas s) \<and> semof s2 r = k"
    using find_by_sem [of "hr_semas s" s2 k "Some n"] by (auto split: if_splits)
  have source: "\<exists>z. sema_at s2 r = Inr z \<and> hs_sem z = k" if "r \<noteq> 0"
  proof -
    have "hv s2 r \<noteq> None" using r(2) that reg_ok_listed(1) [OF assms(1)] by (simp add: hv2)
    then show ?thesis using r(2) that by (auto simp: semof_def sema_at_Inr)
  qed
  have "RegisterHANDLE (hr_next s) s1 = Inr (s2\<lparr>hr_open := (hr_open s)(hr_next s \<mapsto> MSH_SEMAPHORE)\<rparr>)"
  proof -
    have "hr_handles s2 (hr_next s) = Some (Sema \<lparr>hs_name = n, hs_sem = k, hs_counter = hs_counter y, hs_refs = 0\<rparr>)"
      "counter_at s2 (hs_counter y) = Inr ct" "hr_semas s2 = hr_semas s" "hr_open s2 = hr_open s"
      using ct(2) by (simp_all add: s2_def s1_def counter_at_def)
    then show ?thesis
      using r(1) source new(2) ct(3) unfolding RegisterHANDLE_def s2_def [symmetric] Let_def
      by (cases "r = 0") auto
  qed
  moreover have "s2\<lparr>hr_open := (hr_open s)(hr_next s \<mapsto> MSH_SEMAPHORE)\<rparr> = add_copy g y k n s"
    by (simp add: s2_def s1_def add_copy_def)
  ultimately show ?thesis
    using ct assms(2) by (simp add: copy_handle_def Let_def sema_at_Inr s1_def)
qed

text \<open>An open gives a handle for the semaphore of that name, or 0; with 0 no listed handle is for it.\<close>

lemma OpenSemaphore_ok:
  assumes "reg_ok s"
  shows "\<exists>h s'. OpenSemaphore (Some n) s = Inr (h, s') \<and> reg_ok s'
    \<and> (if h = 0 then same_views s' s \<and> (px_names s n = None \<or>
           (\<exists>k. px_names s n = Some k \<and> (\<forall>g \<in> set (hr_semas s). semof s g \<noteq> k)))
       else h = hr_next s \<and> hr_next s' = hr_next s + 1
         \<and> (\<exists>k g y. px_names s n = Some k \<and> g \<in> set (hr_semas s) \<and> hv s g = Some y \<and> hs_name y = n
              \<and> same_views s' (add_copy g y k n s)))"
proof (cases "px_names s n")
  case None
  then show ?thesis using assms by (simp add: OpenSemaphore_def sem_open_def same_views_def)
next
  case (Some k)
  define s1 where "s1 = s\<lparr>px_opens := (px_opens s)(k := px_opens s k + 1)\<rparr>"
  have v: "same_views s1 s" by (simp add: s1_def same_views_def rf_def fun_eq_iff)
  have ok1: "reg_ok s1" using assms same_views_reg_ok [OF v] by simp
  have wf: "handles_wf s1" and nam: "names_ok s1" using ok1 by (auto simp: reg_ok_def)
  have sel: "px_names s1 = px_names s" "hr_semas s1 = hr_semas s" "hr_next s1 = hr_next s"
    using v by (simp_all add: same_views_def)
  note vv = same_views_hv [OF v]
  have listed: "\<forall>h \<in> set (hr_semas s1). hv s1 h \<noteq> None \<and> h \<noteq> 0"
    "\<forall>h \<in> set (hr_semas s1). h \<noteq> 0 \<and> (\<exists>x. hv s1 h = Some x \<and> rf s1 (hs_counter x) = Some h)"
    using reg_ok_listed(1,4) [OF ok1] by blast+
  obtain r where r: "FindSemaphoreHANDLE (Some k) None s1 (hr_semas s1) = Inr r"
    "if r = 0 then \<forall>h \<in> set (hr_semas s1). semof s1 h \<noteq> k else r \<in> set (hr_semas s1) \<and> semof s1 r = k"
    using find_by_sem [OF listed(1), of k None] by blast
  obtain q where q: "FindSemaphoreHANDLE None (Some n) s1 (hr_semas s1) = Inr q"
    "if q = 0 then \<forall>h \<in> set (hr_semas s1). \<forall>x. hv s1 h = Some x \<longrightarrow> hs_name x \<noteq> n
     else q \<in> set (hr_semas s1) \<and> (\<exists>x. hv s1 q = Some x \<and> hs_name x = n)"
    using find_by_name [OF listed(2), of n] by blast
  define org where "org = (if r \<noteq> 0 then r else q)"
  have "sem_open n s = (Some k, s1)" using Some by (simp add: sem_open_def s1_def)
  then have run: "OpenSemaphore (Some n) s =
      (if org = 0 then Inr (0, s1)
       else bindE (sema_at s1 org) (\<lambda>x. if hs_name x = n then copy_handle k (hs_counter x) n s1 else Inr (0, s1)))"
    using r(1) q(1) by (simp add: OpenSemaphore_def org_def)
  show ?thesis
  proof (cases "org = 0")
    case True
    then have "\<forall>h \<in> set (hr_semas s). semof s h \<noteq> k"
      using r(2) sel(2) vv by (auto simp: org_def split: if_splits)
    then show ?thesis using True run v ok1 Some by simp
  next
    case False
    have org: "org \<in> set (hr_semas s1)" using r(2) q(2) False by (auto simp: org_def split: if_splits)
    then obtain x where x: "hv s1 org = Some x" "rf s1 (hs_counter x) = Some org" using reg_ok_listed(4) [OF ok1] by blast
    have name: "hs_name x = n"
    proof (cases "r = 0")
      case True
      then show ?thesis using q(2) False x(1) by (auto simp: org_def)
    next
      case False
      then have "hs_sem x = k" using r(2) x(1) by (simp add: org_def semof_def)
      then show ?thesis using nam Some x(1) sel(1) unfolding names_ok_def by auto
    qed
    have "OpenSemaphore (Some n) s = Inr (hr_next s1, add_copy org x k n s1)"
      using run False x name copy_handle_ok [OF ok1 x] by (simp add: sema_at_Inr)
    moreover have "reg_ok (add_copy org x k n s1)"
      using reg_ok_add_copy [OF ok1 x] Some sel(1) by simp
    moreover have "same_views (add_copy org x k n s1) (add_copy org x k n s)"
      by (simp add: same_views_def add_copy_def s1_def rf_def fun_eq_iff)
    moreover have "hr_next s \<noteq> 0" using handles_wfD(1) [OF wf] sel(3) by simp
    moreover have "hv s org = Some x" using x(1) vv by simp
    ultimately show ?thesis using sel org Some name by (auto intro!: exI [of _ org] exI [of _ x])
  qed
qed

lemma reg_ok_new_name:
  assumes "reg_ok s" and "px_names s n = None"
  shows "reg_ok (s\<lparr>hr_next := hr_next s + 1, px_names := (px_names s)(n \<mapsto> hr_next s),
    px_opens := po, px_value := pv\<rparr>)"
proof -
  let ?s = "s\<lparr>hr_next := hr_next s + 1, px_names := (px_names s)(n \<mapsto> hr_next s), px_opens := po, px_value := pv\<rparr>"
  have v: "hv ?s = hv s" "rf ?s = rf s" by (simp_all add: hv_def rf_def fun_eq_iff)
  have e: "refs_to ?s = refs_to s" "semof ?s = semof s" using v by (simp_all add: refs_to_def semof_def fun_eq_iff)
  have wf: "handles_wf s" and nam: "names_ok s" using assms(1) by (auto simp: reg_ok_def)
  have used: "hs_sem x < hr_next s" if "hv s h = Some x" for h x using handles_wfD(3) [OF wf that] by simp
  have "handles_wf ?s"
    using wf unfolding handles_wf_def v by (auto intro: less_SucI)
  moreover have "names_ok ?s"
    using nam used less_irrefl unfolding names_ok_def v by (auto simp: less_Suc_eq split: if_splits) fastforce+
  ultimately show ?thesis
    using assms(1) unfolding reg_ok_def refs_ok_def list_ok_def v e by simp
qed

lemma source_handle_ok:
  assumes "reg_ok s" and "0 \<le> v" and "0 < m" and "\<not> refuses n"
    and "px_names s n = None \<or> (\<exists>k. px_names s n = Some k \<and> (\<forall>g \<in> set (hr_semas s). semof s g \<noteq> k))"
  shows "\<exists>h s'. source_handle refuses v m n s = Inr (h, s') \<and> reg_ok s' \<and> h \<noteq> 0 \<and> hr_next s' \<le> hr_next s + 3
    \<and> h \<in> set (hr_semas s') \<and> hr_next s \<le> h \<and> (\<exists>x. hv s' h = Some x \<and> hs_name x = n \<and> hs_refs x = 0)"
proof -
  obtain k s1 where c: "sem_create n v s = (k, s1)" by (cases "sem_create n v s")
  have s1: "reg_ok s1" "px_names s1 n = Some k" "\<forall>g \<in> set (hr_semas s1). semof s1 g \<noteq> k"
    "hr_next s \<le> hr_next s1" "hr_next s1 \<le> hr_next s + 1"
  proof -
    have wf: "handles_wf s" using assms(1) by (simp add: reg_ok_def)
    have lt: "semof s g < hr_next s" if "g \<in> set (hr_semas s)" for g
      using reg_ok_listed(1) [OF assms(1)] that handles_wfD(3) [OF wf] by (fastforce simp: semof_def)
    have "reg_ok s1 \<and> px_names s1 n = Some k \<and> (\<forall>g \<in> set (hr_semas s1). semof s1 g \<noteq> k)
        \<and> hr_next s \<le> hr_next s1 \<and> hr_next s1 \<le> hr_next s + 1"
    proof (cases "px_names s n")
      case None
      then have e: "k = hr_next s" "s1 = s\<lparr>hr_next := hr_next s + 1, px_names := (px_names s)(n \<mapsto> hr_next s),
          px_opens := (px_opens s)(hr_next s := 1), px_value := (px_value s)(hr_next s := v)\<rparr>"
        using c by (auto simp: sem_create_def sem_open_def Let_def)
      have "semof s1 = semof s" by (simp add: e(2) semof_def hv_def fun_eq_iff)
      then show ?thesis using lt reg_ok_new_name [OF assms(1) None] unfolding e(1) by (fastforce simp: e(2))
    next
      case (Some j)
      then have e: "k = j" "s1 = s\<lparr>px_opens := (px_opens s)(j := px_opens s j + 1)\<rparr>"
        using c by (auto simp: sem_create_def sem_open_def)
      have v: "same_views s1 s" by (simp add: e(2) same_views_def rf_def fun_eq_iff)
      then show ?thesis
        using Some assms(1,5) e(1) same_views_reg_ok [OF v] same_views_hv [OF v] by (auto simp: same_views_def)
    qed
    then show "reg_ok s1" "px_names s1 n = Some k" "\<forall>g \<in> set (hr_semas s1). semof s1 g \<noteq> k"
      "hr_next s \<le> hr_next s1" "hr_next s1 \<le> hr_next s + 1" by auto
  qed
  have pos: "0 < hr_next s1" using s1(1) handles_wfD(1) by (auto simp: reg_ok_def)
  have "source_handle refuses v m n s = Inr (hr_next s1, add_source k n v m s1)"
    using assms(2-4) c
    by (simp add: source_handle_def RegisterHANDLE_def counter_at_def AddSemaListEntry_def add_source_def Let_def)
  then show ?thesis
    using reg_ok_add_source [OF s1(1-3)] pos s1(4,5) by (auto simp: hv_add_source)
qed

text \<open>So a semaphore is always created, when the system does not refuse it: under the name given, in a
  state that satisfies the invariant.\<close>

lemma CreateSemaphore_ok:
  assumes "reg_ok s" and "0 \<le> v" and "\<not> refuses (case nm of None \<Rightarrow> temp | Some n \<Rightarrow> n)"
  shows "\<exists>h s'. CreateSemaphore refuses temp v nm s = Inr (h, s') \<and> reg_ok s' \<and> h \<noteq> 0
    \<and> hr_next s' \<le> hr_next s + 3 \<and> hr_next s \<le> h
    \<and> (\<exists>x. hv s' h = Some x \<and> hs_name x = (case nm of None \<Rightarrow> temp | Some n \<Rightarrow> n))"
proof -
  define n where "n = (case nm of None \<Rightarrow> temp | Some n \<Rightarrow> n)"
  obtain h s1 where o: "OpenSemaphore (Some n) s = Inr (h, s1)" "reg_ok s1"
    "if h = 0 then same_views s1 s \<and> (px_names s n = None \<or>
           (\<exists>k. px_names s n = Some k \<and> (\<forall>g \<in> set (hr_semas s). semof s g \<noteq> k)))
       else h = hr_next s \<and> hr_next s1 = hr_next s + 1
         \<and> (\<exists>k g y. px_names s n = Some k \<and> g \<in> set (hr_semas s) \<and> hv s g = Some y \<and> hs_name y = n
              \<and> same_views s1 (add_copy g y k n s))"
    using OpenSemaphore_ok [OF assms(1), of n] by blast
  show ?thesis
  proof (cases "h = 0")
    case True
    then have v: "same_views s1 s" using o(3) by simp
    have "px_names s1 n = None \<or> (\<exists>k. px_names s1 n = Some k \<and> (\<forall>g \<in> set (hr_semas s1). semof s1 g \<noteq> k))"
      using o(3) True v same_views_hv [OF v] by (simp add: same_views_def)
    then have "\<exists>h s'. source_handle refuses v 999 n s1 = Inr (h, s') \<and> reg_ok s' \<and> h \<noteq> 0 \<and> hr_next s' \<le> hr_next s1 + 3
        \<and> h \<in> set (hr_semas s') \<and> hr_next s1 \<le> h \<and> (\<exists>x. hv s' h = Some x \<and> hs_name x = n \<and> hs_refs x = 0)"
      using assms(3) by (intro source_handle_ok [OF o(2) assms(2)]) (simp_all add: n_def)
    then show ?thesis
      using o(1) True v by (auto simp: CreateSemaphore_def n_def [symmetric] same_views_def)
  next
    case False
    then obtain k g y where w: "h = hr_next s" "hr_next s1 = hr_next s + 1" "same_views s1 (add_copy g y k n s)"
      using o(3) by auto
    have "hv s1 h = Some \<lparr>hs_name = n, hs_sem = k, hs_counter = hs_counter y, hs_refs = 0\<rparr>"
      using same_views_hv [OF w(3)] w(1) by (simp add: hv_add_copy)
    then show ?thesis
      using o(1,2) False w(1,2) by (auto simp: CreateSemaphore_def n_def [symmetric])
  qed
qed

end
