(* ===== verification/HandlesClient.thy ===== *)
theory HandlesClient
  imports HandlesProperties
begin

text \<open>
  The calls a client makes, in any order, as a relation on registries, and what follows for it: no
  call uses memory that is gone, when handles are closed only while they are there; the exit handler
  returns exactly when no listed semaphore is referred to; closing a handle for a semaphore hides
  the semaphore from later calls.
\<close>

section \<open>Calls\<close>

datatype handle_call =
    Create_Call string int "string option"
  | Open_Call "string option"
  | Other_Call msh_type bool
  | Close_Call nat

fun handle_op :: "(string \<Rightarrow> bool) \<Rightarrow> (nat \<Rightarrow> bool) \<Rightarrow> handle_call \<Rightarrow> hreg \<Rightarrow> handle_error + hreg" where
  "handle_op refuses d (Create_Call temp v nm) s = bindE (CreateSemaphore refuses temp v nm s) (\<lambda>(_, s'). Inr s')"
| "handle_op refuses d (Open_Call nm) s = bindE (OpenSemaphore nm s) (\<lambda>(_, s'). Inr s')"
| "handle_op refuses d (Other_Call t made) s = bindE (new_handle t made s) (\<lambda>(_, s'). Inr s')"
| "handle_op refuses d (Close_Call h) s = bindE (CloseHandle d h s) (\<lambda>(_, s'). Inr s')"

text \<open>A client closes what is there. A count of references is 32 bits wide: no more than that many
  objects are made.\<close>

fun client_ok :: "handle_call \<Rightarrow> hreg \<Rightarrow> bool" where
  "client_ok (Close_Call h) s \<longleftrightarrow> hr_handles s h \<noteq> None"
| "client_ok _ s \<longleftrightarrow> True"

inductive reach :: "(string \<Rightarrow> bool) \<Rightarrow> (nat \<Rightarrow> bool) \<Rightarrow> hreg \<Rightarrow> bool" for refuses d where
  reach_start: "reach refuses d no_handles"
| reach_call: "reach refuses d s \<Longrightarrow> hr_next s \<le> 2 ^ 32 \<Longrightarrow> client_ok c s \<Longrightarrow> handle_op refuses d c s = Inr s' \<Longrightarrow> reach refuses d s'"

lemma new_handle_total: "\<exists>h s'. new_handle t made s = Inr (h, s') \<and> hr_next s \<le> hr_next s'"
  by (simp add: new_handle_def Let_def RegisterHANDLE_def)

lemma CreateSemaphore_total:
  assumes "reg_ok s"
  shows "CreateSemaphore refuses temp v nm s = Inl Assert_Failure \<or>
    (\<exists>h s'. CreateSemaphore refuses temp v nm s = Inr (h, s') \<and> reg_ok s' \<and> hr_next s \<le> hr_next s')"
proof -
  define n where "n = (case nm of None \<Rightarrow> temp | Some n \<Rightarrow> n)"
  obtain h s1 where o: "OpenSemaphore (Some n) s = Inr (h, s1)" "reg_ok s1"
    "if h = 0 then same_views s1 s \<and> (px_names s n = None \<or>
           (\<exists>k. px_names s n = Some k \<and> (\<forall>g \<in> set (hr_semas s). semof s g \<noteq> k)))
       else h = hr_next s \<and> hr_next s1 = hr_next s + 1
         \<and> (\<exists>k g y. px_names s n = Some k \<and> g \<in> set (hr_semas s) \<and> hv s g = Some y \<and> hs_name y = n
              \<and> same_views s1 (add_copy g y k n s))"
    using OpenSemaphore_ok [OF assms, of n] by blast
  have run: "CreateSemaphore refuses temp v nm s =
      (if h = 0 then source_handle refuses v 999 n s1 else Inr (h, s1))"
    using o(1) by (simp add: CreateSemaphore_def n_def [symmetric])
  have mono: "hr_next s \<le> hr_next s1" using o(3) by (auto simp: same_views_def split: if_splits)
  consider "h \<noteq> 0" | "h = 0" "v < 0" | "h = 0" "0 \<le> v" "refuses n" | "h = 0" "0 \<le> v" "\<not> refuses n" by linarith
  then show ?thesis
  proof cases
    case 4
    obtain h' s' where "CreateSemaphore refuses temp v nm s = Inr (h', s')" "reg_ok s'" "hr_next s \<le> h'"
      "hv s' h' \<noteq> None"
      using CreateSemaphore_ok [OF assms 4(2), where refuses = refuses and nm = nm and temp = temp] 4(3) unfolding n_def [symmetric] by auto
    then show ?thesis using handles_wfD(3) [of s'] by (force simp: reg_ok_def)
  qed (use run o(2) mono in \<open>auto simp: source_handle_def\<close>)
qed

text \<open>Every call of such a client keeps the invariant; the only failure is the assertion that the
  system makes the semaphore.\<close>

lemma handle_op_ok:
  assumes "reg_ok s" and "hr_next s \<le> 2 ^ 32" and "client_ok c s"
  shows "handle_op refuses d c s = Inl Assert_Failure \<or>
    (\<exists>s'. handle_op refuses d c s = Inr s' \<and> reg_ok s' \<and> hr_next s \<le> hr_next s')"
proof (cases c)
  case (Create_Call temp v nm)
  then show ?thesis using CreateSemaphore_total [OF assms(1), of refuses temp v nm] by auto
next
  case (Open_Call nm)
  show ?thesis
  proof (cases nm)
    case None
    then show ?thesis using Open_Call assms(1) by (simp add: OpenSemaphore_def)
  next
    case (Some n)
    then show ?thesis
      using Open_Call OpenSemaphore_ok [OF assms(1), of n] by (auto simp: same_views_def split: if_splits)
  qed
next
  case (Other_Call t made)
  then show ?thesis using new_handle_total [of t made s] new_handle_ok [OF assms(1)] by fastforce
next
  case (Close_Call h)
  then show ?thesis using CloseHandle_ok [OF assms(1,2), of h d] assms(3) by auto
qed

lemma reach_ok: "reach refuses d s \<Longrightarrow> reg_ok s"
proof (induction rule: reach.induct)
  case reach_start
  show ?case by (rule reg_ok_no_handles)
next
  case (reach_call s c s')
  then show ?case using handle_op_ok [OF reach_call.IH reach_call.hyps(2,3), of refuses d] by auto
qed

section \<open>The exit handler\<close>

lemma close_listed:
  assumes "reg_ok s" and "h \<in> set (hr_semas s)" and "hv s h = Some x" and "hs_refs x = 0" and "hr_next s \<le> 2 ^ 32"
  shows "\<exists>s'. CloseHandle d h s = Inr (True, s') \<and> reg_ok s' \<and> hr_next s' = hr_next s
    \<and> hr_semas s' = filter (\<lambda>g. g \<noteq> h) (hr_semas s) \<and> hv s' = (hv s)(h := None)"
proof -
  have x: "rf s (hs_counter x) = Some h" using reg_ok_listed(4) [OF assms(1,2)] assms(3) by auto
  have wf: "handles_wf s" using assms(1) by (simp add: reg_ok_def)
  note hx = handles_wfD(3) [OF wf assms(3)]
  obtain ct where ct: "counter_at s (hs_counter x) = Inr ct" "ct_ref ct = h" using counter_at_rf [OF x] by auto
  obtain s' where s': "delete_handle d h s = Inr s'" "same_views s' (drop_source h x (unlist (hs_sem x) s))"
    using delete_source [OF assms(1,3) x assms(4)] by blast
  have close: "CloseHandle d h s = Inr (True, s')"
    using assms(3,4) hx ct s'(1) by (simp add: CloseHandle_def hv_Some isOpenHandle_def)
  have sem: "semof s h = hs_sem x" using assms(3) by (simp add: semof_def)
  have "hr_handles s h \<noteq> None" using assms(3) by (simp add: hv_Some)
  then have "reg_ok s' \<and> hr_next s' = hr_next s"
    using CloseHandle_ok [OF assms(1,5), of h d] close by auto
  moreover have "filter (\<lambda>g. semof s g \<noteq> hs_sem x) (hr_semas s) = filter (\<lambda>g. g \<noteq> h) (hr_semas s)"
  proof (rule filter_cong [OF refl])
    fix g assume "g \<in> set (hr_semas s)"
    then show "(semof s g \<noteq> hs_sem x) = (g \<noteq> h)"
      using inj_onD [OF reg_ok_listed(3) [OF assms(1)], of g h] assms(2) sem by auto
  qed
  then have "hr_semas s' = filter (\<lambda>g. g \<noteq> h) (hr_semas s)"
    using s'(2) by (simp add: same_views_def unlist_def)
  moreover have "hv s' = (hv s)(h := None)"
    using same_views_hv [OF s'(2)] by (simp add: hv_drop_source)
  ultimately show ?thesis using close by blast
qed

text \<open>One round of the handler, at an entry of the list.\<close>

lemma free_semas_step:
  assumes "reg_ok s" and "i < length (hr_semas s)" and "hv s (hr_semas s ! i) = Some x"
  shows "free_semas d (Suc fuel) i s =
    (if 0 < hs_refs x then free_semas d fuel (if i + 1 < length (hr_semas s) then i + 1 else 0) s
     else bindE (CloseHandle d (hr_semas s ! i) s)
            (\<lambda>(_, s'). if hr_semas s' = [] then Inr (Some s') else free_semas d fuel 0 s'))"
proof -
  let ?h = "hr_semas s ! i"
  have h: "?h \<in> set (hr_semas s)" using assms(2) by simp
  have nz: "?h \<noteq> 0" using reg_ok_listed(1) [OF assms(1)] h by blast
  have "rf s (hs_counter x) = Some ?h" using reg_ok_listed(4) [OF assms(1) h] assms(3) by auto
  then obtain ct where ct: "counter_at s (hs_counter x) = Inr ct" "ct_ref ct = ?h"
    using counter_at_rf by blast
  have ne: "hr_semas s \<noteq> []" using assms(2) by auto
  show ?thesis
  proof (cases "0 < hs_refs x")
    case True
    then show ?thesis using nz ct assms(2,3) ne by (simp add: sema_at_Inr Let_def)
  next
    case False
    then show ?thesis
      using nz ct assms(3) by (cases "CloseHandle d ?h s") (auto simp: sema_at_Inr Let_def)
  qed
qed

lemma free_semas_returns:
  assumes "reg_ok s" and "hr_next s \<le> 2 ^ 32" and "hr_semas s \<noteq> []" and "length (hr_semas s) \<le> fuel"
    and "\<forall>h \<in> set (hr_semas s). \<forall>x. hv s h = Some x \<longrightarrow> hs_refs x = 0"
  shows "\<exists>s'. free_semas d fuel 0 s = Inr (Some s') \<and> reg_ok s' \<and> hr_semas s' = []"
  using assms
proof (induction fuel arbitrary: s)
  case (Suc fuel)
  obtain h hs where l: "hr_semas s = h # hs" using Suc.prems(3) by (cases "hr_semas s") auto
  obtain x where x: "hv s h = Some x" "hs_refs x = 0"
    using reg_ok_listed(4) [OF Suc.prems(1), of h] Suc.prems(5) l by auto
  have h: "h \<in> set (hr_semas s)" using l by simp
  obtain s' where s': "CloseHandle d h s = Inr (True, s')" "reg_ok s'" "hr_next s' = hr_next s"
    "hr_semas s' = filter (\<lambda>g. g \<noteq> h) (hr_semas s)" "hv s' = (hv s)(h := None)"
    using close_listed [OF Suc.prems(1) h x Suc.prems(2)] by blast
  have "h \<notin> set hs" using reg_ok_listed(2) [OF Suc.prems(1)] l by simp
  then have tl: "hr_semas s' = hs" using s'(4) l by (auto intro: filter_True)
  have step: "free_semas d (Suc fuel) 0 s = (if hs = [] then Inr (Some s') else free_semas d fuel 0 s')"
    using free_semas_step [OF Suc.prems(1), of 0 x d fuel] l x s'(1) tl by simp
  show ?case
  proof (cases "hs = []")
    case True
    then show ?thesis using step s'(2) tl by simp
  next
    case False
    have "\<forall>g \<in> set (hr_semas s'). \<forall>x. hv s' g = Some x \<longrightarrow> hs_refs x = 0"
      using Suc.prems(5) tl l s'(5) by (auto split: if_splits)
    then show ?thesis using step False Suc.IH [of s'] s'(2,3) Suc.prems(2,4) tl l by simp
  qed
qed simp

lemma free_semas_stuck:
  assumes "reg_ok s" and "hr_next s \<le> 2 ^ 32" and "i < length (hr_semas s)"
    and "h \<in> set (hr_semas s)" and "hv s h = Some x" and "hs_refs x \<noteq> 0"
  shows "free_semas d fuel i s = Inr None"
  using assms
proof (induction fuel arbitrary: s i)
  case (Suc fuel)
  let ?g = "hr_semas s ! i"
  have g: "?g \<in> set (hr_semas s)" using Suc.prems(3) by simp
  then obtain y where y: "hv s ?g = Some y" using reg_ok_listed(4) [OF Suc.prems(1)] by blast
  note step = free_semas_step [OF Suc.prems(1,3) y, of d fuel]
  show ?case
  proof (cases "hs_refs y = 0")
    case False
    then have "0 < hs_refs y" by (simp add: word_neq_0_conv)
    moreover have "free_semas d fuel (if i + 1 < length (hr_semas s) then i + 1 else 0) s = Inr None"
      using Suc.prems by (intro Suc.IH) auto
    ultimately show ?thesis unfolding step by simp
  next
    case True
    then have ne: "?g \<noteq> h" using y Suc.prems(5,6) by auto
    obtain s' where s': "CloseHandle d ?g s = Inr (True, s')" "reg_ok s'" "hr_next s' = hr_next s"
      "hr_semas s' = filter (\<lambda>j. j \<noteq> ?g) (hr_semas s)" "hv s' = (hv s)(?g := None)"
      using close_listed [OF Suc.prems(1) g y True Suc.prems(2)] by blast
    have h: "h \<in> set (hr_semas s')" using s'(4) Suc.prems(4) ne by simp
    then have "0 < length (hr_semas s')" by (cases "hr_semas s'") auto
    then have "free_semas d fuel 0 s' = Inr None"
      using s'(2,3,5) h ne Suc.prems(2,5,6) by (intro Suc.IH) auto
    then show ?thesis unfolding step using True s'(1) h by auto
  qed
qed simp

section \<open>What a client can rely on\<close>

text \<open>C33: no call uses memory that is gone, and the count of a handle that made its semaphore is the number
  of the handles that refer to it.\<close>

theorem handles_never_dangle:
  assumes "reach refuses d s" and "hr_next s \<le> 2 ^ 32" and "client_ok c s"
  shows "handle_op refuses d c s \<noteq> Inl (Use_After_Free a)
    \<and> (\<forall>h x. hv s h = Some x \<and> rf s (hs_counter x) = Some h \<longrightarrow>
         unat (hs_refs x) = card (refs_to s (hs_counter x) h))"
proof -
  have ok: "reg_ok s" by (rule reach_ok [OF assms(1)])
  have "unat (hs_refs x) = card (refs_to s (hs_counter x) h)"
    if "hv s h = Some x" "rf s (hs_counter x) = Some h" for h x
  proof -
    have "hs_refs x = of_nat (card (refs_to s (hs_counter x) h))"
      using ok that by (simp add: reg_ok_def refs_ok_def)
    moreover have "card (refs_to s (hs_counter x) h) < 2 ^ 32"
      using ok finite_refs(2) [of s "hs_counter x" h] assms(2) by (simp add: reg_ok_def)
    ultimately show ?thesis by (simp add: unat_of_nat take_bit_nat_eq_self)
  qed
  then show ?thesis using handle_op_ok [OF ok assms(2,3), of refuses d] by auto
qed

text \<open>A run: a semaphore \<open>a\<close> is created (handle 2) and opened (handle 4).\<close>

definition created :: hreg where
  "created = projr (handle_op (\<lambda>_. False) (\<lambda>_. True) (Create_Call [] 1 (Some ''a'')) no_handles)"

definition opened :: hreg where
  "opened = projr (handle_op (\<lambda>_. False) (\<lambda>_. True) (Open_Call (Some ''a'')) created)"

lemma created_run: "handle_op (\<lambda>_. False) (\<lambda>_. True) (Create_Call [] 1 (Some ''a'')) no_handles = Inr created"
  and created_views: "hr_next created = 4" "hr_semas created = [2]" "px_names created = [''a'' \<mapsto> 1]"
    "hr_handles created = [2 \<mapsto> Sema \<lparr>hs_name = ''a'', hs_sem = 1, hs_counter = 3, hs_refs = 0\<rparr>]"
    "hr_counters created = [3 \<mapsto> \<lparr>ct_cur = 1, ct_max = 999, ct_ref = 2\<rparr>]" "hr_open created = [2 \<mapsto> MSH_SEMAPHORE]"
    "hr_ready created"
  by (simp_all add: created_def no_handles_def CreateSemaphore_def OpenSemaphore_def sem_open_def source_handle_def
      sem_create_def RegisterHANDLE_def counter_at_def AddSemaListEntry_def Let_def eval_nat_numeral)

lemma opened_run: "handle_op (\<lambda>_. False) (\<lambda>_. True) (Open_Call (Some ''a'')) created = Inr opened"
  and opened_views: "hr_next opened = 5" "hr_semas opened = [2]" "px_names opened = [''a'' \<mapsto> 1]"
    "hr_handles opened = [2 \<mapsto> Sema \<lparr>hs_name = ''a'', hs_sem = 1, hs_counter = 3, hs_refs = 1\<rparr>,
                          4 \<mapsto> Sema \<lparr>hs_name = ''a'', hs_sem = 1, hs_counter = 3, hs_refs = 0\<rparr>]"
    "hr_counters opened = [3 \<mapsto> \<lparr>ct_cur = 1, ct_max = 999, ct_ref = 2\<rparr>]"
  by (simp_all add: opened_def created_views OpenSemaphore_def sem_open_def copy_handle_def sema_at_def
      RegisterHANDLE_def counter_at_def Let_def eval_nat_numeral)

lemma opened_reach: "reach (\<lambda>_. False) (\<lambda>_. True) opened"
proof -
  have "reach (\<lambda>_. False) (\<lambda>_. True) created"
    by (rule reach_call [OF reach_start _ _ created_run]) (simp_all add: no_handles_def)
  then show ?thesis by (rule reach_call [OF _ _ _ opened_run]) (simp_all add: created_views)
qed

theorem handles_never_dangle_witness:
  "handle_op (\<lambda>_. False) (\<lambda>_. True) (Close_Call 4) opened \<noteq> Inl (Use_After_Free 4)"
  using handles_never_dangle [OF opened_reach, of "Close_Call 4"] by (simp add: opened_views del: handle_op.simps)



text \<open>Closing a handle that refers to a semaphore takes the handle that made it off the list: it is
  still there, but opening its name fails, unless another listed handle has that name.\<close>

theorem copy_close_hides_source:
  assumes "reach refuses d s" and "hr_next s \<le> 2 ^ 32"
    and "hv s h = Some x" and "rf s (hs_counter x) = Some g" and "g \<noteq> h" and "hv s g = Some y"
    and "hs_sem x = hs_sem y" and "\<forall>j \<in> set (hr_semas s). j \<noteq> g \<longrightarrow> (\<forall>z. hv s j = Some z \<longrightarrow> hs_name z \<noteq> hs_name y)"
  shows "\<exists>s' s''. CloseHandle d h s = Inr (True, s') \<and> hv s' g \<noteq> None \<and> g \<notin> set (hr_semas s')
    \<and> OpenSemaphore (Some (hs_name y)) s' = Inr (0, s'')"
proof -
  note ok = reach_ok [OF assms(1)]
  have wf: "handles_wf s" using ok by (simp add: reg_ok_def)
  note hx = handles_wfD(3) [OF wf assms(3)]
  obtain ct where ct: "counter_at s (hs_counter x) = Inr ct" "ct_ref ct = g" using counter_at_rf [OF assms(4)] by auto
  obtain s' where s': "delete_handle d h s = Inr s'" "same_views s' (drop_copy h g y (unlist (hs_sem x) s))"
    using delete_copy [OF ok assms(3,4,5,6)] by blast
  have close: "CloseHandle d h s = Inr (True, s')"
    using assms(3,5) hx ct s'(1) by (simp add: CloseHandle_def hv_Some isOpenHandle_def)
  have "hr_handles s h \<noteq> None" using assms(3) by (simp add: hv_Some)
  then have ok': "reg_ok s'" using CloseHandle_ok [OF ok assms(2), of h d] close by auto
  have views: "hv s' = (hv s)(g \<mapsto> y\<lparr>hs_refs := hs_refs y - 1\<rparr>, h := None)"
    "hr_semas s' = filter (\<lambda>j. semof s j \<noteq> hs_sem x) (hr_semas s)"
    using same_views_hv [OF s'(2)] s'(2) by (simp add: hv_drop_copy) (use s'(2) in \<open>simp add: same_views_def unlist_def\<close>)
  have hidden: "g \<notin> set (hr_semas s')" using views(2) assms(6,7) by (simp add: semof_def)
  have unnamed: "hs_name z \<noteq> hs_name y" if "j \<in> set (hr_semas s')" "hv s' j = Some z" for j z
    using assms(8) that hidden views by (auto split: if_splits)
  obtain r s'' where "OpenSemaphore (Some (hs_name y)) s' = Inr (r, s'')"
    "r \<noteq> 0 \<Longrightarrow> \<exists>j z. j \<in> set (hr_semas s') \<and> hv s' j = Some z \<and> hs_name z = hs_name y"
    using OpenSemaphore_ok [OF ok', of "hs_name y"] by (auto split: if_splits)
  then have "OpenSemaphore (Some (hs_name y)) s' = Inr (0, s'')" using unnamed by (cases "r = 0") auto
  then show ?thesis using close hidden views(1) assms(5) by auto
qed

theorem copy_close_hides_source_witness:
  "\<exists>s' s''. CloseHandle (\<lambda>_. True) 4 opened = Inr (True, s') \<and> hv s' 2 \<noteq> None \<and> 2 \<notin> set (hr_semas s')
    \<and> OpenSemaphore (Some ''a'') s' = Inr (0, s'')"
proof -
  have 1: "hv opened 4 = Some \<lparr>hs_name = ''a'', hs_sem = 1, hs_counter = 3, hs_refs = 0\<rparr>"
    "hv opened 2 = Some \<lparr>hs_name = ''a'', hs_sem = 1, hs_counter = 3, hs_refs = 1\<rparr>" "rf opened 3 = Some 2"
    by (simp_all add: hv_def rf_def opened_views)
  show ?thesis
    using copy_close_hides_source [OF opened_reach _ 1(1) _ _ 1(2)] 1(3) by (simp add: opened_views)
qed

text \<open>A handle that is no longer in the list passes the check of \<open>CloseHandle\<close>, so closing it again
  uses the memory it had.\<close>

lemma closed_twice:
  assumes "hr_handles s h = None" and "h \<noteq> 0"
  shows "CloseHandle d h s = Inl (Use_After_Free h)"
  using assms by (simp add: CloseHandle_def)

lemma invalid_never_rejected: "hr_ready s \<Longrightarrow> CloseHandle d h s = Inr (False, s') \<Longrightarrow> h = 0"
  by (auto simp: CloseHandle_def isOpenHandle_def bindE_Inr_iff split: if_splits option.splits handle.splits)

text \<open>A mutex or an event that the system does not destroy, as it is in use, stays in the list of open
  handles after its memory is gone.\<close>

lemma undestroyed_stays_listed:
  assumes "hr_handles s h = Some (Other t)" and "\<not> d h" and "h \<noteq> 0" and "hr_ready s" and "hr_open s h = Some t"
  shows "\<exists>s'. CloseHandle d h s = Inr (True, s') \<and> hr_handles s' h = None \<and> isOpenHandle h s' = 1"
  using assms by (simp add: CloseHandle_def isOpenHandle_def delete_handle_def free_handle_def)

text \<open>The branch that lists a handle with a semaphore of its own is never taken: the handle it compares
  with was found by that semaphore.\<close>

lemma copies_never_listed:
  assumes "reg_ok s" and "hv s h = Some x" and "rf s (hs_counter x) = Some g" and "g \<noteq> h"
    and "RegisterHANDLE h s = Inr s'"
  shows "hr_semas s' = hr_semas s"
proof -
  let ?s1 = "s\<lparr>hr_ready := True\<rparr>"
  have v: "hv ?s1 = hv s" "rf ?s1 = rf s" by (simp_all add: hv_def rf_def fun_eq_iff)
  obtain ct where ct: "counter_at ?s1 (hs_counter x) = Inr ct" "ct_ref ct = g"
    using counter_at_rf [of ?s1 "hs_counter x" g] assms(3) v by auto
  have "\<forall>h \<in> set (hr_semas s). hv ?s1 h \<noteq> None \<and> h \<noteq> 0" using reg_ok_listed(1) [OF assms(1)] v by simp
  then obtain r where r: "FindSemaphoreHANDLE (Some (hs_sem x)) (Some (hs_name x)) ?s1 (hr_semas s) = Inr r"
    "r \<noteq> 0 \<longrightarrow> r \<in> set (hr_semas s) \<and> semof ?s1 r = hs_sem x"
    using find_by_sem [of "hr_semas s" ?s1 "hs_sem x" "Some (hs_name x)"] by (auto split: if_splits)
  have "\<exists>y. sema_at ?s1 r = Inr y \<and> hs_sem y = hs_sem x" if "r \<noteq> 0"
    using r(2) that reg_ok_listed(1) [OF assms(1)] v by (fastforce simp: semof_def sema_at_hv)
  then show ?thesis
    using assms(2,4,5) ct r(1) by (cases "r = 0") (auto simp: RegisterHANDLE_def hv_Some)
qed

end
