(* ===== verification/SharedMem.thy ===== *)
theory SharedMem
  imports Prelude "HOL-Library.AList"
begin

text \<open>
  Memory shared between processes (src/CritSectEx/msemul.cpp): a flag of the thread says whether
  blocks come from anonymous shared mappings or from the allocator, the mappings are entered in a
  list with their sizes, and what is left of them is given back when the process exits. The lock
  of the list is itself such a block, obtained with the first of them. An address is a number, not
  used twice, and \<open>NULL\<close> is 0; the system says which requests fail. Waiting for the
  locks of the lists is left out: the operations are those of one thread.
\<close>

section \<open>State\<close>

record mem_os =
  os_fails :: "nat \<Rightarrow> bool"      \<comment> \<open>whether the n-th request of memory fails\<close>
  os_unmap :: "nat \<Rightarrow> bool"      \<comment> \<open>whether the mapping at an address can be removed\<close>
  os_junk :: byte                \<comment> \<open>what memory holds that nobody has written\<close>
  os_lock_size :: nat            \<comment> \<open>the size of a lock\<close>

datatype mem_error =
    Map_Failed    \<comment> \<open>the result \<open>MAP_FAILED\<close> of \<open>mmap\<close> is written to\<close>
  | Bad_Pointer   \<comment> \<open>the allocator is given an address it has not handed out\<close>
  | Overrun       \<comment> \<open>a copy beyond the end of a block\<close>

record shmem =
  sh_heap :: "nat \<rightharpoonup> byte list"      \<comment> \<open>blocks of the allocator\<close>
  sh_maps :: "nat \<rightharpoonup> byte list"      \<comment> \<open>shared mappings\<close>
  sh_list :: "(nat \<times> nat) list"    \<comment> \<open>\<open>theMSEShMemList\<close>\<close>
  sh_count :: uint64                \<comment> \<open>\<open>mmapCount\<close>\<close>
  sh_lock :: "nat option"           \<comment> \<open>\<open>shMemCSE\<close>\<close>
  sh_active :: bool                 \<comment> \<open>the lock is being made\<close>
  sh_handle_lock :: "nat option"    \<comment> \<open>\<open>openHandleListCSE\<close>\<close>
  sh_sema_lock :: "nat option"      \<comment> \<open>\<open>semaListCSE\<close>\<close>
  sh_next :: nat
  sh_flag :: "nat \<Rightarrow> int"           \<comment> \<open>the flag of each thread\<close>

definition no_memory :: shmem where
  "no_memory = \<lparr>sh_heap = Map.empty, sh_maps = Map.empty, sh_list = [], sh_count = 0, sh_lock = None,
     sh_active = False, sh_handle_lock = None, sh_sema_lock = None, sh_next = 1, sh_flag = (\<lambda>_. 0)\<rparr>"

text \<open>What a block holds, wherever it is.\<close>

definition content :: "shmem \<Rightarrow> nat \<rightharpoonup> byte list" where
  "content s p = (case sh_heap s p of Some c \<Rightarrow> Some c | None \<Rightarrow> sh_maps s p)"

section \<open>The flag of the thread\<close>

definition MSEmul_UseSharedMemory :: "nat \<Rightarrow> int \<Rightarrow> shmem \<Rightarrow> int \<times> shmem" where
  "MSEmul_UseSharedMemory self useShared s = (sh_flag s self, s\<lparr>sh_flag := (sh_flag s)(self := useShared)\<rparr>)"

definition MSEmul_UsesSharedMemory :: "nat \<Rightarrow> shmem \<Rightarrow> int" where
  "MSEmul_UsesSharedMemory self s = sh_flag s self"

section \<open>The allocator of the library\<close>

definition calloc :: "mem_os \<Rightarrow> nat \<Rightarrow> shmem \<Rightarrow> nat \<times> shmem" where
  "calloc os N s =
     (let a = sh_next s; s' = s\<lparr>sh_next := a + 1\<rparr>
      in if os_fails os a then (0, s') else (a, s'\<lparr>sh_heap := (sh_heap s)(a \<mapsto> replicate N 0)\<rparr>))"

text \<open>A block that cannot be enlarged stays where it is.\<close>

definition realloc :: "mem_os \<Rightarrow> nat \<Rightarrow> nat \<Rightarrow> shmem \<Rightarrow> mem_error + nat \<times> shmem" where
  "realloc os p N s =
     (case sh_heap s p of
        None \<Rightarrow> Inl Bad_Pointer
      | Some c \<Rightarrow>
          let a = sh_next s; s' = s\<lparr>sh_next := a + 1\<rparr>
          in if os_fails os a then Inr (0, s')
             else Inr (a, s'\<lparr>sh_heap := ((sh_heap s)(p := None))
               (a \<mapsto> take N c @ replicate (N - length c) (os_junk os))\<rparr>))"

section \<open>Giving a block back\<close>

text \<open>The lock of the list is passed over, the lock of the list of handles is destroyed first. A
  block that is not in the list is the allocator's.\<close>

definition MSEfreeShared :: "mem_os \<Rightarrow> nat \<Rightarrow> shmem \<Rightarrow> mem_error + shmem" where
  "MSEfreeShared os ptr s =
     (if ptr \<noteq> 0 \<and> sh_lock s \<noteq> Some ptr then
        let s1 = (if sh_handle_lock s = Some ptr then s\<lparr>sh_handle_lock := None\<rparr> else s)
        in if ptr \<in> fst ` set (sh_list s1) then
             (if os_unmap os ptr
              then Inr (s1\<lparr>sh_list := AList.delete ptr (sh_list s1), sh_count := sh_count s1 - 1,
                           sh_maps := (sh_maps s1)(ptr := None)\<rparr>)
              else Inr s1)
           else if sh_heap s1 ptr = None then Inl Bad_Pointer
           else Inr (s1\<lparr>sh_heap := (sh_heap s1)(ptr := None)\<rparr>)
      else Inr s)"

section \<open>Obtaining a block\<close>

text \<open>
  A new mapping: counted, and entered in the list once there is a lock for the list. The lock is
  made by the same operation, which \<open>sh_active\<close> keeps from making another one.
\<close>

function shared_block :: "mem_os \<Rightarrow> nat \<Rightarrow> shmem \<Rightarrow> mem_error + nat \<times> shmem" where
  "shared_block os N s =
     (let a = sh_next s; s1 = s\<lparr>sh_next := a + 1\<rparr>
      in if os_fails os a \<or> N = 0 then Inl Map_Failed
         else
           let s2 = s1\<lparr>sh_maps := (sh_maps s1)(a \<mapsto> replicate N 0), sh_count := sh_count s1 + 1\<rparr>
           in bindE
                (if sh_lock s2 = None \<and> \<not> sh_active s then
                   bindE (shared_block os (os_lock_size os) (s2\<lparr>sh_active := True\<rparr>))
                     (\<lambda>(b, s3). Inr (s3\<lparr>sh_lock := (if b \<noteq> 0 then Some b else sh_lock s3), sh_active := False\<rparr>))
                 else Inr s2)
                (\<lambda>s4. Inr (a, s4\<lparr>sh_list := AList.update a N (sh_list s4)\<rparr>)))"
  by pat_completeness auto
termination by (relation "measure (\<lambda>(_, _, s). if sh_active s then 0 else 1)") (auto split: if_splits)

declare shared_block.simps [simp del]

definition MSEreallocShared ::
  "mem_os \<Rightarrow> nat \<Rightarrow> bool \<Rightarrow> nat \<Rightarrow> nat \<Rightarrow> nat \<Rightarrow> shmem \<Rightarrow> mem_error + nat \<times> shmem" where
  "MSEreallocShared os self forceShared ptr N oldN s =
     (if \<not> forceShared \<and> MSEmul_UsesSharedMemory self s = 0 then
        (if ptr \<noteq> 0 then
           bindE (realloc os ptr N s)
             (\<lambda>(p, s1). if p \<noteq> 0 \<and> N > oldN
                then Inr (p, s1\<lparr>sh_heap := (sh_heap s1)
                       (p \<mapsto> poke oldN (replicate (N - oldN) 0) (the (sh_heap s1 p)))\<rparr>)
                else Inr (p, s1))
         else Inr (calloc os N s))
      else
        bindE (shared_block os N s)
          (\<lambda>(mem, s1). if ptr \<noteq> 0 then
             (case content s1 ptr of
                None \<Rightarrow> Inl Bad_Pointer
              | Some c \<Rightarrow>
                  if length c < oldN \<or> N < oldN then Inl Overrun
                  else bindE (MSEfreeShared os ptr
                           (s1\<lparr>sh_maps := (sh_maps s1)(mem \<mapsto> poke 0 (take oldN c) (replicate N 0))\<rparr>))
                         (\<lambda>s2. Inr (mem, s2)))
           else Inr (mem, s1)))"

text \<open>A copy of a text, with its terminating zero.\<close>

definition mmstrdup :: "mem_os \<Rightarrow> nat \<Rightarrow> byte list \<Rightarrow> shmem \<Rightarrow> mem_error + nat \<times> shmem" where
  "mmstrdup os self str s =
     bindE (MSEreallocShared os self False 0 (length str + 1) 0 s)
       (\<lambda>(p, s1). if p = 0 then Inr (p, s1)
          else if sh_heap s1 p \<noteq> None then Inr (p, s1\<lparr>sh_heap := (sh_heap s1)(p \<mapsto> str @ [0])\<rparr>)
          else Inr (p, s1\<lparr>sh_maps := (sh_maps s1)(p \<mapsto> str @ [0])\<rparr>))"

section \<open>When the process exits\<close>

text \<open>
  \<open>order\<close> is the order in which the hash map gives its entries; \<open>limit\<close> is the number of entries to
  leave, 1 when there is a lock. \<open>None\<close>: the fuel is used up. The handle of the main thread, closed
  before all this, is a part of the handles.
\<close>

primrec free_loop ::
  "mem_os \<Rightarrow> ((nat \<times> nat) list \<Rightarrow> (nat \<times> nat) list) \<Rightarrow> nat \<Rightarrow> nat \<Rightarrow> shmem \<Rightarrow> mem_error + shmem option" where
  "free_loop os order limit 0 s = Inr None"
| "free_loop os order limit (Suc fuel) s =
     (if length (sh_list s) > limit then
        (case order (sh_list s) of
           [] \<Rightarrow> Inr (Some s)
         | (p, _) # rest \<Rightarrow>
             if sh_lock s = Some p then
               (case rest of
                  [] \<Rightarrow> free_loop os order limit fuel s
                | (q, _) # _ \<Rightarrow> bindE (MSEfreeShared os q s) (free_loop os order limit fuel))
             else bindE (MSEfreeShared os p s) (free_loop os order limit fuel))
      else Inr (Some s))"

definition MSEfreeAllShared ::
  "mem_os \<Rightarrow> ((nat \<times> nat) list \<Rightarrow> (nat \<times> nat) list) \<Rightarrow> nat \<Rightarrow> shmem \<Rightarrow> mem_error + shmem option" where
  "MSEfreeAllShared os order fuel s =
     bindE (case sh_sema_lock s of
              None \<Rightarrow> Inr s
            | Some p \<Rightarrow> bindE (MSEfreeShared os p s) (\<lambda>s1. Inr (s1\<lparr>sh_sema_lock := None\<rparr>)))
       (\<lambda>s2. bindE (free_loop os order (if sh_lock s2 \<noteq> None then 1 else 0) fuel s2)
          (\<lambda>r. case r of
             None \<Rightarrow> Inr None
           | Some s3 \<Rightarrow>
               (case sh_lock s3 of
                  None \<Rightarrow> Inr (Some s3)
                | Some p \<Rightarrow> bindE (MSEfreeShared os p (s3\<lparr>sh_lock := None\<rparr>)) (\<lambda>s4. Inr (Some s4)))))"

end
