(* ===== verification/SharedMemProperties.thy ===== *)
theory SharedMemProperties
  imports SharedMem "HOL-Library.Multiset"
begin

text \<open>
  What the operations on blocks give: the list names exactly the mappings and the counter their
  number, whatever is obtained and given back; a block that is enlarged holds the same bytes
  whether it comes from the allocator or from a mapping; the exit handler gives everything back,
  unless a mapping cannot be removed.
\<close>

section \<open>The invariant\<close>

definition mem_ok :: "shmem \<Rightarrow> bool" where
  "mem_ok s \<longleftrightarrow>
     distinct (map fst (sh_list s)) \<and> fst ` set (sh_list s) = dom (sh_maps s)
   \<and> sh_count s = of_nat (length (sh_list s))
   \<and> dom (sh_heap s) \<inter> dom (sh_maps s) = {}
   \<and> (\<forall>p \<in> dom (sh_heap s) \<union> dom (sh_maps s). 0 < p \<and> p < sh_next s) \<and> 0 < sh_next s
   \<and> set_option (sh_lock s) \<subseteq> dom (sh_maps s) \<and> \<not> sh_active s"

lemma mem_okD:
  assumes "mem_ok s"
  shows "distinct (map fst (sh_list s))" "fst ` set (sh_list s) = dom (sh_maps s)"
    "sh_count s = of_nat (length (sh_list s))" "dom (sh_heap s) \<inter> dom (sh_maps s) = {}"
    "p \<in> dom (sh_heap s) \<union> dom (sh_maps s) \<Longrightarrow> 0 < p \<and> p < sh_next s" "0 < sh_next s"
    "set_option (sh_lock s) \<subseteq> dom (sh_maps s)" "\<not> sh_active s"
  using assms unfolding mem_ok_def by blast+

lemma mem_ok_new: "mem_ok s \<Longrightarrow> sh_next s \<le> p \<Longrightarrow> sh_heap s p = None \<and> sh_maps s p = None"
  using mem_okD(5) [of s p] by (meson Un_iff domIff leD)

lemma mem_ok_no_memory: "mem_ok no_memory"
  by (simp add: mem_ok_def no_memory_def)

lemma length_update_new: "k \<notin> fst ` set xs \<Longrightarrow> length (AList.update k v xs) = Suc (length xs)"
  by (induction xs) auto

lemma update_new: "k \<notin> fst ` set xs \<Longrightarrow> AList.update k v xs = xs @ [(k, v)]"
  by (induction xs) auto

lemma dom_delete: "fst ` set (AList.delete k xs) = fst ` set xs - {k}"
  by (induction xs) auto

lemma length_delete_in:
  assumes "distinct (map fst xs)" and "k \<in> fst ` set xs"
  shows "length xs = Suc (length (AList.delete k xs))"
  using assms by (induction xs) (auto simp: AList.delete_id)

section \<open>The shape of a new mapping\<close>

lemma shared_block_locked:
  assumes "sh_lock s \<noteq> None \<or> sh_active s"
  shows "shared_block os N s =
    (if os_fails os (sh_next s) \<or> N = 0 then Inl Map_Failed
     else Inr (sh_next s, s\<lparr>sh_next := sh_next s + 1, sh_maps := (sh_maps s)(sh_next s \<mapsto> replicate N 0),
                 sh_count := sh_count s + 1, sh_list := AList.update (sh_next s) N (sh_list s)\<rparr>))"
  using assms by (subst shared_block.simps) (auto simp: Let_def)

lemma shared_block_first:
  assumes "sh_lock s = None" and "\<not> sh_active s"
  shows "shared_block os N s =
    (let a = sh_next s; L = os_lock_size os
     in if os_fails os a \<or> N = 0 \<or> os_fails os (a + 1) \<or> L = 0 then Inl Map_Failed
        else Inr (a, s\<lparr>sh_next := a + 2, sh_maps := (sh_maps s)(a \<mapsto> replicate N 0, a + 1 \<mapsto> replicate L 0),
                 sh_count := sh_count s + 2, sh_lock := Some (a + 1), sh_active := False,
                 sh_list := AList.update a N (AList.update (a + 1) L (sh_list s))\<rparr>))"
  using assms
  by (subst shared_block.simps) (auto simp: Let_def shared_block_locked add.assoc)

lemma shared_block_ok:
  assumes "mem_ok s" and "shared_block os N s = Inr (a, s')"
  shows "mem_ok s' \<and> a = sh_next s \<and> a \<noteq> 0 \<and> N \<noteq> 0 \<and> sh_heap s' = sh_heap s
    \<and> sh_maps s' a = Some (replicate N 0) \<and> sh_lock s' \<noteq> None \<and> sh_lock s' \<noteq> Some a
    \<and> (\<forall>p. p < a \<longrightarrow> sh_maps s' p = sh_maps s p) \<and> (\<forall>p. p < a \<longrightarrow> sh_lock s' = Some p \<longrightarrow> sh_lock s = Some p)"
proof -
  note ok = mem_okD [OF assms(1)]
  have new: "p \<notin> fst ` set (sh_list s)" "p \<notin> dom (sh_heap s)" if "sh_next s \<le> p" for p
    using mem_ok_new [OF assms(1) that] ok(2) by auto
  have lt: "q < sh_next s" if "sh_lock s = Some q" for q
    using that ok(5) [of q] ok(7) by auto
  show ?thesis
  proof (cases "sh_lock s = None")
    case True
    have e: "a = sh_next s" "N \<noteq> 0"
      "s' = s\<lparr>sh_next := a + 2, sh_maps := (sh_maps s)(a \<mapsto> replicate N 0, a + 1 \<mapsto> replicate (os_lock_size os) 0),
           sh_count := sh_count s + 2, sh_lock := Some (a + 1), sh_active := False,
           sh_list := (sh_list s @ [(a + 1, os_lock_size os)]) @ [(a, N)]\<rparr>"
      using assms(2) ok(8) True new [of "sh_next s"] new [of "sh_next s + 1"]
      by (auto simp: shared_block_first Let_def update_new split: if_splits)
    show ?thesis
      unfolding mem_ok_def e(3) using ok new [of "sh_next s"] new [of "sh_next s + 1"] e(1,2)
      by (auto simp: less_Suc_eq)
  next
    case False
    have e: "a = sh_next s" "N \<noteq> 0"
      "s' = s\<lparr>sh_next := a + 1, sh_maps := (sh_maps s)(a \<mapsto> replicate N 0),
           sh_count := sh_count s + 1, sh_list := sh_list s @ [(a, N)]\<rparr>"
      using assms(2) False new [of "sh_next s"]
      by (auto simp: shared_block_locked update_new split: if_splits)
    show ?thesis
      unfolding mem_ok_def e(3) using ok new [of "sh_next s"] e(1,2) False lt
      by (auto simp: less_Suc_eq)
  qed
qed

section \<open>Giving back and obtaining keep the invariant\<close>

text \<open>What a successful call did: it removed a mapping, or a block, or nothing.\<close>

definition drop_map :: "nat \<Rightarrow> shmem \<Rightarrow> shmem" where
  "drop_map p s = s\<lparr>sh_list := AList.delete p (sh_list s), sh_count := sh_count s - 1,
                    sh_maps := (sh_maps s)(p := None)\<rparr>"

definition drop_block :: "nat \<Rightarrow> shmem \<Rightarrow> shmem" where
  "drop_block p s = s\<lparr>sh_heap := (sh_heap s)(p := None)\<rparr>"

lemma mem_ok_drop_map:
  assumes "mem_ok s" and "p \<in> dom (sh_maps s)" and "sh_lock s \<noteq> Some p"
  shows "mem_ok (drop_map p s)"
proof -
  note ok = mem_okD [OF assms(1)]
  have p: "p \<in> fst ` set (sh_list s)" using assms(2) ok(2) by simp
  have "sh_count s - 1 = of_nat (length (AList.delete p (sh_list s)))"
    unfolding ok(3) length_delete_in [OF ok(1) p] by simp
  then show ?thesis
    using assms(1,3) unfolding mem_ok_def drop_map_def
    by (auto simp: AList.distinct_delete dom_delete)
qed

lemma mem_ok_drop_block: "mem_ok s \<Longrightarrow> mem_ok (drop_block p s)"
  unfolding mem_ok_def drop_block_def by auto

lemma mem_ok_handle_lock [simp]: "mem_ok (s\<lparr>sh_handle_lock := h\<rparr>) = mem_ok s"
  by (simp add: mem_ok_def)

lemma MSEfreeShared_cases:
  assumes "mem_ok s" and "MSEfreeShared os ptr s = Inr s'"
  obtains (nothing) "s' = s" "ptr = 0 \<or> sh_lock s = Some ptr"
  | (kept) h where "s' = s\<lparr>sh_handle_lock := h\<rparr>" "ptr \<in> dom (sh_maps s)" "\<not> os_unmap os ptr"
  | (map) h where "s' = drop_map ptr (s\<lparr>sh_handle_lock := h\<rparr>)" "ptr \<in> dom (sh_maps s)"
      "sh_lock s \<noteq> Some ptr" "os_unmap os ptr"
  | (block) h where "s' = drop_block ptr (s\<lparr>sh_handle_lock := h\<rparr>)" "ptr \<in> dom (sh_heap s)" "ptr \<notin> dom (sh_maps s)"
proof -
  define h where "h = (if sh_handle_lock s = Some ptr then None else sh_handle_lock s)"
  have s1: "(if sh_handle_lock s = Some ptr then s\<lparr>sh_handle_lock := None\<rparr> else s) = s\<lparr>sh_handle_lock := h\<rparr>"
    by (simp add: h_def)
  have keys: "fst ` set (sh_list s) = dom (sh_maps s)" by (rule mem_okD(2) [OF assms(1)])
  show thesis
  proof (cases "ptr \<noteq> 0 \<and> sh_lock s \<noteq> Some ptr")
    case False
    show thesis by (rule nothing) (use False assms(2) in \<open>auto simp: MSEfreeShared_def\<close>)
  next
    case True
    show thesis
    proof (cases "ptr \<in> dom (sh_maps s)")
      case m: True
      then have f: "MSEfreeShared os ptr s = Inr (if os_unmap os ptr then drop_map ptr (s\<lparr>sh_handle_lock := h\<rparr>)
          else s\<lparr>sh_handle_lock := h\<rparr>)"
        using True by (simp add: MSEfreeShared_def s1 Let_def drop_map_def keys)
      show thesis
        by (cases "os_unmap os ptr") (use f assms(2) m True kept map in auto)
    next
      case m: False
      then have "sh_heap s ptr \<noteq> None" "s' = drop_block ptr (s\<lparr>sh_handle_lock := h\<rparr>)"
        using assms(2) True by (auto simp: MSEfreeShared_def s1 Let_def drop_block_def keys split: if_splits)
      then show thesis using m block by blast
    qed
  qed
qed

lemma MSEfreeShared_ok:
  assumes "mem_ok s" and "MSEfreeShared os ptr s = Inr s'"
  shows "mem_ok s'" and "sh_lock s' = sh_lock s" and "sh_sema_lock s' = sh_sema_lock s"
    and "p \<noteq> ptr \<Longrightarrow> content s' p = content s p"
    and "\<lbrakk>os_unmap os ptr; ptr \<noteq> 0; sh_lock s \<noteq> Some ptr\<rbrakk> \<Longrightarrow> content s' ptr = None"
proof -
  note cases = MSEfreeShared_cases [OF assms]
  show "mem_ok s'"
    by (cases rule: cases) (auto intro: mem_ok_drop_map mem_ok_drop_block simp: assms(1) simp del: dom_fun_upd)
  show "sh_lock s' = sh_lock s" "sh_sema_lock s' = sh_sema_lock s"
    by (cases rule: cases; simp add: drop_map_def drop_block_def)+
  show "content s' p = content s p" if "p \<noteq> ptr"
    using that by (cases rule: cases) (simp_all add: drop_map_def drop_block_def content_def split: option.splits)
  show "content s' ptr = None" if "os_unmap os ptr" "ptr \<noteq> 0" "sh_lock s \<noteq> Some ptr"
    using that mem_okD(4) [OF assms(1)]
    by (cases rule: cases) (auto simp: drop_map_def drop_block_def content_def domIff disjoint_iff split: option.splits)
qed

lemma MSEfreeShared_block:
  assumes "mem_ok s" and "content s ptr \<noteq> None"
  shows "\<exists>s'. MSEfreeShared os ptr s = Inr s'"
proof -
  have "ptr \<in> fst ` set (sh_list s) \<or> sh_heap s ptr \<noteq> None"
    using assms(2) mem_okD(2) [OF assms(1)] by (auto simp: content_def split: option.splits)
  then show ?thesis by (auto simp: MSEfreeShared_def Let_def)
qed

section \<open>Enlarging a block\<close>

lemma mem_ok_write:
  "mem_ok s \<Longrightarrow> sh_maps s p \<noteq> None \<Longrightarrow> mem_ok (s\<lparr>sh_maps := (sh_maps s)(p \<mapsto> c)\<rparr>)"
  "mem_ok s \<Longrightarrow> sh_heap s p \<noteq> None \<Longrightarrow> mem_ok (s\<lparr>sh_heap := (sh_heap s)(p \<mapsto> c)\<rparr>)"
  unfolding mem_ok_def by (auto simp: insert_absorb domIff)

lemma mem_ok_new_block:
  assumes "mem_ok s"
  shows "mem_ok (s\<lparr>sh_next := sh_next s + 1, sh_heap := (sh_heap s)(sh_next s \<mapsto> c)\<rparr>)"
    and "mem_ok (s\<lparr>sh_next := sh_next s + 1\<rparr>)"
proof -
  have "sh_next s \<notin> dom (sh_maps s)" using mem_ok_new [OF assms, of "sh_next s"] by auto
  then show "mem_ok (s\<lparr>sh_next := sh_next s + 1, sh_heap := (sh_heap s)(sh_next s \<mapsto> c)\<rparr>)"
    using assms unfolding mem_ok_def by (auto simp: less_Suc_eq)
  show "mem_ok (s\<lparr>sh_next := sh_next s + 1\<rparr>)"
    using assms unfolding mem_ok_def by (auto simp: less_Suc_eq)
qed

text \<open>From the allocator: what was written stays, the rest is zero.\<close>

lemma unshared_realloc:
  assumes "mem_ok s" and "MSEmul_UsesSharedMemory self s = 0"
    and "MSEreallocShared os self False ptr N oldN s = Inr (p, s')" and "p \<noteq> 0"
    and "ptr \<noteq> 0 \<Longrightarrow> sh_heap s ptr = Some c \<and> length c = oldN" and "ptr = 0 \<Longrightarrow> c = [] \<and> oldN = 0"
    and "oldN \<le> N"
  shows "mem_ok s' \<and> content s' p = Some (c @ replicate (N - oldN) 0)
    \<and> (\<forall>q. q \<noteq> ptr \<longrightarrow> q \<noteq> p \<longrightarrow> content s' q = content s q)"
proof (cases "ptr = 0")
  case True
  then have p: "p = sh_next s"
    "s' = s\<lparr>sh_next := sh_next s + 1, sh_heap := (sh_heap s)(sh_next s \<mapsto> replicate N 0)\<rparr>"
    using assms(2-4) by (auto simp: MSEreallocShared_def calloc_def Let_def split: if_splits)
  show ?thesis unfolding p(2)
    using mem_ok_new_block(1) [OF assms(1)] True assms(6) p(1) by (simp add: content_def split: option.splits)
next
  case False
  then have c: "sh_heap s ptr = Some c" "length c = oldN" using assms(5) by auto
  define s0 where "s0 = drop_block ptr s"
  have s0: "mem_ok s0" "sh_next s0 = sh_next s"
    using mem_ok_drop_block [OF assms(1)] by (simp_all add: s0_def drop_block_def)
  have p: "p = sh_next s"
    "s' = s0\<lparr>sh_next := sh_next s0 + 1, sh_heap := (sh_heap s0)(sh_next s0 \<mapsto> c @ replicate (N - oldN) 0)\<rparr>"
    using assms(2-4,7) False c
    by (auto simp: MSEreallocShared_def realloc_def Let_def s0_def drop_block_def poke_def split: if_splits)
  show ?thesis unfolding p(2)
    using mem_ok_new_block(1) [OF s0(1)] p(1) s0(2)
    by (auto simp: content_def s0_def drop_block_def split: option.splits)
qed

text \<open>In a mapping.\<close>

lemma shared_realloc:
  assumes "mem_ok s" and "forceShared \<or> MSEmul_UsesSharedMemory self s \<noteq> 0"
    and "MSEreallocShared os self forceShared ptr N oldN s = Inr (p, s')"
    and "ptr \<noteq> 0 \<Longrightarrow> content s ptr = Some c \<and> length c = oldN" and "ptr = 0 \<Longrightarrow> c = [] \<and> oldN = 0"
  shows "mem_ok s' \<and> p \<noteq> 0 \<and> sh_maps s' p = Some (c @ replicate (N - oldN) 0)
    \<and> content s' p = Some (c @ replicate (N - oldN) 0)"
proof -
  obtain s1 where b: "shared_block os N s = Inr (p, s1)"
    and rest: "ptr = 0 \<Longrightarrow> s' = s1"
      "ptr \<noteq> 0 \<Longrightarrow> \<exists>c. content s1 ptr = Some c \<and> \<not> (length c < oldN \<or> N < oldN) \<and>
         MSEfreeShared os ptr (s1\<lparr>sh_maps := (sh_maps s1)(p \<mapsto> poke 0 (take oldN c) (replicate N 0))\<rparr>) = Inr s'"
    using assms(2,3)
    by (auto simp: MSEreallocShared_def bindE_Inr_iff split: if_splits option.splits)
  note ok = shared_block_ok [OF assms(1) b]
  have heap: "sh_heap s1 p = None" using ok mem_okD(4) [of s1] by auto
  show ?thesis
  proof (cases "ptr = 0")
    case True
    then show ?thesis using ok rest(1) assms(5) heap by (auto simp: content_def)
  next
    case False
    have c: "content s ptr = Some c" "length c = oldN" using assms(4) False by auto
    then have lt: "ptr < p" using ok mem_okD(5) [OF assms(1), of ptr] by (auto simp: content_def split: option.splits)
    then have same: "content s1 ptr = Some c" using ok c(1) by (simp add: content_def split: option.splits)
    define s2 where "s2 = s1\<lparr>sh_maps := (sh_maps s1)(p \<mapsto> c @ replicate (N - oldN) 0)\<rparr>"
    have n: "oldN \<le> N" and f: "MSEfreeShared os ptr s2 = Inr s'"
      using rest(2) False same c(2) by (auto simp: s2_def poke_def)
    have ok2: "mem_ok s2" unfolding s2_def using ok by (intro mem_ok_write) auto
    note free = MSEfreeShared_ok [OF ok2 f]
    have "content s' p = Some (c @ replicate (N - oldN) 0)"
      using free(4) [of p] lt heap by (simp add: s2_def content_def)
    moreover have "sh_heap s' p = None"
      using heap by (cases rule: MSEfreeShared_cases [OF ok2 f]) (auto simp: s2_def drop_map_def drop_block_def)
    ultimately show ?thesis using free(1) ok by (simp add: content_def)
  qed
qed

section \<open>The exit handler\<close>

definition any_order :: "((nat \<times> nat) list \<Rightarrow> (nat \<times> nat) list) \<Rightarrow> bool" where
  "any_order order \<longleftrightarrow> (\<forall>xs. mset (order xs) = mset xs)"

lemma any_orderD: "any_order order \<Longrightarrow> set (order xs) = set xs \<and> length (order xs) = length xs"
  unfolding any_order_def by (metis set_mset_mset size_mset)

text \<open>One entry less with each round, as the entry taken is never the lock.\<close>

lemma free_loop_removes:
  assumes "mem_ok s" and "\<And>p. os_unmap os p" and "any_order order"
    and "limit = (if sh_lock s = None then 0 else 1)" and "length (sh_list s) \<le> fuel + limit"
  shows "\<exists>s'. free_loop os order limit (Suc fuel) s = Inr (Some s') \<and> mem_ok s' \<and> length (sh_list s') \<le> limit
    \<and> sh_lock s' = sh_lock s"
  using assms
proof (induction fuel arbitrary: s)
  case 0
  then show ?case by simp
next
  case (Suc fuel)
  show ?case
  proof (cases "length (sh_list s) > limit")
    case False
    then show ?thesis using Suc.prems by auto
  next
    case True
    note ok = mem_okD [OF Suc.prems(1)]
    note ord = any_orderD [OF Suc.prems(3), of "sh_list s"]
    have dist: "distinct (map fst (order (sh_list s)))"
      using ok(1) Suc.prems(3) unfolding any_order_def
      by (metis mset_map mset_eq_imp_distinct_iff)
    obtain p n rest where o: "order (sh_list s) = (p, n) # rest"
      using ord True by (cases "order (sh_list s)") auto
    have "\<exists>q. q \<in> dom (sh_maps s) \<and> sh_lock s \<noteq> Some q
        \<and> free_loop os order limit (Suc (Suc fuel)) s = bindE (MSEfreeShared os q s) (free_loop os order limit (Suc fuel))"
    proof (cases "sh_lock s = Some p")
      case False
      have "p \<in> dom (sh_maps s)" using ok(2) ord o by (metis fst_conv image_eqI list.set_intros(1))
      then show ?thesis using False True o by (intro exI [of _ p]) simp
    next
      case lock: True
      then have "length (order (sh_list s)) > 1" using True Suc.prems(4) ord by simp
      then obtain q m rest' where r: "rest = (q, m) # rest'" using o by (cases rest) auto
      have "(q, m) \<in> set (sh_list s)" using ord o r by (metis list.set_intros)
      then have "q \<in> dom (sh_maps s)" using ok(2) by (metis fst_conv image_eqI)
      moreover have "q \<noteq> p" using dist o r by auto
      ultimately show ?thesis using lock True o r by (intro exI [of _ q]) simp
    qed
    then obtain q where q: "q \<in> dom (sh_maps s)" "sh_lock s \<noteq> Some q"
      and step: "free_loop os order limit (Suc (Suc fuel)) s = bindE (MSEfreeShared os q s) (free_loop os order limit (Suc fuel))"
      by blast
    have "content s q \<noteq> None" using q(1) by (auto simp: content_def split: option.splits)
    then obtain s1 where f: "MSEfreeShared os q s = Inr s1"
      using MSEfreeShared_block [OF Suc.prems(1)] by blast
    have "q \<notin> dom (sh_heap s)" "q \<noteq> 0" using q(1) ok(4) ok(5) [of q] by auto
    then have len: "length (sh_list s) = Suc (length (sh_list s1))"
      using q ok(2) Suc.prems(2) length_delete_in [OF ok(1)]
      by (cases rule: MSEfreeShared_cases [OF Suc.prems(1) f]) (auto simp: drop_map_def)
    note free = MSEfreeShared_ok [OF Suc.prems(1) f]
    have "\<exists>s'. free_loop os order limit (Suc fuel) s1 = Inr (Some s') \<and> mem_ok s' \<and> length (sh_list s') \<le> limit
        \<and> sh_lock s' = sh_lock s1"
      using Suc.prems(2-5) free(1,2) len by (intro Suc.IH) auto
    then show ?thesis unfolding step f using free(2) by auto
  qed
qed

text \<open>A mapping that the system does not take back keeps the handler running: the removal is tried
  for ever.\<close>

lemma free_loop_stuck:
  assumes "\<not> os_unmap os p" and "sh_list s = [(p, n)]" and "sh_lock s = None" and "p \<noteq> 0"
    and "any_order order"
  shows "free_loop os order 0 fuel s = Inr None"
  using assms(2,3)
proof (induction fuel arbitrary: s)
  case (Suc fuel)
  have o: "order [(p, n)] = [(p, n)]"
    using assms(5) unfolding any_order_def by (metis mset_single_iff_right mset.simps mset_single_iff)
  define s1 where "s1 = (if sh_handle_lock s = Some p then s\<lparr>sh_handle_lock := None\<rparr> else s)"
  have "MSEfreeShared os p s = Inr s1"
    using Suc.prems assms(1,4) by (simp add: MSEfreeShared_def Let_def s1_def)
  moreover have "sh_list s1 = [(p, n)]" "sh_lock s1 = None" using Suc.prems by (auto simp: s1_def)
  ultimately show ?case using Suc o by simp
qed simp

lemma mem_ok_unlocked: "mem_ok s \<Longrightarrow> mem_ok (s\<lparr>sh_lock := None\<rparr>)" "mem_ok (s\<lparr>sh_sema_lock := h\<rparr>) = mem_ok s"
  by (simp_all add: mem_ok_def)

section \<open>What the operations give\<close>

text \<open>The handler gives everything back, within one round for each entry of the list and one more,
  in whatever order the map gives its entries.\<close>

theorem shared_memory_released:
  assumes "mem_ok s" and "\<And>p. os_unmap os p" and "any_order order"
    and "\<And>p. sh_sema_lock s = Some p \<Longrightarrow> content s p \<noteq> None \<and> sh_lock s \<noteq> Some p"
  shows "\<exists>s'. MSEfreeAllShared os order (length (sh_list s) + 1) s = Inr (Some s') \<and> mem_ok s'
    \<and> sh_list s' = [] \<and> sh_count s' = 0 \<and> sh_maps s' = Map.empty \<and> sh_lock s' = None"
proof -
  obtain s2 where s2: "(case sh_sema_lock s of None \<Rightarrow> Inr s
      | Some p \<Rightarrow> bindE (MSEfreeShared os p s) (\<lambda>s1. Inr (s1\<lparr>sh_sema_lock := None\<rparr>))) = Inr s2"
    "mem_ok s2" "sh_lock s2 = sh_lock s" "length (sh_list s2) \<le> length (sh_list s)"
  proof (cases "sh_sema_lock s")
    case None
    then show thesis using that [of s] assms(1) by simp
  next
    case (Some p)
    then obtain s1 where f: "MSEfreeShared os p s = Inr s1"
      using MSEfreeShared_block [OF assms(1)] assms(4) by blast
    have "length (sh_list s1) \<le> length (sh_list s)"
      by (cases rule: MSEfreeShared_cases [OF assms(1) f])
        (auto simp: drop_map_def drop_block_def AList.length_delete_le)
    then show thesis
      using that [of "s1\<lparr>sh_sema_lock := None\<rparr>"] MSEfreeShared_ok(1,2) [OF assms(1) f] Some f
      by (simp add: mem_ok_unlocked)
  qed
  define limit :: nat where "limit = (if sh_lock s2 = None then 0 else 1)"
  have "\<exists>s'. free_loop os order limit (Suc (length (sh_list s))) s2 = Inr (Some s') \<and> mem_ok s'
      \<and> length (sh_list s') \<le> limit \<and> sh_lock s' = sh_lock s2"
    using assms(2,3) s2(2,4) limit_def by (intro free_loop_removes) auto
  then obtain s3 where s3: "free_loop os order limit (Suc (length (sh_list s))) s2 = Inr (Some s3)"
    "mem_ok s3" "length (sh_list s3) \<le> limit" "sh_lock s3 = sh_lock s2" by blast
  have lim: "(if sh_lock s2 \<noteq> None then 1 else 0) = limit" by (simp add: limit_def)
  have run: "MSEfreeAllShared os order (length (sh_list s) + 1) s =
      (case sh_lock s3 of None \<Rightarrow> Inr (Some s3)
       | Some p \<Rightarrow> bindE (MSEfreeShared os p (s3\<lparr>sh_lock := None\<rparr>)) (\<lambda>s4. Inr (Some s4)))"
    unfolding MSEfreeAllShared_def s2(1) bindE.simps lim Suc_eq_plus1 [symmetric] s3(1) by simp
  have gone: "sh_count s' = 0 \<and> sh_maps s' = Map.empty" if "mem_ok s'" "sh_list s' = []" for s'
    using mem_okD(2,3) [OF that(1)] that(2) by (auto simp flip: dom_eq_empty_conv)
  show ?thesis
  proof (cases "sh_lock s3")
    case None
    then show ?thesis using run s3 limit_def gone [OF s3(2)] by simp
  next
    case (Some p)
    let ?u = "s3\<lparr>sh_lock := None\<rparr>"
    have u: "mem_ok ?u" by (rule mem_ok_unlocked(1) [OF s3(2)])
    have p: "p \<in> dom (sh_maps s3)" using mem_okD(7) [OF s3(2)] Some by simp
    then have "content ?u p \<noteq> None" by (auto simp: content_def split: option.splits)
    then obtain s4 where f: "MSEfreeShared os p ?u = Inr s4" using MSEfreeShared_block [OF u] by blast
    have keys: "p \<in> fst ` set (sh_list s3)" and heap: "p \<notin> dom (sh_heap s3)" and nz: "p \<noteq> 0"
      using p mem_okD(2,4) [OF s3(2)] mem_okD(5) [OF s3(2), of p] by auto
    have "sh_list s4 = AList.delete p (sh_list s3)"
      using p heap nz assms(2)
      by (cases rule: MSEfreeShared_cases [OF u f]) (auto simp: drop_map_def drop_block_def)
    moreover have "length (sh_list s3) \<le> 1" using s3(3) limit_def by (simp split: if_splits)
    ultimately have "sh_list s4 = []"
      using length_delete_in [OF mem_okD(1) [OF s3(2)] keys] by simp
    then show ?thesis
      using run Some f gone MSEfreeShared_ok(1,2) [OF u f] by simp
  qed
qed

definition sample_os :: mem_os where
  "sample_os = \<lparr>os_fails = (\<lambda>_. False), os_unmap = (\<lambda>_. True), os_junk = 7, os_lock_size = 1\<rparr>"

definition sample_mem :: shmem where
  "sample_mem = \<lparr>sh_heap = [3 \<mapsto> [5, 6]], sh_maps = [1 \<mapsto> [8, 9], 2 \<mapsto> [0]], sh_list = [(2, 1), (1, 2)],
     sh_count = 2, sh_lock = Some 2, sh_active = False, sh_handle_lock = None, sh_sema_lock = Some 1,
     sh_next = 4, sh_flag = (\<lambda>_. 0)\<rparr>"

lemma sample_mem_ok: "mem_ok sample_mem"
  by (auto simp: mem_ok_def sample_mem_def split: if_splits)

theorem shared_memory_released_witness:
  "\<exists>s'. MSEfreeAllShared sample_os rev 3 sample_mem = Inr (Some s') \<and> sh_maps s' = Map.empty"
proof -
  have "content sample_mem p \<noteq> None \<and> sh_lock sample_mem \<noteq> Some p" if "sh_sema_lock sample_mem = Some p" for p
    using that by (auto simp: content_def sample_mem_def)
  moreover have "os_unmap sample_os p" for p by (simp add: sample_os_def)
  moreover have "any_order rev" by (simp add: any_order_def)
  moreover have "length (sh_list sample_mem) + 1 = 3" by (simp add: sample_mem_def)
  ultimately show ?thesis
    using shared_memory_released [OF sample_mem_ok, of sample_os rev] by metis
qed

text \<open>A block is enlarged to the same bytes in shared memory and by the allocator.\<close>

theorem shared_and_unshared_agree:
  assumes "mem_ok s" and "MSEmul_UsesSharedMemory self s = 0"
    and "ptr \<noteq> 0 \<Longrightarrow> sh_heap s ptr = Some c \<and> length c = oldN" and "ptr = 0 \<Longrightarrow> c = [] \<and> oldN = 0"
    and "oldN \<le> N" and "p \<noteq> 0"
    and "MSEreallocShared os self False ptr N oldN s = Inr (p, s1)"
    and "MSEreallocShared os self True ptr N oldN s = Inr (q, s2)"
  shows "content s1 p = Some (c @ replicate (N - oldN) 0) \<and> content s2 q = content s1 p
    \<and> mem_ok s1 \<and> mem_ok s2 \<and> q \<in> fst ` set (sh_list s2)"
proof -
  note u = unshared_realloc [OF assms(1,2,7,6,3,4,5)]
  have "content s ptr = Some c \<and> length c = oldN" if "ptr \<noteq> 0"
    using assms(3) that by (simp add: content_def)
  note v = shared_realloc [OF assms(1) _ assms(8) this assms(4)]
  have "q \<in> fst ` set (sh_list s2)" using v mem_okD(2) [of s2] by auto
  then show ?thesis using u v by simp
qed

theorem shared_and_unshared_agree_witness:
  "\<exists>s1 s2. MSEreallocShared sample_os 0 False 3 4 2 sample_mem = Inr (4, s1)
     \<and> MSEreallocShared sample_os 0 True 3 4 2 sample_mem = Inr (4, s2)
     \<and> content s1 4 = Some [5, 6, 0, 0] \<and> content s2 4 = content s1 4"
proof -
  define s1 s2 where
    "s1 = snd (projr (MSEreallocShared sample_os 0 False 3 4 2 sample_mem))" and
    "s2 = snd (projr (MSEreallocShared sample_os 0 True 3 4 2 sample_mem))"
  have 1: "MSEreallocShared sample_os 0 False 3 4 2 sample_mem = Inr (4, s1)"
    by (simp add: s1_def MSEreallocShared_def MSEmul_UsesSharedMemory_def realloc_def sample_mem_def sample_os_def)
  have 2: "MSEreallocShared sample_os 0 True 3 4 2 sample_mem = Inr (4, s2)"
    by (simp add: s2_def MSEreallocShared_def sample_mem_def sample_os_def shared_block_locked content_def
        MSEfreeShared_def)
  have 3: "sh_heap sample_mem 3 = Some [5, 6]" "MSEmul_UsesSharedMemory 0 sample_mem = 0"
    by (simp_all add: sample_mem_def MSEmul_UsesSharedMemory_def)
  show ?thesis
    using 1 2 3 shared_and_unshared_agree [OF sample_mem_ok 3(2) _ _ _ _ 1 2, of "[5, 6]"] by (auto simp: eval_nat_numeral)
qed

text \<open>But only enlarged: the copy into a smaller mapping runs over its end, where the allocator cuts
  the block off.\<close>

lemma shared_shrink_overruns:
  assumes "mem_ok s" and "sh_heap s ptr = Some c" and "ptr \<noteq> 0" and "N < length c"
    and "shared_block os N s = Inr (mem, s1)"
  shows "MSEreallocShared os self True ptr N (length c) s = Inl Overrun"
  using assms shared_block_ok [OF assms(1,5)]
  by (auto simp: MSEreallocShared_def content_def)

text \<open>And only under the flag it was obtained with: with the flag taken back, a mapping is given to
  the allocator's \<open>realloc\<close>.\<close>

lemma flag_cleared_realloc:
  assumes "mem_ok s" and "ptr \<in> dom (sh_maps s)" and "ptr \<noteq> 0"
  shows "MSEreallocShared os self False ptr N oldN (snd (MSEmul_UseSharedMemory self 0 s)) = Inl Bad_Pointer"
  using assms mem_okD(4) [OF assms(1)]
  by (auto simp: MSEreallocShared_def MSEmul_UseSharedMemory_def MSEmul_UsesSharedMemory_def realloc_def
      split: option.splits)

text \<open>Without a mapping from the system, the address \<open>MAP_FAILED\<close> is not told from a block.\<close>

lemma failed_mapping_used:
  "os_fails os (sh_next s) \<Longrightarrow> MSEreallocShared os self True ptr N oldN s = Inl Map_Failed"
  by (simp add: MSEreallocShared_def shared_block.simps [of os N s] Let_def)

text \<open>A text is copied with its end, in either kind of memory.\<close>

lemma mmstrdup_copies:
  assumes "mem_ok s" and "mmstrdup os self str s = Inr (p, s')" and "p \<noteq> 0"
  shows "content s' p = Some (str @ [0]) \<and> mem_ok s'"
proof -
  obtain s1 where r: "MSEreallocShared os self False 0 (length str + 1) 0 s = Inr (p, s1)"
    and s': "s' = (if sh_heap s1 p \<noteq> None then s1\<lparr>sh_heap := (sh_heap s1)(p \<mapsto> str @ [0])\<rparr>
                   else s1\<lparr>sh_maps := (sh_maps s1)(p \<mapsto> str @ [0])\<rparr>)"
    using assms(2,3)
    by (cases "MSEreallocShared os self False 0 (length str + 1) 0 s") (auto simp: mmstrdup_def split: if_splits)
  have "mem_ok s1 \<and> content s1 p \<noteq> None"
  proof (cases "MSEmul_UsesSharedMemory self s = 0")
    case True
    then show ?thesis using unshared_realloc [OF assms(1) True r assms(3), of "[]"] by simp
  next
    case False
    then show ?thesis using shared_realloc [OF assms(1) _ r, of "[]"] by simp
  qed
  then show ?thesis unfolding s' by (auto simp: content_def mem_ok_write split: option.splits)
qed

end
