(* ===== verification/TimedWait.thy ===== *)
theory TimedWait
  imports MsThreads
begin

text \<open>
  \<open>WaitForSingleObject\<close> (src/CritSectEx/msemul.cpp), with a limit and without one, on macOS, where a
  semaphore and a mutex have no timed wait: an alarm is set that is to interrupt them. The object is
  the one at the time the wait ends, and \<open>None\<close> is a call that does not return. The race of an event
  with its signal is a matter of \<open>EventRace\<close>.
\<close>

section \<open>The limit as a time\<close>

function normalise_time :: "int \<Rightarrow> int \<Rightarrow> int \<times> int" where
  "normalise_time tv_sec tv_nsec =
     (if 999999999 < tv_nsec then normalise_time (tv_sec + 1) (tv_nsec - 1000000000) else (tv_sec, tv_nsec))"
  by pat_completeness auto
termination by (relation "measure (\<lambda>(_, n). nat n)") auto

declare normalise_time.simps [simp del]

definition wait_deadline :: "int \<Rightarrow> int \<Rightarrow> DWORD \<Rightarrow> int \<times> int" where
  "wait_deadline tv_sec tv_usec dwMilliseconds =
     (let sec = uint (dwMilliseconds div 1000)
      in normalise_time (tv_sec + sec) (tv_usec * 1000 + (uint dwMilliseconds - sec * 1000) * 1000000))"

text \<open>The value of the timer of the process; a timer of 0 is none.\<close>

definition wait_timer :: "DWORD \<Rightarrow> int \<times> int" where
  "wait_timer dwMilliseconds =
     (let sec = uint (dwMilliseconds div 1000) in (sec, (uint dwMilliseconds - sec * 1000) * 1000))"

definition timer_runs :: "DWORD \<Rightarrow> bool" where
  "timer_runs dwMilliseconds \<longleftrightarrow> wait_timer dwMilliseconds \<noteq> (0, 0)"

section \<open>Waiting with a limit\<close>

datatype wait_errno = EINTR | EDEADLK | ETIMEDOUT | Other_errno

text \<open>
  What the system does: whether the handler of the alarm is installed, the error of the call that
  waits (\<open>None\<close>: it works, or goes on), and the value \<open>errno\<close> has, which the calls of the thread
  library do not set.
\<close>

record wait_env =
  we_sigaction :: bool
  we_error :: "wait_errno option"
  we_errno :: wait_errno
  we_lock :: bool          \<comment> \<open>the mutex of an event can be locked\<close>
  we_woken :: bool         \<comment> \<open>the condition of an event is signalled before the limit\<close>

definition timed_wait_semaphore ::
  "wait_env \<Rightarrow> nat \<Rightarrow> DWORD \<Rightarrow> msemaphore \<Rightarrow> (wait_result \<times> msemaphore) option" where
  "timed_wait_semaphore env self dwMilliseconds s =
     (if \<not> we_sigaction env then Some (WAIT_FAILED, s)
      else case we_error env of
          Some e \<Rightarrow> Some (if e = EINTR then WAIT_TIMEOUT else WAIT_FAILED, s)
        | None \<Rightarrow>
            (case wait_semaphore self s of
               Some s' \<Rightarrow> Some (WAIT_OBJECT_0, s')
             | None \<Rightarrow> if timer_runs dwMilliseconds then Some (WAIT_TIMEOUT, s) else None))"

text \<open>\<open>pthread_mutex_lock\<close> is not interrupted by the alarm, and its error is looked for in \<open>errno\<close>.\<close>

definition timed_wait_mutex ::
  "wait_env \<Rightarrow> nat \<Rightarrow> DWORD \<Rightarrow> nat option \<Rightarrow> (wait_result \<times> nat option) option" where
  "timed_wait_mutex env self dwMilliseconds m =
     (if \<not> we_sigaction env then Some (WAIT_FAILED, m)
      else case we_error env of
          Some _ \<Rightarrow> Some (case we_errno env of EINTR \<Rightarrow> WAIT_TIMEOUT | EDEADLK \<Rightarrow> WAIT_ABANDONED | _ \<Rightarrow> WAIT_FAILED, m)
        | None \<Rightarrow> map_option (\<lambda>m'. (WAIT_OBJECT_0, m')) (wait_mutex self m))"

text \<open>A wait for an event ends with the condition or the limit; a signal that was given is not looked
  for again.\<close>

definition timed_wait_event :: "wait_env \<Rightarrow> msevent \<Rightarrow> (wait_result \<times> msevent) option" where
  "timed_wait_event env ev =
     (if isSignalled ev \<noteq> 0 then Some (WAIT_OBJECT_0, consume_event ev)
      else if \<not> we_lock env then
        Some (case we_errno env of EINTR \<Rightarrow> WAIT_TIMEOUT | EDEADLK \<Rightarrow> WAIT_ABANDONED | _ \<Rightarrow> WAIT_FAILED, ev)
      else case we_error env of
          Some e \<Rightarrow> Some (case e of ETIMEDOUT \<Rightarrow> WAIT_TIMEOUT | EDEADLK \<Rightarrow> WAIT_ABANDONED | _ \<Rightarrow> WAIT_FAILED, ev)
        | None \<Rightarrow> Some (if we_woken env then (WAIT_OBJECT_0, consume_event ev) else (WAIT_TIMEOUT, ev)))"

section \<open>Waiting without one\<close>

definition endless_wait_semaphore :: "wait_env \<Rightarrow> nat \<Rightarrow> msemaphore \<Rightarrow> (wait_result \<times> msemaphore) option" where
  "endless_wait_semaphore env self s =
     (if we_error env \<noteq> None then Some (WAIT_FAILED, s)
      else map_option (\<lambda>s'. (WAIT_OBJECT_0, s')) (wait_semaphore self s))"

definition endless_wait_mutex :: "wait_env \<Rightarrow> nat \<Rightarrow> nat option \<Rightarrow> (wait_result \<times> nat option) option" where
  "endless_wait_mutex env self m =
     (if we_error env \<noteq> None then
        Some (case we_errno env of ETIMEDOUT \<Rightarrow> WAIT_TIMEOUT | EDEADLK \<Rightarrow> WAIT_ABANDONED | _ \<Rightarrow> WAIT_FAILED, m)
      else map_option (\<lambda>m'. (WAIT_OBJECT_0, m')) (wait_mutex self m))"

definition endless_wait_event :: "wait_env \<Rightarrow> msevent \<Rightarrow> (wait_result \<times> msevent) option" where
  "endless_wait_event env ev =
     (if isSignalled ev \<noteq> 0 then Some (WAIT_OBJECT_0, consume_event ev)
      else if \<not> we_lock env \<or> we_error env \<noteq> None then Some (WAIT_FAILED, ev)
      else if we_woken env then Some (WAIT_OBJECT_0, consume_event ev)
      else None)"

section \<open>The call\<close>

datatype waitable =
    W_semaphore msemaphore
  | W_mutex "nat option"
  | W_event msevent
  | W_thread mshthread
  | W_none

definition WaitForSingleObject ::
  "wait_env \<Rightarrow> nat \<Rightarrow> waitable option \<Rightarrow> DWORD \<Rightarrow> (wait_result \<times> waitable option) option" where
  "WaitForSingleObject env self hHandle dwMilliseconds =
     (case hHandle of
        None \<Rightarrow> Some (WAIT_FAILED, None)
      | Some h \<Rightarrow>
          map_option (\<lambda>(r, h'). (r, Some h'))
            (if dwMilliseconds \<noteq> - 1 then
               (case h of
                  W_semaphore s \<Rightarrow> map_option (map_prod id W_semaphore) (timed_wait_semaphore env self dwMilliseconds s)
                | W_mutex m \<Rightarrow> map_option (map_prod id W_mutex) (timed_wait_mutex env self dwMilliseconds m)
                | W_event ev \<Rightarrow> map_option (map_prod id W_event) (timed_wait_event env ev)
                | W_thread t \<Rightarrow> map_option (map_prod id W_thread) (WaitForThread True t)
                | W_none \<Rightarrow> Some (WAIT_FAILED, h))
             else
               (case h of
                  W_semaphore s \<Rightarrow> map_option (map_prod id W_semaphore) (endless_wait_semaphore env self s)
                | W_mutex m \<Rightarrow> map_option (map_prod id W_mutex) (endless_wait_mutex env self m)
                | W_event ev \<Rightarrow> map_option (map_prod id W_event) (endless_wait_event env ev)
                | W_thread t \<Rightarrow> map_option (map_prod id W_thread) (WaitForThread False t)
                | W_none \<Rightarrow> Some (WAIT_FAILED, h))))"

section \<open>What the calls give\<close>

text \<open>The deadline and the timer are the limit, to the nanosecond, in the ranges the system wants.\<close>

lemma normalise_time_exact:
  assumes "0 \<le> n"
  shows "0 \<le> snd (normalise_time s n) \<and> snd (normalise_time s n) < 1000000000
    \<and> fst (normalise_time s n) * 1000000000 + snd (normalise_time s n) = s * 1000000000 + n"
  using assms
proof (induction s n rule: normalise_time.induct)
  case (1 s n)
  show ?case
  proof (cases "999999999 < n")
    case True
    then show ?thesis using 1 by (simp add: normalise_time.simps [of s n] algebra_simps)
  next
    case False
    then show ?thesis using "1.prems" by (simp add: normalise_time.simps [of s n])
  qed
qed

lemma seconds_part:
  "0 \<le> uint (dw :: DWORD) - uint (dw div 1000) * 1000" "uint (dw :: DWORD) - uint (dw div 1000) * 1000 < 1000"
proof -
  have "uint (dw div 1000) = uint dw div 1000" by (simp add: uint_div)
  then show "0 \<le> uint dw - uint (dw div 1000) * 1000" "uint dw - uint (dw div 1000) * 1000 < 1000"
    by (simp_all add: minus_div_mult_eq_mod)
qed

theorem wait_deadline_exact:
  assumes "0 \<le> tv_usec" and "tv_usec < 1000000"
  shows "0 \<le> snd (wait_deadline tv_sec tv_usec dw) \<and> snd (wait_deadline tv_sec tv_usec dw) < 1000000000
    \<and> fst (wait_deadline tv_sec tv_usec dw) * 1000000000 + snd (wait_deadline tv_sec tv_usec dw)
        = tv_sec * 1000000000 + tv_usec * 1000 + uint dw * 1000000"
proof -
  define q where "q = uint (dw div 1000)"
  have "0 \<le> tv_usec * 1000 + (uint dw - q * 1000) * 1000000"
    using seconds_part(1) [of dw] assms(1) by (simp add: q_def)
  from normalise_time_exact [OF this, of "tv_sec + q"] show ?thesis
    unfolding wait_deadline_def Let_def q_def [symmetric] by (auto simp: algebra_simps)
qed

lemma wait_timer_exact:
  "fst (wait_timer dw) * 1000000 + snd (wait_timer dw) = uint dw * 1000
    \<and> 0 \<le> snd (wait_timer dw) \<and> snd (wait_timer dw) < 1000000"
  using seconds_part [of dw] by (auto simp: wait_timer_def Let_def)

text \<open>So a limit of 0 sets no timer at all.\<close>

lemma timer_runs_iff: "timer_runs dw \<longleftrightarrow> dw \<noteq> 0"
proof -
  have "wait_timer dw = (0, 0) \<longleftrightarrow> uint dw = 0"
    using wait_timer_exact [of dw] seconds_part [of dw] by (auto simp: wait_timer_def Let_def)
  then show ?thesis by (auto simp: timer_runs_def uint_0_iff)
qed

text \<open>A wait that does not end with \<open>WAIT_OBJECT_0\<close> leaves the object as it was, but for a thread.\<close>

theorem failed_wait_changes_nothing:
  assumes "WaitForSingleObject env self hHandle dw = Some (r, h')" and "r \<noteq> WAIT_OBJECT_0"
    and "\<And>t. hHandle \<noteq> Some (W_thread t)"
  shows "h' = hHandle"
proof (cases hHandle)
  case None
  then show ?thesis using assms by (simp add: WaitForSingleObject_def)
next
  case (Some h)
  show ?thesis
  proof (cases h)
    case (W_semaphore s)
    then show ?thesis using assms Some
      by (auto simp: WaitForSingleObject_def timed_wait_semaphore_def endless_wait_semaphore_def
          split: if_splits option.splits)
  next
    case (W_mutex m)
    then show ?thesis using assms Some
      by (auto simp: WaitForSingleObject_def timed_wait_mutex_def endless_wait_mutex_def
          split: if_splits option.splits)
  next
    case (W_event ev)
    then show ?thesis using assms Some
      by (auto simp: WaitForSingleObject_def timed_wait_event_def endless_wait_event_def
          split: if_splits option.splits)
  qed (use assms Some in \<open>auto simp: WaitForSingleObject_def split: if_splits\<close>)
qed

text \<open>One that does has taken the object.\<close>

lemma wait_takes_mutex:
  "WaitForSingleObject env self (Some (W_mutex m)) dw = Some (WAIT_OBJECT_0, h') \<Longrightarrow>
    m = None \<and> h' = Some (W_mutex (Some self))"
  by (auto simp: WaitForSingleObject_def timed_wait_mutex_def endless_wait_mutex_def wait_mutex_def
      split: if_splits option.splits wait_errno.splits)

lemma wait_takes_semaphore:
  assumes "WaitForSingleObject env self (Some (W_semaphore s)) dw = Some (WAIT_OBJECT_0, h')"
  shows "\<exists>s'. h' = Some (W_semaphore s') \<and> wait_semaphore self s = Some s'"
  using assms
  by (auto simp: WaitForSingleObject_def timed_wait_semaphore_def endless_wait_semaphore_def
      split: if_splits option.splits)

text \<open>The limit is not kept: a wait for a taken mutex does not return whatever the limit, and neither
  does one for a semaphore with the limit 0, which is meant to look only.\<close>

theorem limit_not_kept:
  assumes "we_sigaction env" and "we_error env = None"
  shows "WaitForSingleObject env self (Some (W_mutex (Some owner))) dw = None
    \<and> (sem_value s = 0 \<longrightarrow> WaitForSingleObject env self (Some (W_semaphore s)) 0 = None
         \<and> (dw \<noteq> 0 \<and> dw \<noteq> - 1 \<longrightarrow>
              WaitForSingleObject env self (Some (W_semaphore s)) dw = Some (WAIT_TIMEOUT, Some (W_semaphore s))))"
  using assms
  by (auto simp: WaitForSingleObject_def timed_wait_mutex_def endless_wait_mutex_def wait_mutex_def
      timed_wait_semaphore_def wait_semaphore_def timer_runs_iff)

end
