(* ===== verification/PoolShutdown.thy ===== *)
theory PoolShutdown
  imports Complex_Main ThreadProperties TimedWait
begin

text \<open>
  The end of \<open>ParallelFileProcessor::run\<close> (src/ParallelProcess.cpp): the waits that give workers which
  are busy a chance to finish, and the release of the threads, which stops by force those that are
  still active; and the destructor of \<open>Thread\<close>. \<open>None\<close> is a call that does not return.
\<close>

section \<open>Waiting once more\<close>

text \<open>
  \<open>waits k\<close> is the number of busy workers and the result of the k-th wait; \<open>W\<close> is the number of
  workers, more than which are never busy. The result is the number of waits of the loop, the last
  result and the sum of the limits, in milliseconds.
\<close>

function quit_loop :: "int \<Rightarrow> (nat \<Rightarrow> int \<times> wait_result) \<Rightarrow> nat \<Rightarrow> wait_result \<Rightarrow> int \<Rightarrow> nat \<times> wait_result \<times> int" where
  "quit_loop W waits i r ms =
     (let nProcessing = min W (fst (waits (i + 1)))
      in if int i < nProcessing \<and> r = WAIT_TIMEOUT
         then quit_loop W waits (i + 1) (snd (waits (i + 1))) (ms + nProcessing * 500)
         else (i, r, ms))"
  by pat_completeness auto
termination by (relation "measure (\<lambda>(W, _, i, _). nat (W - int i))") (auto simp: Let_def)

declare quit_loop.simps [simp del]

definition quit_waits :: "bool \<Rightarrow> int \<Rightarrow> (nat \<Rightarrow> int \<times> wait_result) \<Rightarrow> (nat \<times> wait_result \<times> int) option" where
  "quit_waits quit W waits =
     (let nProcessing = min W (fst (waits 0))
      in if (quit \<and> 0 < W) \<or> 0 < nProcessing
         then Some (quit_loop W waits 0 (snd (waits 0)) (nProcessing * 500))
         else None)"

section \<open>Releasing the threads\<close>

text \<open>What the system does with the thread of a worker, and what the worker has counted.\<close>

record pool_worker =
  pw_thread :: thread
  pw_known :: bool              \<comment> \<open>the system still knows the thread\<close>
  pw_cancel :: bool             \<comment> \<open>the thread can be cancelled\<close>
  pw_reacts :: "nat option"     \<comment> \<open>the wait in which it reacts to that\<close>
  pw_processed :: int
  pw_raw :: int
  pw_compressed :: int
  pw_reverse :: bool

definition destroy_thread :: "pool_worker \<Rightarrow> thread \<Rightarrow> thread option" where
  "destroy_thread w t =
     (case th_handle t of
        None \<Rightarrow> Some t
      | Some _ \<Rightarrow>
          (case Stop (pw_known w) (pw_cancel w) (pw_reacts w) True (- 1) t of
             None \<Rightarrow> None
           | Some (_, t1) \<Rightarrow>
               (case th_handle t1 of
                  None \<Rightarrow> Some t1
                | Some h \<Rightarrow> map_option (\<lambda>_. t1) (CloseThreadHandle h))))"

record worker_report =
  wr_index :: nat
  wr_processed :: int
  wr_raw :: int
  wr_compressed :: int
  wr_saved :: "real option"
  wr_reverse :: bool

definition report_worker :: "int \<Rightarrow> nat \<Rightarrow> pool_worker \<Rightarrow> worker_report list" where
  "report_worker verbose i w =
     (if pw_processed w \<noteq> 0 \<and> verbose \<noteq> 0 then
        [\<lparr>wr_index = i, wr_processed = pw_processed w, wr_raw = pw_raw w, wr_compressed = pw_compressed w,
          wr_saved = (if pw_raw w = 0 then None
            else Some (100 * real_of_int (pw_raw w - pw_compressed w) / real_of_int (pw_raw w))),
          wr_reverse = pw_reverse w\<rparr>]
      else [])"

text \<open>One worker: whether it was stopped by force, and the thread after its release.\<close>

definition finish_worker :: "pool_worker \<Rightarrow> (bool \<times> thread) option" where
  "finish_worker w =
     (let (code, t1) = GetExitCode (pw_known w) (pw_thread w)
      in if code = STILL_ACTIVE then
           (case Stop (pw_known w) (pw_cancel w) (pw_reacts w) True (- 1) t1 of
              None \<Rightarrow> None
            | Some (_, t2) \<Rightarrow> map_option (\<lambda>t. (True, t)) (destroy_thread w t2))
         else map_option (\<lambda>t. (False, t)) (destroy_thread w t1))"

fun finish_pool :: "int \<Rightarrow> nat \<Rightarrow> pool_worker list \<Rightarrow> ((bool \<times> thread) list \<times> worker_report list) option" where
  "finish_pool verbose i [] = Some ([], [])"
| "finish_pool verbose i (w # ws) =
     (case finish_worker w of
        None \<Rightarrow> None
      | Some r \<Rightarrow>
          (case finish_pool verbose (i + 1) ws of
             None \<Rightarrow> None
           | Some (rs, ls) \<Rightarrow> Some (r # rs, report_worker verbose i w @ ls)))"

text \<open>The end of \<open>run\<close>: its result is the number of files that were handled.\<close>

definition run_end ::
  "bool \<Rightarrow> int \<Rightarrow> int \<Rightarrow> (nat \<Rightarrow> int \<times> wait_result) \<Rightarrow> pool_worker list
   \<Rightarrow> (int \<times> (bool \<times> thread) list \<times> worker_report list \<times> int) option" where
  "run_end quit verbose nProcessed waits ws =
     (let waited = (case quit_waits quit (int (length ws)) waits of None \<Rightarrow> 0 | Some (_, _, ms) \<Rightarrow> ms)
      in map_option (\<lambda>(rs, ls). (nProcessed, rs, ls, waited)) (finish_pool verbose 0 ws))"

section \<open>What it gives\<close>

text \<open>The waits end, within a time that the number of workers bounds.\<close>

lemma quit_loop_bounded:
  assumes "0 \<le> W" and "int i \<le> W"
  shows "snd (snd (quit_loop W waits i r ms)) \<le> ms + (W - int i) * (W * 500)
    \<and> int (fst (quit_loop W waits i r ms)) \<le> W"
  using assms
proof (induction W waits i r ms rule: quit_loop.induct)
  case (1 W waits i r ms)
  define n where "n = min W (fst (waits (i + 1)))"
  show ?case
  proof (cases "int i < n \<and> r = WAIT_TIMEOUT")
    case False
    then have "quit_loop W waits i r ms = (i, r, ms)"
      unfolding quit_loop.simps [of W waits i r ms] Let_def n_def by (rule if_not_P)
    moreover have "0 \<le> (W - int i) * (W * 500)" using 1(2,3) by (intro mult_nonneg_nonneg) auto
    ultimately have "ms \<le> ms + (W - int i) * (W * 500)" by linarith
    then show ?thesis unfolding \<open>quit_loop W waits i r ms = (i, r, ms)\<close> fst_conv snd_conv using 1(3) by blast
  next
    case True
    then have i: "int (i + 1) \<le> W" and n: "n * 500 \<le> W * 500" by (auto simp: n_def)
    have step: "quit_loop W waits i r ms = quit_loop W waits (i + 1) (snd (waits (i + 1))) (ms + n * 500)"
      unfolding quit_loop.simps [of W waits i r ms] Let_def using True unfolding n_def by (rule if_P)
    have "(W - int i) * (W * 500) = (W - int (i + 1)) * (W * 500) + W * 500"
      unfolding of_nat_add of_nat_1 by algebra
    moreover have "snd (snd (quit_loop W waits (i + 1) (snd (waits (i + 1))) (ms + n * 500)))
          \<le> ms + n * 500 + (W - int (i + 1)) * (W * 500)
        \<and> int (fst (quit_loop W waits (i + 1) (snd (waits (i + 1))) (ms + n * 500))) \<le> W"
      using 1(1) [of n] True 1(2) i by (auto simp: n_def)
    ultimately show ?thesis unfolding step using n by linarith
  qed
qed

theorem quit_waits_bounded:
  assumes "quit_waits quit W waits = Some (k, r, ms)" and "0 \<le> W"
  shows "int k \<le> W \<and> ms \<le> (W + 1) * (W * 500)"
proof -
  define n where "n = min W (fst (waits 0))"
  define q where "q = quit_loop W waits 0 (snd (waits 0)) (n * 500)"
  have "q = (k, r, ms)"
    using assms(1) by (auto simp: quit_waits_def Let_def q_def n_def split: if_splits)
  then have b: "ms \<le> n * 500 + W * (W * 500)" "int k \<le> W"
    using quit_loop_bounded [OF assms(2), of 0 waits "snd (waits 0)" "n * 500"] assms(2)
    unfolding q_def [symmetric] by simp_all
  have "n * 500 \<le> W * 500" by (simp add: n_def)
  moreover have "(W + 1) * (W * 500) = W * 500 + W * (W * 500)" by algebra
  ultimately show ?thesis using b by linarith
qed

text \<open>Every thread is released: no handle is left.\<close>

lemma Stop_releases:
  assumes "Stop kill_ok cancel_ok reacts True c t = Some (x, t')"
  shows "th_handle t' = None"
  using assms by (auto simp: Stop_def Let_def split: option.splits if_splits)

lemma destroy_thread_releases: "destroy_thread w t = Some t' \<Longrightarrow> th_handle t' = None"
  by (auto simp: destroy_thread_def dest: Stop_releases split: option.splits)

theorem finish_pool_releases:
  assumes "finish_pool verbose i ws = Some (rs, ls)"
  shows "length rs = length ws \<and> (\<forall>(killed, t) \<in> set rs. th_handle t = None)
    \<and> (\<forall>k < length ws. fst (rs ! k) \<longleftrightarrow> fst (GetExitCode (pw_known (ws ! k)) (pw_thread (ws ! k))) = STILL_ACTIVE)"
  using assms
proof (induction ws arbitrary: i rs ls)
  case (Cons w ws)
  obtain r rs' ls' where r: "finish_worker w = Some r" "finish_pool verbose (i + 1) ws = Some (rs', ls')" "rs = r # rs'"
    using Cons.prems by (auto split: option.splits)
  have "th_handle (snd r) = None \<and> (fst r \<longleftrightarrow> fst (GetExitCode (pw_known w) (pw_thread w)) = STILL_ACTIVE)"
    using r(1) destroy_thread_releases
    by (auto simp: finish_worker_def case_prod_beta split: option.splits if_splits)
  then show ?case using Cons.IH [OF r(2)] r(3) by (auto simp: nth_Cons split: nat.splits)
qed simp

text \<open>One worker that is busy gets a second after a request to quit.\<close>

lemma one_busy_worker_waits:
  assumes "\<And>k. waits k = (1, WAIT_TIMEOUT)"
  shows "quit_waits True 1 waits = Some (1, WAIT_TIMEOUT, 1000)"
proof -
  have "quit_loop 1 waits 1 WAIT_TIMEOUT ms = (1, WAIT_TIMEOUT, ms)" for ms
    using assms by (subst quit_loop.simps) (simp add: Let_def)
  then have "quit_loop 1 waits 0 WAIT_TIMEOUT 500 = (1, WAIT_TIMEOUT, 1000)"
    using assms by (subst quit_loop.simps) (simp add: Let_def)
  then show ?thesis using assms by (simp add: quit_waits_def Let_def)
qed

text \<open>C40: a worker that is still busy with its file after these waits is cancelled in the middle of it: its
  thread has ended without leaving its routine, and its handle is released.\<close>

theorem busy_worker_killed:
  assumes "th_handle (pw_thread w) = Some h" and "pThread h" and "\<not> os_ended h" and "\<not> tt_exiting h"
    and "\<not> os_joined h" and "\<not> tt_detached h" and "th_pc (pw_thread w) = T_run"
    and "\<not> th_exitCodeSet (pw_thread w)" and "isSuspended (pw_thread w) = 0" and "isLocked (startLock (pw_thread w)) = 0"
    and "pw_known w" and "pw_cancel w" and "pw_reacts w = Some k" and "k < 5"
  shows "\<exists>t. finish_worker w = Some (True, t) \<and> th_pc t = T_exited \<and> th_handle t = None"
proof -
  have known: "GetExitCodeThread True h = STILL_ACTIVE" using assms(2) by (simp add: GetExitCodeThread_def)
  define t1 where "t1 = (pw_thread w)\<lparr>th_exitCode := STILL_ACTIVE\<rparr>"
  have code: "GetExitCode (pw_known w) (pw_thread w) = (STILL_ACTIVE, t1)"
    using assms(1,8,11) known by (simp add: GetExitCode_def t1_def)
  define h' where "h' = await_cancel (Some k) 0 h"
  have h': "\<not> pThread h'" "os_ended h'"
    using await_cancel_ends [of k h 0] assms(3-6,14) by (simp_all add: h'_def)
  have "Stop True True (Some k) True (- 1) t1 = Some (- 1, t1\<lparr>threadShouldExit := interlocked_set_true (threadShouldExit t1),
      th_exitCode := STILL_ACTIVE, th_handle := None, th_exitCode := - 1, th_pc := T_exited\<rparr>)"
    using assms(1,2,8-10) known h'
    by (simp add: Stop_def t1_def Let_def IsWaiting_def TerminateThread_def CloseThreadHandle_def h'_def)
  then show ?thesis
    using code assms(11-13) by (simp add: finish_worker_def destroy_thread_def)
qed

definition busy_worker :: pool_worker where
  "busy_worker = \<lparr>pw_thread = new_thread\<lparr>th_handle := Some \<lparr>pThread = True, suspendCount = 0, tt_exiting = False,
       tt_exited = False, tt_detached = False, tt_status = STILL_ACTIVE, os_ended = False, os_joined = False\<rparr>,
       hasBeenStarted := True, th_pc := T_run\<rparr>,
     pw_known = True, pw_cancel = True, pw_reacts = Some 0, pw_processed = 3, pw_raw = 10, pw_compressed = 5,
     pw_reverse = False\<rparr>"

theorem busy_worker_killed_witness:
  "\<exists>t. finish_worker busy_worker = Some (True, t) \<and> th_pc t = T_exited \<and> th_handle t = None"
  by (rule busy_worker_killed [where h = "the (th_handle (pw_thread busy_worker))" and k = 0])
    (simp_all add: busy_worker_def new_thread_def new_start_lock_def)

end
