(* ===== verification/ZfsCommand.thy ===== *)
theory ZfsCommand
  imports ZfsRegistry
begin

text \<open>
  How \<open>zfsctool\<close> runs the zfs command and gets its output (src/zfsctool.cpp: \<open>ZFSCommandEngine\<close>): all
  commands write to one pipe that lives as long as the program, each is waited for, and then what
  fits the buffer is read from the pipe, as a C string. \<open>None\<close> is a call that does not return.
\<close>

section \<open>Reading the pipe\<close>

text \<open>The string in a buffer up to its first 0; \<open>past\<close> is the memory behind the buffer.\<close>

definition buffer_text :: "byte list \<Rightarrow> byte list \<Rightarrow> byte list" where
  "buffer_text past buf = takeWhile (\<lambda>b. b \<noteq> 0) (buf @ past)"

text \<open>
  \<open>getOutput(buf, bufLen)\<close>: \<open>stale\<close> is what the new buffer holds, as many bytes as it has. Without a wish
  for output the pipe is polled first. The process itself keeps the writing end open, so a read of
  the empty pipe waits for ever. The result is \<open>readlen\<close>, the buffer and what is left in the pipe.
\<close>

definition read_pipe :: "bool \<Rightarrow> byte list \<Rightarrow> byte list \<Rightarrow> (nat \<times> byte list \<times> byte list) option" where
  "read_pipe wantOutput stale pipe =
     (if wantOutput \<or> pipe \<noteq> [] then
        (if pipe = [] then None
         else
           let n = min (length stale) (length pipe);
               buf = take n pipe @ drop n stale
           in if 1 < n \<and> buf ! (n - 1) = 10
              then Some (n - 1, buf[n - 1 := 0], drop n pipe)
              else Some (n, buf, drop n pipe))
      else Some (0, stale, pipe))"

definition engine_output :: "byte list \<Rightarrow> nat \<Rightarrow> byte list \<Rightarrow> byte list" where
  "engine_output past readlen buf = (if 0 < readlen then buffer_text past buf else [])"

section \<open>Running a command\<close>

text \<open>
  \<open>ce_output\<close>: what the command writes; \<open>ce_capacity\<close>: what the pipe holds, beyond which the command
  waits for a reader. The program reads only when the command has ended. \<open>ce_status\<close> is the status
  of the command, which \<open>run\<close> does not see: it takes the result of \<open>Join\<close>.
\<close>

record command_env =
  ce_started :: bool
  ce_join :: int
  ce_status :: int
  ce_output :: "byte list"
  ce_capacity :: nat
  ce_junk :: "byte list"
  ce_past :: "byte list"

text \<open>The thread of the command: waiting for it, then reading.\<close>

definition engine_Run :: "bool \<Rightarrow> command_env \<Rightarrow> byte list \<Rightarrow> (nat \<times> byte list \<times> byte list) option" where
  "engine_Run wantOutput ce pipe =
     (if length pipe + length (ce_output ce) \<le> ce_capacity ce
      then read_pipe wantOutput (ce_junk ce) (pipe @ ce_output ce)
      else None)"

definition engine_run :: "bool \<Rightarrow> command_env \<Rightarrow> byte list \<Rightarrow> ((result_code \<times> byte list) \<times> byte list) option" where
  "engine_run wantOutput ce pipe =
     (if ce_started ce then
        (case engine_Run wantOutput ce pipe of
           None \<Rightarrow> None
         | Some (readlen, buf, pipe') \<Rightarrow>
             let out = engine_output (ce_past ce) readlen buf
             in Some ((if ce_join ce = 0 then
                         if out \<noteq> [] then (COMMAND_OK, out)
                         else (if wantOutput then COMMAND_NOOUTPUT else COMMAND_OK, [])
                       else (COMMAND_FAIL, out)), pipe'))
      else Some ((COMMAND_NOSTART, []), pipe))"

text \<open>Commands one after the other.\<close>

fun engine_runs :: "(bool \<times> command_env) list \<Rightarrow> byte list \<Rightarrow> ((result_code \<times> byte list) list \<times> byte list) option" where
  "engine_runs [] pipe = Some ([], pipe)"
| "engine_runs ((want, ce) # cs) pipe =
     (case engine_run want ce pipe of
        None \<Rightarrow> None
      | Some (r, pipe1) \<Rightarrow>
          (case engine_runs cs pipe1 of
             None \<Rightarrow> None
           | Some (rs, pipe2) \<Rightarrow> Some (r # rs, pipe2)))"

section \<open>What a command gives\<close>

text \<open>A line that fits the buffer: the text without its newline, and nothing is left in the pipe.\<close>

definition one_line :: "byte list \<Rightarrow> command_env \<Rightarrow> bool" where
  "one_line line ce \<longleftrightarrow> ce_output ce = line @ [10] \<and> line \<noteq> [] \<and> 0 \<notin> set line
   \<and> length line < length (ce_junk ce) \<and> length line < ce_capacity ce \<and> ce_started ce \<and> ce_join ce = 0"

lemma engine_run_line:
  assumes "one_line line ce"
  shows "engine_run want ce [] = Some ((COMMAND_OK, line), [])"
proof -
  define buf where "buf = (line @ [10] @ drop (length line + 1) (ce_junk ce))[length line := 0]"
  have len: "length line + 1 \<le> length (ce_junk ce)" using assms by (simp add: one_line_def)
  then have n: "min (length (ce_junk ce)) (length (line @ [10 :: byte])) = length line + 1" by simp
  have "read_pipe want (ce_junk ce) (line @ [10]) = Some (length line, buf, [])"
    using assms len unfolding read_pipe_def Let_def n
    by (auto simp: one_line_def buf_def nth_append)
  moreover have "buf = line @ 0 # drop (length line + 1) (ce_junk ce)"
    by (simp add: buf_def)
  then have "buffer_text (ce_past ce) buf = line"
    using assms by (auto simp: buffer_text_def one_line_def takeWhile_append)
  ultimately show ?thesis
    using assms by (simp add: engine_run_def engine_Run_def engine_output_def one_line_def Let_def)
qed

text \<open>So as long as every command writes one such line, each gets its own answer.\<close>

theorem commands_get_their_output:
  assumes "list_all2 (\<lambda>line c. one_line line (snd c)) lines cs"
  shows "engine_runs cs [] = Some (map (\<lambda>line. (COMMAND_OK, line)) lines, [])"
  using assms
proof (induction rule: list_all2_induct)
  case (Cons line lines c cs)
  obtain want ce where c: "c = (want, ce)" by (cases c)
  then show ?case using engine_run_line [of line ce want] Cons by simp
qed simp

text \<open>The function of the files that look for their dataset takes this output.\<close>

definition command_run_of :: "command_env \<Rightarrow> byte list \<Rightarrow> command_run" where
  "command_run_of ce out = \<lparr>cr_started = ce_started ce, cr_join = ce_join ce, cr_status = ce_status ce,
     cr_output = bytes_name out\<rparr>"

lemma run_command_engine:
  assumes "engine_run True ce pipe = Some ((code, out), pipe')"
  shows "run_command (command_run_of ce out) = (code, bytes_name out)"
proof (cases "ce_started ce")
  case False
  then show ?thesis using assms by (auto simp: engine_run_def run_command_def command_run_of_def bytes_name_def)
next
  case True
  then show ?thesis using assms
    by (auto simp: engine_run_def run_command_def command_run_of_def bytes_name_def Let_def
        split: option.splits if_splits)
qed

section \<open>Where it goes wrong\<close>

text \<open>More than fits the buffer stays in the pipe, and the next command is answered with it: with the
  output of the command before, whatever its own is.\<close>

theorem long_output_answers_next:
  assumes "ce_started ce" and "ce_join ce = 0" and "length (ce_output ce) \<le> ce_capacity ce"
    and "ce_output ce = first @ rest @ [10]" and "length first = length (ce_junk ce)" and "1 < length first"
    and "0 \<notin> set (first @ rest)" and "last first \<noteq> 10" and "rest \<noteq> []"
    and "ce_started ce2" and "ce_join ce2 = 0" and "length rest + 1 + length (ce_output ce2) \<le> ce_capacity ce2"
    and "length rest + 1 = length (ce_junk ce2)"
  shows "\<exists>answer. engine_runs [(True, ce), (True, ce2)] [] =
    Some ([(COMMAND_OK, answer), (COMMAND_OK, rest)], ce_output ce2)"
proof -
  have n: "min (length (ce_junk ce)) (length (first @ rest @ [10 :: byte])) = length first" using assms(5) by simp
  have "first ! (length first - 1) \<noteq> 10" using assms(6,8) by (metis last_conv_nth list.size(3) not_less_zero)
  then have r1: "read_pipe True (ce_junk ce) (ce_output ce) = Some (length first, first, rest @ [10])"
    using assms(4,5,6) unfolding read_pipe_def Let_def assms(4) n by (simp add: nth_append)
  have nonempty: "buffer_text (ce_past ce) first \<noteq> []"
    using assms(6,7) by (cases first) (auto simp: buffer_text_def)
  have run1: "engine_run True ce [] = Some ((COMMAND_OK, buffer_text (ce_past ce) first), rest @ [10])"
    using assms(1-3,6) r1 nonempty by (auto simp: engine_run_def engine_Run_def engine_output_def Let_def)
  define out2 where "out2 = ce_output ce2"
  have n2: "min (length (ce_junk ce2)) (length ((rest @ [10]) @ out2)) = length rest + 1" using assms(13) by simp
  have d: "drop (length rest + 1) (ce_junk ce2) = []" using assms(13) by simp
  have "read_pipe True (ce_junk ce2) ((rest @ [10]) @ out2) =
      Some (length rest, (rest @ [10])[length rest := 0], out2)"
    using assms(9) d unfolding read_pipe_def Let_def n2 by (auto simp: nth_append)
  moreover have "(rest @ [10])[length rest := 0] = rest @ [0 :: byte]" by simp
  moreover have "buffer_text (ce_past ce2) (rest @ [0]) = rest"
    using assms(7) by (auto simp: buffer_text_def takeWhile_append)
  ultimately have run2: "engine_run True ce2 (rest @ [10]) = Some ((COMMAND_OK, rest), out2)"
    using assms(9-12) by (simp add: engine_run_def engine_Run_def engine_output_def Let_def out2_def)
  show ?thesis using run1 run2 by (simp add: out2_def)
qed

text \<open>A command that is to give output and gives none is never heard of again.\<close>

lemma silent_command_hangs:
  "ce_started ce \<Longrightarrow> ce_output ce = [] \<Longrightarrow> engine_run True ce [] = None"
  by (simp add: engine_run_def engine_Run_def read_pipe_def)

text \<open>And one whose output does not fit the pipe waits for the program, which waits for it.\<close>

lemma large_output_deadlock:
  "ce_started ce \<Longrightarrow> ce_capacity ce < length (ce_output ce) \<Longrightarrow> engine_run want ce [] = None"
  by (simp add: engine_run_def engine_Run_def)

text \<open>Only a newline at its end terminates the text: what does not end with one runs on into what the
  buffer held before, and beyond the buffer.\<close>

lemma unterminated_output:
  assumes "ce_started ce" and "ce_join ce = 0" and "ce_output ce = out" and "out \<noteq> []" and "0 \<notin> set out"
    and "last out \<noteq> 10 \<or> length out = 1" and "length out \<le> length (ce_junk ce)" and "length out \<le> ce_capacity ce"
  shows "engine_run want ce [] =
    Some ((COMMAND_OK, out @ buffer_text (ce_past ce) (drop (length out) (ce_junk ce))), [])"
proof -
  define n where "n = length out"
  have n: "min (length (ce_junk ce)) n = n" using assms(7) by (simp add: n_def)
  have "\<not> (1 < n \<and> (out @ drop n (ce_junk ce)) ! (n - 1) = 10)"
    using assms(4,6) by (auto simp: n_def nth_append last_conv_nth)
  then have "read_pipe want (ce_junk ce) out = Some (n, out @ drop n (ce_junk ce), [])"
    using assms(4) unfolding read_pipe_def Let_def n_def [symmetric] n by (auto simp: n_def)
  moreover have "buffer_text (ce_past ce) (out @ drop n (ce_junk ce)) =
      out @ buffer_text (ce_past ce) (drop n (ce_junk ce))"
    using assms(5) by (auto simp: buffer_text_def takeWhile_append)
  ultimately show ?thesis
    using assms by (simp add: engine_run_def engine_Run_def engine_output_def Let_def n_def)
qed

end
