(* ===== verification/ZfsReport.thy ===== *)
theory ZfsReport
  imports Report ZfsMain
begin

text \<open>
  What \<open>zfsctool\<close> prints about a file and a folder (src/zfsctool.cpp: \<open>printFileInfo\<close>,
  \<open>printFolderInfo\<close>, the lines of \<open>process_file_info\<close> and the reports of the main loop), as the lines of
  \<open>Report\<close>.
\<close>

section \<open>The lines\<close>

definition zprintFileInfo :: "string \<Rightarrow> stat \<Rightarrow> report_line list" where
  "zprintFileInfo filepath st =
     (let blocks = st_blocks st * S_BLKSIZE
      in [Line filepath,
          Size ''File size (real)'' (getSizeStr (st_size st) (st_size st) True),
          Size ''File size (on disk)'' (getSizeStr blocks (roundToBlkSize blocks st) False),
          Percent ''Compression savings'' (savings blocks (st_size st))])"

text \<open>\<open>process_file_info\<close>; the attribute decides whether the file is known to be compressed.\<close>

definition zfs_file_lines :: "byte list option \<Rightarrow> string \<Rightarrow> stat \<Rightarrow> folder_info \<Rightarrow> report_line list option" where
  "zfs_file_lines attr filepath st fi =
     (case checkValidZFSCompAttrAgainst attr attr st ''off'' of
        None \<Rightarrow> None
      | Some c \<Rightarrow>
          let sizeInBlocks = st_blocks st * S_BLKSIZE
          in Some
            (if print_files fi then
               (if 1 < print_info fi then
                  [Line filepath, Size ''File size (real)'' (getSizeStr (st_size st) (st_size st) True),
                   if 0 < c \<or> sizeInBlocks < st_size st
                   then Percent ''Compression savings'' (savings sizeInBlocks (st_size st))
                   else Percent ''Filesystem overhead'' (savings (st_size st) sizeInBlocks)]
                else if \<not> compress_files fi then [Line filepath] else [])
             else []))"

definition zprintFolderInfo :: "int \<Rightarrow> bool \<Rightarrow> folder_info \<Rightarrow> report_line list" where
  "zprintFolderInfo num_skipped hlc fi =
     [Files (num_files fi) num_skipped]
     @ (if hlc then [Num ''Total number of file hard links'' (num_hard_link_files fi)] else [])
     @ [Num ''Total number of folders'' (num_folders fi)]
     @ (if hlc then [Num ''Total number of folder hard links'' (num_hard_link_folders fi)] else [])
     @ [Num ''Total number of items (number of files + number of folders)'' (num_files fi + num_folders fi),
        Size ''Folder size (real)'' (getSizeStr (uncompressed_size fi) (uncompressed_size_rounded fi)
          ((num_hard_link_files fi = 0 \<and> num_hard_link_folders fi = 0) \<or> \<not> hlc)),
        Size ''Folder size (on disk)'' (getSizeStr (compressed_size fi) (compressed_size_rounded fi) False),
        Percent ''On-disk savings'' (savings (compressed_size fi) (uncompressed_size fi))]
     @ (if 0 < num_compressed fi then [Num ''files are known to be compressed'' (num_compressed fi)] else [])
     @ [Size ''Approximate total folder size (files + file overhead + folder overhead)''
          (getSizeStr (total_size fi) (total_size fi) False)]"

text \<open>A file argument with -v, a folder argument, and the end of the workers.\<close>

definition zfs_file_report :: "zoptions \<Rightarrow> string \<Rightarrow> stat \<Rightarrow> report_line list" where
  "zfs_file_report o' path st = (if 0 < zp_printVerbose o' then zprintFileInfo path st else [])"

definition zfs_folder_report :: "zoptions \<Rightarrow> string \<Rightarrow> int \<Rightarrow> folder_info \<Rightarrow> report_line list" where
  "zfs_folder_report o' path num_skipped fi =
     (if 0 < zp_printVerbose o' \<or> \<not> zp_printDir o' then
        (if zp_nJobs o' = 0 then (if zp_printDir o' then [Line ''''] else []) @ [Line path]
         else [Name ''Adding to queue'' path])
        @ (if zp_nJobs o' = 0 then
             [if num_compressed fi = 0
              then Line (if zp_applycomp o' then ''No compressable files in folder'' else ''Folder contains no compressed files'')
              else Num ''Number of compressed files'' (num_compressed fi)]
             @ (if 0 < zp_printVerbose o' then zprintFolderInfo num_skipped (zp_hardLinkCheck o') fi else [])
           else [])
      else [])"

definition zfs_report_jobs :: "zoptions \<Rightarrow> int \<Rightarrow> folder_info \<Rightarrow> report_line list" where
  "zfs_report_jobs o' num_skipped fi =
     (if 0 < zp_printVerbose o' \<and> 0 < num_files fi then zprintFolderInfo num_skipped (zp_hardLinkCheck o') fi else [])"

section \<open>What the reports agree with\<close>

text \<open>The sizes of a file are those it adds to the totals of its folder, and a file that is reported with
  savings is counted as compressed.\<close>

theorem zfs_report_matches_accounting:
  assumes "zfs_process_file_info False attr st fi = Some (n, fi')"
    and "zfs_file_lines attr path st (fi\<lparr>print_files := True, print_info := 2\<rparr>) = Some ls"
  shows "Size ''File size (on disk)'' (getSizeStr n (compressed_size_rounded fi' - compressed_size_rounded fi) False)
      \<in> set (zprintFileInfo path st)
    \<and> n = compressed_size fi' - compressed_size fi
    \<and> (Percent ''Compression savings'' (savings n (uncompressed_size fi' - uncompressed_size fi)) \<in> set ls
         \<longleftrightarrow> num_compressed fi' = num_compressed fi + 1)"
  using assms
  by (auto simp: zfs_process_file_info_def zfs_file_lines_def zprintFileInfo_def Let_def split: option.splits if_splits)

text \<open>The savings of an empty file are a division by zero.\<close>

lemma empty_file_savings:
  "st_size st = 0 \<Longrightarrow> Percent ''Compression savings'' None \<in> set (zprintFileInfo path st)"
  by (simp add: zprintFileInfo_def Let_def savings_def)

text \<open>And so are those of a folder without data.\<close>

lemma empty_folder_savings:
  "uncompressed_size fi = 0 \<Longrightarrow> Percent ''On-disk savings'' None \<in> set (zprintFolderInfo k hlc fi)"
  by (simp add: zprintFolderInfo_def savings_def)

text \<open>Both tools print the same size for the same folder, where they report it for the Finder.\<close>

lemma folder_reports_agree:
  assumes "num_hard_link_files fi = 0 \<and> num_hard_link_folders fi = 0 \<or> \<not> hlc"
  shows "\<exists>l l'. Size l (getSizeStr (uncompressed_size fi) (uncompressed_size_rounded fi) True) \<in> set (zprintFolderInfo k hlc fi)
    \<and> Size l' (getSizeStr (uncompressed_size fi) (uncompressed_size_rounded fi) True) \<in> set (printFolderInfo rp k par hlc fi)"
proof (intro exI conjI)
  show "Size ''Folder size (real)'' (getSizeStr (uncompressed_size fi) (uncompressed_size_rounded fi) True)
      \<in> set (zprintFolderInfo k hlc fi)"
    using assms by (auto simp: zprintFolderInfo_def)
  show "Size ''Folder size (uncompressed; reported size by Mac OS 10.6+ Finder)''
      (getSizeStr (uncompressed_size fi) (uncompressed_size_rounded fi) True) \<in> set (printFolderInfo rp k par hlc fi)"
    using assms by (auto simp: printFolderInfo_def Let_def)
qed

end
