(* ===== verification/Signals.thy ===== *)
theory Signals
  imports ZfsWalkProperties WorkerPool
begin

text \<open>
  The signal handlers of both tools (src/afsctool.c, src/zfsctool.cpp), where they are installed,
  and what a signal does to the rest of a run: the static \<open>PP\<close> that the handlers use, the static
  \<open>quitRequested\<close> that the walk and the compression poll, and the flag of the processor that its
  workers poll. A run is a sequence of phases with signals at any point between them.
\<close>

section \<open>Signals and their disposition\<close>

text \<open>The signals the tools name; the default action of each ends the process.\<close>

datatype signal = SIGHUP | SIGINT | SIGTERM | SIGBUS | SIGSEGV | SIGXCPU | SIGXFSZ

datatype disposition = SIG_DFL | SIG_IGN | Handler

text \<open>The static \<open>PP\<close>: it is never reset, so it keeps the address of a processor that was released.\<close>

datatype 'm pp_ref = No_PP | PP "'m pool" | Released_PP

datatype process_state = Alive | Killed signal | Bad_access

datatype message = Quit_request | Going_down | Bus_error | Segv_error | Received signal

datatype phase = Parsing | Created | Walking | Running | Ended

record 'm process =
  ps_phase :: phase
  ps_handlers :: "signal \<Rightarrow> disposition"
  ps_PP :: "'m pp_ref"
  ps_quit :: bool               \<comment> \<open>\<open>quitRequested\<close>\<close>
  ps_stderr :: "message list"
  ps_state :: process_state

definition new_process :: "'m process" where
  "new_process = \<lparr>ps_phase = Parsing, ps_handlers = (\<lambda>_. SIG_DFL), ps_PP = No_PP, ps_quit = False,
     ps_stderr = [], ps_state = Alive\<rparr>"

definition set_handler :: "signal \<Rightarrow> disposition \<Rightarrow> 'm process \<Rightarrow> 'm process" where
  "set_handler sig d ps = ps\<lparr>ps_handlers := (ps_handlers ps)(sig := d)\<rparr>"

section \<open>The handlers\<close>

text \<open>\<open>None\<close> is the use of a processor that was deleted.\<close>

definition stopParallelProcessor :: "'m pp_ref \<Rightarrow> 'm pp_ref option" where
  "stopParallelProcessor r =
     (case r of No_PP \<Rightarrow> Some No_PP
      | PP p \<Rightarrow> Some (PP (snd (setQuitRequested True p)))
      | Released_PP \<Rightarrow> None)"

definition stop_PP :: "'m process \<Rightarrow> 'm process" where
  "stop_PP ps = (case stopParallelProcessor (ps_PP ps) of
     None \<Rightarrow> ps\<lparr>ps_state := Bad_access\<rparr>
   | Some r \<Rightarrow> ps\<lparr>ps_PP := r\<rparr>)"

definition afsc_signal_handler :: "signal \<Rightarrow> 'm process \<Rightarrow> 'm process" where
  "afsc_signal_handler sig ps = stop_PP (ps\<lparr>ps_stderr := ps_stderr ps @ [Received sig]\<rparr>)"

text \<open>The message and whether the signal is raised again.\<close>

definition zfs_message :: "signal \<Rightarrow> message \<times> bool" where
  "zfs_message sig =
     (case sig of SIGBUS \<Rightarrow> (Bus_error, True) | SIGSEGV \<Rightarrow> (Segv_error, True)
      | SIGHUP \<Rightarrow> (Quit_request, False) | SIGINT \<Rightarrow> (Quit_request, False) | SIGTERM \<Rightarrow> (Quit_request, False)
      | _ \<Rightarrow> (Going_down, False))"

definition zfs_signal_handler :: "signal \<Rightarrow> 'm process \<Rightarrow> 'm process" where
  "zfs_signal_handler sig ps =
     (let (msg, reRaise) = zfs_message sig;
          ps1 = (if reRaise then ps
                 else if ps_PP ps \<noteq> No_PP then stop_PP ps
                 else ps\<lparr>ps_quit := True\<rparr>)
      in if ps_state ps1 \<noteq> Alive then ps1
         else let ps2 = ps1\<lparr>ps_stderr := ps_stderr ps1 @ [msg]\<rparr>
              in if reRaise then set_handler sig SIG_DFL ps2\<lparr>ps_state := Killed sig\<rparr> else ps2)"

definition deliver :: "(signal \<Rightarrow> 'm process \<Rightarrow> 'm process) \<Rightarrow> signal \<Rightarrow> 'm process \<Rightarrow> 'm process" where
  "deliver handler sig ps =
     (if ps_state ps \<noteq> Alive then ps
      else case ps_handlers ps sig of
        SIG_DFL \<Rightarrow> ps\<lparr>ps_state := Killed sig\<rparr>
      | SIG_IGN \<Rightarrow> ps
      | Handler \<Rightarrow> handler sig ps)"

section \<open>A run\<close>

definition ignore_limits :: "'m process \<Rightarrow> 'm process" where
  "ignore_limits ps = set_handler SIGXFSZ SIG_IGN (set_handler SIGXCPU SIG_IGN ps)"

definition zfs_install :: "'m process \<Rightarrow> 'm process" where
  "zfs_install ps = set_handler SIGSEGV Handler (set_handler SIGBUS Handler (set_handler SIGTERM Handler
     (set_handler SIGHUP Handler (set_handler SIGINT Handler (ignore_limits ps)))))"

definition afsc_install :: "'m process \<Rightarrow> 'm process" where
  "afsc_install ps = set_handler SIGHUP Handler (set_handler SIGINT Handler ps)"

definition release_PP :: "'m process \<Rightarrow> 'm process" where
  "release_PP ps = ps\<lparr>ps_PP := (case ps_PP ps of No_PP \<Rightarrow> No_PP | _ \<Rightarrow> Released_PP)\<rparr>"

definition create_PP :: "'m name_ops \<Rightarrow> int \<Rightarrow> int \<Rightarrow> int \<Rightarrow> 'm process \<Rightarrow> 'm process" where
  "create_PP ops n r verbose ps =
     (if n > 0 then ps\<lparr>ps_PP := PP (createParallelProcessor ops n r verbose)\<rparr> else ps)"

text \<open>
  What zfsctool does between two signals. \<open>use\<close> stands for the walk and for the workers: they change
  the processor, but no code other than the handler sets its flag.
\<close>

inductive zfs_step :: "'m name_ops \<Rightarrow> 'm process \<Rightarrow> 'm process \<Rightarrow> bool" for ops where
  z_create: "ps_state ps = Alive \<Longrightarrow> ps_phase ps = Parsing \<Longrightarrow>
    zfs_step ops ps (create_PP ops n r verbose ps\<lparr>ps_phase := Created\<rparr>)"
| z_install: "ps_state ps = Alive \<Longrightarrow> ps_phase ps = Created \<Longrightarrow> zfs_step ops ps (zfs_install ps\<lparr>ps_phase := Walking\<rparr>)"
| z_use: "ps_state ps = Alive \<Longrightarrow> ps_phase ps \<in> {Walking, Running} \<Longrightarrow> ps_PP ps = PP p \<Longrightarrow>
    quitRequestedFlag p' = quitRequestedFlag p \<Longrightarrow> zfs_step ops ps (ps\<lparr>ps_PP := PP p'\<rparr>)"
| z_run: "ps_state ps = Alive \<Longrightarrow> ps_phase ps = Walking \<Longrightarrow> ps_PP ps = PP p \<Longrightarrow> filesInParallelProcessor p \<noteq> 0 \<Longrightarrow>
    zfs_step ops ps (ps\<lparr>ps_phase := Running\<rparr>)"
| z_end: "ps_state ps = Alive \<Longrightarrow> ps_phase ps \<in> {Walking, Running} \<Longrightarrow> zfs_step ops ps (release_PP ps\<lparr>ps_phase := Ended\<rparr>)"
| z_signal: "zfs_step ops ps (deliver zfs_signal_handler sig ps)"

text \<open>afsctool installs its handlers only when it starts the workers.\<close>

inductive afsc_step :: "'m name_ops \<Rightarrow> 'm process \<Rightarrow> 'm process \<Rightarrow> bool" for ops where
  a_create: "ps_state ps = Alive \<Longrightarrow> ps_phase ps = Parsing \<Longrightarrow>
    afsc_step ops ps (create_PP ops n r verbose ps\<lparr>ps_phase := Created\<rparr>)"
| a_ignore: "ps_state ps = Alive \<Longrightarrow> ps_phase ps = Created \<Longrightarrow> afsc_step ops ps (ignore_limits ps\<lparr>ps_phase := Walking\<rparr>)"
| a_use: "ps_state ps = Alive \<Longrightarrow> ps_phase ps \<in> {Walking, Running} \<Longrightarrow> ps_PP ps = PP p \<Longrightarrow>
    quitRequestedFlag p' = quitRequestedFlag p \<Longrightarrow> afsc_step ops ps (ps\<lparr>ps_PP := PP p'\<rparr>)"
| a_run: "ps_state ps = Alive \<Longrightarrow> ps_phase ps = Walking \<Longrightarrow> ps_PP ps = PP p \<Longrightarrow> filesInParallelProcessor p \<noteq> 0 \<Longrightarrow>
    afsc_step ops ps (afsc_install ps\<lparr>ps_phase := Running\<rparr>)"
| a_end: "ps_state ps = Alive \<Longrightarrow> ps_phase ps \<in> {Walking, Running} \<Longrightarrow> afsc_step ops ps (release_PP ps\<lparr>ps_phase := Ended\<rparr>)"
| a_signal: "afsc_step ops ps (deliver afsc_signal_handler sig ps)"

lemmas signal_defs = deliver_def set_handler_def ignore_limits_def release_PP_def create_PP_def
  stop_PP_def stopParallelProcessor_def setQuitRequested_def

section \<open>zfsctool\<close>

text \<open>Before the handlers are installed every signal has its default action, afterwards the five
  signals that ask to quit or are fatal have the handler as long as the process lives; the static flag
  is set only where there is no processor.\<close>

definition zfs_signals_ok :: "'m process \<Rightarrow> bool" where
  "zfs_signals_ok ps \<longleftrightarrow>
     (ps_state ps = Alive \<longrightarrow> (if ps_phase ps \<in> {Parsing, Created} then ps_handlers ps = (\<lambda>_. SIG_DFL)
        else ps_handlers ps = (\<lambda>sig. if sig \<in> {SIGXCPU, SIGXFSZ} then SIG_IGN else Handler)))
     \<and> (ps_phase ps = Parsing \<longrightarrow> ps_PP ps = No_PP)
     \<and> (ps_quit ps \<longrightarrow> ps_PP ps = No_PP \<and> ps_phase ps \<notin> {Parsing, Created})"

lemma zfs_handlers_installed:
  "ps_handlers ps = (\<lambda>_. SIG_DFL) \<Longrightarrow>
   ps_handlers (zfs_install ps) = (\<lambda>sig. if sig \<in> {SIGXCPU, SIGXFSZ} then SIG_IGN else Handler)"
  by (rule ext, rename_tac sig, case_tac sig) (simp_all add: zfs_install_def signal_defs)

lemma zfs_install_simps [simp]:
  "ps_PP (zfs_install ps) = ps_PP ps" "ps_quit (zfs_install ps) = ps_quit ps"
  "ps_state (zfs_install ps) = ps_state ps"
  by (simp_all add: zfs_install_def signal_defs)

lemma zfs_signal_keeps_ok:
  assumes "zfs_signals_ok ps"
  shows "zfs_signals_ok (deliver zfs_signal_handler sig ps)"
proof (cases "ps_state ps = Alive \<and> ps_handlers ps sig = Handler")
  case True
  with assms have ph: "ps_phase ps \<notin> {Parsing, Created}" by (auto simp: zfs_signals_ok_def split: if_splits)
  with assms True show ?thesis
    by (cases "ps_PP ps"; cases sig)
      (auto simp: zfs_signals_ok_def zfs_signal_handler_def zfs_message_def signal_defs Let_def)
next
  case False
  with assms show ?thesis
    by (cases "ps_handlers ps sig") (auto simp: zfs_signals_ok_def deliver_def)
qed

lemma zfs_step_keeps_ok:
  assumes "zfs_step ops ps ps'" and "zfs_signals_ok ps"
  shows "zfs_signals_ok ps'"
  using assms
proof (cases rule: zfs_step.cases)
  case (z_create n r verbose)
  with assms(2) show ?thesis by (auto simp: zfs_signals_ok_def create_PP_def)
next
  case z_install
  with assms(2) show ?thesis by (auto simp: zfs_signals_ok_def zfs_handlers_installed)
next
  case (z_signal sig)
  with assms(2) show ?thesis by (simp add: zfs_signal_keeps_ok)
qed (use assms(2) in \<open>auto simp: zfs_signals_ok_def release_PP_def split: pp_ref.splits\<close>)

lemma zfs_reachable_ok:
  assumes "(zfs_step ops)\<^sup>*\<^sup>* new_process ps"
  shows "zfs_signals_ok ps"
  using assms
proof (induction rule: rtranclp_induct)
  case base
  show ?case by (simp add: zfs_signals_ok_def new_process_def)
next
  case (step ps ps')
  then show ?case by (blast intro: zfs_step_keeps_ok)
qed

text \<open>With workers the static flag is never set, whatever signals arrive: the polls of the walk, of the
  compression and of the datasets never see a request to quit.\<close>

theorem zfs_workers_hide_request:
  assumes "(zfs_step ops)\<^sup>*\<^sup>* new_process ps" and "ps_PP ps \<noteq> No_PP"
  shows "\<not> ps_quit ps"
  using zfs_reachable_ok [OF assms(1)] assms(2) by (auto simp: zfs_signals_ok_def)

text \<open>So the walk that fills the queue goes on to its end: it counts the files and folders it would
  have counted without a signal.\<close>

theorem zfs_walk_ignores_signals:
  assumes "\<And>k p. (zfs_step qops)\<^sup>*\<^sup>* new_process (polled k p) \<and> ps_PP (polled k p) \<noteq> No_PP"
    and "\<And>k p. zy_quit s k p = ps_quit (polled k p)"
    and "\<not> zk_stop (zfs_process_folder s ops old es w)" and "\<not> zk_stop w"
  shows "num_files (zk_info (zfs_process_folder s ops old es w))
      = num_files (zk_info w) + files_in (visited (volume_search (fts_path (hd es))) es)
    \<and> num_folders (zk_info (zfs_process_folder s ops old es w))
      = num_folders (zk_info w) + folders_in (visited (volume_search (fts_path (hd es))) es)"
proof -
  have "\<not> zy_quit s k p" for k p
    using assms(1) [of k p] assms(2) zfs_workers_hide_request by metis
  then show ?thesis using zfs_folder_counts(1,2) [of s ops old es w] assms(3,4) by blast
qed

text \<open>Without workers the same signal sets the flag: the next entry is the last.\<close>

theorem zfs_serial_request:
  assumes "(zfs_step ops)\<^sup>*\<^sup>* new_process ps" and "ps_state ps = Alive" and "ps_phase ps = Walking"
    and "ps_PP ps = No_PP" and "sig \<in> {SIGHUP, SIGINT, SIGTERM}"
  shows "ps_quit (deliver zfs_signal_handler sig ps) \<and> ps_state (deliver zfs_signal_handler sig ps) = Alive
    \<and> ps_stderr (deliver zfs_signal_handler sig ps) = ps_stderr ps @ [Quit_request]"
  using zfs_reachable_ok [OF assms(1)] assms(2-5)
  by (auto simp: zfs_signals_ok_def zfs_signal_handler_def zfs_message_def signal_defs Let_def)

theorem zfs_walk_stops_at_next:
  assumes "zy_quit s At_next (fts_path e)"
  shows "zfs_walk_loop s ops old vs (e # es) w = fst (zfs_visit_entry s ops old vs e w)"
  using assms by (simp add: Let_def)

text \<open>A fatal signal ends the process with one message, once the handlers are installed.\<close>

theorem zfs_fatal_signal:
  assumes "(zfs_step ops)\<^sup>*\<^sup>* new_process ps" and "ps_state ps = Alive" and "ps_phase ps \<notin> {Parsing, Created}"
    and "sig \<in> {SIGBUS, SIGSEGV}"
  shows "ps_state (deliver zfs_signal_handler sig ps) = Killed sig
    \<and> ps_stderr (deliver zfs_signal_handler sig ps)
      = ps_stderr ps @ [if sig = SIGBUS then Bus_error else Segv_error]"
  using zfs_reachable_ok [OF assms(1)] assms(2-4)
  by (auto simp: zfs_signals_ok_def zfs_signal_handler_def zfs_message_def signal_defs Let_def)

text \<open>After the release of the processor the handler is still installed and uses it.\<close>

theorem zfs_signal_after_release:
  assumes "(zfs_step ops)\<^sup>*\<^sup>* new_process ps" and "ps_state ps = Alive" and "ps_PP ps = Released_PP"
    and "ps_phase ps = Ended" and "sig \<in> {SIGHUP, SIGINT, SIGTERM}"
  shows "ps_state (deliver zfs_signal_handler sig ps) = Bad_access"
  using zfs_reachable_ok [OF assms(1)] assms(2-5)
  by (auto simp: zfs_signals_ok_def zfs_signal_handler_def zfs_message_def signal_defs Let_def)

section \<open>Workers that were asked to quit before they started\<close>

text \<open>A request during the walk reaches the workers when they start: in every schedule they end
  without a file, the queue and the disk stay as they are.\<close>

definition idle_machine :: "file_entry list \<Rightarrow> disk \<Rightarrow> 'm machine \<Rightarrow> bool" where
  "idle_machine es dk m \<longleftrightarrow> quitRequestedFlag (mc_pool m) \<and> mc_log m = [] \<and> mc_disk m = dk
     \<and> itemList (mc_pool m) = es
     \<and> (\<forall>w \<in> set (mc_workers m). w_pc w \<in> {NotStarted, Checking, Cleaning, Gone})"

lemma idle_upd_worker:
  assumes "idle_machine es dk m" and "\<And>w. w_pc w \<in> {NotStarted, Checking, Cleaning, Gone} \<Longrightarrow>
      w_pc (f w) \<in> {NotStarted, Checking, Cleaning, Gone}" and "i < length (mc_workers m)"
  shows "idle_machine es dk (upd_worker i f m)"
proof -
  have "w_pc (f (mc_workers m ! i)) \<in> {NotStarted, Checking, Cleaning, Gone}"
    using assms by (auto simp: idle_machine_def)
  then show ?thesis
    using assms(1) set_update_subset_insert [of "mc_workers m" i "f (mc_workers m ! i)"]
    by (auto simp: idle_machine_def upd_worker_def)
qed

lemma idle_worker_step:
  assumes "idle_machine es dk m" and "i < length (mc_workers m)" and "worker_step s ops i m = Some m'"
  shows "idle_machine es dk m'"
proof -
  have q: "quitRequestedFlag (mc_pool m)" using assms(1) by (simp add: idle_machine_def)
  have "w_pc (mc_workers m ! i) \<in> {NotStarted, Checking, Cleaning, Gone}"
    using assms(1,2) by (auto simp: idle_machine_def)
  then consider "w_pc (mc_workers m ! i) = Checking" | "w_pc (mc_workers m ! i) = Cleaning"
    using assms(3) by (auto simp: worker_step_def Let_def)
  then show ?thesis
  proof cases
    case 1
    then have "m' = goto i Cleaning m" using assms(3) q by (simp add: worker_step_def Let_def)
    then show ?thesis using assms(1,2) unfolding goto_def by (auto intro: idle_upd_worker)
  next
    case 2
    define p' where "p' = snd (CleanupThread (mc_workers m ! i) (mc_pool m))"
    have m': "m' = goto i Gone (upd_worker i (\<lambda>_. fst (CleanupThread (mc_workers m ! i) (mc_pool m))) (m\<lparr>mc_pool := p'\<rparr>))"
      using assms(3) 2 by (simp add: worker_step_def Let_def p'_def)
    have p': "quitRequestedFlag p'" "itemList p' = itemList (mc_pool m)"
      using q by (auto simp: p'_def CleanupThread_def workerDone_def Let_def)
    have "w_pc (fst (CleanupThread (mc_workers m ! i) (mc_pool m))) = Cleaning"
      using 2 by (simp add: CleanupThread_def)
    moreover have "idle_machine es dk (m\<lparr>mc_pool := p'\<rparr>)"
      using assms(1) p' by (simp add: idle_machine_def)
    ultimately show ?thesis
      unfolding m' goto_def using assms(2)
      by (intro idle_upd_worker) (auto simp: upd_worker_def)
  qed
qed

lemma idle_start_step:
  assumes "idle_machine es dk m" and "start_step m = Some m'"
  shows "idle_machine es dk m'"
proof (cases "int (mc_next m) < nJobs (mc_pool m) \<and> mc_next m < length (mc_workers m)")
  case True
  then have "m' = upd_worker (mc_next m) (\<lambda>w. w\<lparr>w_pc := Checking, w_nProcessed := 0\<rparr>) (m\<lparr>mc_next := mc_next m + 1\<rparr>)"
    using assms(2) by (auto simp: start_step_def split: if_splits)
  moreover have "idle_machine es dk (m\<lparr>mc_next := mc_next m + 1\<rparr>)"
    using assms(1) by (simp add: idle_machine_def)
  ultimately show ?thesis using True by (auto intro: idle_upd_worker)
next
  case False
  then show ?thesis
    using assms by (auto simp: start_step_def idle_machine_def upd_worker_def list_update_beyond split: if_splits)
qed

theorem quit_before_run_handles_nothing:
  assumes "quitRequestedFlag p" and "(pool_step s ops)\<^sup>*\<^sup>* (run_init p shared dk) m"
  shows "mc_log m = [] \<and> mc_disk m = dk \<and> itemList (mc_pool m) = itemList p
    \<and> (\<forall>w \<in> set (mc_workers m). w_pc w \<in> {NotStarted, Checking, Cleaning, Gone})"
proof -
  have "idle_machine (itemList p) dk m"
    using assms(2)
  proof (induction rule: rtranclp_induct)
    case base
    show ?case using assms(1) by (auto simp: idle_machine_def run_init_def new_worker_def)
  next
    case (step m m')
    from step.hyps(2) show ?case
    proof cases
      case (work i)
      then show ?thesis using step.IH by (blast intro: idle_worker_step)
    next
      case start
      then show ?thesis using step.IH by (blast intro: idle_start_step)
    next
      case quit
      then show ?thesis using step.IH by (simp add: idle_machine_def setQuitRequested_def)
    qed
  qed
  then show ?thesis by (simp add: idle_machine_def)
qed

text \<open>The two together: a signal that arrives while zfsctool fills the queue of its workers.\<close>

theorem zfs_signal_while_filling:
  assumes "(zfs_step ops)\<^sup>*\<^sup>* new_process ps" and "ps_state ps = Alive" and "ps_phase ps = Walking"
    and "ps_PP ps = PP p" and "sig \<in> {SIGHUP, SIGINT, SIGTERM}"
  shows "\<exists>p'. ps_PP (deliver zfs_signal_handler sig ps) = PP p' \<and> itemList p' = itemList p
    \<and> ps_state (deliver zfs_signal_handler sig ps) = Alive \<and> \<not> ps_quit (deliver zfs_signal_handler sig ps)
    \<and> (\<forall>s nops shared dk m. (pool_step s nops)\<^sup>*\<^sup>* (run_init p' shared dk) m \<longrightarrow> mc_log m = [] \<and> mc_disk m = dk)"
proof -
  define p' where "p' = p\<lparr>quitRequestedFlag := True\<rparr>"
  have "\<not> ps_quit ps" using zfs_workers_hide_request [OF assms(1)] assms(4) by simp
  then have "ps_PP (deliver zfs_signal_handler sig ps) = PP p'"
    "ps_state (deliver zfs_signal_handler sig ps) = Alive" "\<not> ps_quit (deliver zfs_signal_handler sig ps)"
    using zfs_reachable_ok [OF assms(1)] assms(2-5)
    by (auto simp: zfs_signals_ok_def zfs_signal_handler_def zfs_message_def signal_defs Let_def p'_def)
  moreover have "quitRequestedFlag p'" "itemList p' = itemList p" by (simp_all add: p'_def)
  ultimately show ?thesis using quit_before_run_handles_nothing by blast
qed

section \<open>afsctool\<close>

definition afsc_signals_ok :: "'m process \<Rightarrow> bool" where
  "afsc_signals_ok ps \<longleftrightarrow> \<not> ps_quit ps
     \<and> ps_handlers ps SIGTERM = SIG_DFL \<and> ps_handlers ps SIGINT \<noteq> SIG_IGN
     \<and> (ps_phase ps = Parsing \<longrightarrow> ps_PP ps = No_PP)
     \<and> (ps_handlers ps SIGINT = Handler \<longrightarrow> ps_PP ps \<noteq> No_PP \<and> ps_phase ps \<in> {Running, Ended})
     \<and> (ps_phase ps = Running \<longrightarrow> ps_handlers ps SIGINT = Handler)"

lemma afsc_step_keeps_ok:
  assumes "afsc_step ops ps ps'" and "afsc_signals_ok ps"
  shows "afsc_signals_ok ps'"
  using assms
proof (cases rule: afsc_step.cases)
  case (a_signal sig)
  with assms(2) show ?thesis
    by (cases "ps_PP ps"; cases "ps_handlers ps sig")
      (auto simp: afsc_signals_ok_def afsc_signal_handler_def signal_defs)
qed (use assms(2) in \<open>auto simp: afsc_signals_ok_def afsc_install_def signal_defs split: pp_ref.splits if_splits\<close>)

lemma afsc_reachable_ok:
  assumes "(afsc_step ops)\<^sup>*\<^sup>* new_process ps"
  shows "afsc_signals_ok ps"
  using assms
proof (induction rule: rtranclp_induct)
  case base
  show ?case by (simp add: afsc_signals_ok_def new_process_def)
next
  case (step ps ps')
  then show ?case by (blast intro: afsc_step_keeps_ok)
qed

text \<open>The flag that \<open>compressFile\<close>, \<open>process_file_info\<close> and \<open>process_folder\<close> of afsctool poll is never set:
  no code assigns it.\<close>

theorem afsc_flag_never_set:
  assumes "(afsc_step ops)\<^sup>*\<^sup>* new_process ps"
  shows "\<not> ps_quit ps"
  using afsc_reachable_ok [OF assms] by (simp add: afsc_signals_ok_def)

text \<open>Without workers, and with them until they start, SIGINT ends the process where it is; SIGTERM
  does so at any time.\<close>

theorem afsc_interrupt_kills:
  assumes "(afsc_step ops)\<^sup>*\<^sup>* new_process ps" and "ps_state ps = Alive"
  shows "ps_PP ps = No_PP \<or> ps_phase ps \<notin> {Running, Ended} \<Longrightarrow>
      ps_state (deliver afsc_signal_handler SIGINT ps) = Killed SIGINT"
    and "ps_state (deliver afsc_signal_handler SIGTERM ps) = Killed SIGTERM"
  using afsc_reachable_ok [OF assms(1)] assms(2)
  by (cases "ps_handlers ps SIGINT"; auto simp: afsc_signals_ok_def deliver_def)+

text \<open>While the workers run SIGINT reaches them through the flag of the processor.\<close>

theorem afsc_interrupt_stops_workers:
  assumes "(afsc_step ops)\<^sup>*\<^sup>* new_process ps" and "ps_state ps = Alive" and "ps_phase ps = Running"
    and "ps_PP ps = PP p"
  shows "ps_PP (deliver afsc_signal_handler SIGINT ps) = PP (p\<lparr>quitRequestedFlag := True\<rparr>)
    \<and> ps_state (deliver afsc_signal_handler SIGINT ps) = Alive"
  using afsc_reachable_ok [OF assms(1)] assms(2-4)
  by (auto simp: afsc_signals_ok_def afsc_signal_handler_def signal_defs)

theorem afsc_signal_after_release:
  assumes "ps_state ps = Alive" and "ps_PP ps = Released_PP" and "ps_handlers ps SIGINT = Handler"
  shows "ps_state (deliver afsc_signal_handler SIGINT ps) = Bad_access"
  using assms by (simp add: afsc_signal_handler_def signal_defs)

section \<open>Runs that reach these states\<close>

text \<open>zfsctool with two jobs, while it fills the queue, and after it ended with an empty one.\<close>

definition filling :: "(string \<Rightarrow> unit option) process" where
  "filling = zfs_install (create_PP map_ops 2 0 1 new_process\<lparr>ps_phase := Created\<rparr>)\<lparr>ps_phase := Walking\<rparr>"

definition released :: "(string \<Rightarrow> unit option) process" where
  "released = release_PP filling\<lparr>ps_phase := Ended\<rparr>"

lemma filling_reachable: "(zfs_step map_ops)\<^sup>*\<^sup>* new_process filling"
proof -
  have "zfs_step map_ops new_process (create_PP map_ops 2 0 1 new_process\<lparr>ps_phase := Created\<rparr>)"
    by (rule z_create) (simp_all add: new_process_def)
  moreover have "zfs_step map_ops (create_PP map_ops 2 0 1 new_process\<lparr>ps_phase := Created\<rparr>) filling"
    unfolding filling_def by (rule z_install) (simp_all add: create_PP_def new_process_def)
  ultimately show ?thesis by (metis rtranclp.rtrancl_into_rtrancl rtranclp.rtrancl_refl)
qed

lemma filling_state:
  "ps_state filling = Alive" "ps_phase filling = Walking"
  "ps_PP filling = PP (createParallelProcessor map_ops 2 0 1)"
  by (simp_all add: filling_def create_PP_def new_process_def)

theorem filling_run_handles_nothing:
  "\<exists>p'. ps_PP (deliver zfs_signal_handler SIGINT filling) = PP p' \<and> quitRequestedFlag p'"
  "\<not> ps_quit (deliver zfs_signal_handler SIGINT filling)"
  using zfs_reachable_ok [OF filling_reachable] filling_state
  by (auto simp: zfs_signals_ok_def zfs_signal_handler_def zfs_message_def signal_defs Let_def)

theorem released_run_crashes:
  "(zfs_step map_ops)\<^sup>*\<^sup>* new_process released"
  "ps_state (deliver zfs_signal_handler SIGTERM released) = Bad_access"
proof -
  have "zfs_step map_ops filling released"
    unfolding released_def by (rule z_end) (simp_all add: filling_state)
  with filling_reachable show r: "(zfs_step map_ops)\<^sup>*\<^sup>* new_process released" by simp
  show "ps_state (deliver zfs_signal_handler SIGTERM released) = Bad_access"
    by (rule zfs_signal_after_release [OF r])
      (simp_all add: released_def release_PP_def filling_state)
qed

end
