(* ===== verification/ZfsRelease.thy ===== *)
theory ZfsRelease
  imports ZfsRestore
begin

text \<open>
  The datasets of a run of \<open>zfsctool\<close> with workers: the calls of the walk and of the workers change
  them in any order, and the end of the run (\<open>EmptyFSIdMap\<close> of src/zfsctool.cpp, then the destructor
  of \<open>ParallelFileProcessor\<close> in src/ParallelProcess.cpp) resets and deletes them.
\<close>

section \<open>The destructor of the processor\<close>

text \<open>\<open>None\<close> is the use of a dataset that was deleted; those in \<open>rg_manual\<close> are not deleted here.\<close>

fun delete_remaining :: "engine \<Rightarrow> nat list \<Rightarrow> ('g, 'h) registry \<Rightarrow> ('g, 'h) registry option" where
  "delete_remaining e [] rg = Some rg"
| "delete_remaining e (i # is) rg =
     (case live rg i of
        None \<Rightarrow> None
      | Some ds \<Rightarrow>
          delete_remaining e is
            (if i \<notin> set (rg_manual rg)
             then rg\<lparr>rg_store := (rg_store rg)[i := None], rg_deleted := rg_deleted rg @ [delete_dataset e ds]\<rparr>
             else rg))"

definition release_datasets ::
    "engine \<Rightarrow> 'h dsname_ops \<Rightarrow> ('h \<Rightarrow> nat list) \<Rightarrow> ('g, 'h) registry \<Rightarrow> ('g, 'h) registry option" where
  "release_datasets e hops names rg =
     (let rg1 = rg\<lparr>rg_file := h_clear hops\<rparr>
      in map_option (\<lambda>r. r\<lparr>rg_name := h_clear hops\<rparr>) (delete_remaining e (names (rg_name rg1)) rg1))"

text \<open>The end of \<open>zfsctool\<close> with workers.\<close>

definition zfs_jobs_end ::
    "engine \<Rightarrow> bool \<Rightarrow> 'g id_ops \<Rightarrow> ('g \<Rightarrow> nat list) \<Rightarrow> 'h dsname_ops \<Rightarrow> ('h \<Rightarrow> nat list)
     \<Rightarrow> ('g, 'h) registry \<Rightarrow> ('g, 'h) registry option" where
  "zfs_jobs_end e quick gops ids hops names rg =
     (case EmptyFSIdMap e quick gops ids rg of None \<Rightarrow> None | Some rg1 \<Rightarrow> release_datasets e hops names rg1)"

section \<open>The calls of the walk and of the workers\<close>

text \<open>
  One call on the registry or on a dataset, in any order and with any result of the commands: a
  reference that is taken for the compression \<open>c\<close>, one that is dropped, and the reset that may
  follow. A worker that is stopped in between just takes no further step.
\<close>

inductive registry_step :: "'g id_ops \<Rightarrow> 'h dsname_ops \<Rightarrow> string \<Rightarrow> ('g, 'h) registry \<Rightarrow> ('g, 'h) registry \<Rightarrow> bool"
  for gops hops c where
  ask: "proper_call (q, fi, st, inFile) \<Longrightarrow> proper_query q \<Longrightarrow>
    zfs_fileIsCompressable gops hops q fi st inFile rg = Some (r, rg') \<Longrightarrow> registry_step gops hops c rg rg'"
| take: "live rg i = Some ds \<Longrightarrow>
    registry_step gops hops c rg (rg\<lparr>rg_store := (rg_store rg)[i := Some (snd (setCompression e c ds))]\<rparr>)"
| drop: "live rg i = Some ds \<Longrightarrow>
    registry_step gops hops c rg (rg\<lparr>rg_store := (rg_store rg)[i := Some (snd (drop_reference force ds))]\<rparr>)"
| restore: "live rg i = Some ds \<Longrightarrow>
    registry_step gops hops c rg (rg\<lparr>rg_store := (rg_store rg)[i := Some (snd (finish_reset e final ds))]\<rparr>)"

section \<open>Every dataset is found by its name\<close>

definition jobs_ok :: "'g id_ops \<Rightarrow> 'h dsname_ops \<Rightarrow> string \<Rightarrow> ('g, 'h) registry \<Rightarrow> bool" where
  "jobs_ok gops hops c rg \<longleftrightarrow> registry_ok gops hops rg \<and> rg_deleted rg = [] \<and> rg_manual rg = []
     \<and> (\<forall>i<length (rg_store rg). found_by_name hops rg i)
     \<and> (\<forall>i ds. live rg i = Some ds \<longrightarrow> dataset_ok c ds)"

lemma dataset_name_kept [simp]:
  "ds_name (snd (setCompression e c ds)) = ds_name ds" "ds_name (snd (drop_reference force ds)) = ds_name ds"
  "ds_name (snd (finish_reset e final ds)) = ds_name ds" "ds_name (snd (resetCompression e force ds)) = ds_name ds"
  by (simp_all add: dataset_defs)

lemma drop_finish_ok:
  "dataset_ok c ds \<Longrightarrow> dataset_ok c (snd (drop_reference force ds))"
  "dataset_ok c ds \<Longrightarrow> dataset_ok c (snd (finish_reset e final ds))"
  by (simp_all add: drop_reference_def finish_reset_def internal_set_ok)

lemma live_update:
  assumes "live rg i = Some ds"
  shows "live (rg\<lparr>rg_store := (rg_store rg)[i := x]\<rparr>) j = (if j = i then x else live rg j)"
  using assms by (auto simp: live_def nth_list_update split: if_splits)

lemma live_bound: "live rg i = Some ds \<Longrightarrow> i < length (rg_store rg)"
  by (simp add: live_def split: if_splits)

text \<open>A dataset changes, but not its name.\<close>

lemma jobs_ok_store:
  assumes "jobs_ok gops hops c rg" and "live rg i = Some ds" and "ds_name ds' = ds_name ds" and "dataset_ok c ds'"
  shows "jobs_ok gops hops c (rg\<lparr>rg_store := (rg_store rg)[i := Some ds']\<rparr>)"
proof -
  let ?rg = "rg\<lparr>rg_store := (rg_store rg)[i := Some ds']\<rparr>"
  have maps: "z_dataSet hops k ?rg = z_dataSet hops k rg" "z_dataSetForFile hops k ?rg = z_dataSetForFile hops k rg" for k
    by (simp_all add: z_dataSet_def z_dataSetForFile_def)
  have found: "found_by_name hops rg j \<Longrightarrow> found_by_name hops ?rg j" for j
    using assms(2,3) by (auto simp: found_by_name_def live_update [OF assms(2)] maps)
  have named: "live rg j = Some d \<Longrightarrow> ds_name d = k \<Longrightarrow> \<exists>d'. live ?rg j = Some d' \<and> ds_name d' = k" for j d k
    using assms(2,3) by (auto simp: live_update [OF assms(2)])
  have "registry_ok gops hops ?rg"
    using assms(1) found named unfolding jobs_ok_def registry_ok_def maps by fastforce
  moreover have "\<forall>j d. live ?rg j = Some d \<longrightarrow> dataset_ok c d"
    using assms(1,4) by (simp add: jobs_ok_def live_update [OF assms(2)])
  moreover have "\<forall>j<length (rg_store ?rg). found_by_name hops ?rg j"
    using assms(1) found by (simp add: jobs_ok_def)
  ultimately show ?thesis using assms(1) by (simp add: jobs_ok_def)
qed

text \<open>What a call can do to the store.\<close>

lemma add_manual: "z_addDataSet e hops f i rg = Some rg' \<Longrightarrow> rg_manual rg' = rg_manual rg"
  by (auto simp: z_addDataSet_def Let_def split: option.splits if_splits)

lemma known_keeps_found:
  assumes "hash_laws hops (\<lambda>k. k \<noteq> [])" and "live rg i = Some ds" and "ds_name ds \<noteq> []" and "inFile \<noteq> []"
    and "z_dataSet hops (ds_name ds) rg = None \<or> z_dataSet hops (ds_name ds) rg = Some i"
    and "z_addDataSet e hops inFile i rg = Some rg'" and "found_by_name hops rg j"
  shows "found_by_name hops rg' j"
proof -
  obtain d where d: "live rg j = Some d" "ds_name d \<noteq> []" "z_dataSet hops (ds_name d) rg = Some j"
    using assms(7) by (auto simp: found_by_name_def)
  have "z_dataSet hops (ds_name d) rg' = Some j"
    using z_addDataSet_known(4) [OF assms(1-6) d(2)] d(3) assms(5) by (cases "ds_name d = ds_name ds") simp_all
  moreover have "live rg' j = Some d" using d(1) live_store [OF z_addDataSet_known(1) [OF assms(1-6)]] by simp
  ultimately show ?thesis using d(2) by (auto simp: found_by_name_def)
qed

definition store_grows :: "'h dsname_ops \<Rightarrow> string \<Rightarrow> ('g, 'h) registry \<Rightarrow> ('g, 'h) registry \<Rightarrow> bool" where
  "store_grows hops c rg rg' \<longleftrightarrow> rg_manual rg' = rg_manual rg
     \<and> (\<forall>i<length (rg_store rg). found_by_name hops rg i \<longrightarrow> found_by_name hops rg' i)
     \<and> (rg_store rg' = rg_store rg
        \<or> (\<exists>ds. rg_store rg' = rg_store rg @ [Some ds] \<and> dataset_ok c ds \<and> found_by_name hops rg' (length (rg_store rg))))"

lemma new_file_system_grows:
  assumes "hash_laws hops (\<lambda>k. k \<noteq> [])" and "registry_ok gops hops rg" and "zq_PP q" and "inFile \<noteq> []"
    and "props ! 0 \<noteq> []" and "props ! 1 \<noteq> ''test''"
    and "new_file_system gops hops q fi st inFile props rg = Some (r, rg')"
  shows "store_grows hops c rg rg'"
proof -
  obtain i rg1 rg2 where i: "(case z_dataSet hops (props ! 0) rg of Some i \<Rightarrow> Some (i, rg)
        | None \<Rightarrow> create_dataset props rg) = Some (i, rg1)"
    and rg2: "z_addDataSet (zq_engine q) hops inFile i rg1 = Some rg2"
    and ans: "answer q fi st i (rg2\<lparr>rg_fsid := h_insert gops (rg_fsid rg2) (zf_fsid (zq_fs q)) i\<rparr>) = Some (r, rg')"
    using assms(3,7) by (auto simp: new_file_system_def Let_def split: option.splits)
  have rg': "rg_store rg' = rg_store rg2" "rg_manual rg' = rg_manual rg1"
    "\<And>j. found_by_name hops rg' j = found_by_name hops rg2 j"
    using answer_keeps [OF ans] add_manual [OF rg2] by (simp_all add: fsid_update_simps)
  show ?thesis
  proof (cases "z_dataSet hops (props ! 0) rg")
    case (Some k)
    then have eq: "i = k" "rg1 = rg" using i by simp_all
    obtain ds where ds: "live rg i = Some ds" "ds_name ds = props ! 0"
      using assms(2,5) Some unfolding registry_ok_def eq by blast
    have known: "z_dataSet hops (ds_name ds) rg = None \<or> z_dataSet hops (ds_name ds) rg = Some i"
      using Some ds(2) eq by simp
    have "ds_name ds \<noteq> []" using ds(2) assms(5) by simp
    note k = assms(1) ds(1) this assms(4) known rg2 [unfolded eq(2)]
    show ?thesis
      using z_addDataSet_known(1) [OF k] known_keeps_found [OF k] rg' eq(2) by (simp add: store_grows_def)
  next
    case None
    then obtain ds where ds: "dataset_of_props props = Some ds" "i = length (rg_store rg)"
      "rg1 = rg\<lparr>rg_store := rg_store rg @ [Some ds]\<rparr>"
      using i by (auto simp: create_dataset_def split: option.splits)
    have name: "ds_name ds = props ! 0" using split_token_name [OF ds(1)] by simp
    have l: "live rg1 i = Some ds" by (simp add: ds(2,3) live_def)
    have "z_dataSet hops (ds_name ds) rg1 = None" using None by (simp add: ds(3) name z_dataSet_def)
    then have known: "z_dataSet hops (ds_name ds) rg1 = None \<or> z_dataSet hops (ds_name ds) rg1 = Some i" by simp
    have "ds_name ds \<noteq> []" using name assms(5) by simp
    note k = assms(1) l this assms(4) known rg2
    have "found_by_name hops rg2 j" if "found_by_name hops rg j" for j
    proof (rule known_keeps_found [OF k])
      show "found_by_name hops rg1 j"
        using that by (auto simp: found_by_name_def ds(3) live_def nth_append z_dataSet_def split: if_splits)
    qed
    moreover have "found_by_name hops rg2 i"
      using z_addDataSet_known(4) [OF k, of "ds_name ds"] name assms(5) l
      by (auto simp: found_by_name_def live_store [OF z_addDataSet_known(1) [OF k]])
    moreover have "rg_store rg2 = rg_store rg @ [Some ds]"
      using z_addDataSet_known(1) [OF k] by (simp add: ds(3))
    ultimately show ?thesis
      using rg' new_dataset_ok [OF ds(1) assms(6)] by (auto simp: store_grows_def ds(2,3))
  qed
qed

lemma fileIsCompressable_grows:
  assumes "hash_laws gops (\<lambda>k. k \<noteq> 0)" and "hash_laws hops (\<lambda>k. k \<noteq> [])" and "registry_ok gops hops rg"
    and "proper_call (q, fi, st, inFile)" and "proper_query q"
    and "zfs_fileIsCompressable gops hops q fi st inFile rg = Some (r, rg')"
  shows "store_grows hops c rg rg'"
proof -
  have pc: "zq_PP q" "inFile \<noteq> []" "zf_fsid (zq_fs q) \<noteq> 0" "\<And>p s. cr_output (zq_list q p) \<noteq> CHR 0x09 # s"
    using assms(4) by (simp_all add: proper_call_def)
  let ?fsid = "hash_lookup gops (rg_fsid rg) (zf_fsid (zq_fs q))"
  let ?props = "split (CHR 0x09) (dataset_line (zq_list q (absolute_name q st inFile)))"
  consider "rg' = rg"
    | i where "answer q fi st i rg = Some (r, rg')"
    | i rg1 where "?fsid = Some i" "z_addDataSet (zq_engine q) hops inFile i rg = Some rg1"
        "answer q fi st i rg1 = Some (r, rg')"
    | "length ?props = 4" "new_file_system gops hops q fi st inFile ?props rg = Some (r, rg')"
    using pc(1) assms(6)
    by (auto simp: zfs_fileIsCompressable_def Let_def split: if_splits option.splits)
  then show ?thesis
  proof cases
    case 1
    then show ?thesis by (simp add: store_grows_def)
  next
    case (2 i)
    then show ?thesis using answer_keeps [OF 2] by (simp add: store_grows_def)
  next
    case (3 i rg1)
    then have "found_by_name hops rg i" using assms(3) pc(3) by (auto simp: registry_ok_def)
    then obtain ds where ds: "live rg i = Some ds" "ds_name ds \<noteq> []" "z_dataSet hops (ds_name ds) rg = Some i"
      by (auto simp: found_by_name_def)
    note k = assms(2) ds(1,2) pc(2) disjI2 [OF ds(3)] 3(2)
    show ?thesis
      using z_addDataSet_known(1) [OF k] known_keeps_found [OF k] add_manual [OF 3(2)] answer_keeps [OF 3(3)]
      by (simp add: store_grows_def)
  next
    case 4
    have "?props ! 0 \<noteq> []"
      using 4(1) pc(4) [of "absolute_name q st inFile"] by (cases "dataset_line (zq_list q (absolute_name q st inFile))")
        (auto simp: dataset_line_def run_command_def split: if_splits)
    moreover have "?props ! 1 \<noteq> ''test''" using 4(1) assms(5) by (simp add: proper_query_def)
    ultimately show ?thesis using new_file_system_grows [OF assms(2,3) pc(1,2) _ _ 4(2)] by simp
  qed
qed

lemma registry_step_ok:
  assumes "hash_laws gops (\<lambda>k. k \<noteq> 0)" and "hash_laws hops (\<lambda>k. k \<noteq> [])"
    and "registry_step gops hops c rg rg'" and "jobs_ok gops hops c rg"
  shows "jobs_ok gops hops c rg'"
  using assms(3)
proof cases
  case (ask q fi st inFile r)
  have rok: "registry_ok gops hops rg" using assms(4) by (simp add: jobs_ok_def)
  have "registry_ok gops hops rg' \<and> rg_deleted rg' = rg_deleted rg"
    using fileIsCompressable_ok [OF assms(1,2) rok _ _ _ _ ask(3)] ask(1) by (auto simp: proper_call_def)
  then show ?thesis
    using fileIsCompressable_grows [OF assms(1,2) rok ask(1-3), of c] assms(4)
    by (auto simp: jobs_ok_def store_grows_def live_def nth_append less_Suc_eq split: if_splits)
next
  case (take i ds e)
  then have "dataset_ok c ds" using assms(4) by (auto simp: jobs_ok_def)
  then show ?thesis using jobs_ok_store [OF assms(4) take(2)] by (simp add: take(1) set_ok)
next
  case (drop i ds force)
  then have "dataset_ok c ds" using assms(4) by (auto simp: jobs_ok_def)
  then show ?thesis using jobs_ok_store [OF assms(4) drop(2)] by (simp add: drop(1) drop_finish_ok)
next
  case (restore i ds e final)
  then have "dataset_ok c ds" using assms(4) by (auto simp: jobs_ok_def)
  then show ?thesis using jobs_ok_store [OF assms(4) restore(2)] by (simp add: restore(1) drop_finish_ok)
qed

lemma registry_steps_ok:
  assumes "hash_laws gops (\<lambda>k. k \<noteq> 0)" and "hash_laws hops (\<lambda>k. k \<noteq> [])"
    and "(registry_step gops hops c)\<^sup>*\<^sup>* (empty_registry gops hops) rg"
  shows "jobs_ok gops hops c rg"
  using assms(3)
proof (induction rule: rtranclp_induct)
  case base
  show ?case
    using hash_laws_simps(1) [OF assms(1)] hash_laws_simps(1) [OF assms(2)]
    by (simp add: jobs_ok_def registry_ok_def empty_registry_def z_dataSet_def z_dataSetForFile_def live_def)
next
  case (step rg rg')
  then show ?case using registry_step_ok [OF assms(1,2)] by blast
qed

section \<open>The end\<close>

lemma empty_ids_keeps:
  assumes "jobs_ok gops hops c rg" and "\<forall>i\<in>set is. i < length (rg_store rg)"
  shows "\<exists>rg'. empty_ids e quick is rg = Some rg' \<and> jobs_ok gops hops c rg' \<and> rg_name rg' = rg_name rg
    \<and> length (rg_store rg') = length (rg_store rg)"
  using assms
proof (induction "is" arbitrary: rg)
  case Nil
  then show ?case by simp
next
  case (Cons i "is")
  obtain ds where ds: "live rg i = Some ds" using Cons.prems by (auto simp: jobs_ok_def found_by_name_def)
  define ds1 where "ds1 = (if quick then ds else snd (resetCompression e True ds))"
  have "dataset_ok c ds" using ds Cons.prems(1) by (auto simp: jobs_ok_def)
  then have "ds_name ds1 = ds_name ds" "dataset_ok c ds1" by (simp_all add: ds1_def reset_ok)
  from jobs_ok_store [OF Cons.prems(1) ds this] Cons.IH [of "rg\<lparr>rg_store := (rg_store rg)[i := Some ds1]\<rparr>"]
  show ?case using Cons.prems ds by (simp add: jobs_ok_def ds1_def [symmetric] Let_def)
qed

lemma delete_remaining_restores:
  assumes "\<forall>n. cmd_ok e n" and "distinct is" and "rg_manual rg = []" and "\<forall>ds\<in>set (rg_deleted rg). restored ds"
    and "\<forall>i\<in>set is. \<exists>ds. live rg i = Some ds \<and> dataset_ok c ds"
  shows "\<exists>rg'. delete_remaining e is rg = Some rg' \<and> (\<forall>ds\<in>set (rg_deleted rg'). restored ds)
    \<and> length (rg_deleted rg') = length (rg_deleted rg) + length is
    \<and> (\<forall>j. live rg' j = (if j \<in> set is then None else live rg j))"
  using assms(2-5)
proof (induction "is" arbitrary: rg)
  case Nil
  then show ?case by simp
next
  case (Cons i "is")
  obtain ds where ds: "live rg i = Some ds" "dataset_ok c ds" using Cons.prems(4) by auto
  define rg1 where "rg1 = rg\<lparr>rg_store := (rg_store rg)[i := None], rg_deleted := rg_deleted rg @ [delete_dataset e ds]\<rparr>"
  have del: "restored (delete_dataset e ds)" using delete_restores ds(2) assms(1) by (simp add: restored_def)
  have live: "live rg1 j = (if j = i then None else live rg j)" for j
    by (simp add: rg1_def live_def nth_list_update)
  have step: "delete_remaining e (i # is) rg = delete_remaining e is rg1"
    using ds(1) Cons.prems(2) by (simp add: rg1_def)
  have "distinct is" "rg_manual rg1 = []" "\<forall>ds\<in>set (rg_deleted rg1). restored ds"
    "\<forall>j\<in>set is. \<exists>ds. live rg1 j = Some ds \<and> dataset_ok c ds"
    using Cons.prems del by (auto simp: rg1_def [symmetric] live) (auto simp: rg1_def)
  from Cons.IH [OF this] have "\<exists>rg'. delete_remaining e is rg1 = Some rg'
    \<and> (\<forall>ds\<in>set (rg_deleted rg'). restored ds)
    \<and> length (rg_deleted rg') = length (rg_deleted rg1) + length is
    \<and> (\<forall>j. live rg' j = (if j \<in> set is then None else live rg1 j))" .
  moreover have "length (rg_deleted rg1) = length (rg_deleted rg) + 1" by (simp add: rg1_def)
  ultimately show ?case unfolding step by (auto simp: live)
qed

text \<open>The values of the map of names, each name once.\<close>

definition name_values :: "'h dsname_ops \<Rightarrow> ('h \<Rightarrow> nat list) \<Rightarrow> bool" where
  "name_values hops names \<longleftrightarrow> (\<forall>m. \<exists>ks. distinct ks \<and> set ks = {k. k \<noteq> [] \<and> hash_lookup hops m k \<noteq> None}
     \<and> names m = map (\<lambda>k. the (hash_lookup hops m k)) ks)"

lemma names_lead_to_all:
  assumes "jobs_ok gops hops c rg" and "name_values hops names"
  shows "distinct (names (rg_name rg))" and "set (names (rg_name rg)) = {..<length (rg_store rg)}"
proof -
  obtain ks where ks: "distinct ks" "set ks = {k. k \<noteq> [] \<and> hash_lookup hops (rg_name rg) k \<noteq> None}"
    "names (rg_name rg) = map (\<lambda>k. the (hash_lookup hops (rg_name rg) k)) ks"
    using assms(2) unfolding name_values_def by metis
  have named: "\<exists>ds. live rg (the (hash_lookup hops (rg_name rg) k)) = Some ds \<and> ds_name ds = k" if "k \<in> set ks" for k
    using assms(1) that ks(2) by (auto simp: jobs_ok_def registry_ok_def z_dataSet_def)
  then have "inj_on (\<lambda>k. the (hash_lookup hops (rg_name rg) k)) (set ks)"
    by (metis (no_types, lifting) inj_onI option.inject)
  then show "distinct (names (rg_name rg))" using ks(1) by (simp add: ks(3) distinct_map)
  have "i \<in> set (names (rg_name rg))" if i: "i < length (rg_store rg)" for i
  proof -
    have "found_by_name hops rg i" using assms(1) i by (simp add: jobs_ok_def)
    then obtain ds :: dataset where "ds_name ds \<noteq> []" "hash_lookup hops (rg_name rg) (ds_name ds) = Some i"
      unfolding found_by_name_def z_dataSet_def by blast
    then have "ds_name ds \<in> set ks" "the (hash_lookup hops (rg_name rg) (ds_name ds)) = i"
      using ks(2) by simp_all
    then show ?thesis by (auto simp: ks(3))
  qed
  moreover have "i < length (rg_store rg)" if "i \<in> set (names (rg_name rg))" for i
    using that named by (fastforce simp: ks(3) live_def split: if_splits)
  ultimately show "set (names (rg_name rg)) = {..<length (rg_store rg)}" by auto
qed


section \<open>A run\<close>

text \<open>The names of an instance whose maps are finite; a worker that takes a dataset and is stopped.\<close>

definition alist_names :: "(string \<times> nat) list \<Rightarrow> nat list" where
  "alist_names m = map (\<lambda>k. the (map_of m k)) (remdups (filter (\<lambda>k. k \<noteq> []) (map fst m)))"

lemma alist_name_values: "name_values alist_ops alist_names"
  unfolding name_values_def
proof
  fix m :: "(string \<times> nat) list"
  show "\<exists>ks. distinct ks \<and> set ks = {k. k \<noteq> [] \<and> hash_lookup alist_ops m k \<noteq> None}
      \<and> alist_names m = map (\<lambda>k. the (hash_lookup alist_ops m k)) ks"
    by (intro exI [of _ "remdups (filter (\<lambda>k. k \<noteq> []) (map fst m))"])
      (auto simp: alist_names_def alist_lookup map_of_eq_None_iff)
qed

definition stopped_registry :: "((nat \<times> nat) list, (string \<times> nat) list) registry" where
  "stopped_registry = (case zfs_fileIsCompressable alist_ops alist_ops sample_query (empty_info\<lparr>z_compression := ''lz4''\<rparr>)
       sample_zstat ''/tank/a'' (empty_registry alist_ops alist_ops) of
     Some (_, rg) \<Rightarrow> rg\<lparr>rg_store := (rg_store rg)[0 := Some (snd (setCompression steady_engine ''lz4'' (the (live rg 0))))]\<rparr>)"

lemma stopped_registry_state:
  "map (map_option ds_actual) (rg_store stopped_registry) = [Some ''lz4'']"
  by code_simp

lemma sample_query_asked:
  "map_option (\<lambda>(r, rg). live rg 0 \<noteq> None) (zfs_fileIsCompressable alist_ops alist_ops sample_query
     (empty_info\<lparr>z_compression := ''lz4''\<rparr>) sample_zstat ''/tank/a'' (empty_registry alist_ops alist_ops)) = Some True"
  by code_simp

lemma stopped_registry_reached:
  "(registry_step alist_ops alist_ops ''lz4'')\<^sup>*\<^sup>* (empty_registry alist_ops alist_ops) stopped_registry"
proof -
  obtain r rg ds where rg: "zfs_fileIsCompressable alist_ops alist_ops sample_query
     (empty_info\<lparr>z_compression := ''lz4''\<rparr>) sample_zstat ''/tank/a'' (empty_registry alist_ops alist_ops) = Some (r, rg)"
    "live rg 0 = Some ds"
    using sample_query_asked by (auto simp: map_option_eq_Some)
  have "split (CHR 0x09) (dataset_line (zq_list sample_query p)) ! 1 = ''off''" for p by code_simp
  then have q: "proper_query sample_query" by (simp add: proper_query_def) (simp add: sample_query_def)
  have "registry_step alist_ops alist_ops ''lz4'' (empty_registry alist_ops alist_ops) rg"
    by (rule ask [OF _ q rg(1)]) (simp add: proper_call_def sample_query_def)
  moreover have "registry_step alist_ops alist_ops ''lz4'' rg stopped_registry"
    using take [OF rg(2), of alist_ops alist_ops "''lz4''" steady_engine] rg by (simp add: stopped_registry_def)
  ultimately show ?thesis by simp
qed


end
